(* ===== verification/Prelude.thy ===== *)
theory Prelude
  imports Main "HOL-Library.AList" "HOL-Library.Multiset" "HOL-Library.Sublist"
    "HOL-Library.List_Lexorder" "HOL-Library.Char_ord"
begin

text \<open>
  What every component shares: the model's identifiers, the JavaScript idioms the source leans on
  (a \<open>Set\<close> spread back into an array, truthiness of optional strings, an object used as an
  insertion-ordered dictionary) and the facts about them, collected so that the components'
  proofs are a few calls of the simplifier.

  Strings are lists of bytes in UTF-8. The source's objects used as dictionaries (\<open>agentLegs\<close>)
  are association lists with the insertion order JavaScript keeps for keys that are not array
  indices, which Twilio's \<open>CA...\<close> identifiers never are.
\<close>

type_synonym user_id = string
type_synonym leg_id = string
type_synonym call_id = string
type_synonym socket_id = string
type_synonym department_id = string
type_synonym phone = string
type_synonym millis = nat

named_theorems call_defs "the definitions a proof about call states unfolds"

section \<open>Requests\<close>

text \<open>How a request to another service ends: it took effect, it was lost before it did, or it took
  effect and only the answer was lost (an error for the caller).\<close>

datatype delivery = Delivered | Lost | ReplyLost

section \<open>JavaScript idioms\<close>

text \<open>\<open>[...new Set(xs)]\<close>: the first occurrence of each element, in order.\<close>

fun uniq :: "'a list \<Rightarrow> 'a list" where
  "uniq [] = []"
| "uniq (x # xs) = x # filter (\<lambda>y. y \<noteq> x) (uniq xs)"

text \<open>\<open>Boolean(s)\<close> of an optional string: neither absent nor empty.\<close>

fun truthy :: "string option \<Rightarrow> bool" where
  "truthy None = False"
| "truthy (Some s) = (s \<noteq> [])"

text \<open>\<open>xs.filter((x): x is string => Boolean(x))\<close>.\<close>

fun present :: "string option list \<Rightarrow> string list" where
  "present [] = []"
| "present (None # xs) = present xs"
| "present (Some s # xs) = (if s = [] then present xs else s # present xs)"

text \<open>\<open>a ?? b\<close>.\<close>

fun orElse :: "'a option \<Rightarrow> 'a option \<Rightarrow> 'a option" where
  "orElse (Some x) y = Some x"
| "orElse None y = y"

fun getOr :: "'a option \<Rightarrow> 'a \<Rightarrow> 'a" where
  "getOr (Some x) y = x"
| "getOr None y = y"

section \<open>Facts about the idioms\<close>

lemma set_uniq [simp]: "set (uniq xs) = set xs"
  by (induction xs) auto

lemma distinct_uniq [simp]: "distinct (uniq xs)"
  by (induction xs) auto

lemma filter_uniq: "filter P (uniq xs) = uniq (filter P xs)"
proof (induction xs)
  case (Cons x xs)
  have "filter P (filter (\<lambda>y. y \<noteq> x) (uniq xs)) = filter (\<lambda>y. y \<noteq> x) (uniq (filter P xs))"
    by (simp add: Cons.IH [symmetric] conj_commute)
  moreover have "\<not> P x \<Longrightarrow> filter (\<lambda>y. y \<noteq> x) (uniq (filter P xs)) = uniq (filter P xs)"
    by (rule filter_True) auto
  ultimately show ?case by simp
qed simp

lemma uniq_distinct: "distinct xs \<Longrightarrow> uniq xs = xs"
  by (induction xs) (auto intro!: filter_True)

lemma uniq_idem [simp]: "uniq (uniq xs) = uniq xs"
  by (rule uniq_distinct) simp

lemma uniq_Nil_iff [simp]: "uniq xs = [] \<longleftrightarrow> xs = []"
  by (cases xs) auto

lemma length_uniq_le: "length (uniq xs) \<le> length xs"
  by (induction xs) (auto intro: le_trans [OF length_filter_le])

lemma truthy_iff: "truthy x \<longleftrightarrow> (\<exists>s. x = Some s \<and> s \<noteq> [])"
  by (cases x) auto

lemma present_append [simp]: "present (xs @ ys) = present xs @ present ys"
  by (induction xs rule: present.induct) auto

lemma present_map_Some: "present (map Some xs) = filter (\<lambda>s. s \<noteq> []) xs"
  by (induction xs) auto

lemma set_present: "set (present xs) = {s. Some s \<in> set xs \<and> s \<noteq> []}"
  by (induction xs rule: present.induct) auto

lemma distinct_present: "distinct xs \<Longrightarrow> distinct (present xs)"
  by (induction xs rule: present.induct) (auto simp: set_present)

lemma present_filter:
  "present (filter (\<lambda>x. x \<noteq> Some s) xs) = filter (\<lambda>x. x \<noteq> s) (present xs)"
  by (induction xs rule: present.induct) auto

section \<open>Runs that wait for an answer\<close>

text \<open>The functions that await something are kept in a list; \<open>without i\<close> is the rest of it when the
  \<open>i\<close>-th was answered.\<close>

definition without :: "nat \<Rightarrow> 'a list \<Rightarrow> 'a list" where
  "without i xs = take i xs @ drop (Suc i) xs"

lemma length_without: "i < length xs \<Longrightarrow> length (without i xs) = length xs - 1"
  by (simp add: without_def)

lemma without_single: "length xs = 1 \<Longrightarrow> i < length xs \<Longrightarrow> without i xs = []"
  by (simp add: without_def)

lemma without_none [simp]: "length xs \<le> i \<Longrightarrow> without i xs = xs"
  by (simp add: without_def)

lemma set_without: "x \<in> set (without i xs) \<Longrightarrow> x \<in> set xs"
  unfolding without_def by (auto dest: in_set_takeD in_set_dropD)

lemma split_without: "i < length xs \<Longrightarrow> xs = take i xs @ xs ! i # drop (Suc i) xs"
  by (rule id_take_nth_drop)

lemma mset_nth_without:
  assumes "i < length xs"
  shows "mset xs = add_mset (xs ! i) (mset (without i xs))"
proof -
  have "mset xs = mset (take i xs @ xs ! i # drop (Suc i) xs)"
    using split_without [OF assms] by (rule arg_cong)
  then show ?thesis by (simp add: without_def)
qed

lemma count_without:
  assumes "i < length xs"
  shows "length (filter P xs) = length (filter P (without i xs)) + (if P (xs ! i) then 1 else 0)"
proof -
  have "length (filter P xs) = length (filter P (take i xs @ xs ! i # drop (Suc i) xs))"
    using split_without [OF assms] by (rule arg_cong)
  then show ?thesis by (simp add: without_def)
qed

section \<open>Objects as dictionaries\<close>

lemma map_of_AList_update [simp]: "map_of (AList.update k v xs) = (map_of xs)(k \<mapsto> v)"
  by (rule update_conv')

lemma map_of_AList_delete [simp]: "map_of (AList.delete k xs) = (map_of xs)(k := None)"
  by (rule delete_conv')

lemma AList_delete_filter: "AList.delete k xs = filter (\<lambda>p. fst p \<noteq> k) xs"
  unfolding AList.delete_eq split_def by (rule filter_cong) auto

lemma set_AList_delete: "set (AList.delete k xs) = {p \<in> set xs. fst p \<noteq> k}"
  by (auto simp: AList_delete_filter)

lemma keys_AList_update [simp]: "fst ` set (AList.update k v xs) = insert k (fst ` set xs)"
  by (induction xs) auto

lemma keys_AList_delete [simp]: "fst ` set (AList.delete k xs) = fst ` set xs - {k}"
  by (auto simp: AList_delete_filter)

lemma distinct_AList_update [simp]:
  "distinct (map fst (AList.update k v xs)) \<longleftrightarrow> distinct (map fst xs)"
proof (induction xs)
  case (Cons p xs)
  then show ?case
    by (cases p) (auto simp flip: image_set simp: keys_AList_update)
qed simp

lemma map_fst_AList_delete: "map fst (AList.delete k xs) = filter (\<lambda>y. y \<noteq> k) (map fst xs)"
  by (induction xs) (auto simp: AList_delete_filter)

lemma distinct_AList_delete [simp]:
  "distinct (map fst xs) \<Longrightarrow> distinct (map fst (AList.delete k xs))"
  by (simp add: map_fst_AList_delete)

lemma set_AList_updateD: "p \<in> set (AList.update k v xs) \<Longrightarrow> p = (k, v) \<or> p \<in> set xs"
  by (induction xs) (auto split: if_splits)

end
