(* ===== verification/Call_Types.thy ===== *)
theory Call_Types
  imports Prelude
begin

text \<open>
  The vocabulary the services share: the enumerations of \<open>packages/dto/src/common/domain.ts\<close> and
  \<open>packages/dto/src/socket/payloads.ts\<close>, the phone number rule of
  \<open>packages/dto/src/common/primitives.ts\<close>, which side of a call is ours
  (\<open>packages/dto/src/calls/call-parties.ts\<close>), who may do what
  (\<open>packages/events/src/auth/permissions.ts\<close>) and the reading of Twilio's progress values
  (\<open>apps/call-controller/src/calls/participant-status.ts\<close>).
\<close>

section \<open>Enumerations\<close>

datatype role = ADMIN | SUPERVISOR | AGENT

datatype call_direction = Inbound | Outbound

datatype routing_target_type = DEPARTMENT | USER

text \<open>\<open>RoutingTargetType | 'OUTBOUND'\<close> of a call state.\<close>

datatype call_routing = Routed routing_target_type | OUTBOUND

datatype open_hours_routing = SIMULTANEOUS | FIXED_ORDER

datatype closed_hours_routing = VOICEMAIL | EXTERNAL_NUMBER

datatype call_end_status = Completed | Busy | Canceled | Failed | NoAnswer

datatype participant_type = Caller | Agent | External

text \<open>\<open>ParticipantStatus\<close>: progress, or one of the ends of \<open>CallEndStatus\<close>.\<close>

datatype participant_status = Initiated | Ringing | Answered | Ended call_end_status

datatype unavailable_reason = IsOffline | IsDnd | IsBusy

datatype availability_state = Available | Unavailable unavailable_reason

datatype transfer_failure_reason =
  TransferDeclined | TransferNoAnswer | TransferUnavailable | TransferCancelled

datatype call_control_refusal =
  LegNotFound | NotOnCall | NotConnected | TransferPending | NoTransferPending | TransferToSelf
| TargetOnCall | TargetBusy | TargetDnd | TargetOffline | CallGone | ProviderError

datatype outbound_grant_refusal = LineUnavailable | LineWithoutVoice | LineNotAllowed

section \<open>Phone numbers\<close>

text \<open>
  \<open>String.prototype.trim\<close> on UTF-8: the white space and line terminators of ECMAScript, as the
  byte sequences they are encoded in. \<open>spaceAt\<close> says how many bytes of white space a string
  starts with, and \<open>spaceEnd\<close> the same for a reversed string.
\<close>

definition asciiSpace :: "char \<Rightarrow> bool" where
  "asciiSpace c \<longleftrightarrow> (of_char c :: nat) \<in> {9, 10, 11, 12, 13, 32}"

definition wideSpace :: "nat \<Rightarrow> nat \<Rightarrow> nat \<Rightarrow> bool" where
  "wideSpace a b c \<longleftrightarrow>
     a = 225 \<and> b = 154 \<and> c = 128 \<or>
     a = 226 \<and> b = 128 \<and> (128 \<le> c \<and> c \<le> 138 \<or> c = 168 \<or> c = 169 \<or> c = 175) \<or>
     a = 226 \<and> b = 129 \<and> c = 159 \<or>
     a = 227 \<and> b = 128 \<and> c = 128 \<or>
     a = 239 \<and> b = 187 \<and> c = 191"

fun spaceAt :: "string \<Rightarrow> nat" where
  "spaceAt [] = 0"
| "spaceAt [a] = (if asciiSpace a then 1 else 0)"
| "spaceAt [a, b] =
     (if asciiSpace a then 1 else if of_char a = (194 :: nat) \<and> of_char b = (160 :: nat) then 2 else 0)"
| "spaceAt (a # b # c # s) =
     (if asciiSpace a then 1
      else if of_char a = (194 :: nat) \<and> of_char b = (160 :: nat) then 2
      else if wideSpace (of_char a) (of_char b) (of_char c) then 3
      else 0)"

fun spaceEnd :: "string \<Rightarrow> nat" where
  "spaceEnd [] = 0"
| "spaceEnd [a] = (if asciiSpace a then 1 else 0)"
| "spaceEnd [b, a] =
     (if asciiSpace b then 1 else if of_char a = (194 :: nat) \<and> of_char b = (160 :: nat) then 2 else 0)"
| "spaceEnd (c # b # a # s) =
     (if asciiSpace c then 1
      else if of_char b = (194 :: nat) \<and> of_char c = (160 :: nat) then 2
      else if wideSpace (of_char a) (of_char b) (of_char c) then 3
      else 0)"

function dropSpaces :: "(string \<Rightarrow> nat) \<Rightarrow> string \<Rightarrow> string" where
  "dropSpaces space s =
     (if space s = 0 \<or> s = [] then s else dropSpaces space (drop (space s) s))"
  by pat_completeness auto
termination
  by (relation "measure (\<lambda>(space, s). length s)") auto

declare dropSpaces.simps [simp del]

definition trim :: "string \<Rightarrow> string" where
  "trim s = rev (dropSpaces spaceEnd (rev (dropSpaces spaceAt s)))"

text \<open>\<open>/\D/g\<close> replaced by nothing.\<close>

definition isDigit :: "char \<Rightarrow> bool" where
  "isDigit c \<longleftrightarrow> 48 \<le> (of_char c :: nat) \<and> (of_char c :: nat) \<le> 57"

definition digitsOf :: "string \<Rightarrow> string" where
  "digitsOf s = filter isDigit s"

definition normalizePhoneNumber :: "string \<Rightarrow> phone option" where
  "normalizePhoneNumber value =
     (let trimmed = trim value in
      if prefix ''+'' trimmed then
        let digits = digitsOf (drop 1 trimmed) in
        if 7 \<le> length digits \<and> length digits \<le> 15 then Some (''+'' @ digits) else None
      else
        let digits = digitsOf trimmed in
        if length digits = 10 then Some (''+1'' @ digits)
        else if length digits = 11 \<and> prefix ''1'' digits then Some (''+'' @ digits)
        else None)"

definition isDialablePhoneNumber :: "string \<Rightarrow> bool" where
  "isDialablePhoneNumber value \<longleftrightarrow> normalizePhoneNumber value \<noteq> None"

definition toE164PhoneNumber :: "string \<Rightarrow> phone option" where
  "toE164PhoneNumber value = normalizePhoneNumber value"

text \<open>\<open>maskPhoneNumber\<close> of the routing lookup: the last four digits, all a log line carries.\<close>

definition maskPhoneNumber :: "phone \<Rightarrow> string" where
  "maskPhoneNumber p = drop (length p - 4) p"

section \<open>Which side of a call is ours\<close>

fun directionText :: "call_direction \<Rightarrow> string" where
  "directionText Inbound = ''inbound''"
| "directionText Outbound = ''outbound''"

definition callCounterparty :: "string \<Rightarrow> phone \<Rightarrow> phone \<Rightarrow> phone" where
  "callCounterparty dir cfrom cto = (if dir = ''inbound'' then cfrom else cto)"

definition callLine :: "string \<Rightarrow> phone \<Rightarrow> phone \<Rightarrow> phone" where
  "callLine dir cfrom cto = (if dir = ''inbound'' then cto else cfrom)"

section \<open>Permissions\<close>

datatype permission =
  CallsView | CallsManage | CallsTransfer | CallsViewAll | RecordingsListen | UsersView
| UsersManage | DepartmentsView | DepartmentsManage | InternalAccess | ReportsView | SettingsManage

fun PERMISSIONS :: "permission \<Rightarrow> role list" where
  "PERMISSIONS CallsView = [ADMIN, SUPERVISOR, AGENT]"
| "PERMISSIONS CallsManage = [ADMIN, SUPERVISOR, AGENT]"
| "PERMISSIONS CallsTransfer = [ADMIN, SUPERVISOR, AGENT]"
| "PERMISSIONS CallsViewAll = [ADMIN, SUPERVISOR]"
| "PERMISSIONS RecordingsListen = [ADMIN, SUPERVISOR]"
| "PERMISSIONS UsersView = [ADMIN, SUPERVISOR]"
| "PERMISSIONS UsersManage = [ADMIN]"
| "PERMISSIONS DepartmentsView = [ADMIN, SUPERVISOR]"
| "PERMISSIONS DepartmentsManage = [ADMIN]"
| "PERMISSIONS InternalAccess = [ADMIN]"
| "PERMISSIONS ReportsView = [ADMIN, SUPERVISOR]"
| "PERMISSIONS SettingsManage = [ADMIN]"

definition allPermissions :: "permission list" where
  "allPermissions =
     [CallsView, CallsManage, CallsTransfer, CallsViewAll, RecordingsListen, UsersView, UsersManage,
      DepartmentsView, DepartmentsManage, InternalAccess, ReportsView, SettingsManage]"

definition hasRole :: "role \<Rightarrow> role list \<Rightarrow> bool" where
  "hasRole r allowed \<longleftrightarrow> r \<in> set allowed"

definition hasPermission :: "role \<Rightarrow> permission \<Rightarrow> bool" where
  "hasPermission r p \<longleftrightarrow> r \<in> set (PERMISSIONS p)"

definition getPermissionsForRole :: "role \<Rightarrow> permission list" where
  "getPermissionsForRole r = filter (hasPermission r) allPermissions"

section \<open>Twilio's progress values\<close>

fun endStatusText :: "call_end_status \<Rightarrow> string" where
  "endStatusText Completed = ''completed''"
| "endStatusText Busy = ''busy''"
| "endStatusText Canceled = ''canceled''"
| "endStatusText Failed = ''failed''"
| "endStatusText NoAnswer = ''no-answer''"

definition normalizeCallStatus :: "string \<Rightarrow> participant_status option" where
  "normalizeCallStatus status =
     (if status \<in> {''queued'', ''initiated''} then Some Initiated
      else if status = ''ringing'' then Some Ringing
      else if status \<in> {''in-progress'', ''answered'', ''connected''} then Some Answered
      else if status = ''busy'' then Some (Ended Busy)
      else if status = ''canceled'' then Some (Ended Canceled)
      else if status = ''no-answer'' then Some (Ended NoAnswer)
      else if status = ''failed'' then Some (Ended Failed)
      else if status = ''completed'' then Some (Ended Completed)
      else None)"

fun isTerminalStatus :: "participant_status \<Rightarrow> bool" where
  "isTerminalStatus (Ended _) = True"
| "isTerminalStatus _ = False"

datatype timeline_event =
  CALL_INITIATED | CALL_RINGING | CALL_ANSWERED | CALL_COMPLETED | CALL_FAILED | CALL_CANCELED
| CALL_NO_ANSWER | CALL_BUSY | DIAL_INITIATED | DIAL_ANSWERED | DIAL_NO_ANSWER | DIAL_BUSY
| DIAL_FAILED

definition participantEventType ::
    "participant_type \<Rightarrow> participant_status \<Rightarrow> timeline_event" where
  "participantEventType ptype status =
     (let dialed = (ptype \<noteq> Caller) in
      case status of
        Initiated \<Rightarrow> if dialed then DIAL_INITIATED else CALL_INITIATED
      | Ringing \<Rightarrow> CALL_RINGING
      | Answered \<Rightarrow> if dialed then DIAL_ANSWERED else CALL_ANSWERED
      | Ended Busy \<Rightarrow> if dialed then DIAL_BUSY else CALL_BUSY
      | Ended Failed \<Rightarrow> if dialed then DIAL_FAILED else CALL_FAILED
      | Ended NoAnswer \<Rightarrow> if dialed then DIAL_NO_ANSWER else CALL_NO_ANSWER
      | Ended Canceled \<Rightarrow> CALL_CANCELED
      | Ended Completed \<Rightarrow> CALL_COMPLETED)"

definition participantDescription ::
    "participant_type \<Rightarrow> string \<Rightarrow> participant_status \<Rightarrow> string" where
  "participantDescription ptype pid status =
     (let noun = (case ptype of
          Agent \<Rightarrow> ''Agent '' @ pid
        | External \<Rightarrow> ''Number '' @ pid
        | Caller \<Rightarrow> ''Caller '' @ pid)
      in noun @ (case status of
          Initiated \<Rightarrow> '' call initiated''
        | Ringing \<Rightarrow> '' is ringing''
        | Answered \<Rightarrow> '' answered''
        | Ended Busy \<Rightarrow> '' is busy''
        | Ended Failed \<Rightarrow> '' failed''
        | Ended NoAnswer \<Rightarrow> '' did not answer''
        | Ended Canceled \<Rightarrow> '' canceled''
        | Ended Completed \<Rightarrow> '' completed''))"

text \<open>
  Roles are ordered by what they may do, so that the library's order lemmas say that a permission
  held by a role is held by every role above it.
\<close>

fun roleRank :: "role \<Rightarrow> nat" where
  "roleRank AGENT = 0"
| "roleRank SUPERVISOR = 1"
| "roleRank ADMIN = 2"

instantiation role :: linorder
begin
definition less_eq_role :: "role \<Rightarrow> role \<Rightarrow> bool" where
  "less_eq_role a b \<longleftrightarrow> roleRank a \<le> roleRank b"
definition less_role :: "role \<Rightarrow> role \<Rightarrow> bool" where
  "less_role a b \<longleftrightarrow> roleRank a < roleRank b"
instance
proof
  fix x y :: role
  show "x \<le> y \<Longrightarrow> y \<le> x \<Longrightarrow> x = y"
    by (cases x; cases y) (simp_all add: less_eq_role_def)
qed (auto simp: less_eq_role_def less_role_def)
end

section \<open>Facts about phone numbers\<close>

lemma digitsOf_append [simp]: "digitsOf (xs @ ys) = digitsOf xs @ digitsOf ys"
  by (simp add: digitsOf_def)

lemma digitsOf_idem [simp]: "digitsOf (digitsOf s) = digitsOf s"
  by (simp add: digitsOf_def)

lemma digit_not_space: "isDigit c \<Longrightarrow> \<not> asciiSpace c"
  by (auto simp: isDigit_def asciiSpace_def)

lemma digit_byte: "isDigit c \<Longrightarrow> (of_char c :: nat) < 128"
  by (simp add: isDigit_def)

lemma dropSpaces_stop: "space s = 0 \<Longrightarrow> dropSpaces space s = s"
  by (subst dropSpaces.simps) simp

lemma spaceAt_plus: "spaceAt (CHR ''+'' # s) = 0"
proof -
  have "\<not> asciiSpace (CHR ''+'')" by (simp add: asciiSpace_def)
  then show ?thesis
    by (cases s; cases "tl s") (auto simp: wideSpace_def)
qed

lemma spaceEnd_digit:
  assumes "isDigit d"
  shows "spaceEnd (d # s) = 0"
proof -
  have "\<not> asciiSpace d" and "(of_char d :: nat) < 128"
    using assms by (auto dest: digit_not_space digit_byte)
  then show ?thesis
    by (cases s; cases "tl s") (auto simp: wideSpace_def)
qed

lemma trim_plus_digits:
  assumes "digitsOf ds = ds" and "ds \<noteq> []"
  shows "trim (''+'' @ ds) = ''+'' @ ds"
proof -
  obtain ds' d where ds: "ds = ds' @ [d]"
    using assms(2) by (cases ds rule: rev_cases) auto
  have "isDigit d"
    using assms(1) unfolding ds digitsOf_def by (metis filter_id_conv in_set_conv_decomp)
  then have "spaceEnd (rev (''+'' @ ds)) = 0"
    by (simp add: ds spaceEnd_digit)
  then show ?thesis
    by (simp add: trim_def dropSpaces_stop spaceAt_plus)
qed

lemma normalizePhoneNumber_shape:
  assumes "normalizePhoneNumber v = Some p"
  obtains ds where "p = ''+'' @ ds" "digitsOf ds = ds" "7 \<le> length ds" "length ds \<le> 15"
proof -
  have one: "digitsOf ''1'' = ''1''" by (simp add: digitsOf_def isDigit_def)
  from assms consider
      (plus) "p = ''+'' @ digitsOf (drop 1 (trim v))"
        "7 \<le> length (digitsOf (drop 1 (trim v)))" "length (digitsOf (drop 1 (trim v))) \<le> 15"
    | (ten) "p = ''+1'' @ digitsOf (trim v)" "length (digitsOf (trim v)) = 10"
    | (eleven) "p = ''+'' @ digitsOf (trim v)" "length (digitsOf (trim v)) = 11"
    unfolding normalizePhoneNumber_def Let_def by (auto split: if_splits)
  then show ?thesis
  proof cases
    case plus
    then show ?thesis by (intro that) auto
  next
    case ten
    then show ?thesis by (intro that [of "''1'' @ digitsOf (trim v)"]) (auto simp: one simp del: append_Cons)
  next
    case eleven
    then show ?thesis by (intro that) auto
  qed
qed

lemma normalizePhoneNumber_plus_digits:
  assumes "digitsOf ds = ds" and "7 \<le> length ds" and "length ds \<le> 15"
  shows "normalizePhoneNumber (''+'' @ ds) = Some (''+'' @ ds)"
proof -
  have "trim (''+'' @ ds) = ''+'' @ ds"
    using assms by (intro trim_plus_digits) auto
  then show ?thesis
    using assms by (simp add: normalizePhoneNumber_def)
qed

lemma normalizePhoneNumber_fixed:
  assumes "normalizePhoneNumber v = Some p"
  shows "normalizePhoneNumber p = Some p"
proof -
  from assms obtain ds where "p = ''+'' @ ds" "digitsOf ds = ds" "7 \<le> length ds" "length ds \<le> 15"
    by (rule normalizePhoneNumber_shape)
  then show ?thesis
    using normalizePhoneNumber_plus_digits [of ds] by simp
qed

section \<open>Facts about statuses\<close>

lemma normalizeCallStatus_endStatusText [simp]:
  "normalizeCallStatus (endStatusText s) = Some (Ended s)"
  by (cases s) (simp_all add: normalizeCallStatus_def)

section \<open>Properties\<close>

text \<open>A normalized number is a plus and seven to fifteen digits, and normalizing it again leaves it
  as it is.\<close>

theorem normalized_numbers_are_stable:
  assumes "normalizePhoneNumber v = Some p"
  shows "normalizePhoneNumber p = Some p \<and>
    (\<exists>ds. p = ''+'' @ ds \<and> list_all isDigit ds \<and> 7 \<le> length ds \<and> length ds \<le> 15)"
proof -
  obtain ds where ds: "p = ''+'' @ ds" "digitsOf ds = ds" "7 \<le> length ds" "length ds \<le> 15"
    using normalizePhoneNumber_shape [OF assms] by blast
  then have "list_all isDigit ds"
    unfolding digitsOf_def by (metis filter_id_conv list_all_iff)
  then show ?thesis using ds normalizePhoneNumber_fixed [OF assms] by blast
qed

theorem normalized_numbers_are_stable_witness:
  "normalizePhoneNumber ''(555) 123-0001'' = Some ''+15551230001''
   \<and> normalizePhoneNumber ''+15551230001'' = Some ''+15551230001''"
proof -
  have "normalizePhoneNumber ''(555) 123-0001'' = Some ''+15551230001''" by code_simp
  then show ?thesis using normalized_numbers_are_stable by blast
qed

end
