(* ===== verification/Call_State.thy ===== *)
theory Call_State
  imports Call_Types
begin

text \<open>
  \<open>apps/call-controller/src/calls/call-state.ts\<close>: everything the controller remembers about a
  live call, which legs and users it refers to, and the one mutation the file exports. Also the
  well-formedness invariant every write of the flow keeps (\<open>wf_call\<close>), and the phases a call
  only ever moves forward through (\<open>advances\<close>).
\<close>

section \<open>The state\<close>

record call_participant =
  participantType :: participant_type
  participantId :: string

record leg_metadata =
  legParticipant :: call_participant
  legConversationUuid :: call_id

record call_state =
  version :: nat
  conversationUuid :: call_id
  conversationName :: string
  conferenceSid :: "string option"
  direction :: call_direction
  routingType :: call_routing
  fromNumber :: phone
  toNumber :: phone
  departmentId :: "department_id option"
  departmentName :: "string option"
  targetUserId :: "user_id option"
  targetUserName :: "string option"
  activeAgentUserId :: "user_id option"
  callerLegUuid :: "leg_id option"
  agentLegUuid :: "leg_id option"
  externalLegUuid :: "leg_id option"
  agentLegs :: "(leg_id \<times> user_id) list"
  pendingAgentLegUuids :: "leg_id list"
  routingQueue :: "user_id list option"
  currentQueueIndex :: "nat option"
  ringStrategy :: "open_hours_routing option"
  ringDuration :: "nat option"
  voicemailGreetingUrl :: "string option"
  answered :: bool
  voicemail :: bool
  held :: "bool option"
  pendingTransferToUserId :: "user_id option"
  transferInitiatedBy :: "user_id option"
  transferOriginLegUuid :: "leg_id option"
  ending :: bool
  endingRequestedAt :: "millis option"
  endingRequestedBy :: "user_id option"
  createdAt :: millis

section \<open>Operations\<close>

definition CONFERENCE_NAME_PREFIX :: string where
  "CONFERENCE_NAME_PREFIX = ''call-''"

definition conversationNameFor :: "call_id \<Rightarrow> string" where
  "conversationNameFor cid = CONFERENCE_NAME_PREFIX @ cid"

definition parseConversationName :: "string \<Rightarrow> call_id option" where
  "parseConversationName name =
     (if \<not> prefix CONFERENCE_NAME_PREFIX name then None
      else let rest = drop (length CONFERENCE_NAME_PREFIX) name
           in if rest = [] then None else Some rest)"

definition legUuidsOf :: "call_state \<Rightarrow> leg_id list" where
  "legUuidsOf s =
     present (uniq ([callerLegUuid s, agentLegUuid s, externalLegUuid s]
       @ map (Some \<circ> fst) (agentLegs s) @ map Some (pendingAgentLegUuids s)))"

definition hasActiveLegs :: "call_state \<Rightarrow> bool" where
  "hasActiveLegs s \<longleftrightarrow> length (legUuidsOf s) > 0"

definition occupantsOf :: "call_state \<Rightarrow> user_id list" where
  "occupantsOf s =
     (if voicemail s then []
      else
        let talking = (if truthy (agentLegUuid s) then activeAgentUserId s else None);
            joined = map snd (filter (\<lambda>(leg, user). leg \<notin> set (pendingAgentLegUuids s)) (agentLegs s));
            ringing = (if answered s then []
                       else map (\<lambda>leg. map_of (agentLegs s) leg) (pendingAgentLegUuids s))
        in uniq (present ([talking] @ map Some joined @ ringing @ [pendingTransferToUserId s])))"

definition usersLetGo :: "call_state \<Rightarrow> call_state option \<Rightarrow> user_id list" where
  "usersLetGo earlier after =
     (let stillOccupied = (case after of None \<Rightarrow> [] | Some a \<Rightarrow> occupantsOf a);
          legsAfter = (case after of None \<Rightarrow> [] | Some a \<Rightarrow> agentLegs a);
          candidates = uniq (occupantsOf earlier
            @ map snd (filter (\<lambda>(leg, user). leg \<notin> fst ` set legsAfter) (agentLegs earlier)))
      in filter (\<lambda>user. user \<notin> set stillOccupied) candidates)"

definition removeLeg :: "leg_id \<Rightarrow> call_state \<Rightarrow> call_state" where
  "removeLeg leg s = s\<lparr>
     agentLegs := AList.delete leg (agentLegs s),
     pendingAgentLegUuids := filter (\<lambda>pending. pending \<noteq> leg) (pendingAgentLegUuids s),
     callerLegUuid := (if callerLegUuid s = Some leg then None else callerLegUuid s),
     agentLegUuid := (if agentLegUuid s = Some leg then None else agentLegUuid s),
     externalLegUuid := (if externalLegUuid s = Some leg then None else externalLegUuid s),
     transferOriginLegUuid :=
       (if transferOriginLegUuid s = Some leg then None else transferOriginLegUuid s)\<rparr>"

definition participantOfLeg :: "call_state \<Rightarrow> leg_id \<Rightarrow> call_participant option" where
  "participantOfLeg s leg =
     (if callerLegUuid s = Some leg
      then Some \<lparr>participantType = Caller, participantId = fromNumber s\<rparr>
      else if externalLegUuid s = Some leg
      then Some \<lparr>participantType = External, participantId = toNumber s\<rparr>
      else case map_of (agentLegs s) leg of
          None \<Rightarrow> None
        | Some user \<Rightarrow>
            if user = [] then None
            else Some \<lparr>participantType = Agent, participantId = user\<rparr>)"

section \<open>What every stored state satisfies\<close>

text \<open>
  The rings are among the agent legs and nothing is listed twice; whoever holds the call through a
  leg is known; and the three transfer markers stand or fall together, but for the origin leg,
  which \<open>removeLeg\<close> forgets when the agent handing over leaves.
\<close>

definition wf_call :: "call_state \<Rightarrow> bool" where
  "wf_call s \<longleftrightarrow>
     distinct (map fst (agentLegs s)) \<and>
     distinct (pendingAgentLegUuids s) \<and>
     set (pendingAgentLegUuids s) \<subseteq> fst ` set (agentLegs s) \<and>
     (agentLegUuid s \<noteq> None \<longrightarrow> activeAgentUserId s \<noteq> None) \<and>
     (pendingTransferToUserId s = None \<longrightarrow>
        transferInitiatedBy s = None \<and> transferOriginLegUuid s = None) \<and>
     (pendingTransferToUserId s \<noteq> None \<longrightarrow> transferInitiatedBy s \<noteq> None) \<and>
     conversationName s = conversationNameFor (conversationUuid s)"

text \<open>What a call is about never changes, and its phases are never taken back.\<close>

definition advances :: "call_state \<Rightarrow> call_state \<Rightarrow> bool" where
  "advances a b \<longleftrightarrow>
     conversationUuid b = conversationUuid a \<and> direction b = direction a \<and>
     routingType b = routingType a \<and> fromNumber b = fromNumber a \<and> toNumber b = toNumber a \<and>
     departmentId b = departmentId a \<and> targetUserId b = targetUserId a \<and>
     createdAt b = createdAt a \<and>
     (answered a \<longrightarrow> answered b) \<and> (voicemail a \<longrightarrow> voicemail b) \<and> (ending a \<longrightarrow> ending b)"

section \<open>Facts about legs\<close>

lemma set_legUuidsOf:
  "set (legUuidsOf s) =
     {l. l \<noteq> [] \<and> (callerLegUuid s = Some l \<or> agentLegUuid s = Some l \<or> externalLegUuid s = Some l
        \<or> l \<in> fst ` set (agentLegs s) \<or> l \<in> set (pendingAgentLegUuids s))}"
proof -
  have "Some l \<in> set ([callerLegUuid s, agentLegUuid s, externalLegUuid s]
          @ map (Some \<circ> fst) (agentLegs s) @ map Some (pendingAgentLegUuids s)) \<longleftrightarrow>
        callerLegUuid s = Some l \<or> agentLegUuid s = Some l \<or> externalLegUuid s = Some l
          \<or> l \<in> fst ` set (agentLegs s) \<or> l \<in> set (pendingAgentLegUuids s)" for l
    by (auto simp add: image_iff)
  then show ?thesis
    unfolding legUuidsOf_def set_present set_uniq by blast
qed

lemma distinct_legUuidsOf [simp]: "distinct (legUuidsOf s)"
  by (simp add: legUuidsOf_def distinct_present)

lemma hasActiveLegs_iff: "hasActiveLegs s \<longleftrightarrow> legUuidsOf s \<noteq> []"
  by (simp add: hasActiveLegs_def)

lemma set_legUuidsOf_removeLeg: "set (legUuidsOf (removeLeg l s)) = set (legUuidsOf s) - {l}"
  by (auto simp: set_legUuidsOf removeLeg_def set_AList_delete)

lemma removeLeg_frame [simp]:
  "conversationUuid (removeLeg l s) = conversationUuid s"
  "conversationName (removeLeg l s) = conversationName s"
  "direction (removeLeg l s) = direction s"
  "answered (removeLeg l s) = answered s"
  "voicemail (removeLeg l s) = voicemail s"
  "ending (removeLeg l s) = ending s"
  "version (removeLeg l s) = version s"
  "activeAgentUserId (removeLeg l s) = activeAgentUserId s"
  "pendingTransferToUserId (removeLeg l s) = pendingTransferToUserId s"
  "transferInitiatedBy (removeLeg l s) = transferInitiatedBy s"
  "ringStrategy (removeLeg l s) = ringStrategy s"
  "currentQueueIndex (removeLeg l s) = currentQueueIndex s"
  "routingQueue (removeLeg l s) = routingQueue s"
  by (simp_all add: removeLeg_def)

lemma participantOfLeg_removeLeg:
  "participantOfLeg (removeLeg l s) other = (if other = l then None else participantOfLeg s other)"
  by (cases "other = l") (simp_all add: participantOfLeg_def removeLeg_def)

lemma removeLeg_advances: "advances s (removeLeg l s)"
  by (simp add: advances_def removeLeg_def)

lemma removeLeg_wf: "wf_call s \<Longrightarrow> wf_call (removeLeg l s)"
  by (auto simp: wf_call_def removeLeg_def set_AList_delete image_iff)

lemma advances_refl [simp]: "advances s s"
  by (simp add: advances_def)

lemma advances_trans: "advances a b \<Longrightarrow> advances b c \<Longrightarrow> advances a c"
  by (simp add: advances_def)

section \<open>Facts about occupants\<close>

lemma distinct_occupantsOf [simp]: "distinct (occupantsOf s)"
  by (simp add: occupantsOf_def Let_def)

lemma occupantsOf_voicemail [simp]: "voicemail s \<Longrightarrow> occupantsOf s = []"
  by (simp add: occupantsOf_def)

lemma set_occupantsOf:
  "set (occupantsOf s) =
     (if voicemail s then {}
      else {u. u \<noteq> [] \<and>
        (truthy (agentLegUuid s) \<and> activeAgentUserId s = Some u \<or>
         (\<exists>l. (l, u) \<in> set (agentLegs s) \<and> l \<notin> set (pendingAgentLegUuids s)) \<or>
         \<not> answered s \<and> (\<exists>l \<in> set (pendingAgentLegUuids s). map_of (agentLegs s) l = Some u) \<or>
         pendingTransferToUserId s = Some u)})"
proof (cases "voicemail s")
  case False
  let ?talking = "if truthy (agentLegUuid s) then activeAgentUserId s else None"
  let ?joined = "map Some (map snd (filter (\<lambda>(leg, user). leg \<notin> set (pendingAgentLegUuids s))
    (agentLegs s)))"
  let ?ringing = "if answered s then []
    else map (\<lambda>leg. map_of (agentLegs s) leg) (pendingAgentLegUuids s)"
  have joined: "Some u \<in> set ?joined \<longleftrightarrow>
      (\<exists>l. (l, u) \<in> set (agentLegs s) \<and> l \<notin> set (pendingAgentLegUuids s))" for u
    by (force simp: image_iff)
  have ringing: "Some u \<in> set ?ringing \<longleftrightarrow>
      \<not> answered s \<and> (\<exists>l \<in> set (pendingAgentLegUuids s). map_of (agentLegs s) l = Some u)" for u
    by (auto simp: image_iff eq_commute)
  have "Some u \<in> set ([?talking] @ ?joined @ ?ringing @ [pendingTransferToUserId s]) \<longleftrightarrow>
        truthy (agentLegUuid s) \<and> activeAgentUserId s = Some u
        \<or> Some u \<in> set ?joined \<or> Some u \<in> set ?ringing \<or> pendingTransferToUserId s = Some u" for u
    by auto
  then show ?thesis
    using False unfolding occupantsOf_def Let_def joined ringing
    by (simp only: if_False set_uniq set_present joined ringing) blast
qed simp

lemma set_usersLetGo:
  "set (usersLetGo earlier after) =
     (set (occupantsOf earlier) \<union>
        {u. \<exists>l. (l, u) \<in> set (agentLegs earlier) \<and>
           (case after of None \<Rightarrow> True | Some a \<Rightarrow> l \<notin> fst ` set (agentLegs a))})
     - (case after of None \<Rightarrow> {} | Some a \<Rightarrow> set (occupantsOf a))"
  by (cases after) (force simp: usersLetGo_def Let_def image_iff)+

lemma distinct_usersLetGo [simp]: "distinct (usersLetGo earlier after)"
  by (simp add: usersLetGo_def Let_def)

lemma usersLetGo_disjoint: "set (usersLetGo earlier (Some a)) \<inter> set (occupantsOf a) = {}"
  by (auto simp: set_usersLetGo)

lemma usersLetGo_complete:
  "set (occupantsOf earlier) \<subseteq> set (usersLetGo earlier (Some a)) \<union> set (occupantsOf a)"
  by (auto simp: set_usersLetGo)

lemma usersLetGo_same: "usersLetGo s (Some s) = []"
proof -
  have "set (usersLetGo s (Some s)) = {}"
    by (auto simp: set_usersLetGo image_iff)
  then show ?thesis by simp
qed

section \<open>Facts about names\<close>

lemma parseConversationName_for: "cid \<noteq> [] \<Longrightarrow> parseConversationName (conversationNameFor cid) = Some cid"
  by (simp add: parseConversationName_def conversationNameFor_def CONFERENCE_NAME_PREFIX_def)

lemma conversationName_of_parse:
  "parseConversationName name = Some cid \<Longrightarrow> conversationNameFor cid = name \<and> cid \<noteq> []"
  by (auto simp: parseConversationName_def conversationNameFor_def Let_def prefix_def
      split: if_splits)

section \<open>Properties\<close>

text \<open>After a write to a call, whoever it no longer occupies is let go, each once, and nobody it
  still occupies: whom the earlier state occupied is either let go or still an occupant, never both,
  and a write that changes nothing lets nobody go.\<close>

theorem nobody_is_kept_or_dropped:
  "distinct (usersLetGo earlier after)
   \<and> set (occupantsOf earlier) \<subseteq> set (usersLetGo earlier after)
        \<union> (case after of None \<Rightarrow> {} | Some a \<Rightarrow> set (occupantsOf a))
   \<and> set (usersLetGo earlier after) \<inter> (case after of None \<Rightarrow> {} | Some a \<Rightarrow> set (occupantsOf a)) = {}
   \<and> set (usersLetGo earlier after) \<subseteq> set (occupantsOf earlier) \<union> snd ` set (agentLegs earlier)
   \<and> usersLetGo earlier (Some earlier) = []"
  by (cases after) (auto simp: set_usersLetGo usersLetGo_same intro: rev_image_eqI)

text \<open>Forgetting a leg forgets exactly that leg: the call refers to every other leg it did, each
  other leg is still the same participant's, and nobody is behind the leg itself any more.\<close>

theorem removed_leg_is_forgotten:
  "set (legUuidsOf (removeLeg l s)) = set (legUuidsOf s) - {l}
   \<and> participantOfLeg (removeLeg l s) other
      = (if other = l then None else participantOfLeg s other)"
  by (simp add: set_legUuidsOf_removeLeg participantOfLeg_removeLeg)

end
