(* ===== verification/Call_Control.thy ===== *)
theory Call_Control
  imports Call_State
begin

text \<open>
  \<open>apps/call-controller/src/calls/call-control.ts\<close>: the rules behind an agent's controls over a
  live call (who may hold, transfer or hang up, and where the other party goes when a transfer
  falls through), with the incoming call a softphone is shown
  (\<open>packages/dto/src/socket/payloads.ts\<close>) and the HTTP answers
  (\<open>apps/call-controller/src/calls/voice.routes.ts\<close>) a refusal becomes.
\<close>

section \<open>Requests and refusals\<close>

record call_control_request =
  requestUserId :: user_id
  requestLegUuid :: leg_id

record incoming_call =
  icConversationUuid :: call_id
  icFrom :: phone
  icTo :: phone
  icCallerId :: phone
  icRoutingType :: "routing_target_type option"
  icDepartmentId :: "department_id option"
  icDepartmentName :: "string option"
  icUserId :: "user_id option"
  icUserName :: "string option"
  icTransferredBy :: "user_id option"

fun REFUSAL_STATUS :: "call_control_refusal \<Rightarrow> nat" where
  "REFUSAL_STATUS LegNotFound = 404"
| "REFUSAL_STATUS NotOnCall = 403"
| "REFUSAL_STATUS NotConnected = 409"
| "REFUSAL_STATUS TransferPending = 409"
| "REFUSAL_STATUS NoTransferPending = 409"
| "REFUSAL_STATUS TransferToSelf = 409"
| "REFUSAL_STATUS TargetOnCall = 409"
| "REFUSAL_STATUS TargetBusy = 409"
| "REFUSAL_STATUS TargetDnd = 409"
| "REFUSAL_STATUS TargetOffline = 409"
| "REFUSAL_STATUS CallGone = 409"
| "REFUSAL_STATUS ProviderError = 502"

definition remoteLegOf :: "call_state \<Rightarrow> leg_id option" where
  "remoteLegOf s =
     (if direction s = Outbound then externalLegUuid s
      else orElse (callerLegUuid s) (externalLegUuid s))"

definition refuseUnlessOnConnectedCall ::
    "call_state \<Rightarrow> leg_metadata \<Rightarrow> call_control_request \<Rightarrow> call_control_refusal option" where
  "refuseUnlessOnConnectedCall s leg request =
     (let ownsLeg = (participantType (legParticipant leg) = Agent \<and>
            participantId (legParticipant leg) = requestUserId request \<and>
            legConversationUuid leg = conversationUuid s);
          isTalking = (agentLegUuid s = Some (requestLegUuid request) \<and>
            activeAgentUserId s = Some (requestUserId request))
      in if \<not> ownsLeg \<or> \<not> isTalking then Some NotOnCall
         else if \<not> answered s \<or> ending s \<or> voicemail s \<or> \<not> truthy (remoteLegOf s)
         then Some NotConnected
         else None)"

definition refuseHold ::
    "call_state \<Rightarrow> leg_metadata \<Rightarrow> call_control_request \<Rightarrow> call_control_refusal option" where
  "refuseHold s leg request =
     (case refuseUnlessOnConnectedCall s leg request of
        Some refusal \<Rightarrow> Some refusal
      | None \<Rightarrow> if truthy (pendingTransferToUserId s) then Some TransferPending else None)"

definition refuseTransfer ::
    "call_state \<Rightarrow> leg_metadata \<Rightarrow> call_control_request \<Rightarrow> user_id \<Rightarrow> call_control_refusal option"
where
  "refuseTransfer s leg request target =
     (case refuseUnlessOnConnectedCall s leg request of
        Some refusal \<Rightarrow> Some refusal
      | None \<Rightarrow>
          if truthy (pendingTransferToUserId s) then Some TransferPending
          else if target = requestUserId request then Some TransferToSelf
          else
            let hasJoined = list_ex (\<lambda>(l, user). user = target
                  \<and> l \<notin> set (pendingAgentLegUuids s)) (agentLegs s);
                isOnCall = (activeAgentUserId s = Some target \<or> hasJoined)
            in if isOnCall then Some TargetOnCall else None)"

definition refuseTransferCancel ::
    "call_state \<Rightarrow> leg_metadata \<Rightarrow> call_control_request \<Rightarrow> call_control_refusal option" where
  "refuseTransferCancel s leg request =
     (case refuseUnlessOnConnectedCall s leg request of
        Some refusal \<Rightarrow> Some refusal
      | None \<Rightarrow>
          if truthy (pendingTransferToUserId s)
             \<and> transferInitiatedBy s = Some (requestUserId request)
          then None else Some NoTransferPending)"

datatype hangup_plan = PlanEndCall | PlanReleaseLeg | PlanDeclineTransfer

definition planHangup :: "call_state \<Rightarrow> call_control_request \<Rightarrow> hangup_plan" where
  "planHangup s request =
     (if ending s then PlanEndCall
      else if truthy (pendingTransferToUserId s) then
        let isRingingTarget = (pendingTransferToUserId s = Some (requestUserId request) \<and>
              agentLegUuid s \<noteq> Some (requestLegUuid request))
        in if isRingingTarget then PlanDeclineTransfer else PlanReleaseLeg
      else
        let isTalking = (agentLegUuid s = Some (requestLegUuid request) \<or>
              activeAgentUserId s = Some (requestUserId request))
        in if answered s \<and> \<not> isTalking then PlanReleaseLeg else PlanEndCall)"

datatype transfer_failure_plan = ReturnToAgent | ToVoicemail | EndTheCall

definition planTransferFailure :: "call_state \<Rightarrow> transfer_failure_plan" where
  "planTransferFailure s =
     (let originIsStillTalking = (transferOriginLegUuid s \<noteq> None \<and>
            agentLegUuid s = transferOriginLegUuid s)
      in if originIsStillTalking then ReturnToAgent
         else if direction s = Inbound \<and> truthy (callerLegUuid s) then ToVoicemail
         else EndTheCall)"

fun transferRefusalOf :: "unavailable_reason \<Rightarrow> call_control_refusal" where
  "transferRefusalOf IsBusy = TargetBusy"
| "transferRefusalOf IsDnd = TargetDnd"
| "transferRefusalOf IsOffline = TargetOffline"

fun transferFailureReasonOf :: "call_end_status \<Rightarrow> transfer_failure_reason" where
  "transferFailureReasonOf Busy = TransferDeclined"
| "transferFailureReasonOf NoAnswer = TransferNoAnswer"
| "transferFailureReasonOf _ = TransferUnavailable"

fun offeredRouting :: "call_routing \<Rightarrow> routing_target_type option" where
  "offeredRouting OUTBOUND = None"
| "offeredRouting (Routed t) = Some t"

definition transferOfferOf :: "call_state \<Rightarrow> user_id \<Rightarrow> incoming_call" where
  "transferOfferOf s initiatedBy =
     (let customer = (if direction s = Outbound then toNumber s else fromNumber s)
      in \<lparr>icConversationUuid = conversationUuid s, icFrom = customer,
          icTo = callLine (directionText (direction s)) (fromNumber s) (toNumber s),
          icCallerId = customer, icRoutingType = offeredRouting (routingType s),
          icDepartmentId = departmentId s, icDepartmentName = departmentName s,
          icUserId = None, icUserName = None, icTransferredBy = Some initiatedBy\<rparr>)"

definition incomingCallOf :: "call_state \<Rightarrow> incoming_call" where
  "incomingCallOf s =
     \<lparr>icConversationUuid = conversationUuid s, icFrom = fromNumber s, icTo = toNumber s,
      icCallerId = fromNumber s, icRoutingType = offeredRouting (routingType s),
      icDepartmentId = departmentId s, icDepartmentName = departmentName s,
      icUserId = targetUserId s, icUserName = targetUserName s, icTransferredBy = None\<rparr>"

section \<open>When a control is granted\<close>

text \<open>
  The agent on the connected call, addressed by the leg they talk through: the one state in which
  no control is refused at the door.
\<close>

definition controls :: "call_state \<Rightarrow> leg_metadata \<Rightarrow> call_control_request \<Rightarrow> bool" where
  "controls s leg request \<longleftrightarrow>
     legParticipant leg = \<lparr>participantType = Agent, participantId = requestUserId request\<rparr> \<and>
     legConversationUuid leg = conversationUuid s \<and>
     agentLegUuid s = Some (requestLegUuid request) \<and>
     activeAgentUserId s = Some (requestUserId request) \<and>
     answered s \<and> \<not> ending s \<and> \<not> voicemail s \<and> truthy (remoteLegOf s)"

lemma refuseUnlessOnConnectedCall_None:
  "refuseUnlessOnConnectedCall s leg request = None \<longleftrightarrow> controls s leg request"
  by (cases "legParticipant leg") (auto simp: refuseUnlessOnConnectedCall_def controls_def Let_def)

lemma refuseHold_None:
  "refuseHold s leg request = None \<longleftrightarrow>
     controls s leg request \<and> \<not> truthy (pendingTransferToUserId s)"
  by (auto simp: refuseHold_def refuseUnlessOnConnectedCall_None [symmetric] split: option.splits)

lemma refuseTransfer_None:
  "refuseTransfer s leg request target = None \<longleftrightarrow>
     controls s leg request \<and> \<not> truthy (pendingTransferToUserId s) \<and>
     target \<noteq> requestUserId request \<and> activeAgentUserId s \<noteq> Some target \<and>
     (\<forall>l. (l, target) \<in> set (agentLegs s) \<longrightarrow> l \<in> set (pendingAgentLegUuids s))"
  by (auto simp: refuseTransfer_def Let_def list_ex_iff refuseUnlessOnConnectedCall_None [symmetric]
      split: option.splits if_splits)

lemma refuseTransferCancel_None:
  "refuseTransferCancel s leg request = None \<longleftrightarrow>
     controls s leg request \<and> truthy (pendingTransferToUserId s) \<and>
     transferInitiatedBy s = Some (requestUserId request)"
  by (auto simp: refuseTransferCancel_def refuseUnlessOnConnectedCall_None [symmetric]
      split: option.splits)

lemma controls_unique:
  "controls s leg r \<Longrightarrow> controls s leg' r' \<Longrightarrow>
     requestUserId r = requestUserId r' \<and> requestLegUuid r = requestLegUuid r'"
  by (auto simp: controls_def)

lemma controls_occupant:
  assumes "controls s leg r" and "requestUserId r \<noteq> []" and "requestLegUuid r \<noteq> []"
  shows "requestUserId r \<in> set (occupantsOf s)"
  using assms by (auto simp: controls_def set_occupantsOf)

lemma planHangup_while_transferring:
  assumes "\<not> ending s" and "truthy (pendingTransferToUserId s)"
  shows "planHangup s r \<noteq> PlanEndCall"
  using assms by (auto simp: planHangup_def Let_def)

end
