(* ===== verification/Routing.thy ===== *)
theory Routing
  imports Call_Types
begin

text \<open>
  Where a call goes, before anybody is rung (\<open>apps/call-controller/src/routing\<close>): the cached
  routing entry (\<open>packages/events/src/cache/routing.ts\<close>), the opening hours on a department's own
  wall clock, the plan for an inbound call, the greeting a caller hears before the beep, the line an
  outbound call may leave from, and the lookup with its circuit breaker.

  Parameters, standing for what is not under \<open>src/\<close>: \<open>intl\<close> is \<open>Intl.DateTimeFormat\<close> with the
  runtime's time zone data, \<open>urlParse\<close> the WHATWG URL parser, \<open>parse\<close> the JSON parser followed by
  the zod schema of a routing entry.
\<close>

section \<open>The routing entry\<close>

record ordered_user =
  ouUserId :: user_id
  ouOrder :: nat

record cached_business_hours =
  dayOfWeek :: nat
  isOpen :: bool
  openTime :: "string option"
  closeTime :: "string option"

text \<open>A holiday's date is the instant its ISO text denotes, in days of UTC since 1970-01-01.\<close>

record cached_holiday =
  holidayName :: string
  holidayDay :: int
  isRecurring :: bool
  holidayRoutingType :: closed_hours_routing
  holidayRoutingValue :: "string option"

record cached_routing_settings =
  timezone :: string
  is24Hours :: bool
  openHoursRoutingType :: open_hours_routing
  settingsRingDuration :: nat
  closedHoursRoutingType :: closed_hours_routing
  closedHoursExternalNumber :: "string option"
  settingsGreetingUrl :: "string option"
  businessHours :: "cached_business_hours list"
  holidays :: "cached_holiday list"

record cached_routing =
  routingTarget :: routing_target_type
  userIds :: "user_id list"
  voiceEnabled :: "bool option"
  orderedUsers :: "ordered_user list option"
  settings :: "cached_routing_settings option"
  routingDepartmentId :: "department_id option"
  routingDepartmentName :: "string option"
  routingUserId :: "user_id option"
  routingUserName :: "string option"

section \<open>Opening hours\<close>

record intl_parts =
  partYear :: "string option"
  partMonth :: "string option"
  partDay :: "string option"
  partHour :: "string option"
  partMinute :: "string option"
  partWeekday :: "string option"

record wall_clock =
  localDate :: string
  localMonthDay :: string
  localTime :: string
  localDayOfWeek :: int

definition WEEKDAYS :: "string list" where
  "WEEKDAYS = [''Sun'', ''Mon'', ''Tue'', ''Wed'', ''Thu'', ''Fri'', ''Sat'']"

fun indexOf :: "'a list \<Rightarrow> 'a \<Rightarrow> int" where
  "indexOf [] y = -1"
| "indexOf (x # xs) y =
     (if x = y then 0 else let i = indexOf xs y in if i = -1 then -1 else i + 1)"

definition wallClock :: "(millis \<Rightarrow> string \<Rightarrow> intl_parts) \<Rightarrow> millis \<Rightarrow> string \<Rightarrow> wall_clock" where
  "wallClock intl instant timeZone =
     (let parts = intl instant timeZone;
          monthDay = getOr (partMonth parts) '''' @ ''-'' @ getOr (partDay parts) ''''
      in \<lparr>localDate = getOr (partYear parts) '''' @ ''-'' @ monthDay,
          localMonthDay = monthDay,
          localTime = getOr (partHour parts) '''' @ '':'' @ getOr (partMinute parts) '''',
          localDayOfWeek = indexOf WEEKDAYS (getOr (partWeekday parts) '''')\<rparr>)"

text \<open>
  \<open>getUTCFullYear\<close>, \<open>getUTCMonth\<close> and \<open>getUTCDate\<close>: the proleptic Gregorian calendar of
  ECMAScript, from days since 1970-01-01.
\<close>

definition utcDate :: "int \<Rightarrow> int \<times> int \<times> int" where
  "utcDate days =
     (let z = days + 719468;
          era = z div 146097;
          doe = z mod 146097;
          yoe = (doe - doe div 1460 + doe div 36524 - doe div 146096) div 365;
          doy = doe - (365 * yoe + yoe div 4 - yoe div 100);
          mp = (5 * doy + 2) div 153;
          d = doy - (153 * mp + 2) div 5 + 1;
          m = (if mp < 10 then mp + 3 else mp - 9);
          y = yoe + era * 400 + (if m \<le> 2 then 1 else 0)
      in (y, m, d))"

fun decimalNat :: "nat \<Rightarrow> string" where
  "decimalNat n =
     (if n < 10 then [char_of (48 + n)] else decimalNat (n div 10) @ [char_of (48 + n mod 10)])"

declare decimalNat.simps [simp del]

definition decimal :: "int \<Rightarrow> string" where
  "decimal i = (if i < 0 then ''-'' @ decimalNat (nat (- i)) else decimalNat (nat i))"

definition padStart2 :: "string \<Rightarrow> string" where
  "padStart2 s = replicate (2 - length s) (CHR ''0'') @ s"

definition findHoliday :: "wall_clock \<Rightarrow> cached_holiday list \<Rightarrow> cached_holiday option" where
  "findHoliday local hs =
     find (\<lambda>holiday.
       let (y, m, d) = utcDate (holidayDay holiday);
           monthDay = padStart2 (decimal m) @ ''-'' @ padStart2 (decimal d)
       in if isRecurring holiday then localMonthDay local = monthDay
          else localDate local = decimal y @ ''-'' @ monthDay) hs"

datatype business_hours_status =
  IsOpen | OutsideHours | OnHoliday string closed_hours_routing "string option"

definition checkBusinessHours ::
    "(millis \<Rightarrow> string \<Rightarrow> intl_parts) \<Rightarrow> cached_routing_settings \<Rightarrow> millis \<Rightarrow> business_hours_status"
where
  "checkBusinessHours intl st now =
     (if is24Hours st then IsOpen
      else
        let local = wallClock intl now (timezone st) in
        case findHoliday local (holidays st) of
          Some h \<Rightarrow> OnHoliday (holidayName h) (holidayRoutingType h) (holidayRoutingValue h)
        | None \<Rightarrow>
            (case find (\<lambda>hours. int (dayOfWeek hours) = localDayOfWeek local) (businessHours st) of
               None \<Rightarrow> OutsideHours
             | Some schedule \<Rightarrow>
                 if \<not> isOpen schedule \<or> \<not> truthy (openTime schedule) \<or> \<not> truthy (closeTime schedule)
                 then OutsideHours
                 else if the (openTime schedule) \<le> localTime local
                       \<and> localTime local < the (closeTime schedule)
                 then IsOpen else OutsideHours))"

section \<open>The plan for an inbound call\<close>

datatype voicemail_reason =
  MissingRouting | ClosedHours | ClosedHoursExternal | UserUnavailable | FixedOrderUnavailable
| NoAgents | RoutingTimeout

fun voicemailGreeting :: "voicemail_reason \<Rightarrow> string" where
  "voicemailGreeting MissingRouting =
     ''This number is not configured. Please leave a message after the tone.''"
| "voicemailGreeting ClosedHours =
     ''We are currently closed. Please leave a message after the tone.''"
| "voicemailGreeting ClosedHoursExternal =
     ''Nobody is available right now. Please leave a message after the tone.''"
| "voicemailGreeting UserUnavailable =
     ''The person you are calling is unavailable. Please leave a message after the tone.''"
| "voicemailGreeting FixedOrderUnavailable =
     ''Nobody is available right now. Please leave a message after the tone.''"
| "voicemailGreeting NoAgents =
     ''Nobody is available right now. Please leave a message after the tone.''"
| "voicemailGreeting RoutingTimeout =
     ''Nobody is available right now. Please leave a message after the tone.''"

definition VOICEMAIL_REASONS :: "voicemail_reason list" where
  "VOICEMAIL_REASONS =
     [MissingRouting, ClosedHours, ClosedHoursExternal, UserUnavailable, FixedOrderUnavailable,
      NoAgents, RoutingTimeout]"

datatype voicemail_greeting = Recording string | Spoken string

datatype probe_outcome = Reachable | Unreachable | NotAudio | TimedOut

definition usableGreetingUrl ::
    "(string \<Rightarrow> (string \<times> string) option) \<Rightarrow> string option \<Rightarrow> string option" where
  "usableGreetingUrl urlParse cached =
     (case (if truthy cached then urlParse (the cached) else None) of
        None \<Rightarrow> None
      | Some (protocol, href) \<Rightarrow>
          if protocol = ''http:'' \<or> protocol = ''https:'' then Some href else None)"

definition chooseVoicemailGreeting ::
    "voicemail_reason \<Rightarrow> string option \<Rightarrow> probe_outcome option \<Rightarrow> voicemail_greeting" where
  "chooseVoicemailGreeting reason customGreetingUrl probeOutcome =
     (if truthy customGreetingUrl \<and> probeOutcome = Some Reachable
      then Recording (the customGreetingUrl)
      else Spoken (voicemailGreeting reason))"

text \<open>The head of a greeting's answer, or why there was none.\<close>

datatype head_response = HeadTimeout | HeadFailed | HeadAnswered bool "string option"

definition PLAYABLE_CONTENT_TYPES :: "string list" where
  "PLAYABLE_CONTENT_TYPES =
     [''audio/mpeg'', ''audio/wav'', ''audio/wave'', ''audio/x-wav'', ''audio/aiff'',
      ''audio/x-aifc'', ''audio/x-aiff'', ''audio/x-gsm'', ''audio/gsm'', ''audio/ulaw'']"

definition toLowerChar :: "char \<Rightarrow> char" where
  "toLowerChar c =
     (let n = (of_char c :: nat) in if 65 \<le> n \<and> n \<le> 90 then char_of (n + 32) else c)"

definition probeGreetingUrl :: "head_response \<Rightarrow> probe_outcome" where
  "probeGreetingUrl answer =
     (case answer of
        HeadTimeout \<Rightarrow> TimedOut
      | HeadFailed \<Rightarrow> Unreachable
      | HeadAnswered ok header \<Rightarrow>
          if \<not> ok then Unreachable
          else case map_option (\<lambda>h. map toLowerChar (trim (takeWhile (\<lambda>c. c \<noteq> CHR '';'') h))) header of
              None \<Rightarrow> NotAudio
            | Some contentType \<Rightarrow>
                if contentType \<noteq> [] \<and> contentType \<in> set PLAYABLE_CONTENT_TYPES
                then Reachable else NotAudio)"

datatype inbound_plan =
  PlanVoicemail voicemail_reason
| PlanForward phone nat
| PlanRing open_hours_routing "user_id list" "nat option" voicemail_reason

definition planInboundCall ::
    "(millis \<Rightarrow> string \<Rightarrow> intl_parts) \<Rightarrow> cached_routing \<Rightarrow> millis \<Rightarrow> inbound_plan" where
  "planInboundCall intl routing now =
     (if routingTarget routing = USER then
        PlanRing SIMULTANEOUS (userIds routing)
          (map_option settingsRingDuration (settings routing)) UserUnavailable
      else
        let closed = (case settings routing of
              None \<Rightarrow> None
            | Some st \<Rightarrow>
                (case checkBusinessHours intl st now of
                   IsOpen \<Rightarrow> None
                 | OnHoliday name rtype value \<Rightarrow> Some (st, rtype, value)
                 | OutsideHours \<Rightarrow>
                     Some (st, closedHoursRoutingType st, closedHoursExternalNumber st)))
        in case closed of
            Some (st, rtype, value) \<Rightarrow>
              if rtype = EXTERNAL_NUMBER \<and> truthy value
              then PlanForward (the value) (settingsRingDuration st)
              else PlanVoicemail ClosedHours
          | None \<Rightarrow>
              if map_option openHoursRoutingType (settings routing) = Some FIXED_ORDER then
                let ordered = (case orderedUsers routing of
                      Some us \<Rightarrow> map ouUserId (sort_key ouOrder us)
                    | None \<Rightarrow> userIds routing)
                in PlanRing FIXED_ORDER ordered
                     (map_option settingsRingDuration (settings routing)) FixedOrderUnavailable
              else PlanRing SIMULTANEOUS (userIds routing)
                     (map_option settingsRingDuration (settings routing)) NoAgents)"

section \<open>The line of an outbound call\<close>

datatype outbound_plan =
  RefuseOutbound outbound_grant_refusal
| DialOutbound phone "department_id option" "string option"

definition planOutboundCall :: "user_id \<Rightarrow> phone \<Rightarrow> cached_routing option \<Rightarrow> outbound_plan" where
  "planOutboundCall agentUserId line routing =
     (case routing of
        None \<Rightarrow> RefuseOutbound LineUnavailable
      | Some r \<Rightarrow>
          if agentUserId \<notin> set (userIds r) then RefuseOutbound LineNotAllowed
          else if voiceEnabled r = Some False then RefuseOutbound LineWithoutVoice
          else if routingTarget r = DEPARTMENT
          then DialOutbound line (routingDepartmentId r) (routingDepartmentName r)
          else DialOutbound line None None)"

section \<open>The lookup and its circuit breaker\<close>

definition CIRCUIT_OPEN_AFTER_FAILURES :: nat where
  "CIRCUIT_OPEN_AFTER_FAILURES = 5"

definition CIRCUIT_RESET_MS :: nat where
  "CIRCUIT_RESET_MS = 30000"

record breaker =
  failures :: nat
  lastFailureAt :: millis

definition closedBreaker :: breaker where
  "closedBreaker = \<lparr>failures = 0, lastFailureAt = 0\<rparr>"

text \<open>What the API answered: a status with a body, or nothing (unreachable, or timed out).\<close>

datatype api_answer = ApiAnswered nat string | ApiUnreachable

definition isCircuitOpen :: "millis \<Rightarrow> breaker \<Rightarrow> bool \<times> breaker" where
  "isCircuitOpen now b =
     (if failures b < CIRCUIT_OPEN_AFTER_FAILURES then (False, b)
      else if int now - int (lastFailureAt b) > int CIRCUIT_RESET_MS
      then (False, b\<lparr>failures := 0\<rparr>)
      else (True, b))"

definition recordFailure :: "millis \<Rightarrow> breaker \<Rightarrow> breaker" where
  "recordFailure now b = b\<lparr>failures := failures b + 1, lastFailureAt := now\<rparr>"

definition recordSuccess :: "breaker \<Rightarrow> breaker" where
  "recordSuccess b = b\<lparr>failures := 0\<rparr>"

definition fetchFromApi ::
    "(string \<Rightarrow> cached_routing option) \<Rightarrow> api_answer \<Rightarrow> millis \<Rightarrow> breaker
       \<Rightarrow> cached_routing option \<times> breaker" where
  "fetchFromApi parse answer now b =
     (case answer of
        ApiUnreachable \<Rightarrow> (None, recordFailure now b)
      | ApiAnswered status body \<Rightarrow>
          if status = 404 then (None, recordSuccess b)
          else if \<not> (200 \<le> status \<and> status < 300) then (None, recordFailure now b)
          else (parse body, recordSuccess b))"

text \<open>
  One lookup: what the cache held, what the API would answer, the time the breaker is looked at and
  the time a failure would be recorded. The flag of the result says whether the API was asked.
\<close>

definition lookupByPhone ::
    "(string \<Rightarrow> cached_routing option) \<Rightarrow> string option \<Rightarrow> api_answer \<Rightarrow> millis \<Rightarrow> millis
       \<Rightarrow> breaker \<Rightarrow> cached_routing option \<times> bool \<times> breaker" where
  "lookupByPhone parse cached answer now failedAt b =
     (case (if truthy cached then parse (the cached) else None) of
        Some routing \<Rightarrow> (Some routing, False, b)
      | None \<Rightarrow>
          let (isTripped, b') = isCircuitOpen now b in
          if isTripped then (None, False, b')
          else let (r, b'') = fetchFromApi parse answer failedAt b' in (r, True, b''))"

text \<open>A run of lookups of one controller instance, and how many of them asked the API.\<close>

fun lookups ::
    "(string \<Rightarrow> cached_routing option) \<Rightarrow> (string option \<times> api_answer \<times> millis \<times> millis) list
       \<Rightarrow> breaker \<Rightarrow> nat \<times> breaker" where
  "lookups parse [] b = (0, b)"
| "lookups parse ((cached, answer, now, failedAt) # ls) b =
     (let (_, asked, b') = lookupByPhone parse cached answer now failedAt b;
          (n, b'') = lookups parse ls b'
      in ((if asked then Suc n else n), b''))"

text \<open>An API that gives no usable answer: unreachable, or neither a success nor a 404.\<close>

fun apiFails :: "api_answer \<Rightarrow> bool" where
  "apiFails ApiUnreachable = True"
| "apiFails (ApiAnswered status body) = (status \<noteq> 404 \<and> \<not> (200 \<le> status \<and> status < 300))"

section \<open>Facts about plans\<close>

lemma set_VOICEMAIL_REASONS: "r \<in> set VOICEMAIL_REASONS"
  by (cases r) (simp_all add: VOICEMAIL_REASONS_def)

lemma planInboundCall_ring_open:
  assumes "planInboundCall intl routing now = PlanRing strategy users dur reason"
    and "routingTarget routing = DEPARTMENT" and "settings routing = Some st"
  shows "checkBusinessHours intl st now = IsOpen"
  using assms
  by (auto simp: planInboundCall_def Let_def split: if_splits business_hours_status.splits)

lemma planInboundCall_forward:
  assumes "planInboundCall intl routing now = PlanForward number dur"
  obtains st where "settings routing = Some st" "checkBusinessHours intl st now \<noteq> IsOpen"
    "number \<noteq> []" "dur = settingsRingDuration st"
  using assms
  by (auto simp: planInboundCall_def Let_def truthy_iff
      split: if_splits business_hours_status.splits option.splits)

lemma planInboundCall_fixed_order:
  assumes "planInboundCall intl routing now = PlanRing FIXED_ORDER users dur reason"
  shows "users = (case orderedUsers routing of
      Some us \<Rightarrow> map ouUserId (sort_key ouOrder us) | None \<Rightarrow> userIds routing)"
  using assms
  by (auto simp: planInboundCall_def Let_def split: if_splits business_hours_status.splits
      option.splits)

section \<open>Facts about the breaker\<close>

lemma isCircuitOpen_cases:
  "isCircuitOpen now b = (c, b') \<Longrightarrow>
     (c \<and> b' = b \<and> 5 \<le> failures b \<and> int now \<le> int (lastFailureAt b) + 30000) \<or>
     (\<not> c \<and> lastFailureAt b' = lastFailureAt b \<and> (b' = b \<and> failures b < 5 \<or>
        failures b' = 0 \<and> int now > int (lastFailureAt b) + 30000))"
  by (auto simp: isCircuitOpen_def CIRCUIT_OPEN_AFTER_FAILURES_def CIRCUIT_RESET_MS_def
      split: if_splits)

lemma lookupByPhone_not_asked:
  "lookupByPhone parse cached answer now failedAt b = (r, False, b') \<Longrightarrow> b' = b"
  by (auto simp: lookupByPhone_def dest: isCircuitOpen_cases split: option.splits prod.splits if_splits)

lemma lookupByPhone_fails:
  assumes "lookupByPhone parse cached answer now failedAt b = (r, True, b')" and "apiFails answer"
    and "int now \<le> int (lastFailureAt b) + 30000 \<or> failures b = 0"
  shows "failures b' = Suc (failures b) \<and> failures b < 5 \<and> lastFailureAt b' = failedAt"
  using assms
  by (cases answer)
    (auto simp: lookupByPhone_def fetchFromApi_def recordFailure_def
      dest!: isCircuitOpen_cases split: option.splits prod.splits if_splits)

lemma lookups_bound:
  assumes "\<forall>(cached, answer, now, failedAt) \<in> set ls.
      apiFails answer \<and> t0 \<le> failedAt \<and> now \<le> t0 + 30000"
    and "failures b = 0 \<or> t0 \<le> lastFailureAt b" and "failures b \<le> 5"
  shows "fst (lookups parse ls b) + failures b \<le> 5"
  using assms
proof (induction ls arbitrary: b)
  case (Cons l ls)
  obtain cached answer now failedAt where l: "l = (cached, answer, now, failedAt)"
    by (cases l) auto
  obtain r asked b' where one: "lookupByPhone parse cached answer now failedAt b = (r, asked, b')"
    by (cases "lookupByPhone parse cached answer now failedAt b") auto
  obtain n b'' where rest: "lookups parse ls b' = (n, b'')" by fastforce
  have here: "apiFails answer" "t0 \<le> failedAt" "now \<le> t0 + 30000"
    using Cons.prems(1) by (auto simp: l)
  have later: "\<forall>(cached, answer, now, failedAt) \<in> set ls.
      apiFails answer \<and> t0 \<le> failedAt \<and> now \<le> t0 + 30000"
    using Cons.prems(1) by simp
  show ?case
  proof (cases asked)
    case True
    have "int now \<le> int (lastFailureAt b) + 30000 \<or> failures b = 0"
      using here(3) Cons.prems(2) by auto
    then have b': "failures b' = Suc (failures b) \<and> failures b < 5 \<and> lastFailureAt b' = failedAt"
      using lookupByPhone_fails [of parse cached answer now failedAt b r b'] one True here(1) by simp
    then have "n + failures b' \<le> 5"
      using Cons.IH [OF later, of b'] here(2) rest by simp
    then show ?thesis using b' by (simp add: l one rest True)
  next
    case False
    then have "b' = b" using lookupByPhone_not_asked one by simp
    then show ?thesis
      using Cons.IH [OF later Cons.prems(2,3)] rest by (simp add: l one False)
  qed
qed simp

section \<open>Properties\<close>

text \<open>A department that rings in a fixed order is rung in it: the members of the plan are those of
  the routing entry, each as often as listed, by ascending order and, where orders tie, as listed.\<close>

theorem fixed_order_is_kept:
  assumes "planInboundCall intl routing now = PlanRing FIXED_ORDER us dur reason"
    and "orderedUsers routing = Some members"
  shows "\<exists>sorted_members. us = map ouUserId sorted_members \<and> mset sorted_members = mset members
    \<and> sorted (map ouOrder sorted_members)
    \<and> (\<forall>k. filter (\<lambda>m. ouOrder m = k) sorted_members = filter (\<lambda>m. ouOrder m = k) members)"
  using planInboundCall_fixed_order [OF assms(1)] assms(2)
  by (intro exI [of _ "sort_key ouOrder members"]) (simp add: sort_key_stable [of ouOrder])

definition orderedLine :: cached_routing where
  "orderedLine = \<lparr>routingTarget = DEPARTMENT, userIds = [''u1'', ''u2''], voiceEnabled = Some True,
     orderedUsers = Some [\<lparr>ouUserId = ''u2'', ouOrder = 2\<rparr>, \<lparr>ouUserId = ''u1'', ouOrder = 1\<rparr>],
     settings = Some \<lparr>timezone = ''UTC'', is24Hours = True, openHoursRoutingType = FIXED_ORDER,
       settingsRingDuration = 20, closedHoursRoutingType = VOICEMAIL,
       closedHoursExternalNumber = None, settingsGreetingUrl = None, businessHours = [],
       holidays = []\<rparr>,
     routingDepartmentId = Some ''d1'', routingDepartmentName = None, routingUserId = None,
     routingUserName = None\<rparr>"

definition noParts :: intl_parts where
  "noParts = \<lparr>partYear = None, partMonth = None, partDay = None, partHour = None,
     partMinute = None, partWeekday = None\<rparr>"

theorem fixed_order_is_kept_witness:
  "\<exists>sorted_members :: ordered_user list. map ouUserId sorted_members = [''u1'', ''u2''] \<and>
     sorted (map ouOrder sorted_members)"
proof -
  have run: "planInboundCall (\<lambda>_ _. noParts) orderedLine 0
      = PlanRing FIXED_ORDER [''u1'', ''u2''] (Some 20) FixedOrderUnavailable"
    by (simp add: planInboundCall_def orderedLine_def checkBusinessHours_def Let_def)
  have "orderedUsers orderedLine = Some (the (orderedUsers orderedLine))"
    by (simp add: orderedLine_def)
  from fixed_order_is_kept [OF run this] show ?thesis
    by (elim exE conjE) (metis (no_types))
qed

text \<open>A failing API is asked at most five times in any half minute, however many calls need it: the
  breaker of one controller instance opens after five failures in a row and stays open until the
  last of them is thirty seconds old.\<close>

theorem failing_api_is_asked_five_times:
  assumes "\<forall>(cached, answer, now, failedAt) \<in> set ls.
      apiFails answer \<and> t0 \<le> failedAt \<and> now \<le> t0 + 30000"
  shows "fst (lookups parse ls closedBreaker) \<le> 5"
proof -
  have "failures closedBreaker = 0" by (simp add: closedBreaker_def)
  then show ?thesis
    using lookups_bound [OF assms, where b = closedBreaker and parse = parse] by linarith
qed

theorem failing_api_is_asked_five_times_witness:
  "fst (lookups (\<lambda>_. None) (replicate 8 (None, ApiUnreachable, 1000, 1000)) closedBreaker) \<le> 5"
  by (rule failing_api_is_asked_five_times [where ?t0.0 = 1000]) simp

end
