(* ===== verification/Call_Decisions.thy ===== *)
theory Call_Decisions
  imports Call_Control Routing
begin

text \<open>
  Every change the flow and the telephony service decide on a call's state: the functions handed to
  \<open>updateCallState\<close> in \<open>apps/call-controller/src/calls/call-flow.ts\<close> and
  \<open>telephony.service.ts\<close>, each as a function from the state it is decided on to a result, the
  changed draft, and whether the state is removed. \<open>call_write\<close> is the step relation of a stored
  state: one rule per decision.
\<close>

section \<open>The shape of a change\<close>

datatype 'r change = Change (chResult: 'r) (chDraft: call_state) (chRemove: bool)

definition keep :: "'r \<Rightarrow> call_state \<Rightarrow> 'r change" where
  "keep r s = Change r s False"

definition forget :: "'r \<Rightarrow> call_state \<Rightarrow> 'r change" where
  "forget r s = Change r s True"

definition clearTransfer :: "call_state \<Rightarrow> call_state" where
  "clearTransfer s = s\<lparr>pendingTransferToUserId := None, transferInitiatedBy := None,
     transferOriginLegUuid := None\<rparr>"

section \<open>Decisions of the telephony service\<close>

definition decideConferenceReference :: "string \<Rightarrow> call_state \<Rightarrow> unit change" where
  "decideConferenceReference sid draft = keep () (draft\<lparr>conferenceSid := Some sid\<rparr>)"

text \<open>A leg dialed to a user's softphone: the user and the leg.\<close>

type_synonym agent_leg = "user_id \<times> leg_id"

fun addAgentLegs :: "agent_leg list \<Rightarrow> (leg_id \<times> user_id) list \<Rightarrow> (leg_id \<times> user_id) list" where
  "addAgentLegs [] m = m"
| "addAgentLegs ((user, leg) # legs) m = addAgentLegs legs (AList.update leg user m)"

definition decideRegisterAgentLegs :: "agent_leg list \<Rightarrow> call_state \<Rightarrow> bool change" where
  "decideRegisterAgentLegs legs draft =
     (if ending draft then keep False draft
      else keep True (draft\<lparr>
        agentLegs := addAgentLegs legs (agentLegs draft),
        pendingAgentLegUuids := uniq (pendingAgentLegUuids draft @ map snd legs)\<rparr>))"

definition decideExternalLeg :: "leg_id \<Rightarrow> call_state \<Rightarrow> bool change" where
  "decideExternalLeg leg draft =
     (if ending draft then keep False draft
      else keep True (draft\<lparr>externalLegUuid := Some leg\<rparr>))"

section \<open>Decisions of call control\<close>

definition decideEndCall :: "millis \<Rightarrow> user_id option \<Rightarrow> call_state \<Rightarrow> unit change" where
  "decideEndCall now initiatedBy draft =
     (if \<not> ending draft
      then keep () (clearTransfer (draft\<lparr>ending := True, endingRequestedAt := Some now,
             endingRequestedBy := initiatedBy\<rparr>))
      else keep () draft)"

record mark_result =
  markRefusal :: "call_control_refusal option"
  lostRingLegUuids :: "leg_id list"

definition decideMarkTransfer ::
    "leg_metadata \<Rightarrow> call_control_request \<Rightarrow> user_id \<Rightarrow> call_state \<Rightarrow> mark_result change" where
  "decideMarkTransfer leg request target draft =
     (case refuseTransfer draft leg request target of
        Some refusal \<Rightarrow> keep \<lparr>markRefusal = Some refusal, lostRingLegUuids = []\<rparr> draft
      | None \<Rightarrow>
          let lost = map fst (filter (\<lambda>(l, user). user = target) (agentLegs draft));
              draft' = fold removeLeg lost draft
          in keep \<lparr>markRefusal = None, lostRingLegUuids = lost\<rparr>
               (draft'\<lparr>pendingTransferToUserId := Some target,
                 transferInitiatedBy := Some (requestUserId request),
                 transferOriginLegUuid := Some (requestLegUuid request)\<rparr>))"

definition decideRecordHold :: "bool \<Rightarrow> call_state \<Rightarrow> bool change" where
  "decideRecordHold isHeld draft =
     (if ending draft \<or> (held draft = Some True) = isHeld then keep False draft
      else keep True (draft\<lparr>held := Some isHeld\<rparr>))"

record settled_transfer =
  settledPlan :: transfer_failure_plan
  settledInitiatedBy :: "user_id option"
  settledRingingLegUuids :: "leg_id list"

definition decideFailPendingTransfer :: "user_id \<Rightarrow> call_state \<Rightarrow> settled_transfer option change" where
  "decideFailPendingTransfer target draft =
     (if ending draft \<or> pendingTransferToUserId draft \<noteq> Some target then keep None draft
      else keep (Some \<lparr>settledPlan = planTransferFailure draft,
             settledInitiatedBy = transferInitiatedBy draft,
             settledRingingLegUuids = map fst (filter (\<lambda>(l, user). user = target
                 \<and> Some l \<noteq> agentLegUuid draft) (agentLegs draft))\<rparr>)
           (clearTransfer draft))"

section \<open>Decisions of ringing and voicemail\<close>

definition decideRingTurn :: "nat \<Rightarrow> call_state \<Rightarrow> bool change" where
  "decideRingTurn index draft =
     (if ending draft \<or> answered draft \<or> voicemail draft then keep False draft
      else keep True (draft\<lparr>currentQueueIndex := Some index\<rparr>))"

definition decideVoicemailInsteadOfRinging :: "call_state \<Rightarrow> bool change" where
  "decideVoicemailInsteadOfRinging draft =
     (if ending draft then keep False draft else keep True (draft\<lparr>voicemail := True\<rparr>))"

record moved_to_voicemail =
  movedHangUpLegUuids :: "leg_id list"
  movedWasHeld :: bool

definition decideRouteCallerToVoicemail :: "call_state \<Rightarrow> moved_to_voicemail option change" where
  "decideRouteCallerToVoicemail draft =
     (let stillRinging = (\<not> answered draft \<and> pendingAgentLegUuids draft \<noteq> []) in
      if \<not> truthy (callerLegUuid draft) \<or> ending draft \<or> voicemail draft \<or> stillRinging
      then keep None draft
      else keep (Some \<lparr>movedHangUpLegUuids = map fst (agentLegs draft)
               @ (if truthy (externalLegUuid draft) then [the (externalLegUuid draft)] else []),
             movedWasHeld = (held draft = Some True)\<rparr>)
           (draft\<lparr>voicemail := True, pendingAgentLegUuids := [], agentLegs := [],
              agentLegUuid := None, externalLegUuid := None, held := Some False\<rparr>))"

definition decideFinalize :: "call_state \<Rightarrow> unit change" where
  "decideFinalize draft = forget () draft"

section \<open>Decisions on a participant who joined\<close>

definition decideCallerJoined :: "leg_id \<Rightarrow> call_state \<Rightarrow> unit change" where
  "decideCallerJoined leg draft = keep () (draft\<lparr>callerLegUuid := Some leg\<rparr>)"

definition decideExternalJoined :: "leg_id \<Rightarrow> call_state \<Rightarrow> bool change" where
  "decideExternalJoined leg draft =
     (let firstAnswer = (\<not> answered draft \<and> direction draft = Outbound)
      in keep firstAnswer (draft\<lparr>answered := True, externalLegUuid := Some leg\<rparr>))"

record transfer_handover =
  hoFromUserId :: user_id
  hoToUserId :: user_id
  hoAnsweredLegUuid :: leg_id
  hoInitiatedBy :: "user_id option"
  hoReleasedLegUuids :: "leg_id list"

datatype agent_join =
  Intruder
| Joined (joinFirstAnswer: bool) (joinLosingLegUuids: "leg_id list")
    (joinTransfer: "transfer_handover option")

definition decideAgentJoined :: "user_id \<Rightarrow> leg_id \<Rightarrow> call_state \<Rightarrow> agent_join change" where
  "decideAgentJoined agentUserId leg draft =
     (let wasAnswered = answered draft;
          previousAgentUserId = activeAgentUserId draft;
          isTransferTarget = (pendingTransferToUserId draft = Some agentUserId)
      in if wasAnswered \<and> \<not> isTransferTarget \<and> previousAgentUserId \<noteq> None
            \<and> previousAgentUserId \<noteq> Some agentUserId
         then keep Intruder draft
         else
           let otherLegs = filter (\<lambda>other. other \<noteq> leg) (map fst (agentLegs draft));
               transfer = (if isTransferTarget \<and> truthy previousAgentUserId
                 then Some \<lparr>
                   hoFromUserId = getOr (transferInitiatedBy draft) (the previousAgentUserId),
                   hoToUserId = agentUserId, hoAnsweredLegUuid = leg,
                   hoInitiatedBy = transferInitiatedBy draft, hoReleasedLegUuids = otherLegs\<rparr>
                 else None);
               seated = draft\<lparr>agentLegUuid := Some leg, activeAgentUserId := Some agentUserId,
                 pendingAgentLegUuids :=
                   filter (\<lambda>pending. pending \<noteq> leg) (pendingAgentLegUuids draft)\<rparr>;
               settled = (if transfer \<noteq> None then clearTransfer seated else seated);
               firstAnswer = (\<not> wasAnswered \<and> direction draft = Inbound);
               final = (if firstAnswer then settled\<lparr>answered := True\<rparr> else settled)
           in keep (Joined firstAnswer (if firstAnswer then otherLegs else []) transfer) final)"

section \<open>Decisions on a leg that ended\<close>

datatype leg_end_plan =
  Ignored
| Forgotten
| CallOver (overFinal: call_state) (overHangUpLegUuids: "leg_id list")
| RingNext
| LegVoicemail voicemail_reason
| TransferFellThrough user_id transfer_failure_reason

definition decideLegEnded ::
    "call_participant \<Rightarrow> leg_id \<Rightarrow> call_end_status \<Rightarrow> call_state \<Rightarrow> leg_end_plan change" where
  "decideLegEnded participant leg status draft =
     (if leg \<notin> set (legUuidsOf draft) then keep Ignored draft
      else if ending draft then
        let d = removeLeg leg draft in
        if hasActiveLegs d then keep Forgotten d else forget (CallOver d []) d
      else if participantType participant = Caller then
        forget (CallOver draft (filter (\<lambda>other. other \<noteq> leg) (legUuidsOf draft))) draft
      else
        let wasActiveAgent = (agentLegUuid draft = Some leg);
            d = removeLeg leg draft;
            everyOtherLeg = legUuidsOf d
        in case participantType participant of
            External \<Rightarrow>
              if direction d = Outbound then forget (CallOver d everyOtherLeg) d
              else if \<not> answered d \<and> truthy (callerLegUuid d)
              then keep (LegVoicemail ClosedHoursExternal) d
              else forget (CallOver d []) d
          | _ \<Rightarrow>
              if \<not> answered d then
                if direction d = Outbound then forget (CallOver d everyOtherLeg) d
                else if ringStrategy d = Some FIXED_ORDER
                then keep RingNext
                       (d\<lparr>currentQueueIndex := Some (getOr (currentQueueIndex d) 0 + 1)\<rparr>)
                else if pendingAgentLegUuids d \<noteq> [] then keep Forgotten d
                else keep (LegVoicemail RoutingTimeout) d
              else if wasActiveAgent \<and> \<not> truthy (pendingTransferToUserId d)
              then forget (CallOver d everyOtherLeg) d
              else
                let agentUserId = participantId participant;
                    fellThrough = (pendingTransferToUserId d = Some agentUserId
                      \<and> agentUserId \<notin> snd ` set (agentLegs d))
                in if fellThrough
                   then keep (TransferFellThrough agentUserId (transferFailureReasonOf status)) d
                   else keep Forgotten d)"

section \<open>The step relation of a stored state\<close>

text \<open>
  One write to a call's state as the code decides it: the state it was decided on, and what the
  change left, \<open>None\<close> once removed. The version the store adds is not part of the decision.
\<close>

definition outcome :: "'r change \<Rightarrow> call_state option" where
  "outcome c = (if chRemove c then None else Some (chDraft c))"

inductive call_write :: "call_state \<Rightarrow> call_state option \<Rightarrow> bool" where
  conference: "call_write s (outcome (decideConferenceReference sid s))"
| register: "call_write s (outcome (decideRegisterAgentLegs legs s))"
| external_leg: "call_write s (outcome (decideExternalLeg l s))"
| end_call: "call_write s (outcome (decideEndCall now by_user s))"
| mark_transfer: "call_write s (outcome (decideMarkTransfer leg request target s))"
| record_hold: "call_write s (outcome (decideRecordHold h s))"
| fail_transfer: "call_write s (outcome (decideFailPendingTransfer target s))"
| ring_turn: "call_write s (outcome (decideRingTurn i s))"
| voicemail_instead: "call_write s (outcome (decideVoicemailInsteadOfRinging s))"
| to_voicemail: "call_write s (outcome (decideRouteCallerToVoicemail s))"
| finalize: "call_write s (outcome (decideFinalize s))"
| caller_joined: "call_write s (outcome (decideCallerJoined l s))"
| agent_joined: "call_write s (outcome (decideAgentJoined u l s))"
| external_joined: "call_write s (outcome (decideExternalJoined l s))"
| leg_ended: "call_write s (outcome (decideLegEnded p l st s))"

section \<open>Every write keeps the state well formed and moves it forward\<close>

lemma keep_simps [simp]:
  "chResult (keep r s) = r" "chDraft (keep r s) = s" "\<not> chRemove (keep r s)"
  "outcome (keep r s) = Some s"
  by (simp_all add: keep_def outcome_def)

lemma forget_simps [simp]:
  "chResult (forget r s) = r" "chDraft (forget r s) = s" "chRemove (forget r s)"
  "outcome (forget r s) = None"
  by (simp_all add: forget_def outcome_def)

lemma keys_addAgentLegs: "fst ` set (addAgentLegs legs m) = fst ` set m \<union> snd ` set legs"
  by (induction legs m rule: addAgentLegs.induct) auto

lemma distinct_addAgentLegs:
  "distinct (map fst m) \<Longrightarrow> distinct (map fst (addAgentLegs legs m))"
  by (induction legs m rule: addAgentLegs.induct) auto

lemma set_addAgentLegsD:
  "p \<in> set (addAgentLegs legs m) \<Longrightarrow> p \<in> set m \<or> (snd p, fst p) \<in> set legs"
  by (induction legs m rule: addAgentLegs.induct) (auto dest: set_AList_updateD)

lemma fold_removeLeg_wf: "wf_call s \<Longrightarrow> wf_call (fold removeLeg ls s)"
  by (induction ls arbitrary: s) (auto intro: removeLeg_wf)

lemma fold_removeLeg_advances: "advances s (fold removeLeg ls s)"
  by (induction ls arbitrary: s) (auto intro: advances_trans removeLeg_advances)

lemma fold_removeLeg_frame [simp]:
  "conversationUuid (fold removeLeg ls s) = conversationUuid s"
  "pendingTransferToUserId (fold removeLeg ls s) = pendingTransferToUserId s"
  "answered (fold removeLeg ls s) = answered s"
  "version (fold removeLeg ls s) = version s"
  by (induction ls arbitrary: s) simp_all

lemma agentLegs_fold_removeLeg:
  "agentLegs (fold removeLeg ls s) = filter (\<lambda>p. fst p \<notin> set ls) (agentLegs s)"
  by (induction ls arbitrary: s) (auto simp: removeLeg_def AList_delete_filter intro: filter_cong)

lemma pending_fold_removeLeg:
  "pendingAgentLegUuids (fold removeLeg ls s) = filter (\<lambda>l. l \<notin> set ls) (pendingAgentLegUuids s)"
  by (induction ls arbitrary: s) (auto simp: removeLeg_def intro: filter_cong)

lemma wf_register: "wf_call s \<Longrightarrow> wf_call (chDraft (decideRegisterAgentLegs legs s))"
  by (auto simp: decideRegisterAgentLegs_def wf_call_def keys_addAgentLegs distinct_addAgentLegs)

lemma wf_agent_joined: "wf_call s \<Longrightarrow> wf_call (chDraft (decideAgentJoined u l s))"
  by (auto simp: decideAgentJoined_def wf_call_def clearTransfer_def Let_def)

lemma wf_leg_ended: "wf_call s \<Longrightarrow> wf_call (chDraft (decideLegEnded p l st s))"
proof -
  assume wf: "wf_call s"
  let ?d = "removeLeg l s"
  have d: "wf_call ?d" using wf by (rule removeLeg_wf)
  then have "wf_call (?d\<lparr>currentQueueIndex := i\<rparr>)" for i
    by (simp add: wf_call_def)
  then show ?thesis
    using wf d by (simp add: decideLegEnded_def Let_def split: participant_type.split)
qed

lemma advances_leg_ended: "advances s (chDraft (decideLegEnded p l st s))"
proof -
  let ?d = "removeLeg l s"
  have d: "advances s ?d" by (rule removeLeg_advances)
  then have "advances s (?d\<lparr>currentQueueIndex := i\<rparr>)" for i
    by (simp add: advances_def)
  then show ?thesis
    using d by (simp add: decideLegEnded_def Let_def split: participant_type.split)
qed

lemma advances_mark: "advances s (chDraft (decideMarkTransfer leg request target s))"
  using fold_removeLeg_advances [of s]
  by (simp add: decideMarkTransfer_def advances_def Let_def split: option.split)

lemma wf_mark: "wf_call s \<Longrightarrow> wf_call (chDraft (decideMarkTransfer leg request target s))"
proof -
  assume wf: "wf_call s"
  have "wf_call (d\<lparr>pendingTransferToUserId := Some a, transferInitiatedBy := Some b,
      transferOriginLegUuid := Some c\<rparr>)" if "wf_call d" for d a b c
    using that by (simp add: wf_call_def)
  then show ?thesis
    using wf by (simp add: decideMarkTransfer_def fold_removeLeg_wf Let_def split: option.split)
qed

lemmas plain_decisions =
  decideConferenceReference_def decideExternalLeg_def decideEndCall_def decideRecordHold_def
  decideFailPendingTransfer_def decideRingTurn_def decideVoicemailInsteadOfRinging_def
  decideRouteCallerToVoicemail_def decideFinalize_def decideCallerJoined_def
  decideExternalJoined_def clearTransfer_def

lemma call_write_wf:
  assumes "call_write s (Some t)" and "wf_call s"
  shows "wf_call t"
  using assms
proof (cases rule: call_write.cases)
  case register
  then show ?thesis using wf_register [OF assms(2)] by (simp add: outcome_def split: if_splits)
next
  case mark_transfer
  then show ?thesis using wf_mark [OF assms(2)] by (simp add: outcome_def split: if_splits)
next
  case agent_joined
  then show ?thesis using wf_agent_joined [OF assms(2)] by (simp add: outcome_def split: if_splits)
next
  case leg_ended
  then show ?thesis using wf_leg_ended [OF assms(2)] by (simp add: outcome_def split: if_splits)
qed (use assms(2) in \<open>auto simp: plain_decisions wf_call_def Let_def split: if_splits\<close>)

lemma call_write_advances:
  assumes "call_write s (Some t)"
  shows "advances s t"
  using assms
proof (cases rule: call_write.cases)
  case register
  then show ?thesis
    by (auto simp: decideRegisterAgentLegs_def advances_def split: if_splits)
next
  case mark_transfer
  then show ?thesis using advances_mark by (simp add: outcome_def split: if_splits)
next
  case agent_joined
  then show ?thesis
    by (auto simp: decideAgentJoined_def clearTransfer_def advances_def Let_def split: if_splits)
next
  case leg_ended
  then show ?thesis using advances_leg_ended by (simp add: outcome_def split: if_splits)
qed (auto simp: plain_decisions advances_def Let_def split: if_splits)

end
