(* ===== verification/Outbound_Grant.thy ===== *)
theory Outbound_Grant
  imports Routing
begin

text \<open>
  \<open>apps/call-controller/src/calls/outbound-grant.ts\<close>: whether an agent is granted an outbound call
  from a line, and whether the call that comes back with the grant is admitted. Instants are
  milliseconds; the source stores them as ISO text and reads them back with \<open>Date.parse\<close>.
\<close>

definition OUTBOUND_GRANT_TTL_SECONDS :: nat where
  "OUTBOUND_GRANT_TTL_SECONDS = 60"

record outbound_call_grant =
  grantUserId :: user_id
  grantTo :: phone
  grantFromNumber :: phone
  grantDepartmentId :: "department_id option"
  grantDepartmentName :: "string option"
  grantCreatedAt :: millis

record outbound_grant_request =
  ogrUserId :: user_id
  ogrTo :: phone
  ogrFromNumber :: phone

datatype grant_decision = RefuseGrant outbound_grant_refusal | IssueGrant outbound_call_grant

definition decideOutboundGrant ::
    "outbound_grant_request \<Rightarrow> cached_routing option \<Rightarrow> millis \<Rightarrow> grant_decision" where
  "decideOutboundGrant request routing now =
     (case planOutboundCall (ogrUserId request) (ogrFromNumber request) routing of
        RefuseOutbound reason \<Rightarrow> RefuseGrant reason
      | DialOutbound line depId depName \<Rightarrow>
          IssueGrant \<lparr>grantUserId = ogrUserId request, grantTo = ogrTo request,
            grantFromNumber = line, grantDepartmentId = depId, grantDepartmentName = depName,
            grantCreatedAt = now\<rparr>)"

fun GRANT_REFUSAL_STATUS :: "outbound_grant_refusal \<Rightarrow> nat" where
  "GRANT_REFUSAL_STATUS LineUnavailable = 409"
| "GRANT_REFUSAL_STATUS LineWithoutVoice = 409"
| "GRANT_REFUSAL_STATUS LineNotAllowed = 403"

datatype outbound_call_refusal = NoGrant | GrantExpired | WrongCaller

fun outboundCallRefusalMessage :: "outbound_call_refusal \<Rightarrow> string" where
  "outboundCallRefusalMessage NoGrant =
     ''Your call was not placed. Please start it again from the softphone.''"
| "outboundCallRefusalMessage GrantExpired =
     ''Your call was not placed. Starting it took too long. Please try again.''"
| "outboundCallRefusalMessage WrongCaller =
     ''Your call was not placed. It did not come from the softphone it was granted to.''"

datatype admission = RefuseCall outbound_call_refusal | AdmitCall outbound_call_grant

definition CLIENT_SCHEME :: string where
  "CLIENT_SCHEME = ''client:''"

definition admitOutboundCall ::
    "outbound_call_grant option \<Rightarrow> string option \<Rightarrow> millis \<Rightarrow> admission" where
  "admitOutboundCall grant caller now =
     (case grant of
        None \<Rightarrow> RefuseCall NoGrant
      | Some g \<Rightarrow>
          let expiresAt = grantCreatedAt g + OUTBOUND_GRANT_TTL_SECONDS * 1000 in
          if \<not> now < expiresAt then RefuseCall GrantExpired
          else if caller \<noteq> Some (CLIENT_SCHEME @ grantUserId g) then RefuseCall WrongCaller
          else AdmitCall g)"

text \<open>
  What the store holds is JSON text that the schema reads field by field: a field is absent, or a
  string; the instant is absent when it is not an ISO date time.
\<close>

record stored_grant =
  storedUserId :: "string option"
  storedTo :: "string option"
  storedFromNumber :: "string option"
  storedDepartmentId :: "string option"
  storedDepartmentName :: "string option"
  storedCreatedAt :: "millis option"

definition parseStoredGrant :: "stored_grant \<Rightarrow> outbound_call_grant option" where
  "parseStoredGrant v =
     (case (storedUserId v, Option.bind (storedTo v) toE164PhoneNumber,
            Option.bind (storedFromNumber v) toE164PhoneNumber, storedCreatedAt v) of
        (Some uid, Some t, Some f, Some created) \<Rightarrow>
          if uid = [] then None
          else Some \<lparr>grantUserId = uid, grantTo = t, grantFromNumber = f,
            grantDepartmentId = storedDepartmentId v, grantDepartmentName = storedDepartmentName v,
            grantCreatedAt = created\<rparr>
      | _ \<Rightarrow> None)"

text \<open>\<open>JSON.stringify\<close> of a grant: every field the grant has, and no other.\<close>

definition storeGrant :: "outbound_call_grant \<Rightarrow> stored_grant" where
  "storeGrant g =
     \<lparr>storedUserId = Some (grantUserId g), storedTo = Some (grantTo g),
      storedFromNumber = Some (grantFromNumber g), storedDepartmentId = grantDepartmentId g,
      storedDepartmentName = grantDepartmentName g, storedCreatedAt = Some (grantCreatedAt g)\<rparr>"

section \<open>Facts\<close>

lemma decideOutboundGrant_issue:
  "decideOutboundGrant r routing now = IssueGrant g \<longleftrightarrow>
     (\<exists>entry. routing = Some entry \<and> ogrUserId r \<in> set (userIds entry) \<and>
        voiceEnabled entry \<noteq> Some False \<and>
        g = \<lparr>grantUserId = ogrUserId r, grantTo = ogrTo r, grantFromNumber = ogrFromNumber r,
             grantDepartmentId =
               (if routingTarget entry = DEPARTMENT then routingDepartmentId entry else None),
             grantDepartmentName =
               (if routingTarget entry = DEPARTMENT then routingDepartmentName entry else None),
             grantCreatedAt = now\<rparr>)"
  by (auto simp: decideOutboundGrant_def planOutboundCall_def split: option.splits)

lemma admitOutboundCall_admit:
  "admitOutboundCall grant caller now = AdmitCall g \<longleftrightarrow>
     grant = Some g \<and> now < grantCreatedAt g + 60000 \<and> caller = Some (''client:'' @ grantUserId g)"
  by (auto simp: admitOutboundCall_def Let_def OUTBOUND_GRANT_TTL_SECONDS_def CLIENT_SCHEME_def
      split: option.splits)

lemma parseStoredGrant_storeGrant:
  assumes "grantUserId g \<noteq> []" and "normalizePhoneNumber v = Some (grantTo g)"
    and "normalizePhoneNumber w = Some (grantFromNumber g)"
  shows "parseStoredGrant (storeGrant g) = Some g"
  using assms(1) normalizePhoneNumber_fixed [OF assms(2)] normalizePhoneNumber_fixed [OF assms(3)]
  by (simp add: parseStoredGrant_def storeGrant_def toE164PhoneNumber_def)

section \<open>Properties\<close>

text \<open>A call is admitted on exactly the grant that was decided for it: by the user it was granted
  to, within its sixty seconds, from a line the user may call from and that does voice.\<close>

theorem only_a_decided_grant_is_admitted:
  assumes "decideOutboundGrant r routing decidedAt = IssueGrant g"
    and "admitOutboundCall (Some g) caller now = AdmitCall h"
  shows "h = g \<and> caller = Some (''client:'' @ ogrUserId r) \<and> now < decidedAt + 60000
    \<and> grantTo h = ogrTo r \<and> grantFromNumber h = ogrFromNumber r
    \<and> (\<exists>entry. routing = Some entry \<and> ogrUserId r \<in> set (userIds entry)
         \<and> voiceEnabled entry \<noteq> Some False)"
  using assms by (auto simp: decideOutboundGrant_issue admitOutboundCall_admit)

theorem only_a_decided_grant_is_admitted_witness:
  "\<exists>g. admitOutboundCall (Some g) (Some ''client:u1'') 500 = AdmitCall g
    \<and> grantTo g = ''+15551230009''"
proof -
  let ?r = "\<lparr>ogrUserId = ''u1'', ogrTo = ''+15551230009'', ogrFromNumber = ''+15551230002''\<rparr>"
  obtain g where g: "decideOutboundGrant ?r (Some orderedLine) 0 = IssueGrant g"
    by (simp add: decideOutboundGrant_def planOutboundCall_def orderedLine_def)
  then have h: "admitOutboundCall (Some g) (Some ''client:u1'') 500 = AdmitCall g"
    by (simp add: decideOutboundGrant_issue admitOutboundCall_admit)
  have "grantTo g = ogrTo ?r" using only_a_decided_grant_is_admitted [OF g h] by (elim conjE)
  then show ?thesis using h by (intro exI [of _ g]) simp
qed

end
