(* ===== verification/Availability.thy ===== *)
theory Availability
  imports Call_Types
begin

text \<open>
  Who can be offered a call, and the facts it is decided on
  (\<open>apps/call-controller/src/realtime\<close>): the rule of \<open>availability-rule.ts\<close>, the Lua scripts of
  \<open>availability-store.ts\<close> on what Redis holds about one user, and the socket sets of
  \<open>presence.service.ts\<close>. Each script runs atomically in Redis, so each is one function on the
  user's record; the clock is Redis's, in milliseconds.

  Claims and sockets are both sets whose members stop counting when nobody has refreshed them for
  a lifetime. The locale \<open>fading_set\<close> states that contract once; both are interpretations of it.
\<close>

section \<open>The rule\<close>

definition decideAvailability ::
    "nat \<Rightarrow> bool \<Rightarrow> call_id list \<Rightarrow> call_id option \<Rightarrow> availability_state" where
  "decideAvailability sockets doNotDisturb calls forCall =
     (if sockets = 0 then Unavailable IsOffline
      else if doNotDisturb then Unavailable IsDnd
      else if list_ex (\<lambda>call. Some call \<noteq> forCall) calls then Unavailable IsBusy
      else Available)"

section \<open>What Redis holds about a user\<close>

definition CLAIM_RENEW_INTERVAL_MS :: nat where
  "CLAIM_RENEW_INTERVAL_MS = 30000"

definition CLAIM_LIFETIME_MS :: nat where
  "CLAIM_LIFETIME_MS = 90000"

record user_store =
  revision :: nat
  doNotDisturb :: bool
  availableSince :: "millis option"
  sinceRevision :: "nat option"
  claims :: "(call_id \<times> millis) list"

definition emptyUser :: user_store where
  "emptyUser = \<lparr>revision = 0, doNotDisturb = False, availableSince = None, sinceRevision = None,
     claims = []\<rparr>"

record stored_availability =
  saUserId :: user_id
  saRevision :: nat
  saDoNotDisturb :: bool
  saCalls :: "call_id list"
  saAvailableSince :: "millis option"

text \<open>A sorted set scored by time: its members scored after \<open>now - lifetime\<close>.\<close>

definition freshOf :: "nat \<Rightarrow> millis \<Rightarrow> ('a \<times> millis) list \<Rightarrow> ('a \<times> millis) list" where
  "freshOf lifetime now xs = filter (\<lambda>(x, t). int t > int now - int lifetime) xs"

definition readScript :: "millis \<Rightarrow> user_id \<Rightarrow> user_store \<Rightarrow> stored_availability" where
  "readScript now user u =
     \<lparr>saUserId = user, saRevision = revision u, saDoNotDisturb = doNotDisturb u,
      saCalls = map fst (freshOf CLAIM_LIFETIME_MS now (claims u)),
      saAvailableSince = availableSince u\<rparr>"

text \<open>
  The claim: \<open>None\<close> is the script's \<open>-1\<close>, when the revision moved on since it was read; otherwise
  the revision after the claim, and whether the claim is new.
\<close>

definition claimScript ::
    "nat option \<Rightarrow> call_id \<Rightarrow> millis \<Rightarrow> user_store \<Rightarrow> (nat \<times> bool) option \<times> user_store" where
  "claimScript expected call now u =
     (if expected \<noteq> None \<and> expected \<noteq> Some (revision u) then (None, u)
      else
        let kept = freshOf CLAIM_LIFETIME_MS now (claims u);
            added = (call \<notin> fst ` set kept);
            rev = (if added then revision u + 1 else revision u)
        in (Some (rev, added), u\<lparr>claims := AList.update call now kept, revision := rev\<rparr>))"

definition releaseScript :: "call_id \<Rightarrow> user_store \<Rightarrow> nat option \<times> user_store" where
  "releaseScript call u =
     (if call \<notin> fst ` set (claims u) then (None, u)
      else (Some (revision u + 1),
            u\<lparr>claims := AList.delete call (claims u), revision := revision u + 1\<rparr>))"

text \<open>One user's turn of the renewal: whether a claim that had run out was taken again.\<close>

definition renewScript :: "call_id \<Rightarrow> millis \<Rightarrow> user_store \<Rightarrow> bool \<times> user_store" where
  "renewScript call now u =
     (let restored = (case map_of (claims u) call of
            None \<Rightarrow> True | Some score \<Rightarrow> int score \<le> int now - int CLAIM_LIFETIME_MS)
      in (restored, u\<lparr>claims := AList.update call now (claims u),
            revision := (if restored then revision u + 1 else revision u)\<rparr>))"

definition markChangedScript :: "user_store \<Rightarrow> nat \<times> user_store" where
  "markChangedScript u = (revision u + 1, u\<lparr>revision := revision u + 1\<rparr>)"

definition doNotDisturbScript :: "bool \<Rightarrow> user_store \<Rightarrow> (nat \<times> bool) \<times> user_store" where
  "doNotDisturbScript on u =
     (if doNotDisturb u = on then ((revision u, False), u)
      else ((revision u + 1, True), u\<lparr>doNotDisturb := on, revision := revision u + 1\<rparr>))"

definition recordEligibilityScript :: "nat \<Rightarrow> bool \<Rightarrow> millis \<Rightarrow> user_store \<Rightarrow> user_store" where
  "recordEligibilityScript rv eligible now u =
     (if (case sinceRevision u of None \<Rightarrow> False | Some seen \<Rightarrow> rv < seen) then u
      else
        let u' = u\<lparr>sinceRevision := Some rv\<rparr>
        in if \<not> eligible then u'\<lparr>availableSince := None\<rparr>
           else if availableSince u = None then u'\<lparr>availableSince := Some now\<rparr>
           else u')"

section \<open>Presence\<close>

definition SOCKET_HEARTBEAT_MS :: nat where
  "SOCKET_HEARTBEAT_MS = 30000"

definition SOCKET_STALE_AFTER_MS :: nat where
  "SOCKET_STALE_AFTER_MS = 3 * SOCKET_HEARTBEAT_MS"

type_synonym socket_set = "(socket_id \<times> millis) list"

definition millisecondsOf :: "nat \<Rightarrow> nat \<Rightarrow> millis" where
  "millisecondsOf seconds microseconds = seconds * 1000 + microseconds div 1000"

text \<open>The transaction of \<open>registerSocket\<close>: add or refresh, then drop the stale ones.\<close>

definition registerSocketTx :: "socket_id \<Rightarrow> millis \<Rightarrow> socket_set \<Rightarrow> socket_set" where
  "registerSocketTx socket now s =
     freshOf SOCKET_STALE_AFTER_MS now (AList.update socket now s)"

definition unregisterSocketTx :: "socket_id \<Rightarrow> socket_set \<Rightarrow> socket_set" where
  "unregisterSocketTx socket s = AList.delete socket s"

definition membersScoredAfter :: "socket_set \<Rightarrow> int \<Rightarrow> socket_id list" where
  "membersScoredAfter s threshold = map fst (filter (\<lambda>(x, t). int t > threshold) s)"

definition liveSockets :: "millis \<Rightarrow> socket_set \<Rightarrow> socket_id list" where
  "liveSockets now s = membersScoredAfter s (int now - int SOCKET_STALE_AFTER_MS)"

section \<open>The contract of a set whose members fade\<close>

text \<open>
  \<open>touch\<close> adds or refreshes a member at an instant, \<open>drop\<close> takes it out, and \<open>alive\<close> says who counts
  at an instant. Sets the operations build satisfy \<open>ok\<close>.
\<close>

locale fading_set =
  fixes touch :: "'m \<Rightarrow> millis \<Rightarrow> 's \<Rightarrow> 's"
    and remove :: "'m \<Rightarrow> 's \<Rightarrow> 's"
    and alive :: "millis \<Rightarrow> 's \<Rightarrow> 'm set"
    and ok :: "'s \<Rightarrow> bool"
    and lifetime :: nat
  assumes ok_touch: "ok s \<Longrightarrow> ok (touch m t s)"
    and ok_remove: "ok s \<Longrightarrow> ok (remove m s)"
    and alive_touch: "ok s \<Longrightarrow> now < t + lifetime \<Longrightarrow> m \<in> alive now (touch m t s)"
    and fade_touch: "ok s \<Longrightarrow> t + lifetime \<le> now \<Longrightarrow> m \<notin> alive now (touch m t s)"
    and touch_other: "ok s \<Longrightarrow> x \<noteq> m \<Longrightarrow> t \<le> now \<Longrightarrow>
      x \<in> alive now (touch m t s) \<longleftrightarrow> x \<in> alive now s"
    and alive_remove: "ok s \<Longrightarrow> alive now (remove m s) = alive now s - {m}"
    and alive_antimono: "t \<le> now \<Longrightarrow> alive now s \<subseteq> alive t s"
begin

text \<open>A member touched at each instant of a list, the others left alone.\<close>

lemma ok_touches: "ok s \<Longrightarrow> ok (fold (touch m) ts s)"
  by (induction ts arbitrary: s) (auto intro: ok_touch)

lemma alive_touches:
  assumes "ok s" and "t \<in> set ts" and "\<forall>t' \<in> set ts. t' \<le> now" and "now < t + lifetime"
    and "sorted ts"
  shows "m \<in> alive now (fold (touch m) ts s)"
proof -
  obtain us u where ts: "ts = us @ [u]"
    using assms(2) by (cases ts rule: rev_cases) auto
  have "t \<le> u"
    using assms(2,5) by (auto simp: ts sorted_append)
  then have "now < u + lifetime"
    using assms(4) by simp
  then show ?thesis
    using assms(1) by (simp add: ts alive_touch ok_touches)
qed

text \<open>
  Refreshed every third of a lifetime, a member survives two lost refreshes in a row: it is alive
  at every instant before the third one is due.
\<close>

lemma survives_two_lost_refreshes:
  assumes "ok s" and "lifetime = 3 * interval" and "now < t + 3 * interval"
  shows "m \<in> alive now (touch m t s)"
  using assms by (auto intro: alive_touch)

lemma removed_stays_out:
  assumes "ok s" and "x \<noteq> m" and "t \<le> now"
  shows "m \<notin> alive now (touch x t (remove m s))"
proof -
  have "m \<in> alive now (touch x t (remove m s)) \<longleftrightarrow> m \<in> alive now (remove m s)"
    using assms by (intro touch_other ok_remove) auto
  then show ?thesis
    using assms(1) by (simp add: alive_remove)
qed

end

section \<open>Facts about the sorted sets\<close>

lemma freshOf_iff: "(x, t) \<in> set (freshOf l now xs) \<longleftrightarrow> (x, t) \<in> set xs \<and> int t > int now - int l"
  by (simp add: freshOf_def)

lemma distinct_freshOf [simp]: "distinct (map fst xs) \<Longrightarrow> distinct (map fst (freshOf l now xs))"
  by (simp add: freshOf_def distinct_map_filter)

lemma set_AList_update:
  "distinct (map fst xs) \<Longrightarrow>
     p \<in> set (AList.update k v xs) \<longleftrightarrow> p = (k, v) \<or> fst p \<noteq> k \<and> p \<in> set xs"
  by (induction xs) (auto simp: image_iff)

definition aliveOf :: "nat \<Rightarrow> millis \<Rightarrow> ('a \<times> millis) list \<Rightarrow> 'a set" where
  "aliveOf l now xs = fst ` set (freshOf l now xs)"

lemma aliveOf_iff: "x \<in> aliveOf l now xs \<longleftrightarrow> (\<exists>t. (x, t) \<in> set xs \<and> int t > int now - int l)"
  by (auto simp: aliveOf_def freshOf_def image_iff Bex_def)

lemma aliveOf_update:
  assumes "distinct (map fst xs)"
  shows "aliveOf l now (AList.update k v xs)
       = (if now < v + l then insert k (aliveOf l now xs - {k}) else aliveOf l now xs - {k})"
proof -
  have "int v > int now - int l \<longleftrightarrow> now < v + l" by linarith
  then have "x \<in> aliveOf l now (AList.update k v xs)
      \<longleftrightarrow> x = k \<and> now < v + l \<or> x \<noteq> k \<and> x \<in> aliveOf l now xs" for x
    using assms by (cases "x = k") (simp_all add: aliveOf_iff set_AList_update)
  then show ?thesis by auto
qed

lemma aliveOf_delete: "aliveOf l now (AList.delete k xs) = aliveOf l now xs - {k}"
  by (auto simp: aliveOf_iff set_AList_delete)

lemma aliveOf_freshOf:
  assumes "t \<le> now"
  shows "aliveOf l now (freshOf l t xs) = aliveOf l now xs"
proof -
  have "int ta > int now - int l \<Longrightarrow> int ta > int t - int l" for ta
    using assms by linarith
  then show ?thesis by (fastforce simp: aliveOf_iff freshOf_iff)
qed

lemma aliveOf_antimono:
  assumes "t \<le> now"
  shows "aliveOf l now xs \<subseteq> aliveOf l t xs"
proof -
  have "int ta > int now - int l \<Longrightarrow> int ta > int t - int l" for ta
    using assms by linarith
  then show ?thesis by (fastforce simp: aliveOf_iff)
qed

section \<open>Claims and sockets as fading sets\<close>

definition aliveClaims :: "millis \<Rightarrow> user_store \<Rightarrow> call_id set" where
  "aliveClaims now u = aliveOf CLAIM_LIFETIME_MS now (claims u)"

definition ok_user :: "user_store \<Rightarrow> bool" where
  "ok_user u \<longleftrightarrow> distinct (map fst (claims u))"

lemma saCalls_readScript: "set (saCalls (readScript now user u)) = aliveClaims now u"
  by (simp add: readScript_def aliveClaims_def aliveOf_def)

lemma ok_claim: "ok_user u \<Longrightarrow> ok_user (snd (claimScript e c t u))"
  by (simp add: ok_user_def claimScript_def Let_def)

lemma ok_release: "ok_user u \<Longrightarrow> ok_user (snd (releaseScript c u))"
  by (simp add: ok_user_def releaseScript_def)

lemma ok_renew: "ok_user u \<Longrightarrow> ok_user (snd (renewScript c t u))"
  by (simp add: ok_user_def renewScript_def Let_def)

lemma aliveClaims_claim:
  assumes "ok_user u" and "fst (claimScript e m t u) \<noteq> None" and "t \<le> now"
  shows "aliveClaims now (snd (claimScript e m t u))
       = (if now < t + 90000 then insert m (aliveClaims now u - {m}) else aliveClaims now u - {m})"
proof -
  have "\<not> (e \<noteq> None \<and> e \<noteq> Some (revision u))"
    using assms(2) by (cases e) (simp_all add: claimScript_def split: if_splits)
  then have "claims (snd (claimScript e m t u))
      = AList.update m t (freshOf CLAIM_LIFETIME_MS t (claims u))"
    by (auto simp: claimScript_def Let_def)
  then show ?thesis
    using assms(1,3)
    by (simp add: aliveClaims_def aliveOf_update aliveOf_freshOf ok_user_def CLAIM_LIFETIME_MS_def)
qed

lemma aliveClaims_renew:
  assumes "ok_user u"
  shows "aliveClaims now (snd (renewScript m t u))
       = (if now < t + 90000 then insert m (aliveClaims now u - {m}) else aliveClaims now u - {m})"
  using assms
  by (simp add: renewScript_def Let_def aliveClaims_def aliveOf_update ok_user_def
      CLAIM_LIFETIME_MS_def)

lemma aliveClaims_release: "aliveClaims now (snd (releaseScript m u)) = aliveClaims now u - {m}"
proof (cases "m \<in> fst ` set (claims u)")
  case False
  then have "m \<notin> aliveClaims now u"
    by (auto simp: aliveClaims_def aliveOf_iff image_iff)
  with False show ?thesis by (simp add: releaseScript_def)
qed (simp add: releaseScript_def aliveClaims_def aliveOf_delete)

lemma aliveClaims_antimono: "t \<le> now \<Longrightarrow> aliveClaims now u \<subseteq> aliveClaims t u"
  by (simp add: aliveClaims_def aliveOf_antimono)

text \<open>The claims of a user, taken or renewed by one call.\<close>

interpretation claimed: fading_set
  "\<lambda>c t u. snd (renewScript c t u)" "\<lambda>c u. snd (releaseScript c u)" aliveClaims ok_user 90000
  by unfold_locales
    (simp_all add: ok_renew ok_release aliveClaims_renew aliveClaims_release aliveClaims_antimono)

definition aliveSockets :: "millis \<Rightarrow> socket_set \<Rightarrow> socket_id set" where
  "aliveSockets now s = set (liveSockets now s)"

definition ok_sockets :: "socket_set \<Rightarrow> bool" where
  "ok_sockets s \<longleftrightarrow> distinct (map fst s)"

lemma stale_ms: "SOCKET_STALE_AFTER_MS = 90000"
  by (simp add: SOCKET_STALE_AFTER_MS_def SOCKET_HEARTBEAT_MS_def)

lemma aliveSockets_aliveOf: "aliveSockets now s = aliveOf 90000 now s"
  by (simp add: aliveSockets_def liveSockets_def membersScoredAfter_def aliveOf_def freshOf_def
      stale_ms)

lemma registerSocketTx_later:
  "ok_sockets s \<Longrightarrow> t \<le> now \<Longrightarrow> aliveSockets now (registerSocketTx m t s)
     = (if now < t + 90000 then insert m (aliveSockets now s - {m}) else aliveSockets now s - {m})"
  by (simp add: aliveSockets_aliveOf registerSocketTx_def stale_ms aliveOf_freshOf aliveOf_update
      ok_sockets_def)

lemma registerSocketTx_in:
  assumes "ok_sockets s" and "now < t + 90000"
  shows "m \<in> aliveSockets now (registerSocketTx m t s)"
proof -
  have "(m, t) \<in> set (AList.update m t s)"
    using assms(1) by (simp add: ok_sockets_def set_AList_update)
  then show ?thesis
    using assms(2) by (auto simp: aliveSockets_aliveOf aliveOf_iff registerSocketTx_def freshOf_iff
        stale_ms intro!: exI [of _ t])
qed

text \<open>The sockets of a user, refreshed by the heartbeat of the controller that holds each.\<close>

interpretation present_sockets: fading_set
  registerSocketTx unregisterSocketTx aliveSockets ok_sockets 90000
proof unfold_locales
  show "ok_sockets s \<Longrightarrow> ok_sockets (registerSocketTx m t s)" for s m t
    by (simp add: ok_sockets_def registerSocketTx_def)
  show "ok_sockets s \<Longrightarrow> ok_sockets (unregisterSocketTx m s)" for s m
    by (simp add: ok_sockets_def unregisterSocketTx_def)
  show "ok_sockets s \<Longrightarrow> now < t + 90000 \<Longrightarrow> m \<in> aliveSockets now (registerSocketTx m t s)" for s now t m
    by (rule registerSocketTx_in)
  show "ok_sockets s \<Longrightarrow> t + 90000 \<le> now \<Longrightarrow> m \<notin> aliveSockets now (registerSocketTx m t s)" for s now t m
    by (simp add: registerSocketTx_later)
  show "ok_sockets s \<Longrightarrow> x \<noteq> m \<Longrightarrow> t \<le> now \<Longrightarrow>
      x \<in> aliveSockets now (registerSocketTx m t s) \<longleftrightarrow> x \<in> aliveSockets now s" for s x m t now
    by (simp add: registerSocketTx_later)
  show "aliveSockets now (unregisterSocketTx m s) = aliveSockets now s - {m}" for now m s
    by (simp add: aliveSockets_aliveOf unregisterSocketTx_def aliveOf_delete)
  show "t \<le> now \<Longrightarrow> aliveSockets now s \<subseteq> aliveSockets t s" for t now s
    by (simp add: aliveSockets_aliveOf aliveOf_antimono)
qed

section \<open>Facts about the rule and the scripts\<close>

lemma decideAvailability_Available:
  "decideAvailability n dnd calls for = Available \<longleftrightarrow>
     n \<noteq> 0 \<and> \<not> dnd \<and> (\<forall>c \<in> set calls. Some c = for)"
  by (auto simp: decideAvailability_def list_ex_iff)

lemma claimScript_revision:
  "claimScript (Some r) c t u = (Some (r', added), u') \<Longrightarrow> revision u = r"
  by (auto simp: claimScript_def split: if_splits)

lemma revision_mono:
  "revision u \<le> revision (snd (claimScript e c t u))"
  "revision u \<le> revision (snd (releaseScript c u))"
  "revision u \<le> revision (snd (renewScript c t u))"
  "revision u < revision (snd (markChangedScript u))"
  "revision u \<le> revision (snd (doNotDisturbScript on u))"
  "revision u = revision (recordEligibilityScript r el t u)"
  by (simp_all add: claimScript_def releaseScript_def renewScript_def markChangedScript_def
      doNotDisturbScript_def recordEligibilityScript_def Let_def)

text \<open>
  Two claims decided on one revision: the second is refused if the first was new, whatever call it
  is for.
\<close>

lemma claimScript_second_refused:
  assumes "claimScript (Some r) c t u = (Some (r', True), u')"
  shows "fst (claimScript (Some r) c' t' u') = None"
  using assms by (auto simp: claimScript_def Let_def split: if_splits)

section \<open>Properties\<close>

text \<open>A claim outlives two lost renewals: taken or renewed at \<open>t\<close>, it still counts at every instant
  before three renewal intervals have passed, and once they have passed unrenewed it no longer does.\<close>

theorem claims_survive_two_lost_renewals:
  assumes "ok_user u"
  shows "cid \<in> aliveClaims now (snd (renewScript cid t u)) \<longleftrightarrow> now < t + 3 * CLAIM_RENEW_INTERVAL_MS"
proof (cases "now < t + 90000")
  case True
  then show ?thesis
    using claimed.alive_touch [OF assms, of now t cid] by (simp add: CLAIM_RENEW_INTERVAL_MS_def)
next
  case False
  then show ?thesis
    using claimed.fade_touch [OF assms, of t now cid] by (simp add: CLAIM_RENEW_INTERVAL_MS_def)
qed

theorem claims_survive_two_lost_renewals_witness:
  "''CA1'' \<in> aliveClaims 90999 (snd (renewScript ''CA1'' 1000 emptyUser))"
  using claims_survive_two_lost_renewals [of emptyUser "''CA1''" 90999 1000]
  by (simp add: ok_user_def emptyUser_def CLAIM_RENEW_INTERVAL_MS_def)

text \<open>A softphone's socket is online exactly until three heartbeats have been missed, and one that
  went away is offline whatever the user's other sockets do.\<close>

theorem sockets_go_stale_after_three_heartbeats:
  assumes "ok_sockets s"
  shows "(m \<in> aliveSockets now (registerSocketTx m t s) \<longleftrightarrow> now < t + 3 * SOCKET_HEARTBEAT_MS)
    \<and> (other \<noteq> m \<and> t \<le> now \<longrightarrow> m \<notin> aliveSockets now (registerSocketTx other t (unregisterSocketTx m s)))"
proof (cases "now < t + 90000")
  case True
  then show ?thesis
    using present_sockets.alive_touch [OF assms, of now t m] present_sockets.removed_stays_out
      [OF assms, of other m t now] by (simp add: SOCKET_HEARTBEAT_MS_def)
next
  case False
  then show ?thesis
    using present_sockets.fade_touch [OF assms, of t now m] present_sockets.removed_stays_out
      [OF assms, of other m t now] by (simp add: SOCKET_HEARTBEAT_MS_def)
qed

theorem sockets_go_stale_after_three_heartbeats_witness:
  "''s1'' \<in> aliveSockets 90999 (registerSocketTx ''s1'' 1000 [])
   \<and> ''s1'' \<notin> aliveSockets 1000 (registerSocketTx ''s2'' 1000 (unregisterSocketTx ''s1'' []))"
  using sockets_go_stale_after_three_heartbeats [of "[]" "''s1''" 90999 1000 "''s2''"]
    sockets_go_stale_after_three_heartbeats [of "[]" "''s1''" 1000 1000 "''s2''"]
  by (simp add: ok_sockets_def SOCKET_HEARTBEAT_MS_def)

text \<open>Of two offers decided on the same reading of a user, one claims them: once a new claim was
  taken at a revision, a claim that expects that revision is refused, whatever call it is for.\<close>

theorem second_claim_is_refused:
  assumes "claimScript (Some r) cid t u = (Some (r', True), u')"
  shows "fst (claimScript (Some r) cid' t' u') = None \<and> r' = r + 1"
  using claimScript_second_refused [OF assms] claimScript_revision [OF assms] assms
  by (auto simp: claimScript_def Let_def split: if_splits)

theorem second_claim_is_refused_witness:
  "fst (claimScript (Some 0) ''CA2'' 1001 (snd (claimScript (Some 0) ''CA1'' 1000 emptyUser))) = None"
proof -
  have "claimScript (Some 0) ''CA1'' 1000 emptyUser
      = (Some (1, True), emptyUser\<lparr>claims := [(''CA1'', 1000)], revision := 1\<rparr>)"
    by (simp add: claimScript_def emptyUser_def freshOf_def)
  from second_claim_is_refused [OF this] this show ?thesis by simp
qed

end
