(* ===== verification/World.thy ===== *)
theory World
  imports Call_Decisions Outbound_Grant Availability
begin

text \<open>
  What a handler of the controller acts on, and how it runs. The \<open>world\<close> is what Redis holds (call
  states, leg metadata, grants, availability, presence), the routing lookup's circuit breaker, the
  background work a handler left behind, and a trace of everything done so far: state writes,
  requests to Twilio, published events and socket messages, in order.

  A handler is a function of the \<open>outside\<close> and the world. Every \<open>await\<close> of the source is a step at
  which everybody else may act first: other webhooks, requests and instances, and Redis expiring a
  key. That interference is an arbitrary function of the outside, as are the answers of Redis
  (delivered, lost, or applied with the reply lost) and of Twilio; a theorem about a handler
  quantifies over them, restricted by a relation the interference has to respect.

  \<open>promiseAll\<close> runs its parts in order and always to the end, then fails with the first error: the
  source starts them together and a failure does not stop the others.
\<close>

section \<open>Effects\<close>

datatype call_event =
  CallIncoming call_id phone phone call_direction "leg_id option" "leg_id option"
    "department_id option" "user_id option"
| CallStarted call_id phone phone user_id "department_id option" call_direction "leg_id option"
    "leg_id option"
| CallEnded call_id nat call_end_status "leg_id option" "leg_id option" "leg_id option"
| CallMissed call_id phone phone "department_id option" "user_id option"
| CallTransferred call_id user_id user_id leg_id
| CallHeld call_id "user_id option" "leg_id option"
| CallResumed call_id "user_id option" "leg_id option"
| CallParticipantStatus call_id leg_id participant_type string participant_status timeline_event
    string "nat option"
| CallRecordingReady call_id string "nat option" string
| CallTranscriptionReady call_id string "string option" "string option"

datatype transfer_outcome =
  TransferCompleted call_id user_id
| TransferFailed call_id user_id transfer_failure_reason

datatype emission =
  EmitIncomingCall incoming_call
| EmitAvailability user_id availability_state nat
| EmitTransferOutcome transfer_outcome
| EmitCallEnded call_id nat call_end_status

datatype twiml =
  ConferenceTwiml call_id string string
| VoicemailTwiml call_id voicemail_reason voicemail_greeting
| OutboundRefusalTwiml outbound_call_refusal
| VoicemailCompletionTwiml
| FallbackTwiml

datatype effect =
  Published call_event
| HangUp leg_id
| DialParticipant string phone string string nat
| HoldParticipant string leg_id bool
| Redirected leg_id twiml
| Emitted "socket_id list" emission
| StateCreated call_id call_state
| StateWritten call_id call_state call_state
| StateRemoved call_id call_state

text \<open>Work that outlives the webhook's answer: two dials, and the notices of an offer.\<close>

datatype job =
  DialOutJob call_id phone phone
| ForwardJob call_id phone phone nat
| AnnounceJob "user_id list"

section \<open>The world\<close>

record world =
  callStates :: "call_id \<Rightarrow> call_state option"
  liveCalls :: "call_id list"
  reconcileLock :: "string option"
  legMetas :: "leg_id \<Rightarrow> leg_metadata option"
  grants :: "string \<Rightarrow> stored_grant option"
  users :: "user_id \<Rightarrow> user_store"
  socketsOf :: "user_id \<Rightarrow> socket_set"
  callParticipantsOf :: "call_id \<Rightarrow> user_id list"
  routingCache :: "phone \<Rightarrow> string option"
  routingBreaker :: breaker
  redisNow :: millis
  jobs :: "job list"
  trace :: "effect list"
  tick :: nat

datatype exn =
  RedisError
| TwilioError "nat option"
| CallStateConflict call_id
| CallStateNotFound call_id
| CallIsEnding call_id
| NotE164
| NoCallerId call_id
| NoCallSid call_id
| NotConfigured
| MalformedLabel
| GreetingNotAUrl
| InvalidEvent
| LegStatusTimeout leg_id

datatype leg_answer = LegAnswered string "nat option" | LegError "nat option" | LegTimeout

record outside =
  interfere :: "nat \<Rightarrow> world \<Rightarrow> world"
  redisAnswer :: "nat \<Rightarrow> delivery"
  clockMs :: "nat \<Rightarrow> millis"
  voiceConfigured :: bool
  freshToken :: "nat \<Rightarrow> string"
  twilioDial :: "nat \<Rightarrow> nat option + string"
  twilioHangUp :: "nat \<Rightarrow> nat option option"
  twilioHold :: "nat \<Rightarrow> nat option + bool option"
  twilioFindConference :: "nat \<Rightarrow> nat option + string option"
  twilioLegStatus :: "nat \<Rightarrow> leg_answer"
  twilioRedirect :: "nat \<Rightarrow> nat option option"
  headAnswer :: "nat \<Rightarrow> head_response"
  apiAnswer :: "nat \<Rightarrow> api_answer"
  renderedLength :: "twiml \<Rightarrow> nat"
  stopping :: "nat \<Rightarrow> bool"
  scanPages :: "nat \<Rightarrow> call_id list list"
  parsedUrl :: "string \<Rightarrow> (string \<times> string) option"
  parsedRouting :: "string \<Rightarrow> cached_routing option"
  intlParts :: "millis \<Rightarrow> string \<Rightarrow> intl_parts"

section \<open>Running a handler\<close>

type_synonym 'a io = "outside \<Rightarrow> world \<Rightarrow> (exn + 'a) \<times> world"

definition ret :: "'a \<Rightarrow> 'a io" where
  "ret x = (\<lambda>c w. (Inr x, w))"

definition throw :: "exn \<Rightarrow> 'a io" where
  "throw e = (\<lambda>c w. (Inl e, w))"

definition andThen :: "'a io \<Rightarrow> ('a \<Rightarrow> 'b io) \<Rightarrow> 'b io" where
  "andThen m f = (\<lambda>c w. case m c w of (Inl e, w') \<Rightarrow> (Inl e, w') | (Inr x, w') \<Rightarrow> f x c w')"

definition catching :: "'a io \<Rightarrow> (exn \<Rightarrow> 'a io) \<Rightarrow> 'a io" where
  "catching m h = (\<lambda>c w. case m c w of (Inl e, w') \<Rightarrow> h e c w' | (Inr x, w') \<Rightarrow> (Inr x, w'))"

text \<open>\<open>try { m } finally { f }\<close>: an error of the finally block replaces the outcome.\<close>

definition finally_do :: "'a io \<Rightarrow> unit io \<Rightarrow> 'a io" where
  "finally_do m f =
     (\<lambda>c w. case m c w of (r, w') \<Rightarrow>
        (case f c w' of (Inl e, w'') \<Rightarrow> (Inl e, w'') | (Inr _, w'') \<Rightarrow> (r, w'')))"

fun promiseAll :: "'a io list \<Rightarrow> 'a list io" where
  "promiseAll [] = ret []"
| "promiseAll (m # ms) =
     (\<lambda>c w. case m c w of (r, w') \<Rightarrow>
        (case promiseAll ms c w' of (rs, w'') \<Rightarrow>
          ((case r of Inl e \<Rightarrow> Inl e
            | Inr x \<Rightarrow> (case rs of Inl e \<Rightarrow> Inl e | Inr xs \<Rightarrow> Inr (x # xs))), w'')))"

fun allSettled :: "'a io list \<Rightarrow> (exn + 'a) list io" where
  "allSettled [] = ret []"
| "allSettled (m # ms) =
     (\<lambda>c w. case m c w of (r, w') \<Rightarrow>
        (case allSettled ms c w' of
          (Inl e, w'') \<Rightarrow> (Inl e, w'') | (Inr rs, w'') \<Rightarrow> (Inr (r # rs), w'')))"

text \<open>The outcome of a part as a value, for code that goes on after an error.\<close>

definition attempt :: "'a io \<Rightarrow> (exn + 'a) io" where
  "attempt m = (\<lambda>c w. case m c w of (r, w') \<Rightarrow> (Inr r, w'))"

definition rethrow :: "exn + 'a \<Rightarrow> 'a io" where
  "rethrow r = (\<lambda>c w. (r, w))"

text \<open>A loop of awaits that stops at the first error.\<close>

fun forEach :: "'a list \<Rightarrow> ('a \<Rightarrow> unit io) \<Rightarrow> unit io" where
  "forEach [] f = ret ()"
| "forEach (x # xs) f = andThen (f x) (\<lambda>_. forEach xs f)"

section \<open>Awaits\<close>

definition advance :: "outside \<Rightarrow> world \<Rightarrow> world" where
  "advance c w = (interfere c (tick w) w)\<lparr>tick := Suc (tick w)\<rparr>"

definition redisOp :: "(world \<Rightarrow> 'a \<times> world) \<Rightarrow> 'a io" where
  "redisOp f = (\<lambda>c w.
     let w1 = advance c w in
     case redisAnswer c (tick w) of
       Lost \<Rightarrow> (Inl RedisError, w1)
     | ReplyLost \<Rightarrow> (Inl RedisError, snd (f w1))
     | Delivered \<Rightarrow> (case f w1 of (x, w2) \<Rightarrow> (Inr x, w2)))"

definition logged :: "effect \<Rightarrow> world \<Rightarrow> world" where
  "logged e w = w\<lparr>trace := trace w @ [e]\<rparr>"

text \<open>A request to Twilio, or to a browser: it is made, and answered by the outside.\<close>

definition request :: "effect \<Rightarrow> (outside \<Rightarrow> nat \<Rightarrow> 'r) \<Rightarrow> 'r io" where
  "request e answer = (\<lambda>c w. (Inr (answer c (tick w)), logged e (advance c w)))"

text \<open>A wait for something that changes nothing: a timer, a probe, an HTTP read.\<close>

definition consult :: "(outside \<Rightarrow> nat \<Rightarrow> 'r) \<Rightarrow> 'r io" where
  "consult answer = (\<lambda>c w. (Inr (answer c (tick w)), advance c w))"

definition publish :: "call_event \<Rightarrow> unit io" where
  "publish ev = redisOp (\<lambda>w. ((), logged (Published ev) w))"

definition readNow :: "millis io" where
  "readNow = (\<lambda>c w. (Inr (clockMs c (tick w)), w))"

definition asks :: "(outside \<Rightarrow> 'a) \<Rightarrow> 'a io" where
  "asks f = (\<lambda>c w. (Inr (f c), w))"

definition inBackground :: "job \<Rightarrow> unit io" where
  "inBackground j = (\<lambda>c w. (Inr (), w\<lparr>jobs := jobs w @ [j]\<rparr>))"

section \<open>What holds across a handler, whoever interferes\<close>

definition rely :: "(world \<Rightarrow> world \<Rightarrow> bool) \<Rightarrow> outside \<Rightarrow> bool" where
  "rely R c \<longleftrightarrow> (\<forall>n w. R w (interfere c n w))"

definition obeys :: "(world \<Rightarrow> world \<Rightarrow> bool) \<Rightarrow> 'a io \<Rightarrow> bool" where
  "obeys R m \<longleftrightarrow> (\<forall>c w. rely R c \<longrightarrow> R w (snd (m c w)))"

named_theorems resp "handlers that respect a contract"

text \<open>
  A contract is a relation between an earlier and a later world that may be broken neither by a step
  of a handler nor by the interference. It is reflexive and transitive, and blind to the count of
  steps.
\<close>

locale world_contract =
  fixes R :: "world \<Rightarrow> world \<Rightarrow> bool"
  assumes R_refl: "R w w"
    and R_trans: "R u v \<Longrightarrow> R v w \<Longrightarrow> R u w"
    and R_tick: "R w (w\<lparr>tick := n\<rparr>)"
begin

lemma obeysI: "(\<And>c w. rely R c \<Longrightarrow> R w (snd (m c w))) \<Longrightarrow> obeys R m"
  by (simp add: obeys_def)

lemma obeysD: "obeys R m \<Longrightarrow> rely R c \<Longrightarrow> R w (snd (m c w))"
  by (simp add: obeys_def)

lemma advance_R: "rely R c \<Longrightarrow> R w (advance c w)"
  unfolding advance_def rely_def by (blast intro: R_trans R_tick)

lemma ret_resp [resp]: "obeys R (ret x)"
  by (rule obeysI) (simp add: ret_def R_refl)

lemma throw_resp [resp]: "obeys R (throw e)"
  by (rule obeysI) (simp add: throw_def R_refl)

lemma readNow_resp [resp]: "obeys R readNow"
  by (rule obeysI) (simp add: readNow_def R_refl)

lemma asks_resp [resp]: "obeys R (asks f)"
  by (rule obeysI) (simp add: asks_def R_refl)

lemma consult_resp [resp]: "obeys R (consult f)"
  by (rule obeysI) (simp add: consult_def advance_R)

lemma andThen_resp [resp]:
  assumes "obeys R m" and "\<And>x. obeys R (f x)"
  shows "obeys R (andThen m f)"
proof (rule obeysI)
  fix c w
  assume rely: "rely R c"
  obtain r w' where m: "m c w = (r, w')" by fastforce
  have "R w w'"
    using obeysD [OF assms(1) rely, of w] by (simp add: m)
  moreover have "r = Inr x \<Longrightarrow> R w' (snd (f x c w'))" for x
    using obeysD [OF assms(2) rely] .
  ultimately show "R w (snd (andThen m f c w))"
    by (cases r) (auto simp: andThen_def m intro: R_trans)
qed

lemma catching_resp [resp]:
  assumes "obeys R m" and "\<And>e. obeys R (h e)"
  shows "obeys R (catching m h)"
proof (rule obeysI)
  fix c w
  assume rely: "rely R c"
  obtain r w' where m: "m c w = (r, w')" by fastforce
  have "R w w'"
    using obeysD [OF assms(1) rely, of w] by (simp add: m)
  moreover have "r = Inl e \<Longrightarrow> R w' (snd (h e c w'))" for e
    using obeysD [OF assms(2) rely] .
  ultimately show "R w (snd (catching m h c w))"
    by (cases r) (auto simp: catching_def m intro: R_trans)
qed

lemma finally_resp [resp]:
  assumes "obeys R m" and "obeys R f"
  shows "obeys R (finally_do m f)"
proof (rule obeysI)
  fix c w
  assume rely: "rely R c"
  obtain r w' where m: "m c w = (r, w')" by fastforce
  obtain q w'' where f: "f c w' = (q, w'')" by fastforce
  have "R w w''"
    using obeysD [OF assms(1) rely, of w] obeysD [OF assms(2) rely, of w']
    by (auto simp: m f intro: R_trans)
  then show "R w (snd (finally_do m f c w))"
    by (cases q) (simp_all add: finally_do_def m f)
qed

lemma attempt_resp [resp]: "obeys R m \<Longrightarrow> obeys R (attempt m)"
  by (rule obeysI) (simp add: attempt_def obeysD split_def)

lemma rethrow_resp [resp]: "obeys R (rethrow r)"
  by (rule obeysI) (simp add: rethrow_def R_refl)

lemma promiseAll_resp:
  "(\<And>m. m \<in> set ms \<Longrightarrow> obeys R m) \<Longrightarrow> obeys R (promiseAll ms)"
proof (induction ms)
  case (Cons m ms)
  show ?case
  proof (rule obeysI)
    fix c w
    assume rely: "rely R c"
    obtain r w' where m: "m c w = (r, w')" by fastforce
    obtain q w'' where ms: "promiseAll ms c w' = (q, w'')" by fastforce
    have "obeys R m" and "obeys R (promiseAll ms)"
      using Cons by auto
    then have "R w w''"
      using obeysD [OF _ rely, of m w] obeysD [OF _ rely, of "promiseAll ms" w']
      by (auto simp: m ms intro: R_trans)
    then show "R w (snd (promiseAll (m # ms) c w))"
      by (simp add: m ms)
  qed
qed (simp add: ret_resp)

lemma allSettled_resp:
  "(\<And>m. m \<in> set ms \<Longrightarrow> obeys R m) \<Longrightarrow> obeys R (allSettled ms)"
proof (induction ms)
  case (Cons m ms)
  show ?case
  proof (rule obeysI)
    fix c w
    assume rely: "rely R c"
    obtain r w' where m: "m c w = (r, w')" by fastforce
    obtain q w'' where ms: "allSettled ms c w' = (q, w'')" by fastforce
    have "obeys R m" and "obeys R (allSettled ms)"
      using Cons by auto
    then have "R w w''"
      using obeysD [OF _ rely, of m w] obeysD [OF _ rely, of "allSettled ms" w']
      by (auto simp: m ms intro: R_trans)
    then show "R w (snd (allSettled (m # ms) c w))"
      by (cases q) (simp_all add: m ms)
  qed
qed (simp add: ret_resp)

lemma promiseAll_map_resp [resp]:
  "(\<And>x. obeys R (f x)) \<Longrightarrow> obeys R (promiseAll (map f xs))"
  by (rule promiseAll_resp) auto

lemma allSettled_map_resp [resp]:
  "(\<And>x. obeys R (f x)) \<Longrightarrow> obeys R (allSettled (map f xs))"
  by (rule allSettled_resp) auto

text \<open>A part chosen by what the outside and the world are when it starts.\<close>

lemma reading_resp: "(\<And>x. obeys R (m x)) \<Longrightarrow> obeys R (\<lambda>c w. m (g c w) c w)"
  by (simp add: obeys_def)

lemma forEach_resp [resp]:
  "(\<And>x. obeys R (f x)) \<Longrightarrow> obeys R (forEach xs f)"
  by (induction xs) (auto intro: ret_resp andThen_resp)

lemma redisOp_resp:
  assumes "\<And>w. R w (snd (f w))"
  shows "obeys R (redisOp f)"
proof (rule obeysI)
  fix c w
  assume rely: "rely R c"
  have "R w (advance c w)" and "R (advance c w) (snd (f (advance c w)))"
    using advance_R [OF rely] assms by auto
  then show "R w (snd (redisOp f c w))"
    by (auto simp: redisOp_def Let_def intro: R_trans split: delivery.split prod.split)
qed

lemma if_resp [resp]: "obeys R m \<Longrightarrow> obeys R n \<Longrightarrow> obeys R (if b then m else n)"
  by simp

lemma option_resp [resp]:
  "obeys R m \<Longrightarrow> (\<And>x. obeys R (f x)) \<Longrightarrow> obeys R (case v of None \<Rightarrow> m | Some x \<Rightarrow> f x)"
  by (cases v) auto

lemma sum_resp [resp]:
  "(\<And>e. obeys R (f e)) \<Longrightarrow> (\<And>x. obeys R (g x)) \<Longrightarrow>
     obeys R (case v of Inl e \<Rightarrow> f e | Inr x \<Rightarrow> g x)"
  by (cases v) auto

lemma prod_resp [resp]: "(\<And>x y. obeys R (f x y)) \<Longrightarrow> obeys R (case p of (x, y) \<Rightarrow> f x y)"
  by (cases p) auto

lemma list_resp [resp]:
  "obeys R m \<Longrightarrow> (\<And>x xs. obeys R (f x xs)) \<Longrightarrow>
     obeys R (case l of [] \<Rightarrow> m | x # xs \<Rightarrow> f x xs)"
  by (cases l) auto

lemma let_resp [resp]: "obeys R (f x) \<Longrightarrow> obeys R (let y = x in f y)"
  by simp

end

end
