(* ===== verification/Labels.thy ===== *)
theory Labels
  imports Call_State
begin

text \<open>
  How a conference participant is named to Twilio and recognised again: \<open>participantLabel\<close> and
  \<open>parseParticipantLabel\<close> of \<open>apps/call-controller/src/calls/telephony.service.ts\<close>, with the
  ECMAScript functions they rest on. Strings are their UTF-8 bytes, so \<open>encodeURIComponent\<close> escapes
  byte by byte; \<open>decodeURIComponent\<close> refuses (\<open>None\<close>, the source's \<open>URIError\<close>) an escape that is not
  two hexadecimal digits and a run of escapes that is not UTF-8.
\<close>

section \<open>Percent escapes\<close>

definition codeOf :: "char \<Rightarrow> nat" where
  "codeOf c = of_char c"

definition isAlphanumeric :: "char \<Rightarrow> bool" where
  "isAlphanumeric c \<longleftrightarrow> 48 \<le> codeOf c \<and> codeOf c \<le> 57 \<or> 65 \<le> codeOf c \<and> codeOf c \<le> 90
     \<or> 97 \<le> codeOf c \<and> codeOf c \<le> 122"

definition isUnreserved :: "char \<Rightarrow> bool" where
  "isUnreserved c \<longleftrightarrow> isAlphanumeric c \<or> codeOf c \<in> {45, 95, 46, 33, 126, 42, 39, 40, 41}"

definition upperHex :: "nat \<Rightarrow> char" where
  "upperHex d = (if d < 10 then char_of (48 + d) else char_of (55 + d))"

definition hexValue :: "char \<Rightarrow> nat option" where
  "hexValue c =
     (let n = codeOf c in
      if 48 \<le> n \<and> n \<le> 57 then Some (n - 48)
      else if 65 \<le> n \<and> n \<le> 70 then Some (n - 55)
      else if 97 \<le> n \<and> n \<le> 102 then Some (n - 87)
      else None)"

definition percent :: "char \<Rightarrow> string" where
  "percent c = [char_of (37 :: nat), upperHex (codeOf c div 16), upperHex (codeOf c mod 16)]"

definition escapeUnless :: "(char \<Rightarrow> bool) \<Rightarrow> char \<Rightarrow> string" where
  "escapeUnless safe c = (if safe c then [c] else percent c)"

definition encodeURIComponent :: "string \<Rightarrow> string" where
  "encodeURIComponent s = concat (map (escapeUnless isUnreserved) s)"

text \<open>\<open>URLSearchParams.toString\<close>: the form encoding of a value.\<close>

definition formEncode :: "string \<Rightarrow> string" where
  "formEncode s = concat (map (\<lambda>c. if codeOf c = 32 then ''+''
     else escapeUnless (\<lambda>c. isAlphanumeric c \<or> codeOf c \<in> {42, 45, 46, 95}) c) s)"

text \<open>\<open>n\<close> escaped bytes at the front, and what follows them.\<close>

fun escapedBytes :: "nat \<Rightarrow> string \<Rightarrow> (string \<times> string) option" where
  "escapedBytes 0 s = Some ([], s)"
| "escapedBytes (Suc n) (p # h # l # rest) =
     (if codeOf p \<noteq> 37 then None
      else case (hexValue h, hexValue l) of
          (Some a, Some b) \<Rightarrow>
            map_option (\<lambda>(bs, r). (char_of (16 * a + b) # bs, r)) (escapedBytes n rest)
        | _ \<Rightarrow> None)"
| "escapedBytes (Suc n) _ = None"

section \<open>UTF-8\<close>

text \<open>How many bytes the sequence a byte opens has; 0 when no sequence opens with it.\<close>

definition sequenceLength :: "char \<Rightarrow> nat" where
  "sequenceLength c =
     (let n = codeOf c in
      if n < 128 then 1 else if n < 192 then 0 else if n < 224 then 2
      else if n < 240 then 3 else if n < 248 then 4 else 0)"

definition isContinuation :: "nat \<Rightarrow> bool" where
  "isContinuation n \<longleftrightarrow> 128 \<le> n \<and> n < 192"

text \<open>Shortest form, no surrogates, nothing above U+10FFFF.\<close>

fun wellFormedSequence :: "nat list \<Rightarrow> bool" where
  "wellFormedSequence [a] \<longleftrightarrow> a < 128"
| "wellFormedSequence [a, b] \<longleftrightarrow> 194 \<le> a \<and> a < 224 \<and> isContinuation b"
| "wellFormedSequence [a, b, c] \<longleftrightarrow>
     224 \<le> a \<and> a < 240 \<and> isContinuation b \<and> isContinuation c \<and>
     (a = 224 \<longrightarrow> 160 \<le> b) \<and> (a = 237 \<longrightarrow> b < 160)"
| "wellFormedSequence [a, b, c, d] \<longleftrightarrow>
     240 \<le> a \<and> a < 245 \<and> isContinuation b \<and> isContinuation c \<and> isContinuation d \<and>
     (a = 240 \<longrightarrow> 144 \<le> b) \<and> (a = 244 \<longrightarrow> b < 144)"
| "wellFormedSequence _ \<longleftrightarrow> False"

function isUtf8 :: "string \<Rightarrow> bool" where
  "isUtf8 [] \<longleftrightarrow> True"
| "isUtf8 (c # s) \<longleftrightarrow>
     (let n = sequenceLength c in
      0 < n \<and> n \<le> length (c # s) \<and> wellFormedSequence (map codeOf (take n (c # s)))
      \<and> isUtf8 (drop (n - 1) s))"
  by pat_completeness auto
termination by (relation "measure length") auto

lemma escapedBytes_length: "escapedBytes n s = Some (bs, r) \<Longrightarrow> length s = 3 * n + length r"
  by (induction n s arbitrary: bs rule: escapedBytes.induct)
    (auto split: if_splits option.splits)

function decodeURIComponent :: "string \<Rightarrow> string option" where
  "decodeURIComponent [] = Some []"
| "decodeURIComponent (c # s) =
     (if codeOf c \<noteq> 37 then map_option (Cons c) (decodeURIComponent s)
      else case escapedBytes 1 (c # s) of
          Some ([b], _) \<Rightarrow>
            (let n = sequenceLength b in
             if n = 0 then None
             else case escapedBytes n (c # s) of
                 Some (bs, rest) \<Rightarrow>
                   if wellFormedSequence (map codeOf bs)
                   then map_option ((@) bs) (decodeURIComponent rest) else None
               | None \<Rightarrow> None)
        | _ \<Rightarrow> None)"
  by pat_completeness auto
termination
  by (relation "measure length") (auto dest!: escapedBytes_length)

section \<open>The label of a participant\<close>

fun participantTypeText :: "participant_type \<Rightarrow> string" where
  "participantTypeText Caller = ''caller''"
| "participantTypeText Agent = ''agent''"
| "participantTypeText External = ''external''"

definition participantLabel :: "call_participant \<Rightarrow> string \<Rightarrow> string" where
  "participantLabel p nonce =
     participantTypeText (participantType p) @ ''|'' @ encodeURIComponent (participantId p)
       @ ''|'' @ nonce"

text \<open>\<open>split\<close> on the bar.\<close>

fun splitBar :: "string \<Rightarrow> string list" where
  "splitBar [] = [[]]"
| "splitBar (c # s) =
     (if c = CHR ''|'' then [] # splitBar s
      else case splitBar s of [] \<Rightarrow> [[c]] | f # fs \<Rightarrow> (c # f) # fs)"

definition participantTypeOfText :: "string \<Rightarrow> participant_type option" where
  "participantTypeOfText s =
     (if s = ''caller'' then Some Caller else if s = ''agent'' then Some Agent
      else if s = ''external'' then Some External else None)"

text \<open>\<open>None\<close> when the label holds an identity that cannot be decoded; the source throws then.\<close>

definition parseParticipantLabel :: "string option \<Rightarrow> call_participant option option" where
  "parseParticipantLabel label =
     (if \<not> truthy label then Some None
      else case take 3 (splitBar (the label)) of
          t # encodedId # _ \<Rightarrow>
            (case participantTypeOfText t of
               None \<Rightarrow> Some None
             | Some ptype \<Rightarrow>
                 if encodedId = [] then Some None
                 else map_option (\<lambda>i. Some \<lparr>participantType = ptype, participantId = i\<rparr>)
                        (decodeURIComponent encodedId))
        | _ \<Rightarrow> Some None)"

section \<open>Facts\<close>

lemma codeOf_less [simp]: "codeOf c < 256"
  by (simp add: codeOf_def)

lemma codeOf_char_of [simp]: "n < 256 \<Longrightarrow> codeOf (char_of n) = n"
  by (simp add: codeOf_def)

lemma char_of_codeOf [simp]: "char_of (codeOf c) = c"
  by (simp add: codeOf_def)

lemma hexValue_upperHex [simp]: "d < 16 \<Longrightarrow> hexValue (upperHex d) = Some d"
  by (simp add: hexValue_def upperHex_def Let_def)

lemma escapedBytes_percent:
  "escapedBytes (length bs) (concat (map percent bs) @ rest) = Some (bs, rest)"
proof (induction bs)
  case (Cons b bs)
  have "16 * (codeOf b div 16) + codeOf b mod 16 = codeOf b" by simp
  moreover have "codeOf b div 16 < 16"
    using codeOf_less [of b] by linarith
  ultimately show ?case
    using Cons by (simp add: percent_def)
qed simp

lemma wellFormedSequence_high:
  "wellFormedSequence ns \<Longrightarrow> 1 < length ns \<Longrightarrow> n \<in> set ns \<Longrightarrow> 128 \<le> n"
  by (induction ns rule: wellFormedSequence.induct) (auto simp: isContinuation_def)

lemma isUnreserved_low: "isUnreserved c \<Longrightarrow> codeOf c < 128 \<and> codeOf c \<noteq> 37 \<and> codeOf c \<noteq> 124"
  by (auto simp: isUnreserved_def isAlphanumeric_def)

lemma encode_high:
  "\<forall>c \<in> set bs. 128 \<le> codeOf c \<Longrightarrow> encodeURIComponent bs = concat (map percent bs)"
proof (induction bs)
  case (Cons b bs)
  then have "\<not> isUnreserved b" using isUnreserved_low [of b] by auto
  with Cons show ?case by (simp add: encodeURIComponent_def escapeUnless_def)
qed (simp add: encodeURIComponent_def)

lemma encode_append: "encodeURIComponent (s @ t) = encodeURIComponent s @ encodeURIComponent t"
  by (simp add: encodeURIComponent_def)

lemma encode_Cons: "encodeURIComponent (c # s) = escapeUnless isUnreserved c @ encodeURIComponent s"
  by (simp add: encodeURIComponent_def)

lemma decode_escaped:
  assumes "bs = b # bs'" and "length bs = sequenceLength b" and "wellFormedSequence (map codeOf bs)"
  shows "decodeURIComponent (concat (map percent bs) @ rest)
       = map_option ((@) bs) (decodeURIComponent rest)"
proof -
  have split: "concat (map percent bs) @ rest
      = char_of (37 :: nat) # tl (percent b) @ concat (map percent bs') @ rest"
    by (simp add: assms(1) percent_def)
  have "escapedBytes (length [b]) (concat (map percent [b]) @ concat (map percent bs') @ rest)
      = Some ([b], concat (map percent bs') @ rest)"
    by (rule escapedBytes_percent)
  then have one: "escapedBytes 1 (char_of (37 :: nat) # tl (percent b) @ concat (map percent bs') @ rest)
      = Some ([b], concat (map percent bs') @ rest)"
    by (simp add: percent_def)
  have all: "escapedBytes (sequenceLength b)
      (char_of (37 :: nat) # tl (percent b) @ concat (map percent bs') @ rest) = Some (bs, rest)"
    using escapedBytes_percent [of bs rest] by (simp only: split assms(2))
  have "0 < sequenceLength b"
    using assms(1,2) by (metis length_greater_0_conv list.distinct(1))
  then show ?thesis
    unfolding split decodeURIComponent.simps(2) one
    by (simp add: assms(3) Let_def all)
qed

text \<open>What is encoded is decoded to the same text.\<close>

lemma decode_encode: "isUtf8 s \<Longrightarrow> decodeURIComponent (encodeURIComponent s) = Some s"
proof (induction s rule: isUtf8.induct)
  case (2 c s)
  let ?n = "sequenceLength c"
  let ?bs = "take ?n (c # s)"
  have n: "0 < ?n" "?n \<le> length (c # s)" and wf: "wellFormedSequence (map codeOf ?bs)"
    and rest: "isUtf8 (drop (?n - 1) s)"
    using 2(2) by (simp_all add: Let_def)
  have IH: "decodeURIComponent (encodeURIComponent (drop (?n - 1) s)) = Some (drop (?n - 1) s)"
    using 2(1) [OF refl rest] .
  have cs: "c # s = ?bs @ drop (?n - 1) s"
    using n(1) by (cases ?n) simp_all
  have bs: "?bs = c # take (?n - 1) s"
    using n(1) by (cases ?n) simp_all
  have len: "length ?bs = ?n"
    using n(2) by simp
  show ?case
  proof (cases "isUnreserved c")
    case True
    then have "?n = 1" by (simp add: sequenceLength_def isUnreserved_low Let_def)
    with True show ?thesis
      using IH isUnreserved_low [OF True] by (simp add: encode_Cons escapeUnless_def)
  next
    case False
    have "encodeURIComponent ?bs = concat (map percent ?bs)"
    proof (cases "?n = 1")
      case True
      with False show ?thesis by (simp add: encodeURIComponent_def escapeUnless_def)
    next
      case False
      then have "\<forall>b \<in> set ?bs. 128 \<le> codeOf b"
        using wellFormedSequence_high [OF wf] n(1) len by (metis image_eqI length_map list.set_map
            One_nat_def Suc_lessI)
      then show ?thesis by (rule encode_high)
    qed
    then have "encodeURIComponent (c # s)
        = concat (map percent ?bs) @ encodeURIComponent (drop (?n - 1) s)"
      by (subst cs) (simp add: encode_append)
    then show ?thesis
      using decode_escaped [OF bs len wf] IH cs by simp
  qed
qed (simp add: encodeURIComponent_def)

lemma encode_no_bar: "CHR ''|'' \<notin> set (encodeURIComponent s)"
proof -
  have "CHR ''|'' \<notin> set (percent c)" for c
  proof -
    have "upperHex d \<noteq> CHR ''|''" if "d < 16" for d
    proof
      assume "upperHex d = CHR ''|''"
      then have "codeOf (upperHex d) = 124" by (simp add: codeOf_def)
      with that show False by (simp add: upperHex_def split: if_splits)
    qed
    moreover have "codeOf c div 16 < 16"
      using codeOf_less [of c] by linarith
    moreover have "codeOf c mod 16 < 16" by simp
    moreover have "char_of (37 :: nat) \<noteq> CHR ''|''"
    proof
      assume "char_of (37 :: nat) = CHR ''|''"
      then have "codeOf (CHR ''|'') = 37" using codeOf_char_of [of 37] by (simp only:)
      then show False by (simp add: codeOf_def)
    qed
    ultimately show ?thesis
      unfolding percent_def by (metis empty_iff empty_set set_ConsD)
  qed
  moreover have "\<not> isUnreserved (CHR ''|'')"
    by (simp add: isUnreserved_def isAlphanumeric_def codeOf_def)
  ultimately show ?thesis
    by (auto simp: encodeURIComponent_def escapeUnless_def)
qed

lemma encode_nonempty: "s \<noteq> [] \<Longrightarrow> encodeURIComponent s \<noteq> []"
  by (cases s) (auto simp: encode_Cons escapeUnless_def percent_def)

lemma splitBar_append: "CHR ''|'' \<notin> set a \<Longrightarrow> splitBar (a @ ''|'' @ b) = a # splitBar b"
  by (induction a) auto

lemma parseParticipantLabel_participantLabel:
  assumes "participantId p \<noteq> []" and "isUtf8 (participantId p)"
  shows "parseParticipantLabel (Some (participantLabel p nonce)) = Some (Some p)"
proof -
  let ?t = "participantTypeText (participantType p)" and ?e = "encodeURIComponent (participantId p)"
  have t: "CHR ''|'' \<notin> set ?t" "participantTypeOfText ?t = Some (participantType p)" "?t \<noteq> []"
    by (cases "participantType p"; simp add: participantTypeOfText_def; fail)+
  have "splitBar (participantLabel p nonce) = ?t # ?e # splitBar nonce"
    using splitBar_append [OF t(1)] splitBar_append [OF encode_no_bar]
    by (simp add: participantLabel_def)
  moreover have "truthy (Some (participantLabel p nonce))"
    using t(3) by (simp add: truthy_iff participantLabel_def)
  ultimately show ?thesis
    using t(2) assms by (simp add: parseParticipantLabel_def encode_nonempty decode_encode)
qed

section \<open>Properties\<close>

text \<open>C40. The label a leg is dialed with names its participant: Twilio's callbacks, which send it back,
  are read as the participant it was made for, whatever the identity holds and whatever follows.\<close>

theorem participant_labels_round_trip:
  assumes "participantId p \<noteq> []" and "isUtf8 (participantId p)"
  shows "parseParticipantLabel (Some (participantLabel p nonce)) = Some (Some p)"
  using assms by (rule parseParticipantLabel_participantLabel)

theorem participant_labels_round_trip_witness:
  "parseParticipantLabel (Some (participantLabel
     \<lparr>participantType = Agent, participantId = ''a|b c%''\<rparr> ''n1''))
   = Some (Some \<lparr>participantType = Agent, participantId = ''a|b c%''\<rparr>)"
  by (rule participant_labels_round_trip) (simp, code_simp)

end
