(* ===== verification/Telephony.thy ===== *)
theory Telephony
  imports World Labels
begin

text \<open>
  \<open>apps/call-controller/src/calls/telephony.service.ts\<close>: Twilio and Redis for one call. The store of
  call states with its compare-and-set write, leg metadata, outbound grants, the legs dialed into a
  conference, hold, hangup and the voicemail redirect.
\<close>

section \<open>The store of call states\<close>

definition CALL_STATE_WRITE_ATTEMPTS :: nat where
  "CALL_STATE_WRITE_ATTEMPTS = 10"

record 'r state_update =
  updResult :: 'r
  updBefore :: call_state
  updAfter :: "call_state option"

definition getCallState :: "call_id \<Rightarrow> call_state option io" where
  "getCallState cid = redisOp (\<lambda>w. (callStates w cid, w))"

definition setCallState :: "call_state \<Rightarrow> world \<Rightarrow> world" where
  "setCallState s w =
     logged (StateCreated (conversationUuid s) s)
       (w\<lparr>callStates := (callStates w)(conversationUuid s \<mapsto> s)\<rparr>)"

definition addLiveCalls :: "call_id list \<Rightarrow> world \<Rightarrow> nat \<times> world" where
  "addLiveCalls cids w =
     (let new = filter (\<lambda>cid. cid \<notin> set (liveCalls w)) (uniq cids)
      in (length new, w\<lparr>liveCalls := liveCalls w @ new\<rparr>))"

definition createCallState :: "call_state \<Rightarrow> call_state io" where
  "createCallState s =
     (let created = s\<lparr>version := 1\<rparr> in
      andThen (redisOp (\<lambda>w. ((), setCallState created w))) (\<lambda>_.
      andThen (redisOp (addLiveCalls [conversationUuid created])) (\<lambda>_.
      ret created)))"

text \<open>The script of a write: 1 written, 0 another write got there first, -1 the call is gone.\<close>

definition writeCallStateScript ::
    "call_id \<Rightarrow> nat \<Rightarrow> call_state option \<Rightarrow> world \<Rightarrow> int \<times> world" where
  "writeCallStateScript cid versionRead after w =
     (case callStates w cid of
        None \<Rightarrow> (-1, w)
      | Some stored \<Rightarrow>
          if version stored \<noteq> versionRead then (0, w)
          else case after of
              None \<Rightarrow>
                (1, logged (StateRemoved cid stored)
                      (w\<lparr>callStates := (callStates w)(cid := None),
                         liveCalls := removeAll cid (liveCalls w)\<rparr>))
            | Some s \<Rightarrow>
                (1, logged (StateWritten cid stored s)
                      (w\<lparr>callStates := (callStates w)(cid \<mapsto> s)\<rparr>)))"

definition pause :: "unit io" where
  "pause = consult (\<lambda>_ _. ())"

fun attemptUpdate ::
    "nat \<Rightarrow> call_id \<Rightarrow> (call_state \<Rightarrow> 'r change) \<Rightarrow> 'r state_update option io" where
  "attemptUpdate 0 cid decide = throw (CallStateConflict cid)"
| "attemptUpdate (Suc n) cid decide =
     andThen (getCallState cid) (\<lambda>read.
     case read of
       None \<Rightarrow> ret None
     | Some current \<Rightarrow>
         let change = decide current;
             draft = chDraft change;
             unchanged = (\<not> chRemove change \<and> draft\<lparr>version := version current\<rparr> = current)
         in if unchanged
            then ret (Some \<lparr>updResult = chResult change, updBefore = current,
                   updAfter = Some current\<rparr>)
            else
              let after = (if chRemove change then None
                     else Some (draft\<lparr>version := version current + 1\<rparr>))
              in andThen (redisOp (writeCallStateScript cid (version current) after)) (\<lambda>written.
                 if written = 1
                 then ret (Some \<lparr>updResult = chResult change, updBefore = current,
                        updAfter = after\<rparr>)
                 else if written = -1 then ret None
                 else andThen (if n > 0 then pause else ret ()) (\<lambda>_. attemptUpdate n cid decide)))"

definition updateCallState :: "call_id \<Rightarrow> (call_state \<Rightarrow> 'r change) \<Rightarrow> 'r state_update option io" where
  "updateCallState cid decide = attemptUpdate CALL_STATE_WRITE_ATTEMPTS cid decide"

definition liveCallIds :: "call_id list io" where
  "liveCallIds = redisOp (\<lambda>w. (liveCalls w, w))"

definition forgetLiveCall :: "call_id \<Rightarrow> unit io" where
  "forgetLiveCall cid = redisOp (\<lambda>w. ((), w\<lparr>liveCalls := removeAll cid (liveCalls w)\<rparr>))"

text \<open>\<open>scanPages\<close> are the pages of keys the scan is given until its cursor is 0 again.\<close>

definition restoreLiveCalls :: "nat io" where
  "restoreLiveCalls =
     andThen (consult scanPages) (\<lambda>pages.
     if concat pages \<noteq> [] then redisOp (addLiveCalls (concat pages)) else ret 0)"

definition takeReconcileLock :: "string \<Rightarrow> bool io" where
  "takeReconcileLock holder =
     redisOp (\<lambda>w. if reconcileLock w = None then (True, w\<lparr>reconcileLock := Some holder\<rparr>)
                  else (False, w))"

definition releaseReconcileLock :: "string \<Rightarrow> unit io" where
  "releaseReconcileLock holder =
     redisOp (\<lambda>w. ((), if reconcileLock w = Some holder then w\<lparr>reconcileLock := None\<rparr> else w))"

section \<open>Legs and grants in Redis\<close>

definition setLegMetadata :: "leg_id \<Rightarrow> leg_metadata \<Rightarrow> unit io" where
  "setLegMetadata leg metadata =
     redisOp (\<lambda>w. ((), w\<lparr>legMetas := (legMetas w)(leg \<mapsto> metadata)\<rparr>))"

definition getLegMetadata :: "leg_id \<Rightarrow> leg_metadata option io" where
  "getLegMetadata leg = redisOp (\<lambda>w. (legMetas w leg, w))"

definition deleteLegMetadata :: "leg_id list \<Rightarrow> unit io" where
  "deleteLegMetadata legs =
     (if legs \<noteq> []
      then redisOp (\<lambda>w. ((), w\<lparr>legMetas := (\<lambda>l. if l \<in> set legs then None else legMetas w l)\<rparr>))
      else ret ())"

definition issueOutboundGrant :: "outbound_call_grant \<Rightarrow> string io" where
  "issueOutboundGrant grant = (\<lambda>c w.
     let token = freshToken c (tick w) in
     redisOp (\<lambda>w. (token, w\<lparr>grants := (grants w)(token \<mapsto> storeGrant grant)\<rparr>)) c w)"

definition takeOutboundGrant :: "string \<Rightarrow> outbound_call_grant option io" where
  "takeOutboundGrant token =
     andThen (redisOp (\<lambda>w. (grants w token, w\<lparr>grants := (grants w)(token := None)\<rparr>))) (\<lambda>payload.
     ret (Option.bind payload parseStoredGrant))"

definition ensureConferenceReference :: "call_id \<Rightarrow> string \<Rightarrow> unit io" where
  "ensureConferenceReference cid sid =
     andThen (updateCallState cid (decideConferenceReference sid)) (\<lambda>_. ret ())"

section \<open>Legs at Twilio\<close>

definition requireVoice :: "unit io" where
  "requireVoice = (\<lambda>c w. if voiceConfigured c then (Inr (), w) else (Inl NotConfigured, w))"

definition requireCallState :: "call_id \<Rightarrow> call_state io" where
  "requireCallState cid =
     andThen (getCallState cid) (\<lambda>state.
     case state of None \<Rightarrow> throw (CallStateNotFound cid) | Some s \<Rightarrow> ret s)"

text \<open>Telling the API is a wait and nothing more: \<open>ensureUser\<close> never fails.\<close>

definition ensureUser :: "user_id \<Rightarrow> unit io" where
  "ensureUser user = consult (\<lambda>_ _. ())"

definition is_retryable :: "nat option \<Rightarrow> bool" where
  "is_retryable status \<longleftrightarrow> (case status of None \<Rightarrow> False | Some n \<Rightarrow> n = 429 \<or> 500 \<le> n)"

fun attemptHangup :: "nat \<Rightarrow> leg_id \<Rightarrow> unit io" where
  "attemptHangup 0 leg = ret ()"
| "attemptHangup (Suc n) leg =
     andThen (request (HangUp leg) twilioHangUp) (\<lambda>answer.
     case answer of
       None \<Rightarrow> ret ()
     | Some status \<Rightarrow>
         if status = Some 404 then ret ()
         else if is_retryable status \<and> n > 0
         then andThen pause (\<lambda>_. attemptHangup n leg)
         else ret ())"

definition safeHangup :: "leg_id \<Rightarrow> unit io" where
  "safeHangup leg = andThen requireVoice (\<lambda>_. attemptHangup 3 leg)"

definition safeHangups :: "leg_id list \<Rightarrow> unit io" where
  "safeHangups legs = andThen (promiseAll (map safeHangup legs)) (\<lambda>_. ret ())"

definition hangupConversation :: "call_id \<Rightarrow> unit io" where
  "hangupConversation cid =
     andThen (getCallState cid) (\<lambda>state.
     case state of None \<Rightarrow> ret () | Some s \<Rightarrow> safeHangups (legUuidsOf s))"

definition conferenceOf :: "call_state \<Rightarrow> string" where
  "conferenceOf s = getOr (conferenceSid s) (conversationName s)"

definition createConferenceParticipant ::
    "call_state \<Rightarrow> phone \<Rightarrow> call_participant \<Rightarrow> string \<Rightarrow> nat \<Rightarrow> leg_id io" where
  "createConferenceParticipant s callerId participant to timeout =
     andThen requireVoice (\<lambda>_.
     case normalizePhoneNumber callerId of
       None \<Rightarrow> throw (NoCallerId (conversationUuid s))
     | Some from \<Rightarrow>
         (\<lambda>c w.
            let label = participantLabel participant (freshToken c (tick w)) in
            andThen (request (DialParticipant (conferenceOf s) from to label timeout) twilioDial)
              (\<lambda>answer.
               case answer of
                 Inl status \<Rightarrow> throw (TwilioError status)
               | Inr sid \<Rightarrow>
                   if sid = [] then throw (NoCallSid (conversationUuid s)) else ret sid) c w))"

definition DEFAULT_RING_SECONDS :: nat where
  "DEFAULT_RING_SECONDS = 30"

definition ringSeconds :: "nat option \<Rightarrow> call_state \<Rightarrow> nat" where
  "ringSeconds ringingTimer s = getOr ringingTimer (getOr (ringDuration s) DEFAULT_RING_SECONDS)"

text \<open>Where a softphone's leg is dialed to: its identity, with the call in the query.\<close>

definition clientAddress :: "call_id \<Rightarrow> user_id \<Rightarrow> string" where
  "clientAddress cid user =
     ''client:'' @ user @ ''?conversationUuid='' @ formEncode cid
       @ ''&participantType=agent&participantId='' @ formEncode user"

definition dialAgent :: "call_state \<Rightarrow> user_id \<Rightarrow> phone \<Rightarrow> nat option \<Rightarrow> agent_leg io" where
  "dialAgent s user callerId ringingTimer =
     (let participant = \<lparr>participantType = Agent, participantId = user\<rparr> in
      andThen (ensureUser user) (\<lambda>_.
      andThen (createConferenceParticipant s callerId participant
                 (clientAddress (conversationUuid s) user) (ringSeconds ringingTimer s)) (\<lambda>leg.
      andThen (setLegMetadata leg
                 \<lparr>legParticipant = participant, legConversationUuid = conversationUuid s\<rparr>) (\<lambda>_.
      ret (user, leg)))))"

definition registerAgentLegs :: "call_id \<Rightarrow> agent_leg list \<Rightarrow> bool io" where
  "registerAgentLegs cid legs =
     (if legs = [] then ret True
      else andThen (updateCallState cid (decideRegisterAgentLegs legs)) (\<lambda>update.
        if (case update of None \<Rightarrow> False | Some u \<Rightarrow> updResult u) then ret True
        else andThen (safeHangups (map snd legs)) (\<lambda>_. ret False)))"

definition createAgentLeg ::
    "call_id \<Rightarrow> user_id \<Rightarrow> phone \<Rightarrow> nat option \<Rightarrow> leg_id option io" where
  "createAgentLeg cid user callerId ringingTimer =
     andThen (requireCallState cid) (\<lambda>s.
     if ending s then throw (CallIsEnding cid)
     else
       andThen (dialAgent s user callerId ringingTimer) (\<lambda>leg.
       andThen (registerAgentLegs cid [leg]) (\<lambda>recorded.
       ret (if recorded then Some (snd leg) else None))))"

fun fulfilled :: "(exn + 'a) list \<Rightarrow> 'a list" where
  "fulfilled [] = []"
| "fulfilled (Inl e # rs) = fulfilled rs"
| "fulfilled (Inr x # rs) = x # fulfilled rs"

definition ringAgents ::
    "call_id \<Rightarrow> user_id list \<Rightarrow> phone \<Rightarrow> nat option \<Rightarrow> agent_leg list io" where
  "ringAgents cid members callerId ringingTimer =
     andThen (requireCallState cid) (\<lambda>s.
     if ending s \<or> members = [] then ret []
     else
       andThen (allSettled (map (\<lambda>user. dialAgent s user callerId ringingTimer) members)) (\<lambda>results.
       let legs = fulfilled results in
       andThen (registerAgentLegs cid legs) (\<lambda>recorded.
       ret (if recorded then legs else []))))"

definition createExternalLeg :: "call_id \<Rightarrow> phone \<Rightarrow> phone \<Rightarrow> nat option \<Rightarrow> leg_id io" where
  "createExternalLeg cid phoneNumber callerId ringingTimer =
     andThen (requireCallState cid) (\<lambda>s.
     if ending s then throw (CallIsEnding cid)
     else case normalizePhoneNumber phoneNumber of
         None \<Rightarrow> throw NotE164
       | Some to \<Rightarrow>
           let participant = \<lparr>participantType = External, participantId = to\<rparr> in
           andThen (createConferenceParticipant s callerId participant to
                      (ringSeconds ringingTimer s)) (\<lambda>leg.
           andThen (setLegMetadata leg
                      \<lparr>legParticipant = participant, legConversationUuid = cid\<rparr>) (\<lambda>_.
           andThen (updateCallState cid (decideExternalLeg leg)) (\<lambda>update.
           andThen (if (case update of None \<Rightarrow> False | Some u \<Rightarrow> updResult u) then ret ()
                    else safeHangup leg) (\<lambda>_.
           ret leg)))))"

section \<open>Holding, transferring and asking\<close>

definition findConferenceSid :: "call_state \<Rightarrow> string option io" where
  "findConferenceSid s =
     (if truthy (conferenceSid s) then ret (conferenceSid s)
      else
        andThen requireVoice (\<lambda>_.
        andThen (consult twilioFindConference) (\<lambda>answer.
        case answer of
          Inl status \<Rightarrow> throw (TwilioError status)
        | Inr sid \<Rightarrow>
            if \<not> truthy sid then ret None
            else andThen (ensureConferenceReference (conversationUuid s) (the sid)) (\<lambda>_.
                 ret sid))))"

definition holdConversation :: "call_id \<Rightarrow> bool \<Rightarrow> bool option io" where
  "holdConversation cid hold =
     andThen requireVoice (\<lambda>_.
     andThen (getCallState cid) (\<lambda>state.
     case state of
       None \<Rightarrow> ret None
     | Some s \<Rightarrow>
         if \<not> truthy (remoteLegOf s) then ret None
         else
           andThen (findConferenceSid s) (\<lambda>sid.
           if \<not> truthy sid then ret None
           else
             andThen (request (HoldParticipant (the sid) (the (remoteLegOf s)) hold) twilioHold)
               (\<lambda>answer.
                case answer of
                  Inr isHeld \<Rightarrow> ret (Some (getOr isHeld hold))
                | Inl status \<Rightarrow>
                    if status = Some 404 then ret None else throw (TwilioError status)))))"

definition transferConversation :: "call_id \<Rightarrow> user_id \<Rightarrow> user_id \<Rightarrow> leg_id option io" where
  "transferConversation cid target initiatedBy =
     andThen (requireCallState cid) (\<lambda>s.
     if pendingTransferToUserId s \<noteq> Some target \<or> transferInitiatedBy s \<noteq> Some initiatedBy
     then ret None
     else createAgentLeg cid target
            (callLine (directionText (direction s)) (fromNumber s) (toNumber s)) (ringDuration s))"

definition fetchLegStatus :: "leg_id \<Rightarrow> (string \<times> nat option) io" where
  "fetchLegStatus leg =
     andThen requireVoice (\<lambda>_.
     andThen (consult twilioLegStatus) (\<lambda>answer.
     case answer of
       LegAnswered status duration \<Rightarrow> ret (status, duration)
     | LegTimeout \<Rightarrow> throw (LegStatusTimeout leg)
     | LegError status \<Rightarrow>
         if status = Some 404 then ret (''completed'', None) else throw (TwilioError status)))"

section \<open>TwiML\<close>

definition buildConferenceTwiml :: "call_state \<Rightarrow> call_participant \<Rightarrow> twiml io" where
  "buildConferenceTwiml s participant =
     andThen requireVoice (\<lambda>_ c w.
       (Inr (ConferenceTwiml (conversationUuid s)
          (participantLabel participant (freshToken c (tick w))) (conversationName s)), w))"

definition INLINE_TWIML_MAX_LENGTH :: nat where
  "INLINE_TWIML_MAX_LENGTH = 4000"

definition fitsInlineForEveryReason ::
    "(twiml \<Rightarrow> nat) \<Rightarrow> call_id \<Rightarrow> voicemail_greeting \<Rightarrow> bool" where
  "fitsInlineForEveryReason lengthOf cid greeting =
     list_all (\<lambda>reason. lengthOf (VoicemailTwiml cid reason greeting) \<le> INLINE_TWIML_MAX_LENGTH)
       VOICEMAIL_REASONS"

definition renderVoicemailTwiml ::
    "call_id \<Rightarrow> voicemail_reason \<Rightarrow> voicemail_greeting \<Rightarrow> twiml io" where
  "renderVoicemailTwiml cid reason greeting =
     andThen requireVoice (\<lambda>_. ret (VoicemailTwiml cid reason greeting))"

definition buildVoicemailTwiml ::
    "call_id \<Rightarrow> string option \<Rightarrow> voicemail_reason \<Rightarrow> twiml io" where
  "buildVoicemailTwiml cid greetingUrl reason =
     andThen requireVoice (\<lambda>_.
     andThen (asks renderedLength) (\<lambda>lengthOf.
     if truthy greetingUrl \<and> \<not> fitsInlineForEveryReason lengthOf cid (Recording (the greetingUrl))
     then renderVoicemailTwiml cid reason (chooseVoicemailGreeting reason None None)
     else
       andThen (if truthy greetingUrl
                then andThen (consult headAnswer) (\<lambda>answer. ret (Some (probeGreetingUrl answer)))
                else ret None) (\<lambda>probe.
       andThen (asks parsedUrl) (\<lambda>parse.
       if truthy greetingUrl \<and> probe \<noteq> Some Reachable \<and> parse (the greetingUrl) = None
       then throw GreetingNotAUrl
       else renderVoicemailTwiml cid reason (chooseVoicemailGreeting reason greetingUrl probe)))))"

definition redirectLegToVoicemail ::
    "leg_id \<Rightarrow> call_state \<Rightarrow> voicemail_reason \<Rightarrow> unit io" where
  "redirectLegToVoicemail leg s reason =
     andThen requireVoice (\<lambda>_.
     andThen (buildVoicemailTwiml (conversationUuid s) (voicemailGreetingUrl s) reason) (\<lambda>doc.
     andThen (request (Redirected leg doc) twilioRedirect) (\<lambda>answer.
     case answer of
       None \<Rightarrow> ret ()
     | Some status \<Rightarrow> if status = Some 404 then ret () else throw (TwilioError status))))"

definition buildOutboundRefusalTwiml :: "outbound_call_refusal \<Rightarrow> twiml" where
  "buildOutboundRefusalTwiml reason = OutboundRefusalTwiml reason"

definition buildVoicemailCompletionTwiml :: twiml where
  "buildVoicemailCompletionTwiml = VoicemailCompletionTwiml"

definition buildFallbackTwiml :: twiml where
  "buildFallbackTwiml = FallbackTwiml"

text \<open>The label of a webhook, which may be absent or unreadable.\<close>

definition participantOfLabel :: "string option \<Rightarrow> call_participant option io" where
  "participantOfLabel label =
     (case parseParticipantLabel label of None \<Rightarrow> throw MalformedLabel | Some p \<Rightarrow> ret p)"

end
