(* ===== verification/Realtime.thy ===== *)
theory Realtime
  imports World
begin

text \<open>
  The softphone side of the controller (\<open>apps/call-controller/src/realtime\<close>) as handlers:
  \<open>availability-store.ts\<close> and \<open>presence.service.ts\<close> over Redis, \<open>availability.service.ts\<close> which
  offers calls and claims users for them, and \<open>call-ended-broadcaster.ts\<close>.
\<close>

section \<open>The availability store\<close>

definition onUser :: "user_id \<Rightarrow> (user_store \<Rightarrow> 'a \<times> user_store) \<Rightarrow> world \<Rightarrow> 'a \<times> world" where
  "onUser user f w = (case f (users w user) of (x, u) \<Rightarrow> (x, w\<lparr>users := (users w)(user := u)\<rparr>))"

definition readMany :: "user_id list \<Rightarrow> stored_availability list io" where
  "readMany us =
     (if us = [] then ret []
      else redisOp (\<lambda>w. (map (\<lambda>user. readScript (redisNow w) user (users w user)) us, w)))"

definition readOne :: "user_id \<Rightarrow> stored_availability io" where
  "readOne user =
     andThen (readMany [user]) (\<lambda>stored. case stored of [] \<Rightarrow> throw RedisError | s # _ \<Rightarrow> ret s)"

definition claimUser :: "user_id \<Rightarrow> call_id \<Rightarrow> nat option \<Rightarrow> (nat \<times> bool) option io" where
  "claimUser user cid expected =
     redisOp (\<lambda>w. onUser user (claimScript expected cid (redisNow w)) w)"

definition releaseUser :: "user_id \<Rightarrow> call_id \<Rightarrow> nat option io" where
  "releaseUser user cid = redisOp (onUser user (releaseScript cid))"

fun renewEach :: "call_id \<Rightarrow> user_id list \<Rightarrow> world \<Rightarrow> user_id list \<times> world" where
  "renewEach cid [] w = ([], w)"
| "renewEach cid (user # us) w =
     (case onUser user (renewScript cid (redisNow w)) w of (restored, w') \<Rightarrow>
        (case renewEach cid us w' of (rs, w'') \<Rightarrow> (if restored then user # rs else rs, w'')))"

definition renewUsers :: "call_id \<Rightarrow> user_id list \<Rightarrow> user_id list io" where
  "renewUsers cid us = (if us = [] then ret [] else redisOp (renewEach cid us))"

definition markChanged :: "user_id \<Rightarrow> nat io" where
  "markChanged user = redisOp (onUser user markChangedScript)"

definition storeDoNotDisturb :: "user_id \<Rightarrow> bool \<Rightarrow> (nat \<times> bool) io" where
  "storeDoNotDisturb user on = redisOp (onUser user (doNotDisturbScript on))"

definition recordEligibility :: "user_id \<Rightarrow> nat \<Rightarrow> bool \<Rightarrow> unit io" where
  "recordEligibility user rv eligible =
     redisOp (\<lambda>w. onUser user (\<lambda>u. ((), recordEligibilityScript rv eligible (redisNow w) u)) w)"

section \<open>Presence\<close>

definition setSockets :: "user_id \<Rightarrow> (socket_set \<Rightarrow> socket_set) \<Rightarrow> world \<Rightarrow> unit \<times> world" where
  "setSockets user f w = ((), w\<lparr>socketsOf := (socketsOf w)(user := f (socketsOf w user))\<rparr>)"

definition registerSocket :: "user_id \<Rightarrow> socket_id \<Rightarrow> unit io" where
  "registerSocket user socket =
     andThen (redisOp (\<lambda>w. (redisNow w, w))) (\<lambda>now.
     redisOp (setSockets user (registerSocketTx socket now)))"

definition unregisterSocket :: "user_id \<Rightarrow> socket_id \<Rightarrow> unit io" where
  "unregisterSocket user socket = redisOp (setSockets user (unregisterSocketTx socket))"

text \<open>The users who are online, each with their connected sockets.\<close>

type_synonym online = "(user_id \<times> socket_id list) list"

definition onlineUsers :: "user_id list \<Rightarrow> world \<Rightarrow> online" where
  "onlineUsers us w =
     filter (\<lambda>(user, sockets). sockets \<noteq> [])
       (map (\<lambda>user. (user, liveSockets (redisNow w) (socketsOf w user))) (uniq us))"

definition socketIdsOf :: "user_id list \<Rightarrow> online io" where
  "socketIdsOf us = (if us = [] then ret [] else redisOp (\<lambda>w. (onlineUsers us w, w)))"

definition socketsIn :: "online \<Rightarrow> user_id \<Rightarrow> socket_id list" where
  "socketsIn m user = getOr (map_of m user) []"

definition addCallParticipants :: "call_id \<Rightarrow> user_id list \<Rightarrow> unit io" where
  "addCallParticipants cid us =
     (if us = [] then ret ()
      else andThen (redisOp (\<lambda>w. ((), w\<lparr>callParticipantsOf :=
                     (callParticipantsOf w)(cid := uniq (callParticipantsOf w cid @ us))\<rparr>))) (\<lambda>_.
           redisOp (\<lambda>w. ((), w))))"

definition callParticipants :: "call_id \<Rightarrow> user_id list io" where
  "callParticipants cid = redisOp (\<lambda>w. (callParticipantsOf w cid, w))"

definition removeCallParticipants :: "call_id \<Rightarrow> unit io" where
  "removeCallParticipants cid =
     redisOp (\<lambda>w. ((), w\<lparr>callParticipantsOf := (callParticipantsOf w)(cid := [])\<rparr>))"

definition emit :: "socket_id list \<Rightarrow> emission \<Rightarrow> unit io" where
  "emit sockets e = (\<lambda>c w. (Inr (), logged (Emitted sockets e) w))"

section \<open>Telling users where they stand\<close>

definition availabilityFrom :: "stored_availability \<Rightarrow> nat \<Rightarrow> availability_state" where
  "availabilityFrom stored sockets =
     decideAvailability sockets (saDoNotDisturb stored) (saCalls stored) None"

definition announceOne :: "online \<Rightarrow> stored_availability \<Rightarrow> unit io" where
  "announceOne sockets stored =
     (let user = saUserId stored;
          ids = socketsIn sockets user;
          state = availabilityFrom stored (length ids)
      in andThen (recordEligibility user (saRevision stored) (state = Available)) (\<lambda>_.
         if ids \<noteq> [] then emit ids (EmitAvailability user state (saRevision stored)) else ret ()))"

definition announceAll :: "user_id list \<Rightarrow> unit io" where
  "announceAll us =
     (if us = [] then ret ()
      else catching
        (andThen (readMany us) (\<lambda>stored.
         andThen (socketIdsOf us) (\<lambda>sockets.
         andThen (promiseAll (map (announceOne sockets) stored)) (\<lambda>_. ret ()))))
        (\<lambda>_. ret ()))"

section \<open>Offering a call\<close>

definition CLAIM_ATTEMPTS :: nat where
  "CLAIM_ATTEMPTS = 5"

datatype claim_outcome = Claimed "socket_id list" bool | NotClaimed unavailable_reason

record call_offer =
  offered :: "user_id list"
  refused :: "(user_id \<times> unavailable_reason) list"

fun attemptClaim ::
    "nat \<Rightarrow> stored_availability \<Rightarrow> socket_id list \<Rightarrow> call_id \<Rightarrow> claim_outcome io" where
  "attemptClaim 0 stored sockets cid = ret (NotClaimed IsBusy)"
| "attemptClaim (Suc n) stored sockets cid =
     (case decideAvailability (length sockets) (saDoNotDisturb stored) (saCalls stored) (Some cid) of
        Unavailable reason \<Rightarrow> ret (NotClaimed reason)
      | Available \<Rightarrow>
          andThen (claimUser (saUserId stored) cid (Some (saRevision stored))) (\<lambda>claim.
          case claim of
            Some (_, added) \<Rightarrow> ret (Claimed sockets added)
          | None \<Rightarrow>
              if n = 0 then ret (NotClaimed IsBusy)
              else
                andThen (readOne (saUserId stored)) (\<lambda>again.
                andThen (socketIdsOf [saUserId stored]) (\<lambda>now.
                attemptClaim n again (socketsIn now (saUserId stored)) cid))))"

definition claimIfAvailable ::
    "stored_availability \<Rightarrow> socket_id list \<Rightarrow> call_id \<Rightarrow> claim_outcome io" where
  "claimIfAvailable stored sockets cid = attemptClaim CLAIM_ATTEMPTS stored sockets cid"

fun sortOutcomes :: "(user_id \<times> claim_outcome) list
    \<Rightarrow> call_offer \<times> socket_id list \<times> user_id list" where
  "sortOutcomes [] = (\<lparr>offered = [], refused = []\<rparr>, [], [])"
| "sortOutcomes ((user, verdict) # rest) =
     (case sortOutcomes rest of (offer, sockets, claimed) \<Rightarrow>
        (case verdict of
           NotClaimed reason \<Rightarrow> (offer\<lparr>refused := (user, reason) # refused offer\<rparr>, sockets, claimed)
         | Claimed ids added \<Rightarrow>
             (offer\<lparr>offered := user # offered offer\<rparr>, ids @ sockets,
              if added then user # claimed else claimed)))"

definition offerCall :: "user_id list \<Rightarrow> incoming_call \<Rightarrow> call_offer io" where
  "offerCall us call =
     (let cid = icConversationUuid call; unique = uniq us in
      andThen (readMany unique) (\<lambda>stored.
      andThen (socketIdsOf unique) (\<lambda>sockets.
      andThen (promiseAll (map (\<lambda>user.
          andThen (claimIfAvailable user (socketsIn sockets (saUserId user)) cid) (\<lambda>verdict.
          ret (saUserId user, verdict))) stored)) (\<lambda>verdicts.
      case sortOutcomes verdicts of (offer, ids, claimed) \<Rightarrow>
        andThen (if ids \<noteq> []
                 then andThen (addCallParticipants cid (offered offer)) (\<lambda>_.
                      emit ids (EmitIncomingCall call))
                 else ret ()) (\<lambda>_.
        andThen (if claimed \<noteq> [] then inBackground (AnnounceJob claimed) else ret ()) (\<lambda>_.
        ret offer))))))"

definition occupy :: "call_id \<Rightarrow> user_id list \<Rightarrow> unit io" where
  "occupy cid us =
     andThen (promiseAll (map (\<lambda>user. andThen (claimUser user cid None) (\<lambda>claim. ret (user, claim)))
       (uniq us))) (\<lambda>claims.
     announceAll (map fst (filter (\<lambda>(user, claim). map_option snd claim = Some True) claims)))"

definition release :: "call_id \<Rightarrow> user_id list \<Rightarrow> unit io" where
  "release cid us =
     andThen (promiseAll (map (\<lambda>user. andThen (releaseUser user cid) (\<lambda>rv. ret (user, rv)))
       (uniq us))) (\<lambda>releases.
     announceAll (map fst (filter (\<lambda>(user, rv). rv \<noteq> None) releases)))"

definition renew :: "call_id \<Rightarrow> user_id list \<Rightarrow> unit io" where
  "renew cid us = andThen (renewUsers cid (uniq us)) announceAll"

definition connectionChanged :: "user_id \<Rightarrow> unit io" where
  "connectionChanged user = andThen (markChanged user) (\<lambda>_. announceAll [user])"

definition availabilityOf :: "user_id list \<Rightarrow> (user_id \<times> availability_state \<times> nat) list io" where
  "availabilityOf us =
     (let unique = uniq us in
      andThen (readMany unique) (\<lambda>stored.
      andThen (socketIdsOf unique) (\<lambda>sockets.
      ret (map (\<lambda>user. (saUserId user,
                 availabilityFrom user (length (socketsIn sockets (saUserId user))),
                 saRevision user)) stored))))"

definition ownAvailability :: "user_id \<Rightarrow> (availability_state \<times> nat \<times> bool) io" where
  "ownAvailability user =
     andThen (readOne user) (\<lambda>stored.
     andThen (socketIdsOf [user]) (\<lambda>sockets.
     ret (availabilityFrom stored (length (socketsIn sockets user)), saRevision stored,
          saDoNotDisturb stored)))"

definition setDoNotDisturb :: "user_id \<Rightarrow> bool \<Rightarrow> (availability_state \<times> nat \<times> bool) io" where
  "setDoNotDisturb user on =
     andThen (storeDoNotDisturb user on) (\<lambda>(_, changed).
     andThen (if changed then announceAll [user] else ret ()) (\<lambda>_.
     ownAvailability user))"

section \<open>The end of calls and transfers\<close>

definition trackCallParticipants :: "call_id \<Rightarrow> user_id list \<Rightarrow> unit io" where
  "trackCallParticipants cid us = addCallParticipants cid us"

definition notifyTransferOutcome :: "user_id list \<Rightarrow> transfer_outcome \<Rightarrow> unit io" where
  "notifyTransferOutcome us result =
     andThen (socketIdsOf us) (\<lambda>sockets.
     forEach (map snd sockets) (\<lambda>ids. emit ids (EmitTransferOutcome result)))"

definition broadcastCallEnded :: "call_id \<Rightarrow> nat \<Rightarrow> call_end_status \<Rightarrow> unit io" where
  "broadcastCallEnded cid seconds status =
     andThen (callParticipants cid) (\<lambda>participants.
     if participants = [] then ret ()
     else
       andThen (socketIdsOf participants) (\<lambda>sockets.
       andThen (let ids = concat (map snd sockets)
                in if ids \<noteq> [] then emit ids (EmitCallEnded cid seconds status) else ret ()) (\<lambda>_.
       removeCallParticipants cid)))"

end
