(* ===== verification/Call_Flow.thy ===== *)
theory Call_Flow
  imports Telephony Realtime
begin

text \<open>
  \<open>apps/call-controller/src/calls/call-flow.ts\<close>, the life of a call: one definition per method of
  \<open>CallFlow\<close>, in the order they depend on each other, composed of the telephony and the realtime
  handlers the way the source composes them.
\<close>

section \<open>Changing a call and letting go of its users\<close>

definition letGo :: "call_id \<Rightarrow> user_id list \<Rightarrow> unit io" where
  "letGo cid us = (if us = [] then ret () else catching (release cid us) (\<lambda>_. ret ()))"

definition changeCall :: "call_id \<Rightarrow> (call_state \<Rightarrow> 'r change) \<Rightarrow> 'r state_update option io" where
  "changeCall cid decide =
     andThen (updateCallState cid decide) (\<lambda>update.
     andThen (case update of
         None \<Rightarrow> ret ()
       | Some u \<Rightarrow>
           if updAfter u \<noteq> Some (updBefore u)
           then letGo cid (usersLetGo (updBefore u) (updAfter u)) else ret ()) (\<lambda>_.
     ret update))"

section \<open>Teardown\<close>

definition reportEnded :: "call_state \<Rightarrow> call_end_status \<Rightarrow> nat \<Rightarrow> unit io" where
  "reportEnded s status seconds =
     andThen (publish (CallEnded (conversationUuid s) seconds status (callerLegUuid s)
                (agentLegUuid s) (externalLegUuid s))) (\<lambda>_.
     deleteLegMetadata (legUuidsOf s))"

definition finalize :: "call_id \<Rightarrow> call_end_status \<Rightarrow> unit io" where
  "finalize cid status =
     andThen (changeCall cid decideFinalize) (\<lambda>update.
     case update of None \<Rightarrow> ret () | Some u \<Rightarrow> reportEnded (updBefore u) status 0)"

definition endCall :: "call_id \<Rightarrow> user_id option \<Rightarrow> call_state option io" where
  "endCall cid initiatedBy =
     andThen readNow (\<lambda>now.
     andThen (changeCall cid (decideEndCall now initiatedBy)) (\<lambda>update.
     case update of
       None \<Rightarrow> ret None
     | Some u \<Rightarrow> andThen (hangupConversation cid) (\<lambda>_. ret (updAfter u))))"

definition missedOf :: "call_state \<Rightarrow> call_event" where
  "missedOf s =
     CallMissed (conversationUuid s) (fromNumber s) (toNumber s) (departmentId s) (targetUserId s)"

definition voicemailInsteadOfRinging :: "call_state \<Rightarrow> voicemail_reason \<Rightarrow> twiml io" where
  "voicemailInsteadOfRinging s reason =
     andThen (changeCall (conversationUuid s) decideVoicemailInsteadOfRinging) (\<lambda>update.
     andThen (if (case update of None \<Rightarrow> False | Some u \<Rightarrow> updResult u)
              then publish (missedOf s) else ret ()) (\<lambda>_.
     let latest = (case update of None \<Rightarrow> s | Some u \<Rightarrow> getOr (updAfter u) s)
     in buildVoicemailTwiml (conversationUuid latest) (voicemailGreetingUrl latest) reason))"

definition routeCallerToVoicemail :: "call_id \<Rightarrow> voicemail_reason \<Rightarrow> unit io" where
  "routeCallerToVoicemail cid reason =
     andThen (changeCall cid decideRouteCallerToVoicemail) (\<lambda>update.
     case update of
       None \<Rightarrow> ret ()
     | Some u \<Rightarrow>
         (case (updResult u, updAfter u) of
            (Some moved, Some s) \<Rightarrow>
              if \<not> truthy (callerLegUuid s) then ret ()
              else
                andThen (safeHangups (movedHangUpLegUuids moved)) (\<lambda>_.
                andThen (if \<not> answered s then publish (missedOf s) else ret ()) (\<lambda>_.
                andThen (if movedWasHeld moved
                         then publish (CallResumed cid None (callerLegUuid s)) else ret ()) (\<lambda>_.
                redirectLegToVoicemail (the (callerLegUuid s)) s reason)))
          | _ \<Rightarrow> ret ()))"

section \<open>Holding the other party\<close>

type_synonym 'a control_result = "call_control_refusal + 'a"

definition loadControlledCall ::
    "call_control_request \<Rightarrow> (call_state \<times> leg_metadata) control_result io" where
  "loadControlledCall r =
     andThen (getLegMetadata (requestLegUuid r)) (\<lambda>metadata.
     case metadata of
       None \<Rightarrow> ret (Inl LegNotFound)
     | Some leg \<Rightarrow>
         andThen (getCallState (legConversationUuid leg)) (\<lambda>state.
         case state of None \<Rightarrow> ret (Inl CallGone) | Some s \<Rightarrow> ret (Inr (s, leg))))"

definition recordHold :: "call_id \<Rightarrow> bool \<Rightarrow> user_id option \<Rightarrow> unit io" where
  "recordHold cid isHeld user =
     andThen (changeCall cid (decideRecordHold isHeld)) (\<lambda>update.
     case update of
       None \<Rightarrow> ret ()
     | Some u \<Rightarrow>
         (case updAfter u of
            Some s \<Rightarrow>
              if \<not> updResult u then ret ()
              else if isHeld then publish (CallHeld cid user (remoteLegOf s))
              else publish (CallResumed cid user (remoteLegOf s))
          | None \<Rightarrow> ret ()))"

definition setHold :: "call_id \<Rightarrow> bool \<Rightarrow> user_id option \<Rightarrow> bool option io" where
  "setHold cid hold user =
     andThen (holdConversation cid hold) (\<lambda>answer.
     case answer of
       None \<Rightarrow> ret None
     | Some isHeld \<Rightarrow>
         andThen (catching (recordHold cid isHeld user) (\<lambda>_. ret ())) (\<lambda>_. ret (Some isHeld)))"

definition holdCall :: "call_control_request \<Rightarrow> bool \<Rightarrow> (call_id \<times> bool) control_result io" where
  "holdCall r hold =
     andThen (loadControlledCall r) (\<lambda>call.
     case call of
       Inl refusal \<Rightarrow> ret (Inl refusal)
     | Inr (s, leg) \<Rightarrow>
         (case refuseHold s leg r of
            Some refusal \<Rightarrow> ret (Inl refusal)
          | None \<Rightarrow>
              catching
                (andThen (setHold (conversationUuid s) hold (Some (requestUserId r))) (\<lambda>answer.
                 ret (case answer of None \<Rightarrow> Inl CallGone | Some h \<Rightarrow> Inr (conversationUuid s, h))))
                (\<lambda>_. ret (Inl ProviderError))))"

section \<open>Transfers\<close>

definition resumeAfterTransfer :: "call_id \<Rightarrow> unit io" where
  "resumeAfterTransfer cid =
     catching (andThen (setHold cid False None) (\<lambda>_. ret ())) (\<lambda>_. ret ())"

definition tellTransferOutcome :: "user_id option list \<Rightarrow> transfer_outcome \<Rightarrow> unit io" where
  "tellTransferOutcome us result =
     catching (notifyTransferOutcome (present us) result) (\<lambda>_. ret ())"

definition failPendingTransfer ::
    "call_id \<Rightarrow> user_id \<Rightarrow> transfer_failure_reason option \<Rightarrow> bool io" where
  "failPendingTransfer cid target reason =
     andThen (changeCall cid (decideFailPendingTransfer target)) (\<lambda>update.
     case (case update of None \<Rightarrow> None | Some u \<Rightarrow> updResult u) of
       None \<Rightarrow> ret False
     | Some settled \<Rightarrow>
         andThen (case settledPlan settled of
             ReturnToAgent \<Rightarrow>
               andThen (safeHangups (settledRingingLegUuids settled)) (\<lambda>_.
               if reason \<noteq> None then resumeAfterTransfer cid else ret ())
           | ToVoicemail \<Rightarrow> routeCallerToVoicemail cid RoutingTimeout
           | EndTheCall \<Rightarrow> andThen (endCall cid None) (\<lambda>_. ret ())) (\<lambda>_.
         andThen (case reason of
             None \<Rightarrow> ret ()
           | Some why \<Rightarrow>
               tellTransferOutcome [settledInitiatedBy settled, Some target]
                 (TransferFailed cid target why)) (\<lambda>_.
         ret True)))"

definition completeTransfer :: "call_id \<Rightarrow> transfer_handover \<Rightarrow> unit io" where
  "completeTransfer cid transfer =
     andThen (resumeAfterTransfer cid) (\<lambda>_.
     andThen (tellTransferOutcome [hoInitiatedBy transfer]
                (TransferCompleted cid (hoToUserId transfer))) (\<lambda>_.
     andThen (safeHangups (hoReleasedLegUuids transfer)) (\<lambda>_.
     publish (CallTransferred cid (hoFromUserId transfer) (hoToUserId transfer)
       (hoAnsweredLegUuid transfer)))))"

text \<open>
  The \<open>try\<close> block of \<open>transferCall\<close>: the flag says whether its \<open>finally\<close> has to let go of the
  teammate, who was offered the call and whose ring the call did not record.
\<close>

definition ringTeammate ::
    "call_id \<Rightarrow> user_id \<Rightarrow> call_control_request \<Rightarrow> call_state
       \<Rightarrow> (bool \<times> (exn + (call_id \<times> user_id) control_result)) io" where
  "ringTeammate cid target r s =
     andThen (attempt (offerCall [target] (transferOfferOf s (requestUserId r)))) (\<lambda>offering.
     case offering of
       Inl e \<Rightarrow> ret (False, Inl e)
     | Inr offer \<Rightarrow>
         if offered offer = [] then
           andThen (attempt (failPendingTransfer cid target None)) (\<lambda>failed.
           ret (False, case failed of
               Inl e \<Rightarrow> Inl e
             | Inr _ \<Rightarrow> Inr (Inl (transferRefusalOf
                 (case refused offer of [] \<Rightarrow> IsOffline | (_, why) # _ \<Rightarrow> why)))))
         else
           andThen (attempt (setHold cid True (Some (requestUserId r)))) (\<lambda>holding.
           case holding of
             Inl e \<Rightarrow> ret (True, Inl e)
           | Inr answer \<Rightarrow>
               if answer \<noteq> Some True then
                 andThen (attempt (failPendingTransfer cid target (Some TransferUnavailable)))
                   (\<lambda>failed.
                    ret (True, case failed of
                        Inl e \<Rightarrow> Inl e
                      | Inr _ \<Rightarrow> Inr (Inl (if answer = None then CallGone else ProviderError))))
               else
                 andThen (attempt (transferConversation cid target (requestUserId r))) (\<lambda>ringing.
                 case ringing of
                   Inl e \<Rightarrow> ret (True, Inl e)
                 | Inr ring \<Rightarrow>
                     andThen (attempt
                       (andThen (getCallState cid) (\<lambda>latest.
                        let alreadyAnswered = (ring \<noteq> None \<and> (case latest of
                                None \<Rightarrow> False | Some l \<Rightarrow> agentLegUuid l = ring));
                            stillPending = (case latest of
                                None \<Rightarrow> False
                              | Some l \<Rightarrow> pendingTransferToUserId l = Some target \<and>
                                  transferInitiatedBy l = Some (requestUserId r))
                        in if \<not> alreadyAnswered \<and> \<not> stillPending then
                             andThen (if truthy ring then safeHangup (the ring) else ret ()) (\<lambda>_.
                             andThen (case latest of
                                 None \<Rightarrow> ret ()
                               | Some l \<Rightarrow>
                                   if \<not> ending l \<and> \<not> truthy (pendingTransferToUserId l)
                                   then resumeAfterTransfer cid else ret ()) (\<lambda>_.
                             ret (Inl NoTransferPending)))
                           else ret (Inr (cid, target))))) (\<lambda>result.
                     ret (ring = None, result)))))"

definition transferCall ::
    "call_control_request \<Rightarrow> user_id \<Rightarrow> (call_id \<times> user_id) control_result io" where
  "transferCall r target =
     andThen (loadControlledCall r) (\<lambda>call.
     case call of
       Inl refusal \<Rightarrow> ret (Inl refusal)
     | Inr (s, leg) \<Rightarrow>
         let cid = conversationUuid s in
         andThen (changeCall cid (decideMarkTransfer leg r target)) (\<lambda>marked.
         case marked of
           None \<Rightarrow> ret (Inl CallGone)
         | Some u \<Rightarrow>
             (case updAfter u of
                None \<Rightarrow> ret (Inl CallGone)
              | Some after \<Rightarrow>
                  (case markRefusal (updResult u) of
                     Some refusal \<Rightarrow> ret (Inl refusal)
                   | None \<Rightarrow>
                       andThen (safeHangups (lostRingLegUuids (updResult u))) (\<lambda>_.
                       andThen (ringTeammate cid target r after) (\<lambda>(unrung, result).
                       finally_do
                         (case result of
                            Inr answer \<Rightarrow> ret answer
                          | Inl e \<Rightarrow>
                              andThen (failPendingTransfer cid target (Some TransferUnavailable))
                                (\<lambda>_. ret (Inl ProviderError)))
                         (if unrung then letGo cid [target] else ret ())))))))"

definition cancelTransfer :: "call_control_request \<Rightarrow> call_id control_result io" where
  "cancelTransfer r =
     andThen (loadControlledCall r) (\<lambda>call.
     case call of
       Inl refusal \<Rightarrow> ret (Inl refusal)
     | Inr (s, leg) \<Rightarrow>
         (case (refuseTransferCancel s leg r, pendingTransferToUserId s) of
            (None, Some target) \<Rightarrow>
              if target = [] then ret (Inl NoTransferPending)
              else
                andThen (failPendingTransfer (conversationUuid s) target
                           (Some TransferCancelled)) (\<lambda>cancelled.
                ret (if cancelled then Inr (conversationUuid s) else Inl NoTransferPending))
          | (refusal, _) \<Rightarrow> ret (Inl (getOr refusal NoTransferPending))))"

text \<open>The rest of the method, \<open>refuseDecline\<close>, only logs.\<close>

definition declineOfferedCall :: "call_id \<Rightarrow> user_id \<Rightarrow> unit io" where
  "declineOfferedCall cid user =
     andThen (getCallState cid) (\<lambda>state.
     case state of
       None \<Rightarrow> ret ()
     | Some s \<Rightarrow>
         if pendingTransferToUserId s = Some user then
           andThen (failPendingTransfer cid user (Some TransferDeclined)) (\<lambda>_. ret ())
         else if answered s then ret ()
         else
           let ringing = filter (\<lambda>leg. map_of (agentLegs s) leg = Some user)
                 (pendingAgentLegUuids s)
           in if ringing = [] then ret ()
              else andThen (safeHangups ringing) (\<lambda>_. letGo cid [user]))"

section \<open>Ringing\<close>

definition ringAllAtOnce :: "call_state \<Rightarrow> user_id list \<Rightarrow> user_id list io" where
  "ringAllAtOnce s us =
     andThen (offerCall us (incomingCallOf s)) (\<lambda>offer.
     andThen (attempt (ringAgents (conversationUuid s) (offered offer) (toNumber s)
                (ringDuration s))) (\<lambda>ringing.
     let rung = (case ringing of Inl e \<Rightarrow> [] | Inr legs \<Rightarrow> map fst legs) in
     finally_do (andThen (rethrow ringing) (\<lambda>_. ret rung))
       (letGo (conversationUuid s) (filter (\<lambda>user. user \<notin> set rung) (offered offer)))))"

definition ringAgent :: "call_state \<Rightarrow> user_id \<Rightarrow> leg_id option io" where
  "ringAgent s user = createAgentLeg (conversationUuid s) user (toNumber s) (ringDuration s)"

fun ringFrom :: "call_id \<Rightarrow> nat \<Rightarrow> user_id list \<Rightarrow> bool io" where
  "ringFrom cid index [] = ret False"
| "ringFrom cid index (user # rest) =
     (if user = [] then ringFrom cid (Suc index) rest
      else
        andThen (changeCall cid (decideRingTurn index)) (\<lambda>turn.
        case (case turn of None \<Rightarrow> None
              | Some u \<Rightarrow> if updResult u then updAfter u else None) of
          None \<Rightarrow> ret False
        | Some s \<Rightarrow>
            andThen (offerCall [user] (incomingCallOf s)) (\<lambda>offer.
            if offered offer = [] then ringFrom cid (Suc index) rest
            else
              andThen (catching (andThen (ringAgent s user) (\<lambda>leg. ret (leg \<noteq> None)))
                         (\<lambda>_. ret False)) (\<lambda>recorded.
              if recorded then ret True
              else andThen (letGo cid [user]) (\<lambda>_. ringFrom cid (Suc index) rest)))))"

definition ringNextInOrder :: "call_id \<Rightarrow> bool io" where
  "ringNextInOrder cid =
     andThen (getCallState cid) (\<lambda>start.
     let queue = (case start of None \<Rightarrow> [] | Some s \<Rightarrow> getOr (routingQueue s) []);
         index = (case start of None \<Rightarrow> 0 | Some s \<Rightarrow> getOr (currentQueueIndex s) 0)
     in ringFrom cid index (drop index queue))"

section \<open>A leg that ended\<close>

definition publishParticipantStatus ::
    "call_state \<Rightarrow> leg_id \<Rightarrow> call_participant \<Rightarrow> participant_status \<Rightarrow> nat option \<Rightarrow> unit io" where
  "publishParticipantStatus s leg p status seconds =
     publish (CallParticipantStatus (conversationUuid s) leg (participantType p) (participantId p)
       status (participantEventType (participantType p) status)
       (participantDescription (participantType p) (participantId p) status) seconds)"

definition actOnLegEnd ::
    "call_id \<Rightarrow> call_end_status \<Rightarrow> nat option \<Rightarrow> leg_end_plan \<Rightarrow> unit io" where
  "actOnLegEnd cid status seconds plan =
     (case plan of
        Ignored \<Rightarrow> ret ()
      | Forgotten \<Rightarrow> ret ()
      | CallOver final others \<Rightarrow>
          andThen (safeHangups others) (\<lambda>_. reportEnded final status (getOr seconds 0))
      | RingNext \<Rightarrow>
          andThen (ringNextInOrder cid) (\<lambda>ringing.
          if ringing then ret () else routeCallerToVoicemail cid RoutingTimeout)
      | LegVoicemail reason \<Rightarrow> routeCallerToVoicemail cid reason
      | TransferFellThrough target reason \<Rightarrow>
          andThen (failPendingTransfer cid target (Some reason)) (\<lambda>_. ret ()))"

definition onLegEnded ::
    "call_id \<Rightarrow> call_participant \<Rightarrow> leg_id \<Rightarrow> call_end_status \<Rightarrow> nat option \<Rightarrow> unit io" where
  "onLegEnded cid p leg status seconds =
     andThen (deleteLegMetadata [leg]) (\<lambda>_.
     andThen (changeCall cid (decideLegEnded p leg status)) (\<lambda>update.
     case update of
       None \<Rightarrow> ret ()
     | Some u \<Rightarrow>
         if updResult u = Ignored then ret ()
         else
           andThen (publishParticipantStatus (updBefore u) leg p (Ended status) seconds) (\<lambda>_.
           actOnLegEnd cid status seconds (updResult u))))"

section \<open>A participant who joined\<close>


definition onAgentJoined :: "call_id \<Rightarrow> user_id \<Rightarrow> leg_id \<Rightarrow> unit io" where
  "onAgentJoined cid user leg =
     andThen (changeCall cid (decideAgentJoined user leg)) (\<lambda>update.
     case update of
       None \<Rightarrow> ret ()
     | Some u \<Rightarrow>
         (case updAfter u of
            None \<Rightarrow> ret ()
          | Some s \<Rightarrow>
              (case updResult u of
                 Intruder \<Rightarrow> safeHangup leg
               | Joined firstAnswer losing transfer \<Rightarrow>
                   andThen (if firstAnswer then
                       andThen (publish (CallStarted cid (fromNumber s) (toNumber s) user
                                  (departmentId s) (direction s) (Some leg) (externalLegUuid s)))
                         (\<lambda>_. safeHangups losing)
                     else ret ()) (\<lambda>_.
                   case transfer of None \<Rightarrow> ret () | Some t \<Rightarrow> completeTransfer cid t))))"

definition onExternalJoined :: "call_id \<Rightarrow> leg_id \<Rightarrow> unit io" where
  "onExternalJoined cid leg =
     andThen (changeCall cid (decideExternalJoined leg)) (\<lambda>update.
     case update of
       None \<Rightarrow> ret ()
     | Some u \<Rightarrow>
         (case updAfter u of
            None \<Rightarrow> ret ()
          | Some s \<Rightarrow>
              if \<not> updResult u then ret ()
              else publish (CallStarted cid (fromNumber s) (toNumber s)
                     (getOr (activeAgentUserId s) (getOr (targetUserId s) ''unknown''))
                     (departmentId s) Outbound (agentLegUuid s) (Some leg))))"

definition onParticipantJoined :: "call_id \<Rightarrow> call_participant \<Rightarrow> leg_id \<Rightarrow> unit io" where
  "onParticipantJoined cid p leg =
     (case participantType p of
        Caller \<Rightarrow> andThen (changeCall cid (decideCallerJoined leg)) (\<lambda>_. ret ())
      | Agent \<Rightarrow> onAgentJoined cid (participantId p) leg
      | External \<Rightarrow> onExternalJoined cid leg)"

definition resolveParticipant ::
    "call_state \<Rightarrow> leg_id \<Rightarrow> string option \<Rightarrow> call_participant option io" where
  "resolveParticipant s leg label =
     andThen (participantOfLabel label) (\<lambda>labeled.
     case labeled of
       Some p \<Rightarrow> ret (Some p)
     | None \<Rightarrow>
         andThen (getLegMetadata leg) (\<lambda>metadata.
         case metadata of
           Some m \<Rightarrow> ret (Some (legParticipant m))
         | None \<Rightarrow> ret (participantOfLeg s leg)))"

end
