(* ===== verification/Call_Handlers.thy ===== *)
theory Call_Handlers
  imports Call_Flow
begin

text \<open>
  What comes in from outside and how the flow answers it: the rest of \<open>CallFlow\<close>
  (\<open>apps/call-controller/src/calls/call-flow.ts\<close>), that is a call starting in either direction,
  Twilio's status callbacks, claim renewal and reconciliation, with the HTTP side of
  \<open>voice-webhook.routes.ts\<close>, \<open>voice.routes.ts\<close> and \<open>call-commands.ts\<close>.
\<close>

section \<open>The routing lookup\<close>

definition onBreaker :: "(breaker \<Rightarrow> 'a \<times> breaker) \<Rightarrow> 'a io" where
  "onBreaker f = (\<lambda>c w. case f (routingBreaker w) of (x, b) \<Rightarrow> (Inr x, w\<lparr>routingBreaker := b\<rparr>))"

definition lookupRouting :: "phone \<Rightarrow> cached_routing option io" where
  "lookupRouting number =
     andThen (redisOp (\<lambda>w. (routingCache w number, w))) (\<lambda>cached.
     andThen (asks parsedRouting) (\<lambda>parse.
     case (if truthy cached then parse (the cached) else None) of
       Some routing \<Rightarrow> ret (Some routing)
     | None \<Rightarrow>
         andThen readNow (\<lambda>now.
         andThen (onBreaker (isCircuitOpen now)) (\<lambda>isTripped.
         if isTripped then ret None
         else
           andThen (consult apiAnswer) (\<lambda>answer.
           andThen readNow (\<lambda>failedAt.
           onBreaker (fetchFromApi parse answer failedAt)))))))"

section \<open>An outbound call\<close>

definition grantOutboundCall ::
    "outbound_grant_request \<Rightarrow> (outbound_grant_refusal + string \<times> nat) io" where
  "grantOutboundCall req =
     andThen (lookupRouting (ogrFromNumber req)) (\<lambda>routing.
     andThen readNow (\<lambda>now.
     case decideOutboundGrant req routing now of
       RefuseGrant reason \<Rightarrow> ret (Inl reason)
     | IssueGrant grant \<Rightarrow>
         andThen (issueOutboundGrant grant) (\<lambda>token.
         ret (Inr (token, OUTBOUND_GRANT_TTL_SECONDS)))))"

definition outboundState :: "call_id \<Rightarrow> outbound_call_grant \<Rightarrow> millis \<Rightarrow> call_state" where
  "outboundState callSid grant now =
     \<lparr>version = 0, conversationUuid = callSid, conversationName = conversationNameFor callSid,
      conferenceSid = None, direction = Outbound, routingType = OUTBOUND,
      fromNumber = grantFromNumber grant, toNumber = grantTo grant,
      departmentId = grantDepartmentId grant, departmentName = grantDepartmentName grant,
      targetUserId = Some (grantUserId grant), targetUserName = None,
      activeAgentUserId = Some (grantUserId grant), callerLegUuid = None,
      agentLegUuid = Some callSid, externalLegUuid = None,
      agentLegs = [(callSid, grantUserId grant)], pendingAgentLegUuids = [],
      routingQueue = None, currentQueueIndex = None, ringStrategy = None, ringDuration = None,
      voicemailGreetingUrl = None, answered = False, voicemail = False, held = None,
      pendingTransferToUserId = None, transferInitiatedBy = None, transferOriginLegUuid = None,
      ending = False, endingRequestedAt = None, endingRequestedBy = None, createdAt = now\<rparr>"

record outbound_call_request =
  ocrCallSid :: call_id
  ocrFrom :: "string option"
  ocrGrant :: "string option"

definition startOutboundCall :: "outbound_call_request \<Rightarrow> twiml io" where
  "startOutboundCall req =
     (let callSid = ocrCallSid req in
      andThen (if truthy (ocrGrant req) then takeOutboundGrant (the (ocrGrant req))
               else ret None) (\<lambda>taken.
      andThen readNow (\<lambda>now.
      case admitOutboundCall taken (ocrFrom req) now of
        RefuseCall reason \<Rightarrow> ret (buildOutboundRefusalTwiml reason)
      | AdmitCall grant \<Rightarrow>
          let user = grantUserId grant;
              agent = \<lparr>participantType = Agent, participantId = user\<rparr>
          in andThen (occupy callSid [user]) (\<lambda>_.
             andThen readNow (\<lambda>created.
             andThen (catching (createCallState (outboundState callSid grant created))
                        (\<lambda>e. andThen (letGo callSid [user]) (\<lambda>_. throw e))) (\<lambda>s.
             andThen (setLegMetadata callSid
                        \<lparr>legParticipant = agent, legConversationUuid = callSid\<rparr>) (\<lambda>_.
             andThen (trackCallParticipants callSid [user]) (\<lambda>_.
             andThen (publish (CallIncoming callSid (grantFromNumber grant) (grantTo grant) Outbound
                        None (Some callSid) (grantDepartmentId grant) (Some user))) (\<lambda>_.
             andThen (inBackground (DialOutJob callSid (grantTo grant) (grantFromNumber grant)))
               (\<lambda>_. buildConferenceTwiml s agent))))))))))"

section \<open>An inbound call\<close>

definition inboundState :: "call_id \<Rightarrow> phone \<Rightarrow> phone \<Rightarrow> millis \<Rightarrow> call_state" where
  "inboundState callSid from to now =
     \<lparr>version = 0, conversationUuid = callSid, conversationName = conversationNameFor callSid,
      conferenceSid = None, direction = Inbound, routingType = Routed DEPARTMENT,
      fromNumber = from, toNumber = to, departmentId = None, departmentName = None,
      targetUserId = None, targetUserName = None, activeAgentUserId = None,
      callerLegUuid = Some callSid, agentLegUuid = None, externalLegUuid = None,
      agentLegs = [], pendingAgentLegUuids = [], routingQueue = None, currentQueueIndex = None,
      ringStrategy = None, ringDuration = None, voicemailGreetingUrl = None, answered = False,
      voicemail = False, held = None, pendingTransferToUserId = None,
      transferInitiatedBy = None, transferOriginLegUuid = None, ending = False,
      endingRequestedAt = None, endingRequestedBy = None, createdAt = now\<rparr>"

definition routedState ::
    "call_state \<Rightarrow> cached_routing \<Rightarrow> inbound_plan \<Rightarrow> string option \<Rightarrow> call_state" where
  "routedState base routed plan greeting = base\<lparr>
     routingType := Routed (routingTarget routed), departmentId := routingDepartmentId routed,
     departmentName := routingDepartmentName routed, targetUserId := routingUserId routed,
     targetUserName := routingUserName routed,
     routingQueue := (case plan of PlanRing _ us _ _ \<Rightarrow> Some us | _ \<Rightarrow> None),
     currentQueueIndex := Some 0,
     ringStrategy := (case plan of PlanRing strategy _ _ _ \<Rightarrow> Some strategy | _ \<Rightarrow> None),
     ringDuration := map_option settingsRingDuration (settings routed),
     voicemailGreetingUrl := greeting\<rparr>"

record inbound_call_request =
  icrCallSid :: call_id
  icrFrom :: phone
  icrTo :: phone

definition startCall :: "call_state \<Rightarrow> call_state io" where
  "startCall s =
     andThen (createCallState s) (\<lambda>created.
     andThen (setLegMetadata (conversationUuid s)
                \<lparr>legParticipant = \<lparr>participantType = Caller, participantId = fromNumber s\<rparr>,
                 legConversationUuid = conversationUuid s\<rparr>) (\<lambda>_.
     andThen (publish (CallIncoming (conversationUuid s) (fromNumber s) (toNumber s) Inbound
                (Some (conversationUuid s)) None (departmentId s) (targetUserId s))) (\<lambda>_.
     ret created)))"

definition answerPlan :: "call_state \<Rightarrow> inbound_plan \<Rightarrow> twiml io" where
  "answerPlan s plan =
     (let caller = \<lparr>participantType = Caller, participantId = fromNumber s\<rparr> in
      case plan of
        PlanVoicemail reason \<Rightarrow> voicemailInsteadOfRinging s reason
      | PlanForward number seconds \<Rightarrow>
          andThen (inBackground (ForwardJob (conversationUuid s) number (toNumber s) seconds))
            (\<lambda>_. buildConferenceTwiml s caller)
      | PlanRing strategy us _ whenNobody \<Rightarrow>
          andThen (if strategy = FIXED_ORDER then ringNextInOrder (conversationUuid s)
                   else andThen (ringAllAtOnce s us) (\<lambda>rung. ret (rung \<noteq> []))) (\<lambda>ringing.
          if ringing then buildConferenceTwiml s caller
          else voicemailInsteadOfRinging s whenNobody))"

definition acceptInboundCall :: "inbound_call_request \<Rightarrow> twiml io" where
  "acceptInboundCall req =
     andThen readNow (\<lambda>created.
     let base = inboundState (icrCallSid req) (icrFrom req) (icrTo req) created in
     andThen (lookupRouting (icrTo req)) (\<lambda>routing.
     case routing of
       None \<Rightarrow>
         andThen (startCall (base\<lparr>voicemail := True\<rparr>)) (\<lambda>s.
         buildVoicemailTwiml (conversationUuid s) (voicemailGreetingUrl s) MissingRouting)
     | Some routed \<Rightarrow>
         andThen readNow (\<lambda>now.
         andThen (asks intlParts) (\<lambda>intl.
         andThen (asks parsedUrl) (\<lambda>parse.
         let plan = planInboundCall intl routed now;
             greeting = usableGreetingUrl parse
               (Option.bind (settings routed) settingsGreetingUrl)
         in andThen (startCall (routedState base routed plan greeting)) (\<lambda>s.
            answerPlan s plan))))))"

section \<open>Work in the background\<close>

text \<open>What a failed dial does to a call still going, and what a failure of that leaves: a log line.\<close>

fun runJob :: "job \<Rightarrow> unit io" where
  "runJob (DialOutJob cid to line) =
     catching
       (catching (andThen (createExternalLeg cid to line None) (\<lambda>_. ret ()))
         (\<lambda>_. andThen (getCallState cid) (\<lambda>latest.
           case latest of
             None \<Rightarrow> ret ()
           | Some s \<Rightarrow>
               if ending s then ret ()
               else andThen (hangupConversation cid) (\<lambda>_. finalize cid Failed))))
       (\<lambda>_. ret ())"
| "runJob (ForwardJob cid number line seconds) =
     catching
       (catching (andThen (createExternalLeg cid number line (Some seconds)) (\<lambda>_. ret ()))
         (\<lambda>_. andThen (getCallState cid) (\<lambda>latest.
           case latest of
             None \<Rightarrow> ret ()
           | Some s \<Rightarrow>
               if ending s then ret () else routeCallerToVoicemail cid ClosedHoursExternal)))
       (\<lambda>_. ret ())"
| "runJob (AnnounceJob us) = announceAll us"

text \<open>The background work takes a job that was left behind.\<close>

definition runBackground :: "nat \<Rightarrow> unit io" where
  "runBackground i = (\<lambda>c w.
     if i < length (jobs w)
     then runJob (jobs w ! i) c (w\<lparr>jobs := take i (jobs w) @ drop (Suc i) (jobs w)\<rparr>)
     else (Inr (), w))"

section \<open>Twilio's callbacks\<close>

definition recordingContextOf :: "string \<Rightarrow> string" where
  "recordingContextOf context = (if context = ''conference'' then ''conference'' else ''voicemail'')"

record recording_ready_notice =
  recConversationUuid :: call_id
  recUrl :: string
  recDuration :: "nat option"
  recContext :: "string option"

text \<open>The publisher refuses a recording whose address is not a URL.\<close>

definition publishWithUrl :: "string option \<Rightarrow> call_event \<Rightarrow> unit io" where
  "publishWithUrl url ev =
     andThen (asks parsedUrl) (\<lambda>parse.
     if (case url of None \<Rightarrow> False | Some u \<Rightarrow> parse u = None) then throw InvalidEvent
     else publish ev)"

definition handleRecordingReady :: "recording_ready_notice \<Rightarrow> unit io" where
  "handleRecordingReady notice =
     (if \<not> truthy (recContext notice) then ret ()
      else
        let context = recordingContextOf (the (recContext notice)) in
        andThen (publishWithUrl (Some (recUrl notice))
          (CallRecordingReady (recConversationUuid notice) (recUrl notice) (recDuration notice)
             context)) (\<lambda>_.
        if context \<noteq> ''voicemail'' then ret ()
        else finalize (recConversationUuid notice) Completed))"

record transcription_ready_notice =
  trnConversationUuid :: call_id
  trnTranscript :: string
  trnRecordingUrl :: "string option"
  trnContext :: "string option"

definition handleTranscriptionReady :: "transcription_ready_notice \<Rightarrow> unit io" where
  "handleTranscriptionReady notice =
     publishWithUrl (trnRecordingUrl notice)
       (CallTranscriptionReady (trnConversationUuid notice) (trim (trnTranscript notice))
          (trnRecordingUrl notice)
          (if truthy (trnContext notice) then Some (recordingContextOf (the (trnContext notice)))
           else None))"

record conference_notice =
  cnfConversationUuid :: call_id
  cnfConferenceSid :: "string option"
  cnfEvent :: string
  cnfLegUuid :: "leg_id option"
  cnfParticipantLabel :: "string option"
  cnfDuration :: "nat option"

definition onConferenceJoin :: "call_state \<Rightarrow> call_id \<Rightarrow> leg_id \<Rightarrow> call_participant \<Rightarrow> unit io" where
  "onConferenceJoin s cid leg p =
     andThen (setLegMetadata leg \<lparr>legParticipant = p, legConversationUuid = cid\<rparr>) (\<lambda>_.
     andThen (publishParticipantStatus s leg p Answered None) (\<lambda>_.
     onParticipantJoined cid p leg))"

definition onConferenceLeave ::
    "call_state \<Rightarrow> call_id \<Rightarrow> leg_id \<Rightarrow> call_participant \<Rightarrow> nat option \<Rightarrow> unit io" where
  "onConferenceLeave s cid leg p seconds =
     (if leg \<notin> set (legUuidsOf s) then ret ()
      else if participantType p = Caller \<and> voicemail s \<and> \<not> ending s then ret ()
      else onLegEnded cid p leg Completed seconds)"

definition handleConferenceEvent :: "conference_notice \<Rightarrow> unit io" where
  "handleConferenceEvent notice =
     (let cid = cnfConversationUuid notice;
          joined = (cnfEvent notice = ''participant-join'');
          left = (cnfEvent notice = ''participant-leave'')
      in andThen (if truthy (cnfConferenceSid notice)
                  then ensureConferenceReference cid (the (cnfConferenceSid notice))
                  else ret ()) (\<lambda>_.
         if \<not> joined \<and> \<not> left \<or> \<not> truthy (cnfLegUuid notice) then ret ()
         else
           let leg = the (cnfLegUuid notice) in
           andThen (getCallState cid) (\<lambda>state.
           case state of
             None \<Rightarrow> ret ()
           | Some s \<Rightarrow>
               andThen (resolveParticipant s leg (cnfParticipantLabel notice)) (\<lambda>participant.
               case participant of
                 None \<Rightarrow> ret ()
               | Some p \<Rightarrow>
                   if joined then onConferenceJoin s cid leg p
                   else onConferenceLeave s cid leg p (cnfDuration notice)))))"

record call_status_notice =
  csnConversationUuid :: call_id
  csnLegUuid :: leg_id
  csnParticipantLabel :: "string option"
  csnStatus :: string
  csnDuration :: "nat option"

definition handleCallStatus :: "call_status_notice \<Rightarrow> unit io" where
  "handleCallStatus notice =
     (let cid = csnConversationUuid notice; leg = csnLegUuid notice in
      case normalizeCallStatus (csnStatus notice) of
        None \<Rightarrow> ret ()
      | Some status \<Rightarrow>
          andThen (getCallState cid) (\<lambda>state.
          case state of
            None \<Rightarrow> ret ()
          | Some s \<Rightarrow>
              andThen (resolveParticipant s leg (csnParticipantLabel notice)) (\<lambda>participant.
              case participant of
                None \<Rightarrow> ret ()
              | Some p \<Rightarrow>
                  (case status of
                     Ended how \<Rightarrow>
                       if leg \<notin> set (legUuidsOf s) then deleteLegMetadata [leg]
                       else onLegEnded cid p leg how (csnDuration notice)
                   | _ \<Rightarrow> publishParticipantStatus s leg p status (csnDuration notice)))))"

section \<open>Renewal and reconciliation\<close>

definition renewCall :: "call_id \<Rightarrow> unit io" where
  "renewCall cid =
     andThen (getCallState cid) (\<lambda>state.
     case state of
       None \<Rightarrow> forgetLiveCall cid
     | Some s \<Rightarrow>
         let occupants = occupantsOf s in
         if occupants = [] then ret ()
         else
           andThen (renew cid occupants) (\<lambda>_.
           andThen (getCallState cid) (\<lambda>now.
           if map_option version now \<noteq> Some (version s)
           then letGo cid (usersLetGo s now) else ret ())))"

definition renewClaims :: "unit io" where
  "renewClaims =
     andThen liveCallIds (\<lambda>cids. forEach cids (\<lambda>cid. catching (renewCall cid) (\<lambda>_. ret ())))"

definition reconcileCall :: "call_id \<Rightarrow> unit io" where
  "reconcileCall cid =
     andThen (getCallState cid) (\<lambda>state.
     case state of
       None \<Rightarrow> ret ()
     | Some s \<Rightarrow>
         andThen (promiseAll (map (\<lambda>leg.
             andThen (fetchLegStatus leg) (\<lambda>answer. ret (leg, answer))) (legUuidsOf s))) (\<lambda>legs.
         forEach legs (\<lambda>(leg, status, seconds).
           case normalizeCallStatus status of
             Some (Ended how) \<Rightarrow>
               handleCallStatus \<lparr>csnConversationUuid = cid, csnLegUuid = leg,
                 csnParticipantLabel = None, csnStatus = status, csnDuration = seconds\<rparr>
           | _ \<Rightarrow> ret ())))"

text \<open>
  \<open>RECONCILE_CONCURRENCY\<close> workers share one list of waiting calls. Run one after the other, the
  first works through it; no call is started once the controller is stopping.
\<close>

fun reconcileWaiting :: "call_id list \<Rightarrow> unit io" where
  "reconcileWaiting [] = ret ()"
| "reconcileWaiting (cid # cids) = (\<lambda>c w.
     if stopping c (tick w) then (Inr (), w)
     else andThen (catching (reconcileCall cid) (\<lambda>_. ret ())) (\<lambda>_. reconcileWaiting cids) c w)"

definition reconcileWithTwilio :: "unit io" where
  "reconcileWithTwilio = andThen liveCallIds reconcileWaiting"

section \<open>The webhooks\<close>

datatype webhook_answer = AnswerTwiml twiml | BadRequest | NoContent

record inbound_body =
  bodyCallSid :: "string option"
  bodyFrom :: "string option"
  bodyTo :: "string option"
  bodyType :: "string option"
  bodyGrant :: "string option"

definition inboundWebhook :: "inbound_body \<Rightarrow> webhook_answer io" where
  "inboundWebhook body =
     (case bodyCallSid body of
        None \<Rightarrow> ret BadRequest
      | Some callSid \<Rightarrow>
          if bodyType body = Some ''outbound-pstn'' then
            andThen (startOutboundCall \<lparr>ocrCallSid = callSid, ocrFrom = bodyFrom body,
              ocrGrant = bodyGrant body\<rparr>) (\<lambda>doc. ret (AnswerTwiml doc))
          else
            (case (bodyFrom body, bodyTo body) of
               (Some from, Some to) \<Rightarrow>
                 andThen (acceptInboundCall \<lparr>icrCallSid = callSid, icrFrom = from, icrTo = to\<rparr>)
                   (\<lambda>doc. ret (AnswerTwiml doc))
             | _ \<Rightarrow> ret BadRequest))"

record status_body =
  stCallSid :: "string option"
  stConferenceSid :: "string option"
  stFriendlyName :: "string option"
  stParticipantLabel :: "string option"
  stStatusCallbackEvent :: "string option"
  stCallStatus :: "string option"
  stCallDuration :: "nat option"
  stRecordingStatus :: "string option"
  stRecordingUrl :: "string option"
  stRecordingDuration :: "nat option"
  stTranscriptionStatus :: "string option"
  stTranscriptionText :: "string option"
  stQueryConversationUuid :: "string option"
  stQueryContext :: "string option"

text \<open>Which conversation a status callback is about.\<close>

definition conversationOfStatus :: "status_body \<Rightarrow> call_id option" where
  "conversationOfStatus b =
     (case stQueryConversationUuid b of
        Some cid \<Rightarrow> Some cid
      | None \<Rightarrow>
          (case Option.bind (stFriendlyName b) parseConversationName of
             Some cid \<Rightarrow> Some cid
           | None \<Rightarrow> if stCallStatus b \<noteq> None then stCallSid b else None))"

definition statusWebhook :: "status_body \<Rightarrow> webhook_answer io" where
  "statusWebhook b =
     (case conversationOfStatus b of
        None \<Rightarrow> ret NoContent
      | Some cid \<Rightarrow>
          andThen
            (if stRecordingStatus b = Some ''completed'' \<and> stRecordingUrl b \<noteq> None then
               handleRecordingReady \<lparr>recConversationUuid = cid, recUrl = the (stRecordingUrl b),
                 recDuration = stRecordingDuration b, recContext = stQueryContext b\<rparr>
             else if stTranscriptionStatus b = Some ''completed'' \<and> stTranscriptionText b \<noteq> None then
               handleTranscriptionReady \<lparr>trnConversationUuid = cid,
                 trnTranscript = the (stTranscriptionText b), trnRecordingUrl = stRecordingUrl b,
                 trnContext = stQueryContext b\<rparr>
             else if stStatusCallbackEvent b \<noteq> None then
               handleConferenceEvent \<lparr>cnfConversationUuid = cid,
                 cnfConferenceSid = stConferenceSid b, cnfEvent = the (stStatusCallbackEvent b),
                 cnfLegUuid = stCallSid b, cnfParticipantLabel = stParticipantLabel b,
                 cnfDuration = stCallDuration b\<rparr>
             else if stCallSid b \<noteq> None \<and> stCallStatus b \<noteq> None then
               handleCallStatus \<lparr>csnConversationUuid = cid, csnLegUuid = the (stCallSid b),
                 csnParticipantLabel = stParticipantLabel b, csnStatus = the (stCallStatus b),
                 csnDuration = stCallDuration b\<rparr>
             else ret ())
            (\<lambda>_. ret NoContent))"

section \<open>The softphone's requests\<close>

datatype hangup_answer = HangupRefused nat | HangupDone leg_id "call_id option"

definition hangupRoute :: "user_id \<Rightarrow> leg_id \<Rightarrow> hangup_answer io" where
  "hangupRoute user leg =
     andThen (getLegMetadata leg) (\<lambda>found.
     case found of
       None \<Rightarrow> ret (HangupRefused 404)
     | Some metadata \<Rightarrow>
         andThen (getCallState (legConversationUuid metadata)) (\<lambda>state.
         let ownsLeg = (participantType (legParticipant metadata) = Agent \<and>
               participantId (legParticipant metadata) = user);
             isActiveAgent = (case state of None \<Rightarrow> False | Some s \<Rightarrow> activeAgentUserId s = Some user)
         in if \<not> ownsLeg \<and> \<not> isActiveAgent then ret (HangupRefused 403)
            else case state of
                None \<Rightarrow> andThen (safeHangup leg) (\<lambda>_. ret (HangupDone leg None))
              | Some s \<Rightarrow>
                  (case planHangup s \<lparr>requestUserId = user, requestLegUuid = leg\<rparr> of
                     PlanEndCall \<Rightarrow>
                       andThen (endCall (conversationUuid s) (Some user)) (\<lambda>latest.
                       ret (HangupDone leg (map_option conversationUuid latest)))
                   | PlanDeclineTransfer \<Rightarrow>
                       andThen (declineOfferedCall (conversationUuid s) user) (\<lambda>_.
                       ret (HangupDone leg (Some (conversationUuid s))))
                   | PlanReleaseLeg \<Rightarrow>
                       let own = (if ownsLeg then Some leg else agentLegUuid s) in
                       andThen (if truthy own then safeHangup (the own) else ret ()) (\<lambda>_.
                       ret (HangupDone leg (Some (conversationUuid s)))))))"

datatype 'a route_answer = Refused nat | Accepted 'a

definition refuseWith :: "'a control_result \<Rightarrow> 'a route_answer" where
  "refuseWith r = (case r of Inl refusal \<Rightarrow> Refused (REFUSAL_STATUS refusal) | Inr x \<Rightarrow> Accepted x)"

definition holdRoute :: "user_id \<Rightarrow> leg_id \<Rightarrow> bool \<Rightarrow> (call_id \<times> bool) route_answer io" where
  "holdRoute user leg hold =
     andThen (holdCall \<lparr>requestUserId = user, requestLegUuid = leg\<rparr> hold) (\<lambda>r. ret (refuseWith r))"

definition transferRoute :: "user_id \<Rightarrow> leg_id \<Rightarrow> user_id \<Rightarrow> (call_id \<times> user_id) route_answer io" where
  "transferRoute user leg target =
     andThen (transferCall \<lparr>requestUserId = user, requestLegUuid = leg\<rparr> target)
       (\<lambda>r. ret (refuseWith r))"

definition cancelRoute :: "user_id \<Rightarrow> leg_id \<Rightarrow> call_id route_answer io" where
  "cancelRoute user leg =
     andThen (cancelTransfer \<lparr>requestUserId = user, requestLegUuid = leg\<rparr>) (\<lambda>r. ret (refuseWith r))"

definition outboundGrantRoute ::
    "user_id \<Rightarrow> string \<Rightarrow> string \<Rightarrow> (string \<times> nat) route_answer io" where
  "outboundGrantRoute user to line =
     (case (toE164PhoneNumber to, toE164PhoneNumber line) of
        (Some number, Some from) \<Rightarrow>
          andThen (grantOutboundCall \<lparr>ogrUserId = user, ogrTo = number, ogrFromNumber = from\<rparr>)
            (\<lambda>r. ret (case r of Inl refusal \<Rightarrow> Refused (GRANT_REFUSAL_STATUS refusal)
                            | Inr granted \<Rightarrow> Accepted granted))
      | _ \<Rightarrow> ret (Refused 400))"

text \<open>The API's command to hang up, which comes over Redis.\<close>

definition onHangupCommand :: "call_id \<Rightarrow> user_id option \<Rightarrow> unit io" where
  "onHangupCommand cid initiatedBy = andThen (endCall cid initiatedBy) (\<lambda>_. ret ())"

end
