(* ===== verification/Call_Contract.thy ===== *)
theory Call_Contract
  imports Call_Handlers
begin

text \<open>
  What a handler may do to the world, as an interface: a relation between an earlier and a later
  world, and the steps that have to respect it, which are the steps the handlers take and no other.
  The locale \<open>realtime_contract\<close> has the steps of the realtime side, \<open>call_contract\<close> adds those of the
  flow. Every handler respects them, which is proved once; the properties of the whole program are
  instances.

  Ending a call is reported after its state is removed, so a handler that removed a state is for a
  while owed a report. \<open>Rc cid\<close> is the relation with that report outstanding.
\<close>

section \<open>The steps a handler takes\<close>

fun quiet :: "effect \<Rightarrow> bool" where
  "quiet (Published (CallEnded _ _ _ _ _ _)) = False"
| "quiet (StateCreated _ _) = False"
| "quiet (StateWritten _ _ _) = False"
| "quiet (StateRemoved _ _) = False"
| "quiet _ = True"

text \<open>What a script does to the user it runs on, at Redis's time.\<close>

inductive user_step :: "millis \<Rightarrow> user_store \<Rightarrow> user_store \<Rightarrow> bool" where
  claimed: "user_step now u (snd (claimScript expected cid now u))"
| released: "user_step now u (snd (releaseScript cid u))"
| renewed: "user_step now u (snd (renewScript cid now u))"
| marked: "user_step now u (snd (markChangedScript u))"
| disturbed: "user_step now u (snd (doNotDisturbScript on u))"
| eligible: "user_step now u (recordEligibilityScript rv el now u)"

definition written :: "call_id \<Rightarrow> call_state \<Rightarrow> call_state \<Rightarrow> world \<Rightarrow> world" where
  "written cid cur s w =
     logged (StateWritten cid cur s) (w\<lparr>callStates := (callStates w)(cid \<mapsto> s)\<rparr>)"

definition removed :: "call_id \<Rightarrow> call_state \<Rightarrow> world \<Rightarrow> world" where
  "removed cid cur w =
     logged (StateRemoved cid cur)
       (w\<lparr>callStates := (callStates w)(cid := None), liveCalls := removeAll cid (liveCalls w)\<rparr>)"

locale realtime_contract = world_contract R for R :: "world \<Rightarrow> world \<Rightarrow> bool" +
  assumes R_frame: "callStates w' = callStates w \<Longrightarrow> users w' = users w \<Longrightarrow>
      redisNow w' = redisNow w \<Longrightarrow> trace w' = trace w \<Longrightarrow> R w w'"
    and R_emit: "R w (logged (Emitted ids e) w)"
    and R_user: "user_step (redisNow w) (users w user) stored \<Longrightarrow>
      R w (w\<lparr>users := (users w)(user := stored)\<rparr>)"

text \<open>The contract of the flow: it also publishes, asks Twilio, and writes the states of calls.\<close>

locale call_contract = realtime_contract R for R :: "world \<Rightarrow> world \<Rightarrow> bool" +
  fixes Rc :: "call_id \<Rightarrow> world \<Rightarrow> world \<Rightarrow> bool"
  assumes R_quiet: "quiet e \<Longrightarrow> R w (logged e w)"
    and R_write: "R w0 w \<Longrightarrow> callStates w0 cid = Some before \<Longrightarrow> callStates w cid = Some cur \<Longrightarrow>
      version cur = version before \<Longrightarrow> call_write before (Some t) \<Longrightarrow>
      R w0 (written cid cur (t\<lparr>version := Suc (version before)\<rparr>) w)"
    and R_remove: "callStates w cid = Some cur \<Longrightarrow> Rc cid w (removed cid cur w)"
    and Rc_weaken: "Rc cid u w \<Longrightarrow> R u w"
    and Rc_before: "R u v \<Longrightarrow> Rc cid v w \<Longrightarrow> Rc cid u w"
    and Rc_after: "Rc cid u v \<Longrightarrow> R v w \<Longrightarrow> Rc cid u w"
    and R_report: "R w0 w1 \<Longrightarrow> callStates w1 cid = Some s \<Longrightarrow> Rc cid w0 w \<Longrightarrow>
      R w0 (logged (Published (CallEnded (conversationUuid s) n st a b d)) w)"

context realtime_contract begin

subsection \<open>Steps on Redis and Twilio\<close>

lemma redis_frame:
  assumes "\<And>w. callStates (snd (f w)) = callStates w" and "\<And>w. users (snd (f w)) = users w"
    and "\<And>w. redisNow (snd (f w)) = redisNow w" and "\<And>w. trace (snd (f w)) = trace w"
  shows "obeys R (redisOp f)"
  by (rule redisOp_resp, rule R_frame) (simp_all add: assms)

lemma emit_resp [resp]: "obeys R (emit ids e)"
  by (rule obeysI) (simp add: emit_def R_emit)

lemma inBackground_resp [resp]: "obeys R (inBackground j)"
  by (rule obeysI) (simp add: inBackground_def R_frame)

lemma onBreaker_resp [resp]: "obeys R (onBreaker f)"
  by (rule obeysI) (simp add: onBreaker_def R_frame split_def)

lemma requireVoice_resp [resp]: "obeys R requireVoice"
  by (rule obeysI) (simp add: requireVoice_def R_refl)

lemma pause_resp [resp]: "obeys R pause"
  unfolding pause_def by (rule resp)

lemma getCallState_resp [resp]: "obeys R (getCallState cid)"
  unfolding getCallState_def by (rule redis_frame) simp_all

lemma liveCallIds_resp [resp]: "obeys R liveCallIds"
  unfolding liveCallIds_def by (rule redis_frame) simp_all

lemma forgetLiveCall_resp [resp]: "obeys R (forgetLiveCall cid)"
  unfolding forgetLiveCall_def by (rule redis_frame) simp_all

lemma addLiveCalls_resp [resp]: "obeys R (redisOp (addLiveCalls cids))"
  by (rule redis_frame) (simp_all add: addLiveCalls_def Let_def)

lemma restoreLiveCalls_resp [resp]: "obeys R restoreLiveCalls"
  unfolding restoreLiveCalls_def by (intro resp)

lemma takeReconcileLock_resp [resp]: "obeys R (takeReconcileLock h)"
  unfolding takeReconcileLock_def by (rule redis_frame) simp_all

lemma releaseReconcileLock_resp [resp]: "obeys R (releaseReconcileLock h)"
  unfolding releaseReconcileLock_def by (rule redis_frame) simp_all

lemma setLegMetadata_resp [resp]: "obeys R (setLegMetadata leg m)"
  unfolding setLegMetadata_def by (rule redis_frame) simp_all

lemma getLegMetadata_resp [resp]: "obeys R (getLegMetadata leg)"
  unfolding getLegMetadata_def by (rule redis_frame) simp_all

lemma deleteLegMetadata_resp [resp]: "obeys R (deleteLegMetadata legs)"
  unfolding deleteLegMetadata_def by (intro resp redis_frame) simp_all

lemma issueOutboundGrant_resp [resp]: "obeys R (issueOutboundGrant g)"
  unfolding issueOutboundGrant_def Let_def
  by (rule reading_resp, rule redis_frame) simp_all

lemma takeOutboundGrant_resp [resp]: "obeys R (takeOutboundGrant token)"
  unfolding takeOutboundGrant_def by (intro resp redis_frame) simp_all

subsection \<open>Steps on users and sockets\<close>

lemma onUser_R: "user_step (redisNow w) (users w user) (snd (f (users w user))) \<Longrightarrow>
    R w (snd (onUser user f w))"
  by (simp add: onUser_def split_def R_user)

lemma claimUser_resp [resp]: "obeys R (claimUser user cid expected)"
  unfolding claimUser_def by (intro redisOp_resp onUser_R user_step.intros)

lemma releaseUser_resp [resp]: "obeys R (releaseUser user cid)"
  unfolding releaseUser_def by (intro redisOp_resp onUser_R user_step.intros)

lemma markChanged_resp [resp]: "obeys R (markChanged user)"
  unfolding markChanged_def by (intro redisOp_resp onUser_R user_step.intros)

lemma storeDoNotDisturb_resp [resp]: "obeys R (storeDoNotDisturb user on)"
  unfolding storeDoNotDisturb_def by (intro redisOp_resp onUser_R user_step.intros)

lemma recordEligibility_resp [resp]: "obeys R (recordEligibility user rv el)"
  unfolding recordEligibility_def
  by (intro redisOp_resp onUser_R) (simp add: user_step.intros)

lemma renewEach_R: "R w (snd (renewEach cid us w))"
proof (induction us arbitrary: w)
  case (Cons user us)
  obtain b w' where w': "onUser user (renewScript cid (redisNow w)) w = (b, w')" by fastforce
  have "R w w'"
    using onUser_R [of w user "renewScript cid (redisNow w)"] by (simp add: w' user_step.intros)
  then show ?case
    using R_trans Cons by (simp add: w' split_def)
qed (simp add: R_refl)

lemma renewUsers_resp [resp]: "obeys R (renewUsers cid us)"
  unfolding renewUsers_def by (intro resp redisOp_resp renewEach_R)

lemma readMany_resp [resp]: "obeys R (readMany us)"
  unfolding readMany_def by (intro resp redis_frame) simp_all

lemma readOne_resp [resp]: "obeys R (readOne user)"
  unfolding readOne_def by (intro resp)

lemma socketIdsOf_resp [resp]: "obeys R (socketIdsOf us)"
  unfolding socketIdsOf_def by (intro resp redis_frame) simp_all

lemma setSockets_resp [resp]: "obeys R (redisOp (setSockets user f))"
  by (rule redis_frame) (simp_all add: setSockets_def)

lemma registerSocket_resp [resp]: "obeys R (registerSocket user socket)"
  unfolding registerSocket_def by (intro resp redis_frame) simp_all

lemma unregisterSocket_resp [resp]: "obeys R (unregisterSocket user socket)"
  unfolding unregisterSocket_def by (intro resp)

lemma addCallParticipants_resp [resp]: "obeys R (addCallParticipants cid us)"
  unfolding addCallParticipants_def by (intro resp redis_frame) simp_all

lemma callParticipants_resp [resp]: "obeys R (callParticipants cid)"
  unfolding callParticipants_def by (intro resp redis_frame) simp_all

lemma removeCallParticipants_resp [resp]: "obeys R (removeCallParticipants cid)"
  unfolding removeCallParticipants_def by (intro resp redis_frame) simp_all

subsection \<open>The realtime side\<close>

lemma announceOne_resp [resp]: "obeys R (announceOne m s)"
  unfolding announceOne_def by (intro resp)

lemma announceAll_resp [resp]: "obeys R (announceAll us)"
  unfolding announceAll_def by (intro resp)

lemma availability_resp [resp]:
  "obeys R (case a of Available \<Rightarrow> m | Unavailable why \<Rightarrow> f why)"
  if "obeys R m" and "\<And>why. obeys R (f why)" for m and f :: "unavailable_reason \<Rightarrow> 'a io"
  using that by (cases a) auto

lemma attemptClaim_resp [resp]: "obeys R (attemptClaim n stored sockets cid)"
  by (induction n arbitrary: stored sockets)
    (simp_all only: attemptClaim.simps, (assumption | rule resp)+)

lemma claimIfAvailable_resp [resp]: "obeys R (claimIfAvailable stored sockets cid)"
  unfolding claimIfAvailable_def by (intro resp)

lemma offerCall_resp [resp]: "obeys R (offerCall us call)"
  unfolding offerCall_def by (intro resp)

lemma occupy_resp [resp]: "obeys R (occupy cid us)"
  unfolding occupy_def by (intro resp)

lemma release_resp [resp]: "obeys R (release cid us)"
  unfolding release_def by (intro resp)

lemma renew_resp [resp]: "obeys R (renew cid us)"
  unfolding renew_def by (intro resp)

lemma connectionChanged_resp [resp]: "obeys R (connectionChanged user)"
  unfolding connectionChanged_def by (intro resp)

lemma ownAvailability_resp [resp]: "obeys R (ownAvailability user)"
  unfolding ownAvailability_def by (intro resp)

lemma availabilityOf_resp [resp]: "obeys R (availabilityOf us)"
  unfolding availabilityOf_def by (intro resp)

lemma setDoNotDisturb_resp [resp]: "obeys R (setDoNotDisturb user on)"
  unfolding setDoNotDisturb_def by (intro resp)

lemma trackCallParticipants_resp [resp]: "obeys R (trackCallParticipants cid us)"
  unfolding trackCallParticipants_def by (intro resp)

lemma notifyTransferOutcome_resp [resp]: "obeys R (notifyTransferOutcome us t)"
  unfolding notifyTransferOutcome_def by (intro resp)

lemma broadcastCallEnded_resp [resp]: "obeys R (broadcastCallEnded cid n st)"
  unfolding broadcastCallEnded_def by (intro resp)

lemma letGo_resp [resp]: "obeys R (letGo cid us)"
  unfolding letGo_def by (intro resp)

end

context call_contract begin

lemma request_resp [resp]: "quiet e \<Longrightarrow> obeys R (request e f)"
  by (rule obeysI) (auto simp: request_def intro: R_trans [OF advance_R R_quiet])

lemma publish_resp [resp]: "quiet (Published ev) \<Longrightarrow> obeys R (publish ev)"
  unfolding publish_def by (rule redisOp_resp) (simp add: R_quiet)

end

end
