(* ===== verification/Flow_Contract.thy ===== *)
theory Flow_Contract
  imports Call_Contract
begin

text \<open>
  The flow's handlers respect the contract of \<open>Call_Contract\<close>: first the compare-and-set write of a
  call's state, then every method of the flow that changes one.
\<close>

text \<open>Every decision of the flow is a write of the step relation.\<close>

definition decides :: "(call_state \<Rightarrow> 'r change) \<Rightarrow> bool" where
  "decides decide \<longleftrightarrow> (\<forall>s. call_write s (outcome (decide s)))"

lemma decides_intros [resp]:
  "decides (decideConferenceReference sid)" "decides (decideRegisterAgentLegs legs)"
  "decides (decideExternalLeg l)" "decides (decideEndCall now by_user)"
  "decides (decideMarkTransfer leg req target)" "decides (decideRecordHold h)"
  "decides (decideFailPendingTransfer target)" "decides (decideRingTurn i)"
  "decides decideVoicemailInsteadOfRinging" "decides decideRouteCallerToVoicemail"
  "decides decideFinalize" "decides (decideCallerJoined l)" "decides (decideAgentJoined user l)"
  "decides (decideExternalJoined l)" "decides (decideLegEnded p l st)"
  by (simp_all add: decides_def call_write.intros)

text \<open>Only a report of a leg that ended, and finalizing, remove a state.\<close>

lemma decideLegEnded_removes:
  "chRemove (decideLegEnded p l st s) \<longleftrightarrow>
     (\<exists>final others. chResult (decideLegEnded p l st s) = CallOver final others)"
  by (auto simp: decideLegEnded_def Let_def split: if_splits participant_type.split)

lemma decideLegEnded_final:
  "chResult (decideLegEnded p l st s) = CallOver final others \<Longrightarrow>
     conversationUuid final = conversationUuid s"
  by (auto simp: decideLegEnded_def Let_def split: if_splits participant_type.splits)

lemma outcome_Some: "outcome ch = Some t \<longleftrightarrow> \<not> chRemove ch \<and> t = chDraft ch"
  by (auto simp: outcome_def)

lemma writeCallStateScript_written:
  assumes "writeCallStateScript cid v after w = (1, w')"
  obtains cur where "callStates w cid = Some cur" "version cur = v"
    "w' = (case after of None \<Rightarrow> removed cid cur w | Some s \<Rightarrow> written cid cur s w)"
  using assms
  by (auto simp: writeCallStateScript_def removed_def written_def split: option.splits if_splits)

lemma writeCallStateScript_other:
  assumes "writeCallStateScript cid v after w = (i, w')" and "i \<noteq> 1"
  shows "w' = w"
  using assms by (auto simp: writeCallStateScript_def split: option.splits if_splits)

context call_contract begin

subsection \<open>The compare-and-set write\<close>

text \<open>
  One attempt at writing what was decided on a state read before: whatever becomes of it, the
  contract holds, and once the state is removed a report is due.
\<close>

lemma script_R:
  assumes "decides decide" and "R w0 w" and "callStates w0 cid = Some before"
    and "writeCallStateScript cid (version before)
      (if chRemove (decide before) then None
       else Some ((chDraft (decide before))\<lparr>version := version before + 1\<rparr>)) w = (i, w')"
  shows "R w0 w'" and "i = 1 \<Longrightarrow> chRemove (decide before) \<Longrightarrow> Rc cid w0 w'"
proof -
  have step: "call_write before (outcome (decide before))"
    using assms(1) by (simp add: decides_def)
  have "R w0 w' \<and> (i = 1 \<longrightarrow> chRemove (decide before) \<longrightarrow> Rc cid w0 w')"
  proof (cases "i = 1")
    case True
    then obtain cur where cur: "callStates w cid = Some cur" "version cur = version before"
      and w': "w' = (case (if chRemove (decide before) then None
            else Some ((chDraft (decide before))\<lparr>version := version before + 1\<rparr>)) of
          None \<Rightarrow> removed cid cur w | Some s \<Rightarrow> written cid cur s w)"
      using assms(4) by (auto elim!: writeCallStateScript_written)
    show ?thesis
    proof (cases "chRemove (decide before)")
      case True
      then show ?thesis
        using Rc_before [OF assms(2) R_remove [OF cur(1)]] Rc_weaken by (auto simp: w')
    next
      case False
      then have "call_write before (Some (chDraft (decide before)))"
        using step by (simp add: outcome_def)
      then show ?thesis
        using R_write [OF assms(2,3) cur] False by (simp add: w')
    qed
  next
    case False
    then show ?thesis
      using writeCallStateScript_other [OF assms(4)] assms(2) by simp
  qed
  then show "R w0 w'" and "i = 1 \<Longrightarrow> chRemove (decide before) \<Longrightarrow> Rc cid w0 w'" by simp_all
qed

text \<open>What a change that came back says: it was decided on a state that was there meanwhile.\<close>

definition decided :: "(call_state \<Rightarrow> 'r change) \<Rightarrow> call_id \<Rightarrow> world \<Rightarrow> world \<Rightarrow> 'r state_update \<Rightarrow> bool"
where
  "decided decide cid w w' u \<longleftrightarrow>
     (\<exists>w1. R w w1 \<and> callStates w1 cid = Some (updBefore u)) \<and>
     updResult u = chResult (decide (updBefore u)) \<and>
     (updAfter u = None \<longleftrightarrow> chRemove (decide (updBefore u))) \<and>
     (updAfter u = None \<longrightarrow> Rc cid w w')"

lemma decided_before: "R v w \<Longrightarrow> decided decide cid w w' u \<Longrightarrow> decided decide cid v w' u"
  unfolding decided_def by (meson R_trans Rc_before)

lemma decided_after: "decided decide cid w v u \<Longrightarrow> R v w' \<Longrightarrow> decided decide cid w w' u"
  unfolding decided_def by (meson Rc_after)

lemma getCallState_post:
  assumes "rely R c" and "getCallState cid c w = (r, w1)"
  shows "R w w1" and "r = Inr (Some s) \<Longrightarrow> callStates w1 cid = Some s"
proof -
  show "R w w1"
    using obeysD [OF getCallState_resp assms(1), of w cid] by (simp add: assms(2))
  show "callStates w1 cid = Some s" if "r = Inr (Some s)"
    using assms(2) that
    by (auto simp: getCallState_def redisOp_def Let_def split: delivery.splits)
qed

lemma redisOp_cases:
  assumes "rely R c" and "redisOp f c w = (r, w')"
  obtains v where "R w v" and "r = Inl RedisError" and "w' = v"
  | v where "R w v" and "r = Inl RedisError" and "w' = snd (f v)"
  | v x where "R w v" and "r = Inr x" and "f v = (x, w')"
  using assms advance_R [OF assms(1), of w]
  by (auto simp: redisOp_def Let_def split: delivery.splits prod.splits)

lemma attemptUpdate_post:
  assumes "decides decide" and "rely R c"
  shows "attemptUpdate n cid decide c w = (r, w') \<Longrightarrow>
    R w w' \<and> (\<forall>u. r = Inr (Some u) \<longrightarrow> decided decide cid w w' u)"
proof (induction n arbitrary: w)
  case 0
  then show ?case by (auto simp: throw_def R_refl)
next
  case (Suc n)
  obtain r1 w1 where read: "getCallState cid c w = (r1, w1)" by fastforce
  note w1 = getCallState_post [OF assms(2) read]
  show ?case
  proof (cases "\<exists>before. r1 = Inr (Some before)")
    case False
    then have "w' = w1 \<and> (\<forall>u. r \<noteq> Inr (Some u))"
      using Suc.prems read
      by (cases r1) (auto simp: andThen_def ret_def split: option.splits)
    with w1 show ?thesis by auto
  next
    case True
    then obtain before where before: "r1 = Inr (Some before)" by blast
    note stored = w1(2) [OF before]
    let ?ch = "decide before"
    let ?after = "if chRemove ?ch then None
      else Some ((chDraft ?ch)\<lparr>version := version before + 1\<rparr>)"
    let ?unchanged = "\<not> chRemove ?ch \<and> (chDraft ?ch)\<lparr>version := version before\<rparr> = before"
    have here: "decided decide cid w w' u"
      if "u = \<lparr>updResult = chResult ?ch, updBefore = before, updAfter = a\<rparr>"
        and "a = None \<longleftrightarrow> chRemove ?ch" and "a = None \<Longrightarrow> Rc cid w w'" for u a
      using that w1(1) stored by (auto simp: decided_def)
    show ?thesis
    proof (cases ?unchanged)
      case True
      then have "w' = w1 \<and> r = Inr (Some \<lparr>updResult = chResult ?ch, updBefore = before,
          updAfter = Some before\<rparr>)"
        using Suc.prems read before by (simp add: andThen_def ret_def Let_def)
      then show ?thesis
        using w1(1) True here by auto
    next
      case changed: False
      obtain r2 w2 where script:
        "redisOp (writeCallStateScript cid (version before) ?after) c w1 = (r2, w2)" by fastforce
      have rest: "(r, w') = (case r2 of Inl e \<Rightarrow> (Inl e, w2)
          | Inr wrote \<Rightarrow>
              (if wrote = 1
               then ret (Some \<lparr>updResult = chResult ?ch, updBefore = before, updAfter = ?after\<rparr>)
               else if wrote = -1 then ret None
               else andThen (if n > 0 then pause else ret ()) (\<lambda>_. attemptUpdate n cid decide))
              c w2)"
        using Suc.prems read before changed script
        by (simp add: andThen_def Let_def split: sum.splits)
      from redisOp_cases [OF assms(2) script] show ?thesis
      proof cases
        case (1 v)
        then show ?thesis using rest R_trans [OF w1(1)] by auto
      next
        case (2 v)
        obtain i v' where s: "writeCallStateScript cid (version before) ?after v = (i, v')"
          by fastforce
        have "R w1 v'"
          using script_R(1) [OF assms(1) 2(1) stored s] .
        then show ?thesis
          using rest 2 s R_trans [OF w1(1)] by auto
      next
        case (3 v i)
        note s = script_R [OF assms(1) 3(1) stored 3(3)]
        have w2: "R w w2"
          using R_trans [OF w1(1) s(1)] .
        consider "i = 1" | "i = -1" | "i \<noteq> 1" "i \<noteq> -1" by blast
        then show ?thesis
        proof cases
          case 1
          then have r: "w' = w2"
            "r = Inr (Some \<lparr>updResult = chResult ?ch, updBefore = before, updAfter = ?after\<rparr>)"
            using rest 3(2) by (simp_all add: ret_def)
          have "Rc cid w w2" if "chRemove ?ch"
            using Rc_before [OF w1(1) s(2) [OF 1 that]] .
          then show ?thesis
            using w2 here by (simp add: r)
        next
          case 2
          then show ?thesis using rest 3(2) w2 by (simp add: ret_def)
        next
          case again: 3
          obtain r3 w3 where p: "(if n > 0 then pause else ret ()) c w2 = (r3, w3)" by fastforce
          have "obeys R (if n > 0 then pause else ret ())"
            by (intro resp)
          then have w3: "R w2 w3"
            using obeysD [OF _ assms(2), of "if n > 0 then pause else ret ()" w2] by (simp add: p)
          show ?thesis
          proof (cases r3)
            case (Inl e)
            then show ?thesis
              using rest again 3(2) p w2 w3 by (auto simp: andThen_def intro: R_trans)
          next
            case (Inr x)
            then have "attemptUpdate n cid decide c w3 = (r, w')"
              using rest again 3(2) p by (auto simp: andThen_def)
            then have "R w3 w' \<and> (\<forall>u. r = Inr (Some u) \<longrightarrow> decided decide cid w3 w' u)"
              by (rule Suc.IH)
            then show ?thesis
              using R_trans [OF R_trans [OF w2 w3]] decided_before [OF R_trans [OF w2 w3]] by blast
          qed
        qed
      qed
    qed
  qed
qed

lemma updateCallState_resp [resp]: "decides decide \<Longrightarrow> obeys R (updateCallState cid decide)"
  unfolding updateCallState_def
  by (rule obeysI) (metis attemptUpdate_post prod.collapse)

lemma changeCall_resp [resp]: "decides decide \<Longrightarrow> obeys R (changeCall cid decide)"
  unfolding changeCall_def by (intro resp)

lemma changeCall_post:
  assumes "decides decide" and "rely R c" and "changeCall cid decide c w = (Inr (Some u), w')"
  shows "decided decide cid w w' u"
proof -
  obtain r1 w1 where up: "updateCallState cid decide c w = (r1, w1)" by fastforce
  define free where "free = (if updAfter u \<noteq> Some (updBefore u)
      then letGo cid (usersLetGo (updBefore u) (updAfter u)) else ret ())"
  have r1: "r1 = Inr (Some u)" and w': "w' = snd (free c w1)"
    using assms(3) up
    by (auto simp: changeCall_def andThen_def ret_def free_def split: sum.splits option.splits prod.splits)
  have "obeys R free"
    unfolding free_def by (intro resp)
  then have "R w1 w'"
    using obeysD [OF _ assms(2)] w' by blast
  moreover have "decided decide cid w w1 u"
    using attemptUpdate_post [OF assms(1,2)] up r1 by (auto simp: updateCallState_def)
  ultimately show ?thesis
    using decided_after by blast
qed

subsection \<open>Handlers that owe a report\<close>

definition owes :: "call_id \<Rightarrow> call_state \<Rightarrow> 'a io \<Rightarrow> bool" where
  "owes cid s m \<longleftrightarrow>
     (\<forall>c w0 w. rely R c \<longrightarrow> (\<exists>w1. R w0 w1 \<and> callStates w1 cid = Some s) \<longrightarrow> Rc cid w0 w \<longrightarrow>
        R w0 (snd (m c w)))"

lemma owes_obeys: "obeys R m \<Longrightarrow> owes cid s m"
  unfolding owes_def by (meson Rc_after Rc_weaken obeysD)

lemma owes_andThen:
  assumes "obeys R m" and "\<And>x. owes cid s (f x)"
  shows "owes cid s (andThen m f)"
  unfolding owes_def
proof (intro allI impI)
  fix c w0 w
  assume rely: "rely R c" and s: "\<exists>w1. R w0 w1 \<and> callStates w1 cid = Some s"
    and credit: "Rc cid w0 w"
  obtain r w' where m: "m c w = (r, w')" by fastforce
  have "Rc cid w0 w'"
    using obeysD [OF assms(1) rely, of w] credit by (auto simp: m intro: Rc_after)
  then show "R w0 (snd (andThen m f c w))"
    using assms(2) rely s
    by (cases r) (auto simp: andThen_def m owes_def intro: Rc_weaken)
qed

lemma owes_then_obeys:
  assumes "owes cid s m" and "\<And>x. obeys R (f x)"
  shows "owes cid s (andThen m f)"
  unfolding owes_def
proof (intro allI impI)
  fix c w0 w
  assume rely: "rely R c" and s: "\<exists>w1. R w0 w1 \<and> callStates w1 cid = Some s"
    and credit: "Rc cid w0 w"
  obtain r w' where m: "m c w = (r, w')" by fastforce
  have "R w0 w'"
    using assms(1) [unfolded owes_def, rule_format, OF rely s credit] by (simp add: m)
  moreover have "r = Inr x \<Longrightarrow> R w' (snd (f x c w'))" for x
    using obeysD [OF assms(2) rely] .
  ultimately show "R w0 (snd (andThen m f c w))"
    by (cases r) (auto simp: andThen_def m intro: R_trans)
qed

lemma reportEnded_owes:
  assumes "conversationUuid final = conversationUuid s"
  shows "owes cid s (reportEnded final st n)"
proof -
  have "owes cid s (publish (CallEnded (conversationUuid final) n st a b d))" for a b d
    unfolding owes_def
  proof (intro allI impI)
    fix c w0 w
    assume rely: "rely R c" and s: "\<exists>w1. R w0 w1 \<and> callStates w1 cid = Some s"
      and credit: "Rc cid w0 w"
    have later: "Rc cid w0 (advance c w)"
      using credit advance_R [OF rely] by (rule Rc_after)
    then have "R w0 (logged (Published (CallEnded (conversationUuid final) n st a b d)) (advance c w))"
      using R_report s assms by metis
    with later show "R w0 (snd (publish (CallEnded (conversationUuid final) n st a b d) c w))"
      by (auto simp: publish_def redisOp_def Let_def intro: Rc_weaken split: delivery.split)
  qed
  then show ?thesis
    unfolding reportEnded_def by (intro owes_then_obeys resp)
qed

text \<open>A change, and what is done about it: a report may follow only when the state was removed.\<close>

lemma andThen_changeCall:
  assumes "decides decide" and "obeys R (f None)"
    and "\<And>u. updResult u = chResult (decide (updBefore u)) \<Longrightarrow> \<not> chRemove (decide (updBefore u)) \<Longrightarrow>
      obeys R (f (Some u))"
    and "\<And>u. updResult u = chResult (decide (updBefore u)) \<Longrightarrow> chRemove (decide (updBefore u)) \<Longrightarrow>
      owes cid (updBefore u) (f (Some u))"
  shows "obeys R (andThen (changeCall cid decide) f)"
proof (rule obeysI)
  fix c w
  assume rely: "rely R c"
  obtain r w' where ch: "changeCall cid decide c w = (r, w')" by fastforce
  have w': "R w w'"
    using obeysD [OF changeCall_resp [OF assms(1)] rely, of w cid] by (simp add: ch)
  consider e where "r = Inl e" | "r = Inr None" | u where "r = Inr (Some u)"
    by (cases r) auto
  then show "R w (snd (andThen (changeCall cid decide) f c w))"
  proof cases
    case 1
    then show ?thesis using w' by (simp add: andThen_def ch)
  next
    case 2
    then show ?thesis
      using R_trans [OF w' obeysD [OF assms(2) rely]] by (simp add: andThen_def ch)
  next
    case (3 u)
    then have u: "decided decide cid w w' u"
      using changeCall_post [OF assms(1) rely] ch by simp
    show ?thesis
    proof (cases "chRemove (decide (updBefore u))")
      case True
      then have "R w (snd (f (Some u) c w'))"
        using assms(4) [of u] u rely unfolding owes_def decided_def by blast
      then show ?thesis by (simp add: andThen_def ch 3)
    next
      case False
      then have "obeys R (f (Some u))"
        using assms(3) [of u] u by (simp add: decided_def)
      then show ?thesis
        using R_trans [OF w' obeysD [OF _ rely]] by (simp add: andThen_def ch 3)
    qed
  qed
qed

end

end
