(* ===== verification/Handler_Contract.thy ===== *)
theory Handler_Contract
  imports Flow_Contract
begin

text \<open>
  Every handler of the program respects the contract. \<open>entry\<close> lists all that can come in from outside
  and \<open>serve\<close> is what the controller does about it; \<open>creating_contract\<close> adds the one step that only a
  call starting takes.
\<close>

section \<open>Everything that comes in\<close>

datatype entry =
  InboundWebhook inbound_body
| StatusWebhook status_body
| HangupRequest user_id leg_id
| HoldRequest user_id leg_id bool
| TransferRequest user_id leg_id user_id
| CancelRequest user_id leg_id
| GrantRequest user_id string string
| CallRejected call_id user_id
| HangupCommand call_id "user_id option"
| SocketRegistered user_id socket_id
| SocketGone user_id socket_id
| ConnectionChanged user_id
| DoNotDisturbRequest user_id bool
| OwnAvailabilityRequest user_id
| AvailabilityRequest "user_id list"
| CallEndedHeard call_id nat call_end_status
| RenewalRound
| ReconcileRound
| RestoreRound
| LockRound string
| UnlockRound string
| BackgroundWork nat

definition discard :: "'a io \<Rightarrow> unit io" where
  "discard m = andThen m (\<lambda>_. ret ())"

fun serve :: "entry \<Rightarrow> unit io" where
  "serve (InboundWebhook b) = discard (inboundWebhook b)"
| "serve (StatusWebhook b) = discard (statusWebhook b)"
| "serve (HangupRequest user leg) = discard (hangupRoute user leg)"
| "serve (HoldRequest user leg h) = discard (holdRoute user leg h)"
| "serve (TransferRequest user leg target) = discard (transferRoute user leg target)"
| "serve (CancelRequest user leg) = discard (cancelRoute user leg)"
| "serve (GrantRequest user to line) = discard (outboundGrantRoute user to line)"
| "serve (CallRejected cid user) = declineOfferedCall cid user"
| "serve (HangupCommand cid user) = onHangupCommand cid user"
| "serve (SocketRegistered user socket) = registerSocket user socket"
| "serve (SocketGone user socket) = unregisterSocket user socket"
| "serve (ConnectionChanged user) = connectionChanged user"
| "serve (DoNotDisturbRequest user on) = discard (setDoNotDisturb user on)"
| "serve (OwnAvailabilityRequest user) = discard (ownAvailability user)"
| "serve (AvailabilityRequest us) = discard (availabilityOf us)"
| "serve (CallEndedHeard cid n st) = broadcastCallEnded cid n st"
| "serve RenewalRound = renewClaims"
| "serve ReconcileRound = reconcileWithTwilio"
| "serve RestoreRound = discard restoreLiveCalls"
| "serve (LockRound h) = discard (takeReconcileLock h)"
| "serve (UnlockRound h) = releaseReconcileLock h"
| "serve (BackgroundWork i) = runBackground i"

text \<open>One thing after another, whatever came of the one before.\<close>

fun serveAll :: "entry list \<Rightarrow> unit io" where
  "serveAll [] = ret ()"
| "serveAll (e # es) = andThen (attempt (serve e)) (\<lambda>_. serveAll es)"

fun starts_call :: "entry \<Rightarrow> bool" where
  "starts_call (InboundWebhook _) = True"
| "starts_call _ = False"

context call_contract begin

subsection \<open>Case distinctions of the handlers\<close>

lemma plan_case_resp [resp]:
  "obeys R a \<Longrightarrow> obeys R b \<Longrightarrow> obeys R d \<Longrightarrow>
     obeys R (case p of ReturnToAgent \<Rightarrow> a | ToVoicemail \<Rightarrow> b | EndTheCall \<Rightarrow> d)"
  by (cases p) simp_all

lemma hangup_case_resp [resp]:
  "obeys R a \<Longrightarrow> obeys R b \<Longrightarrow> obeys R d \<Longrightarrow>
     obeys R (case p of PlanEndCall \<Rightarrow> a | PlanReleaseLeg \<Rightarrow> b | PlanDeclineTransfer \<Rightarrow> d)"
  by (cases p) simp_all

lemma join_case_resp [resp]:
  "obeys R a \<Longrightarrow> (\<And>x y z. obeys R (f x y z)) \<Longrightarrow>
     obeys R (case j of Intruder \<Rightarrow> a | Joined x y z \<Rightarrow> f x y z)"
  by (cases j) simp_all

lemma type_case_resp [resp]:
  "obeys R a \<Longrightarrow> obeys R b \<Longrightarrow> obeys R d \<Longrightarrow>
     obeys R (case p of Caller \<Rightarrow> a | Agent \<Rightarrow> b | External \<Rightarrow> d)"
  by (cases p) simp_all

lemma status_case_resp [resp]:
  "obeys R a \<Longrightarrow> obeys R b \<Longrightarrow> obeys R d \<Longrightarrow> (\<And>how. obeys R (f how)) \<Longrightarrow>
     obeys R (case s of Initiated \<Rightarrow> a | Ringing \<Rightarrow> b | Answered \<Rightarrow> d | Ended how \<Rightarrow> f how)"
  by (cases s) simp_all

lemma leg_answer_resp [resp]:
  "(\<And>s n. obeys R (f s n)) \<Longrightarrow> (\<And>e. obeys R (g e)) \<Longrightarrow> obeys R a \<Longrightarrow>
     obeys R (case l of LegAnswered s n \<Rightarrow> f s n | LegError e \<Rightarrow> g e | LegTimeout \<Rightarrow> a)"
  by (cases l) simp_all

lemma admission_resp [resp]:
  "(\<And>r. obeys R (f r)) \<Longrightarrow> (\<And>g. obeys R (h g)) \<Longrightarrow>
     obeys R (case a of RefuseCall r \<Rightarrow> f r | AdmitCall g \<Rightarrow> h g)"
  by (cases a) simp_all

lemma grant_case_resp [resp]:
  "(\<And>r. obeys R (f r)) \<Longrightarrow> (\<And>g. obeys R (h g)) \<Longrightarrow>
     obeys R (case a of RefuseGrant r \<Rightarrow> f r | IssueGrant g \<Rightarrow> h g)"
  by (cases a) simp_all

lemma inbound_case_resp [resp]:
  "(\<And>r. obeys R (f r)) \<Longrightarrow> (\<And>n d. obeys R (g n d)) \<Longrightarrow> (\<And>s us d r. obeys R (h s us d r)) \<Longrightarrow>
     obeys R (case p of PlanVoicemail r \<Rightarrow> f r | PlanForward n d \<Rightarrow> g n d
       | PlanRing s us d r \<Rightarrow> h s us d r)"
  by (cases p) simp_all

lemma discard_resp [resp]: "obeys R m \<Longrightarrow> obeys R (discard m)"
  unfolding discard_def by (intro resp)

subsection \<open>Telephony\<close>

lemma ensureConferenceReference_resp [resp]: "obeys R (ensureConferenceReference cid sid)"
  unfolding ensureConferenceReference_def by (intro resp)

lemma requireCallState_resp [resp]: "obeys R (requireCallState cid)"
  unfolding requireCallState_def by (intro resp)

lemma ensureUser_resp [resp]: "obeys R (ensureUser user)"
  unfolding ensureUser_def by (intro resp)

lemma attemptHangup_resp [resp]: "obeys R (attemptHangup n leg)"
proof (induction n)
  case (Suc n)
  show ?case
    unfolding attemptHangup.simps(2) by (intro resp Suc.IH) simp
qed (simp add: ret_resp)

lemma safeHangup_resp [resp]: "obeys R (safeHangup leg)"
  unfolding safeHangup_def by (intro resp)

lemma safeHangups_resp [resp]: "obeys R (safeHangups legs)"
  unfolding safeHangups_def by (intro resp)

lemma hangupConversation_resp [resp]: "obeys R (hangupConversation cid)"
  unfolding hangupConversation_def by (intro resp)

lemma createConferenceParticipant_resp [resp]:
  "obeys R (createConferenceParticipant s callerId p to timeout)"
  unfolding createConferenceParticipant_def Let_def
  by (intro resp, rule reading_resp, intro resp) simp

lemma dialAgent_resp [resp]: "obeys R (dialAgent s user callerId timer)"
  unfolding dialAgent_def by (intro resp)

lemma registerAgentLegs_resp [resp]: "obeys R (registerAgentLegs cid legs)"
  unfolding registerAgentLegs_def by (intro resp)

lemma createAgentLeg_resp [resp]: "obeys R (createAgentLeg cid user callerId timer)"
  unfolding createAgentLeg_def by (intro resp)

lemma ringAgents_resp [resp]: "obeys R (ringAgents cid us callerId timer)"
  unfolding ringAgents_def by (intro resp)

lemma createExternalLeg_resp [resp]: "obeys R (createExternalLeg cid number callerId timer)"
  unfolding createExternalLeg_def by (intro resp)

lemma findConferenceSid_resp [resp]: "obeys R (findConferenceSid s)"
  unfolding findConferenceSid_def by (intro resp)

lemma holdConversation_resp [resp]: "obeys R (holdConversation cid h)"
  unfolding holdConversation_def by (intro resp) simp

lemma transferConversation_resp [resp]: "obeys R (transferConversation cid target user)"
  unfolding transferConversation_def by (intro resp)

lemma fetchLegStatus_resp [resp]: "obeys R (fetchLegStatus leg)"
  unfolding fetchLegStatus_def by (intro resp)

lemma buildConferenceTwiml_resp [resp]: "obeys R (buildConferenceTwiml s p)"
  unfolding buildConferenceTwiml_def
  by (intro resp, rule obeysI) (simp add: R_refl)

lemma buildVoicemailTwiml_resp [resp]: "obeys R (buildVoicemailTwiml cid url reason)"
  unfolding buildVoicemailTwiml_def renderVoicemailTwiml_def by (intro resp)

lemma redirectLegToVoicemail_resp [resp]: "obeys R (redirectLegToVoicemail leg s reason)"
  unfolding redirectLegToVoicemail_def by (intro resp) simp

lemma participantOfLabel_resp [resp]: "obeys R (participantOfLabel label)"
  unfolding participantOfLabel_def by (intro resp)

subsection \<open>The flow\<close>

lemma publish_others [resp]:
  "obeys R (publish (CallIncoming cid f t dir a b d u))"
  "obeys R (publish (CallStarted cid f t user d dir a b))"
  "obeys R (publish (missedOf s))"
  "obeys R (publish (CallTransferred cid user target leg))"
  "obeys R (publish (CallHeld cid u a))"
  "obeys R (publish (CallResumed cid u a))"
  "obeys R (publish (CallParticipantStatus cid leg p text st timeline text' n))"
  "obeys R (publish (CallRecordingReady cid url n context))"
  "obeys R (publish (CallTranscriptionReady cid text url' context'))"
  unfolding missedOf_def by (simp_all add: publish_resp)

lemma finalize_resp [resp]: "obeys R (finalize cid st)"
  unfolding finalize_def
proof (rule andThen_changeCall, goal_cases)
  case (3 u)
  then show ?case by (simp add: decideFinalize_def)
next
  case (4 u)
  then show ?case by (simp add: reportEnded_owes)
qed (auto intro: resp)

lemma endCall_resp [resp]: "obeys R (endCall cid by_user)"
  unfolding endCall_def by (intro resp)

lemma voicemailInsteadOfRinging_resp [resp]: "obeys R (voicemailInsteadOfRinging s reason)"
  unfolding voicemailInsteadOfRinging_def by (intro resp)

lemma routeCallerToVoicemail_resp [resp]: "obeys R (routeCallerToVoicemail cid reason)"
  unfolding routeCallerToVoicemail_def by (intro resp)

lemma loadControlledCall_resp [resp]: "obeys R (loadControlledCall r)"
  unfolding loadControlledCall_def by (intro resp)

lemma recordHold_resp [resp]: "obeys R (recordHold cid h user)"
  unfolding recordHold_def by (intro resp)

lemma setHold_resp [resp]: "obeys R (setHold cid h user)"
  unfolding setHold_def by (intro resp)

lemma holdCall_resp [resp]: "obeys R (holdCall r h)"
  unfolding holdCall_def by (intro resp)

lemma resumeAfterTransfer_resp [resp]: "obeys R (resumeAfterTransfer cid)"
  unfolding resumeAfterTransfer_def by (intro resp)

lemma tellTransferOutcome_resp [resp]: "obeys R (tellTransferOutcome us t)"
  unfolding tellTransferOutcome_def by (intro resp)

lemma failPendingTransfer_resp [resp]: "obeys R (failPendingTransfer cid target reason)"
  unfolding failPendingTransfer_def by (intro resp)

lemma completeTransfer_resp [resp]: "obeys R (completeTransfer cid t)"
  unfolding completeTransfer_def by (intro resp)

lemma ringTeammate_resp [resp]: "obeys R (ringTeammate cid target r s)"
  unfolding ringTeammate_def by (intro resp)

lemma transferCall_resp [resp]: "obeys R (transferCall r target)"
  unfolding transferCall_def by (intro resp)

lemma cancelTransfer_resp [resp]: "obeys R (cancelTransfer r)"
  unfolding cancelTransfer_def by (intro resp)

lemma declineOfferedCall_resp [resp]: "obeys R (declineOfferedCall cid user)"
  unfolding declineOfferedCall_def by (intro resp)

lemma ringAllAtOnce_resp [resp]: "obeys R (ringAllAtOnce s us)"
  unfolding ringAllAtOnce_def by (intro resp)

lemma ringAgent_resp [resp]: "obeys R (ringAgent s user)"
  unfolding ringAgent_def by (intro resp)

lemma ringFrom_resp [resp]: "obeys R (ringFrom cid i us)"
  by (induction us arbitrary: i)
    (simp_all only: ringFrom.simps, (assumption | rule resp)+)

lemma ringNextInOrder_resp [resp]: "obeys R (ringNextInOrder cid)"
  unfolding ringNextInOrder_def by (intro resp)

lemma publishParticipantStatus_resp [resp]: "obeys R (publishParticipantStatus s leg p st n)"
  unfolding publishParticipantStatus_def by (intro resp)

lemma actOnLegEnd_resp:
  assumes "\<And>final others. plan \<noteq> CallOver final others"
  shows "obeys R (actOnLegEnd cid st n plan)"
  using assms unfolding actOnLegEnd_def
  by (cases plan) (auto intro: resp)

lemma actOnLegEnd_owes:
  assumes "conversationUuid final = conversationUuid s"
  shows "owes cid s (actOnLegEnd cid st n (CallOver final others))"
  using reportEnded_owes [OF assms] unfolding actOnLegEnd_def
  by (simp add: owes_andThen safeHangups_resp)

lemma onLegEnded_resp [resp]: "obeys R (onLegEnded cid p leg st n)"
  unfolding onLegEnded_def
proof (intro andThen_resp [OF deleteLegMetadata_resp] andThen_changeCall, goal_cases)
  case (3 _ u)
  then have "\<And>final others. updResult u \<noteq> CallOver final others"
    using decideLegEnded_removes by metis
  then have "obeys R (actOnLegEnd cid st n (updResult u))"
    by (rule actOnLegEnd_resp)
  then show ?case by (auto intro!: resp)
next
  case (4 _ u)
  then obtain final others where u: "updResult u = CallOver final others"
    using decideLegEnded_removes by metis
  then have "conversationUuid final = conversationUuid (updBefore u)"
    using 4(1) decideLegEnded_final by metis
  then show ?case
    using publishParticipantStatus_resp by (simp add: u owes_andThen actOnLegEnd_owes)
qed (auto intro: resp)

lemma onAgentJoined_resp [resp]: "obeys R (onAgentJoined cid user leg)"
  unfolding onAgentJoined_def by (intro resp)

lemma onExternalJoined_resp [resp]: "obeys R (onExternalJoined cid leg)"
  unfolding onExternalJoined_def by (intro resp)

lemma onParticipantJoined_resp [resp]: "obeys R (onParticipantJoined cid p leg)"
  unfolding onParticipantJoined_def by (intro resp)

lemma resolveParticipant_resp [resp]: "obeys R (resolveParticipant s leg label)"
  unfolding resolveParticipant_def by (intro resp)

subsection \<open>What comes in\<close>

lemma lookupRouting_resp [resp]: "obeys R (lookupRouting number)"
  unfolding lookupRouting_def by (intro resp redis_frame) simp_all

lemma grantOutboundCall_resp [resp]: "obeys R (grantOutboundCall req)"
  unfolding grantOutboundCall_def by (intro resp)

lemma answerPlan_resp [resp]: "obeys R (answerPlan s plan)"
  unfolding answerPlan_def by (intro resp)

lemma runJob_resp [resp]: "obeys R (runJob j)"
  by (cases j) (simp_all only: runJob.simps, (assumption | rule resp)+)

lemma runBackground_resp [resp]: "obeys R (runBackground i)"
proof (rule obeysI)
  fix c and w :: world
  assume rely: "rely R c"
  let ?w = "w\<lparr>jobs := take i (jobs w) @ drop (Suc i) (jobs w)\<rparr>"
  have "R w ?w" by (simp add: R_frame)
  moreover have "R ?w (snd (runJob (jobs w ! i) c ?w))"
    using runJob_resp rely by (rule obeysD)
  ultimately show "R w (snd (runBackground i c w))"
    by (simp add: runBackground_def R_trans R_refl)
qed

lemma publishWithUrl_resp [resp]: "quiet (Published ev) \<Longrightarrow> obeys R (publishWithUrl url ev)"
  unfolding publishWithUrl_def by (intro resp)

lemma handleRecordingReady_resp [resp]: "obeys R (handleRecordingReady notice)"
  unfolding handleRecordingReady_def by (intro resp) simp

lemma handleTranscriptionReady_resp [resp]: "obeys R (handleTranscriptionReady notice)"
  unfolding handleTranscriptionReady_def by (intro resp) simp

lemma onConferenceJoin_resp [resp]: "obeys R (onConferenceJoin s cid leg p)"
  unfolding onConferenceJoin_def by (intro resp)

lemma onConferenceLeave_resp [resp]: "obeys R (onConferenceLeave s cid leg p n)"
  unfolding onConferenceLeave_def by (intro resp)

lemma handleConferenceEvent_resp [resp]: "obeys R (handleConferenceEvent notice)"
  unfolding handleConferenceEvent_def by (intro resp)

lemma handleCallStatus_resp [resp]: "obeys R (handleCallStatus notice)"
  unfolding handleCallStatus_def by (intro resp)

lemma renewCall_resp [resp]: "obeys R (renewCall cid)"
  unfolding renewCall_def by (intro resp)

lemma renewClaims_resp [resp]: "obeys R renewClaims"
  unfolding renewClaims_def by (intro resp)

lemma reconcileCall_resp [resp]: "obeys R (reconcileCall cid)"
  unfolding reconcileCall_def by (intro resp)

lemma reconcileWaiting_resp [resp]: "obeys R (reconcileWaiting cids)"
proof (induction cids)
  case (Cons cid cids)
  then have "obeys R (andThen (catching (reconcileCall cid) (\<lambda>_. ret ())) (\<lambda>_. reconcileWaiting cids))"
    by (intro resp)
  then show ?case
    by (auto simp: obeys_def R_refl)
qed (simp add: ret_resp)

lemma reconcileWithTwilio_resp [resp]: "obeys R reconcileWithTwilio"
  unfolding reconcileWithTwilio_def by (intro resp)

lemma statusWebhook_resp [resp]: "obeys R (statusWebhook b)"
  unfolding statusWebhook_def by (intro resp)

lemma hangupRoute_resp [resp]: "obeys R (hangupRoute user leg)"
  unfolding hangupRoute_def by (intro resp)

lemma holdRoute_resp [resp]: "obeys R (holdRoute user leg h)"
  unfolding holdRoute_def by (intro resp)

lemma transferRoute_resp [resp]: "obeys R (transferRoute user leg target)"
  unfolding transferRoute_def by (intro resp)

lemma cancelRoute_resp [resp]: "obeys R (cancelRoute user leg)"
  unfolding cancelRoute_def by (intro resp)

lemma outboundGrantRoute_resp [resp]: "obeys R (outboundGrantRoute user to line)"
  unfolding outboundGrantRoute_def by (intro resp)

lemma onHangupCommand_resp [resp]: "obeys R (onHangupCommand cid user)"
  unfolding onHangupCommand_def by (intro resp)

text \<open>Everything but the start of a call.\<close>

lemma serve_resp: "\<not> starts_call e \<Longrightarrow> obeys R (serve e)"
  by (cases e) (auto intro: resp)

end

section \<open>With calls that start\<close>

text \<open>The first state of a call, whichever way it goes.\<close>

definition first_state :: "call_state \<Rightarrow> bool" where
  "first_state s \<longleftrightarrow> wf_call s \<and> version s = 1 \<and> \<not> answered s \<and> \<not> ending s
     \<and> pendingTransferToUserId s = None"

lemma first_outbound: "first_state ((outboundState cid grant now)\<lparr>version := 1\<rparr>)"
  by (simp add: first_state_def wf_call_def outboundState_def)

lemma first_inbound: "first_state ((inboundState cid from to now)\<lparr>voicemail := v, version := 1\<rparr>)"
  by (simp add: first_state_def wf_call_def inboundState_def)

lemma first_routed:
  "first_state ((routedState (inboundState cid from to now) routed plan greeting)\<lparr>version := 1\<rparr>)"
  by (simp add: first_state_def wf_call_def inboundState_def routedState_def)

locale creating_contract = call_contract R Rc
  for R :: "world \<Rightarrow> world \<Rightarrow> bool" and Rc :: "call_id \<Rightarrow> world \<Rightarrow> world \<Rightarrow> bool" +
  assumes R_create: "first_state s \<Longrightarrow> R w (setCallState s w)"
begin

lemma createCallState_resp:
  "first_state (s\<lparr>version := 1\<rparr>) \<Longrightarrow> obeys R (createCallState s)"
  unfolding createCallState_def by (intro resp redisOp_resp) (simp add: R_create)

lemma startOutboundCall_resp [resp]: "obeys R (startOutboundCall req)"
  unfolding startOutboundCall_def by (intro resp createCallState_resp first_outbound)

lemma startCall_resp: "first_state (s\<lparr>version := 1\<rparr>) \<Longrightarrow> obeys R (startCall s)"
  unfolding startCall_def by (intro resp createCallState_resp)

lemma acceptInboundCall_resp [resp]: "obeys R (acceptInboundCall req)"
  unfolding acceptInboundCall_def
  by (intro resp startCall_resp first_routed first_inbound)

lemma inboundWebhook_resp [resp]: "obeys R (inboundWebhook b)"
  unfolding inboundWebhook_def by (intro resp)

lemma serve_any_resp: "obeys R (serve e)"
proof (cases "starts_call e")
  case True
  then show ?thesis
    by (cases e) (simp_all add: discard_resp inboundWebhook_resp)
qed (rule serve_resp)

lemma serveAll_resp: "obeys R (serveAll es)"
  by (induction es) (simp_all add: ret_resp andThen_resp attempt_resp serve_any_resp)

end

end
