(* ===== verification/Guarantees.thy ===== *)
theory Guarantees
  imports Handler_Contract
begin

text \<open>
  Four instances of the contract, each on the model's own handlers: every stored state is well
  formed; a call's state only moves forward; the end of a call is reported no more often than its
  state was removed; a user's revision counts every change to what a claim is decided on.
\<close>

section \<open>Stored states stay well formed\<close>

definition calls_ok :: "world \<Rightarrow> bool" where
  "calls_ok w \<longleftrightarrow>
     (\<forall>cid s. callStates w cid = Some s \<longrightarrow> conversationUuid s = cid \<and> wf_call s)"

definition stays_ok :: "world \<Rightarrow> world \<Rightarrow> bool" where
  "stays_ok w w' \<longleftrightarrow> (calls_ok w \<longrightarrow> calls_ok w')"

lemma callStates_steps [simp]:
  "callStates (logged e w) = callStates w"
  "callStates (written cid cur s w) = (callStates w)(cid \<mapsto> s)"
  "callStates (removed cid cur w) = (callStates w)(cid := None)"
  "callStates (setCallState s w) = (callStates w)(conversationUuid s \<mapsto> s)"
  by (simp_all add: logged_def written_def removed_def setCallState_def)

lemma users_steps [simp]:
  "users (logged e w) = users w"
  "users (written cid cur s w) = users w"
  "users (removed cid cur w) = users w"
  "users (setCallState s w) = users w"
  by (simp_all add: logged_def written_def removed_def setCallState_def)

lemma redisNow_steps [simp]:
  "redisNow (logged e w) = redisNow w"
  "redisNow (written cid cur s w) = redisNow w"
  "redisNow (removed cid cur w) = redisNow w"
  "redisNow (setCallState s w) = redisNow w"
  by (simp_all add: logged_def written_def removed_def setCallState_def)

lemma trace_steps [simp]:
  "trace (logged e w) = trace w @ [e]"
  "trace (written cid cur s w) = trace w @ [StateWritten cid cur s]"
  "trace (removed cid cur w) = trace w @ [StateRemoved cid cur]"
  "trace (setCallState s w) = trace w @ [StateCreated (conversationUuid s) s]"
  by (simp_all add: logged_def written_def removed_def setCallState_def)

lemma wf_version [simp]: "wf_call (s\<lparr>version := n\<rparr>) = wf_call s"
  by (simp add: wf_call_def)

lemma advances_version [simp]: "advances a (s\<lparr>version := n\<rparr>) = advances a s"
  by (simp add: advances_def)

lemma write_uuid: "call_write s (Some t) \<Longrightarrow> conversationUuid t = conversationUuid s"
  by (auto dest: call_write_advances simp: advances_def)

lemma calls_okD: "calls_ok w \<Longrightarrow> callStates w cid = Some s \<Longrightarrow> conversationUuid s = cid \<and> wf_call s"
  unfolding calls_ok_def by blast

lemma calls_ok_update:
  assumes "calls_ok w" and "callStates w' = (callStates w)(cid := s)"
    and "\<And>t. s = Some t \<Longrightarrow> conversationUuid t = cid \<and> wf_call t"
  shows "calls_ok w'"
  unfolding calls_ok_def
proof (intro allI impI)
  fix x t
  assume "callStates w' x = Some t"
  then show "conversationUuid t = x \<and> wf_call t"
    using calls_okD [OF assms(1)] assms(2,3) by (cases "x = cid") auto
qed

lemma stays_ok_same: "callStates w' = callStates w \<Longrightarrow> stays_ok w w'"
  unfolding stays_ok_def calls_ok_def by metis

lemma stays_ok_trans: "stays_ok u v \<Longrightarrow> stays_ok v w \<Longrightarrow> stays_ok u w"
  by (simp add: stays_ok_def)

interpretation wf_states: creating_contract stays_ok "\<lambda>_. stays_ok"
proof (unfold_locales, goal_cases)
  case (8 w0 w cid before cur t)
  show ?case
    unfolding stays_ok_def
  proof
    assume w0: "calls_ok w0"
    then have "calls_ok w" using 8(1) by (simp add: stays_ok_def)
    then show "calls_ok (written cid cur (t\<lparr>version := Suc (version before)\<rparr>) w)"
      using calls_okD [OF w0 8(2)] write_uuid [OF 8(5)] call_write_wf [OF 8(5)]
      by (rule_tac calls_ok_update) auto
  qed
next
  case (9 w cid cur)
  show ?case
    unfolding stays_ok_def by (auto intro: calls_ok_update [where s = None])
next
  case (14 s w)
  then show ?case
    unfolding stays_ok_def
    by (auto intro: calls_ok_update [where s = "Some s"] simp: first_state_def)
next
  case (13 w0 w1 cid s w)
  from 13(3) show ?case by (rule stays_ok_trans) (simp add: stays_ok_same)
next
  case (2 u v w)
  then show ?case by (rule stays_ok_trans)
next
  case (11 u v cid w)
  then show ?case by (rule stays_ok_trans)
next
  case (12 cid u v w)
  then show ?case by (rule stays_ok_trans)
qed (simp_all add: stays_ok_same)

section \<open>A call moves forward\<close>

definition forward :: "world \<Rightarrow> world \<Rightarrow> bool" where
  "forward w w' \<longleftrightarrow> (\<forall>cid.
     (callStates w cid = None \<longrightarrow> callStates w' cid = None) \<and>
     (\<forall>a b. callStates w cid = Some a \<longrightarrow> callStates w' cid = Some b \<longrightarrow>
        version a \<le> version b \<and> (version a = version b \<longrightarrow> a = b) \<and> advances a b))"

lemma forward_gone: "forward w w' \<Longrightarrow> callStates w cid = None \<Longrightarrow> callStates w' cid = None"
  by (simp add: forward_def)

lemma forward_live:
  "forward w w' \<Longrightarrow> callStates w cid = Some a \<Longrightarrow> callStates w' cid = Some b \<Longrightarrow>
     version a \<le> version b \<and> (version a = version b \<longrightarrow> a = b) \<and> advances a b"
  by (simp add: forward_def)

lemma forward_refl: "forward w w"
  by (simp add: forward_def)

lemma forward_trans:
  assumes uv: "forward u v" and vw: "forward v w"
  shows "forward u w"
  unfolding forward_def
proof (intro allI conjI impI)
  fix cid
  show "callStates w cid = None" if "callStates u cid = None"
    using forward_gone [OF vw] forward_gone [OF uv] that by blast
  fix a b
  assume a: "callStates u cid = Some a" and b: "callStates w cid = Some b"
  then obtain m where m: "callStates v cid = Some m"
    using forward_gone [OF vw, of cid] by fastforce
  note steps = forward_live [OF uv a m] forward_live [OF vw m b]
  then show "version a \<le> version b" by linarith
  show "a = b" if "version a = version b"
    using steps that by (metis le_antisym)
  show "advances a b"
    using steps advances_trans by blast
qed

lemma forward_update:
  assumes "forward w0 w" and "callStates w0 cid = Some before"
    and "\<And>t. s = Some t \<Longrightarrow> version before < version t \<and> advances before t"
    and "callStates w' = (callStates w)(cid := s)"
  shows "forward w0 w'"
  unfolding forward_def
proof (intro allI conjI impI)
  fix x
  show "callStates w' x = None" if "callStates w0 x = None"
    using that assms(1,2,4) by (auto simp: forward_def)
  fix a b
  assume a: "callStates w0 x = Some a" and b: "callStates w' x = Some b"
  have "version a \<le> version b \<and> (version a = version b \<longrightarrow> a = b) \<and> advances a b"
  proof (cases "x = cid")
    case True
    then show ?thesis using assms(2,3) a b by (auto simp: assms(4))
  next
    case False
    then have "callStates w x = Some b" using b by (simp add: assms(4))
    then show ?thesis by (rule forward_live [OF assms(1) a])
  qed
  then show "version a \<le> version b" "version a = version b \<Longrightarrow> a = b" "advances a b" by simp_all
qed

lemma forward_same: "callStates w' = callStates w \<Longrightarrow> forward w w'"
  by (simp add: forward_def)

interpretation forward_states: call_contract forward "\<lambda>_. forward"
proof (unfold_locales, goal_cases)
  case (8 w0 w cid before cur t)
  show ?case
    by (rule forward_update [OF 8(1,2), where s = "Some (t\<lparr>version := Suc (version before)\<rparr>)"])
      (auto intro: call_write_advances [OF 8(5)])
next
  case (9 w cid cur)
  show ?case
    by (rule forward_update [OF forward_refl 9, where s = None]) simp_all
next
  case (13 w0 w1 cid s w n st a b d)
  from 13(3) show ?case by (rule forward_trans) (simp add: forward_same)
qed (auto intro: forward_refl forward_same elim: forward_trans)

section \<open>The end of a call is reported once\<close>

definition ends :: "call_id \<Rightarrow> effect \<Rightarrow> bool" where
  "ends cid e \<longleftrightarrow> (\<exists>n st a b d. e = Published (CallEnded cid n st a b d))"

definition removes :: "call_id \<Rightarrow> effect \<Rightarrow> bool" where
  "removes cid e \<longleftrightarrow> (\<exists>s. e = StateRemoved cid s)"

definition creates :: "call_id \<Rightarrow> effect \<Rightarrow> bool" where
  "creates cid e \<longleftrightarrow> (\<exists>s. e = StateCreated cid s)"

definition count :: "(effect \<Rightarrow> bool) \<Rightarrow> world \<Rightarrow> nat" where
  "count P w = length (filter P (trace w))"

definition keyed :: "world \<Rightarrow> bool" where
  "keyed w \<longleftrightarrow> (\<forall>cid s. callStates w cid = Some s \<longrightarrow> conversationUuid s = cid)"

definition here :: "call_id \<Rightarrow> world \<Rightarrow> nat" where
  "here cid w = (if callStates w cid = None then 0 else 1)"

text \<open>Ends reported, states removed and states created, with some reports of ends still due.\<close>

definition balanced :: "(call_id \<Rightarrow> nat) \<Rightarrow> world \<Rightarrow> world \<Rightarrow> bool" where
  "balanced due w w' \<longleftrightarrow> (keyed w \<longrightarrow> keyed w' \<and> (\<forall>cid.
     count (ends cid) w' + count (removes cid) w + due cid
       \<le> count (ends cid) w + count (removes cid) w' \<and>
     count (removes cid) w' + here cid w' + count (creates cid) w
       \<le> count (removes cid) w + here cid w + count (creates cid) w'))"

definition oneDue :: "call_id \<Rightarrow> call_id \<Rightarrow> nat" where
  "oneDue cid x = (if x = cid then 1 else 0)"

lemma balanced_trans:
  assumes "balanced d u v" and "balanced e v w"
  shows "balanced (\<lambda>x. d x + e x) u w"
  unfolding balanced_def
proof (intro impI conjI allI)
  assume "keyed u"
  then have v: "keyed v" and uv: "\<forall>cid.
     count (ends cid) v + count (removes cid) u + d cid
       \<le> count (ends cid) u + count (removes cid) v \<and>
     count (removes cid) v + here cid v + count (creates cid) u
       \<le> count (removes cid) u + here cid u + count (creates cid) v"
    using assms(1) by (auto simp: balanced_def)
  then have w: "keyed w" and vw: "\<forall>cid.
     count (ends cid) w + count (removes cid) v + e cid
       \<le> count (ends cid) v + count (removes cid) w \<and>
     count (removes cid) w + here cid w + count (creates cid) v
       \<le> count (removes cid) v + here cid v + count (creates cid) w"
    using assms(2) by (auto simp: balanced_def)
  show "keyed w" by (rule w)
  fix cid
  show "count (ends cid) w + count (removes cid) u + (d cid + e cid)
      \<le> count (ends cid) u + count (removes cid) w"
    using spec [OF uv, of cid] spec [OF vw, of cid] by linarith
  show "count (removes cid) w + here cid w + count (creates cid) u
      \<le> count (removes cid) u + here cid u + count (creates cid) w"
    using spec [OF uv, of cid] spec [OF vw, of cid] by linarith
qed

lemma balanced_weaken: "balanced d u w \<Longrightarrow> (\<And>x. e x \<le> d x) \<Longrightarrow> balanced e u w"
  unfolding balanced_def by (meson add_left_mono order_trans)

lemma count_step [simp]:
  "count P (logged e w) = count P w + (if P e then 1 else 0)"
  "count P (written cid cur s w) = count P w + (if P (StateWritten cid cur s) then 1 else 0)"
  "count P (removed cid cur w) = count P w + (if P (StateRemoved cid cur) then 1 else 0)"
  "count P (setCallState s w)
     = count P w + (if P (StateCreated (conversationUuid s) s) then 1 else 0)"
  by (simp_all add: count_def)

lemma effect_kinds [simp]:
  "\<not> ends x (StateWritten c a b)" "\<not> removes x (StateWritten c a b)" "\<not> creates x (StateWritten c a b)"
  "\<not> ends x (StateRemoved c a)" "removes x (StateRemoved c a) \<longleftrightarrow> c = x"
  "\<not> creates x (StateRemoved c a)"
  "\<not> ends x (StateCreated c a)" "\<not> removes x (StateCreated c a)"
  "creates x (StateCreated c a) \<longleftrightarrow> c = x"
  "ends x (Published (CallEnded c n st i j k)) \<longleftrightarrow> c = x"
  "\<not> removes x (Published ev)" "\<not> creates x (Published ev)"
  by (auto simp: ends_def removes_def creates_def)

lemma quiet_kinds: "quiet e \<Longrightarrow> \<not> ends x e \<and> \<not> removes x e \<and> \<not> creates x e"
  by (auto simp: ends_def removes_def creates_def)

lemma balanced_same:
  assumes "callStates w' = callStates w" and "\<And>x. count (ends x) w' = count (ends x) w"
    and "\<And>x. count (removes x) w' = count (removes x) w"
    and "\<And>x. count (creates x) w' = count (creates x) w"
  shows "balanced (\<lambda>_. 0) w w'"
proof -
  have "keyed w' = keyed w" unfolding keyed_def assms(1) ..
  then show ?thesis using assms by (simp add: balanced_def here_def)
qed

lemma keyed_update:
  assumes "keyed w" and "callStates w' = (callStates w)(cid := s)"
    and "\<And>t. s = Some t \<Longrightarrow> conversationUuid t = cid"
  shows "keyed w'"
  unfolding keyed_def
proof (intro allI impI)
  fix x t
  assume "callStates w' x = Some t"
  then show "conversationUuid t = x"
    using assms unfolding keyed_def by (cases "x = cid") auto
qed

lemma balanced_write:
  assumes "balanced (\<lambda>_. 0) w0 w" and "callStates w0 cid = Some before"
    and "callStates w cid = Some cur" and "call_write before (Some t)"
  shows "balanced (\<lambda>_. 0) w0 (written cid cur (t\<lparr>version := n\<rparr>) w)"
proof -
  let ?w' = "written cid cur (t\<lparr>version := n\<rparr>) w"
  have "here x ?w' = here x w" for x
    using assms(3) by (simp add: here_def)
  moreover have "keyed ?w'" if "keyed w0" "keyed w"
    using that(1) assms(2) write_uuid [OF assms(4)] unfolding keyed_def [of w0]
    by (intro keyed_update [OF that(2), where cid = cid and s = "Some (t\<lparr>version := n\<rparr>)"]) auto
  ultimately show ?thesis
    using assms(1) unfolding balanced_def by simp
qed

lemma balanced_removed:
  assumes "callStates w cid = Some cur"
  shows "balanced (oneDue cid) w (removed cid cur w)"
proof -
  have "keyed w \<Longrightarrow> keyed (removed cid cur w)"
    by (rule keyed_update [where cid = cid and s = None]) simp_all
  then show ?thesis
    using assms by (auto simp: balanced_def here_def oneDue_def)
qed

lemma balanced_reported:
  assumes "balanced (\<lambda>_. 0) w0 w1" and "callStates w1 cid = Some s" and "balanced (oneDue cid) w0 w"
  shows "balanced (\<lambda>_. 0) w0 (logged (Published (CallEnded (conversationUuid s) n st a b d)) w)"
  unfolding balanced_def
proof (intro impI)
  let ?w' = "logged (Published (CallEnded (conversationUuid s) n st a b d)) w"
  assume w0: "keyed w0"
  then have "keyed w1" using assms(1) unfolding balanced_def by blast
  then have cid: "conversationUuid s = cid"
    using assms(2) unfolding keyed_def by blast
  have "keyed w" and due: "\<forall>x. count (ends x) w + count (removes x) w0 + oneDue cid x
       \<le> count (ends x) w0 + count (removes x) w \<and>
     count (removes x) w + here x w + count (creates x) w0
       \<le> count (removes x) w0 + here x w0 + count (creates x) w"
    using assms(3) w0 unfolding balanced_def by blast+
  then have "keyed ?w'" by (simp add: keyed_def)
  moreover have "count (ends x) ?w' + count (removes x) w0 + 0
       \<le> count (ends x) w0 + count (removes x) ?w' \<and>
     count (removes x) ?w' + here x ?w' + count (creates x) w0
       \<le> count (removes x) w0 + here x w0 + count (creates x) ?w'" for x
    using spec [OF due, of x] by (cases "x = cid") (simp_all add: cid oneDue_def here_def)
  ultimately show "keyed ?w' \<and> (\<forall>x. count (ends x) ?w' + count (removes x) w0 + 0
       \<le> count (ends x) w0 + count (removes x) ?w' \<and>
     count (removes x) ?w' + here x ?w' + count (creates x) w0
       \<le> count (removes x) w0 + here x w0 + count (creates x) ?w')"
    by blast
qed

lemma balanced_created: "balanced (\<lambda>_. 0) w (setCallState s w)"
proof -
  have "keyed w \<Longrightarrow> keyed (setCallState s w)"
    by (rule keyed_update [where cid = "conversationUuid s" and s = "Some s"]) simp_all
  then show ?thesis by (simp add: balanced_def here_def)
qed

interpretation reported_ends:
  creating_contract "balanced (\<lambda>_. 0)" "\<lambda>cid. balanced (oneDue cid)"
proof (unfold_locales, goal_cases)
  case (2 u v w)
  then show ?case using balanced_trans [of "\<lambda>_. 0" u v "\<lambda>_. 0" w] by simp
next
  case (7 e w)
  then show ?case by (intro balanced_same) (simp_all add: quiet_kinds)
next
  case 8
  then show ?case by (intro balanced_write)
next
  case 9
  then show ?case by (rule balanced_removed)
next
  case (10 cid u w)
  then show ?case by (rule balanced_weaken) simp
next
  case (11 u v cid w)
  then show ?case using balanced_trans [of "\<lambda>_. 0" u v "oneDue cid" w] by simp
next
  case (12 cid u v w)
  then show ?case using balanced_trans [of "oneDue cid" u v "\<lambda>_. 0" w] by simp
next
  case 13
  then show ?case by (rule balanced_reported)
next
  case 14
  show ?case by (rule balanced_created)
next
  case (1 w)
  show ?case by (rule balanced_same) simp_all
next
  case (3 w n)
  show ?case by (rule balanced_same) (simp_all add: count_def)
next
  case (4 w' w)
  then show ?case by (intro balanced_same) (simp_all add: count_def)
next
  case (5 w ids e)
  show ?case by (rule balanced_same) (simp_all add: ends_def removes_def creates_def)
next
  case (6 w user stored)
  show ?case by (rule balanced_same) (simp_all add: count_def)
qed

section \<open>A user's revision counts\<close>

definition counted :: "world \<Rightarrow> world \<Rightarrow> bool" where
  "counted w w' \<longleftrightarrow> redisNow w \<le> redisNow w' \<and> (\<forall>user. ok_user (users w user) \<longrightarrow>
     ok_user (users w' user) \<and> revision (users w user) \<le> revision (users w' user) \<and>
     (revision (users w user) = revision (users w' user) \<longrightarrow>
        doNotDisturb (users w' user) = doNotDisturb (users w user) \<and>
        aliveClaims (redisNow w') (users w' user) \<subseteq> aliveClaims (redisNow w) (users w user)))"

lemma counted_trans:
  assumes uv: "counted u v" and vw: "counted v w"
  shows "counted u w"
  unfolding counted_def
proof (intro conjI allI impI)
  show "redisNow u \<le> redisNow w"
    using assms by (auto simp: counted_def)
  fix user
  assume "ok_user (users u user)"
  then have 1: "ok_user (users v user)" "revision (users u user) \<le> revision (users v user)"
    "revision (users u user) = revision (users v user) \<Longrightarrow>
        doNotDisturb (users v user) = doNotDisturb (users u user) \<and>
        aliveClaims (redisNow v) (users v user) \<subseteq> aliveClaims (redisNow u) (users u user)"
    using uv by (auto simp: counted_def)
  then have 2: "ok_user (users w user)" "revision (users v user) \<le> revision (users w user)"
    "revision (users v user) = revision (users w user) \<Longrightarrow>
        doNotDisturb (users w user) = doNotDisturb (users v user) \<and>
        aliveClaims (redisNow w) (users w user) \<subseteq> aliveClaims (redisNow v) (users v user)"
    using vw by (auto simp: counted_def)
  show "ok_user (users w user)" by (rule 2(1))
  show "revision (users u user) \<le> revision (users w user)"
    using 1(2) 2(2) by simp
  assume "revision (users u user) = revision (users w user)"
  then have "revision (users u user) = revision (users v user)"
    and "revision (users v user) = revision (users w user)"
    using 1(2) 2(2) by simp_all
  then show "doNotDisturb (users w user) = doNotDisturb (users u user)"
    and "aliveClaims (redisNow w) (users w user) \<subseteq> aliveClaims (redisNow u) (users u user)"
    using 1(3) 2(3) by auto
qed

lemma counted_same: "users w' = users w \<Longrightarrow> redisNow w' = redisNow w \<Longrightarrow> counted w w'"
  by (simp add: counted_def)

lemma aliveClaims_claim_now:
  assumes "ok_user u" and "fst (claimScript expected cid now u) \<noteq> None"
  shows "aliveClaims now (snd (claimScript expected cid now u)) = insert cid (aliveClaims now u - {cid})"
  by (subst aliveClaims_claim [OF assms order_refl], subst if_P, linarith, rule refl)

lemma aliveClaims_renew_now:
  assumes "ok_user u"
  shows "aliveClaims now (snd (renewScript cid now u)) = insert cid (aliveClaims now u - {cid})"
  by (subst aliveClaims_renew [OF assms], subst if_P, linarith, rule refl)

text \<open>A script moves the revision on when it changes do not disturb or adds a claim.\<close>

lemma user_step_counts:
  assumes "user_step now u s" and "ok_user u"
  shows "ok_user s \<and> revision u \<le> revision s \<and>
     (revision s = revision u \<longrightarrow> doNotDisturb s = doNotDisturb u \<and> aliveClaims now s \<subseteq> aliveClaims now u)"
  using assms
proof (induction rule: user_step.induct)
  case (claimed now u expected cid)
  let ?s = "snd (claimScript expected cid now u)"
  have "aliveClaims now ?s \<subseteq> aliveClaims now u" if same: "revision ?s = revision u"
  proof (cases "fst (claimScript expected cid now u) = None")
    case True
    then have "?s = u"
      by (simp add: claimScript_def Let_def split: if_splits)
    then show ?thesis by simp
  next
    case False
    then have "cid \<in> aliveClaims now u"
      using same unfolding aliveClaims_def aliveOf_def
      by (simp add: claimScript_def Let_def split: if_splits)
    then show ?thesis
      unfolding aliveClaims_claim_now [OF claimed False] by blast
  qed
  then show ?case
    using ok_claim [OF claimed] revision_mono(1) by (simp add: claimScript_def Let_def)
next
  case (released now u cid)
  then show ?case
    using ok_release aliveClaims_release [of now cid u] revision_mono(2) [of u cid]
    by (auto simp: releaseScript_def)
next
  case (renewed now u cid)
  let ?s = "snd (renewScript cid now u)"
  have "aliveClaims now ?s \<subseteq> aliveClaims now u" if same: "revision ?s = revision u"
  proof -
    have "cid \<in> aliveClaims now u"
      using same unfolding aliveClaims_def aliveOf_iff
      by (auto simp: renewScript_def Let_def not_le dest!: map_of_SomeD
          split: if_splits option.splits)
    then show ?thesis
      unfolding aliveClaims_renew_now [OF renewed] by blast
  qed
  then show ?case
    using ok_renew [OF renewed] revision_mono(3) by (simp add: renewScript_def Let_def)
next
  case (marked now u)
  then show ?case by (simp add: markChangedScript_def ok_user_def)
next
  case (disturbed now u on)
  then show ?case by (auto simp: doNotDisturbScript_def ok_user_def)
next
  case (eligible now u rv el)
  then show ?case
    by (auto simp: recordEligibilityScript_def ok_user_def aliveClaims_def Let_def)
qed

interpretation user_revisions: creating_contract counted "\<lambda>_. counted"
proof (unfold_locales, goal_cases)
  case (6 w user stored)
  then show ?case using user_step_counts by (simp add: counted_def)
next
  case (8 w0 w)
  from 8(1) show ?case by (rule counted_trans) (simp add: counted_same)
next
  case (13 w0 w1 cid s w)
  from 13(3) show ?case by (rule counted_trans) (simp add: counted_same)
next
  case (2 u v w)
  then show ?case by (rule counted_trans)
next
  case (11 u v cid w)
  then show ?case by (rule counted_trans)
next
  case (12 cid u v w)
  then show ?case by (rule counted_trans)
next
  case (10 cid u w)
  then show ?case .
qed (rule counted_same; simp)+

end
