(* ===== verification/Concurrency.thy ===== *)
theory Concurrency
  imports Guarantees
begin

text \<open>
  What the optimistic writes give whatever else happens meanwhile: a change of a call lands on exactly
  the state it was decided on, it gives up only when ten other writes landed, and an offered user is
  claimed by one call alone. Also the steps of a run in a quiet environment, where nobody else acts.
\<close>

section \<open>Changes of a call\<close>

lemma advance_forward: "rely forward c \<Longrightarrow> forward w (advance c w)"
  by (rule forward_states.advance_R)

text \<open>One attempt: what it read, and what its script did.\<close>

lemma getCallState_Inr:
  assumes "rely forward c" and "getCallState cid c w = (Inr s, w1)"
  shows "forward w w1 \<and> callStates w1 cid = s"
  using assms advance_forward [OF assms(1), of w]
  by (auto simp: getCallState_def redisOp_def Let_def split: delivery.splits)

lemma getCallState_Inl:
  assumes "getCallState cid c w = (Inl e, w1)"
  shows "e = RedisError"
  using assms by (auto simp: getCallState_def redisOp_def Let_def split: delivery.splits)

lemma redisOp_Inl: "redisOp f c w = (Inl e, w1) \<Longrightarrow> e = RedisError"
  by (auto simp: redisOp_def Let_def split: delivery.splits prod.splits)

lemma redisOp_Inr:
  assumes "redisOp f c w = (Inr x, w1)"
  shows "f (advance c w) = (x, w1)"
  using assms by (auto simp: redisOp_def Let_def split: delivery.splits prod.splits)

lemma andThen_Inr:
  assumes "andThen m f c w = (Inr y, w')"
  obtains x v where "m c w = (Inr x, v)" and "f x c v = (Inr y, w')"
  using assms by (auto simp: andThen_def split: sum.splits prod.splits)

lemma andThen_Inl:
  assumes "andThen m f c w = (Inl e, w')"
  obtains "m c w = (Inl e, w')" | x v where "m c w = (Inr x, v)" and "f x c v = (Inl e, w')"
  using assms by (auto simp: andThen_def split: sum.splits prod.splits)

definition lands :: "call_id \<Rightarrow> 'r state_update \<Rightarrow> world \<Rightarrow> world \<Rightarrow> bool" where
  "lands cid u v w' \<longleftrightarrow> callStates v cid = Some (updBefore u) \<and>
     (case updAfter u of
        None \<Rightarrow> w' = removed cid (updBefore u) v
      | Some t \<Rightarrow> if t = updBefore u then w' = v
          else version t = Suc (version (updBefore u)) \<and> w' = written cid (updBefore u) t v)"

lemma attemptUpdate_lands:
  assumes "rely forward c"
  shows "attemptUpdate n cid decide c w = (Inr (Some u), w') \<Longrightarrow>
    \<exists>v. forward w v \<and> lands cid u v w' \<and> updResult u = chResult (decide (updBefore u))"
proof (induction n arbitrary: w)
  case 0
  then show ?case by (simp add: throw_def)
next
  case (Suc n)
  from Suc.prems obtain read w1 where read: "getCallState cid c w = (Inr read, w1)"
    and go: "(case read of None \<Rightarrow> ret None | Some before \<Rightarrow>
         let change = decide before;
             draft = chDraft change;
             unchanged = (\<not> chRemove change \<and> draft\<lparr>version := version before\<rparr> = before)
         in if unchanged
            then ret (Some \<lparr>updResult = chResult change, updBefore = before,
                   updAfter = Some before\<rparr>)
            else
              let after = (if chRemove change then None
                     else Some (draft\<lparr>version := version before + 1\<rparr>))
              in andThen (redisOp (writeCallStateScript cid (version before) after)) (\<lambda>wrote.
                 if wrote = 1
                 then ret (Some \<lparr>updResult = chResult change, updBefore = before,
                        updAfter = after\<rparr>)
                 else if wrote = -1 then ret None
                 else andThen (if n > 0 then pause else ret ()) (\<lambda>_. attemptUpdate n cid decide)))
       c w1 = (Inr (Some u), w')"
    unfolding attemptUpdate.simps by (rule andThen_Inr)
  note w1 = getCallState_Inr [OF assms read]
  from go obtain before where before: "read = Some before"
    by (cases read) (simp_all add: ret_def)
  let ?ch = "decide before"
  let ?after = "if chRemove ?ch then None
      else Some ((chDraft ?ch)\<lparr>version := version before + 1\<rparr>)"
  show ?case
  proof (cases "\<not> chRemove ?ch \<and> (chDraft ?ch)\<lparr>version := version before\<rparr> = before")
    case True
    then have "u = \<lparr>updResult = chResult ?ch, updBefore = before, updAfter = Some before\<rparr> \<and> w' = w1"
      using go by (simp add: before Let_def ret_def)
    then show ?thesis
      using w1 before by (auto simp: lands_def)
  next
    case False
    then obtain i w2 where script:
      "redisOp (writeCallStateScript cid (version before) ?after) c w1 = (Inr i, w2)"
      and rest: "(if i = 1
          then ret (Some \<lparr>updResult = chResult ?ch, updBefore = before, updAfter = ?after\<rparr>)
          else if i = -1 then ret None
          else andThen (if n > 0 then pause else ret ()) (\<lambda>_. attemptUpdate n cid decide)) c w2
        = (Inr (Some u), w')"
      using go unfolding before option.case Let_def
      by (auto elim!: andThen_Inr)
    let ?v = "advance c w1"
    note s = redisOp_Inr [OF script]
    have v: "forward w ?v" and w1v: "forward w1 ?v"
      using forward_trans w1 advance_forward [OF assms] by blast+
    show ?thesis
    proof (cases "i = 1")
      case True
      then have u: "u = \<lparr>updResult = chResult ?ch, updBefore = before, updAfter = ?after\<rparr>"
        and w': "w' = w2"
        using rest by (auto simp: ret_def)
      obtain cur where cur: "callStates ?v cid = Some cur" "version cur = version before"
        and w2: "w2 = (case ?after of None \<Rightarrow> removed cid cur ?v | Some s \<Rightarrow> written cid cur s ?v)"
        using s True by (auto elim: writeCallStateScript_written)
      have same: "cur = before"
        using forward_live [OF w1v _ cur(1)] w1 before cur(2) by auto
      have "lands cid u ?v w'"
      proof (cases "chRemove ?ch")
        case True
        then show ?thesis using cur w2 by (simp add: lands_def u w' same)
      next
        case False
        then have "(chDraft ?ch)\<lparr>version := version before + 1\<rparr> \<noteq> before"
          by (metis add_eq_self_zero call_state.select_convs(1) call_state.surjective
              call_state.update_convs(1) zero_neq_one)
        then show ?thesis using cur w2 False by (simp add: lands_def u w' same)
      qed
      then show ?thesis
        using v by (auto simp: u)
    next
      case False
      then have "i \<noteq> -1" and again: "andThen (if n > 0 then pause else ret ())
          (\<lambda>_. attemptUpdate n cid decide) c w2 = (Inr (Some u), w')"
        using rest by (auto simp: ret_def split: if_splits)
      have w2: "w2 = ?v"
        using writeCallStateScript_other [OF s False] .
      from again obtain x w3 where p: "(if n > 0 then pause else ret ()) c w2 = (Inr x, w3)"
        and up: "attemptUpdate n cid decide c w3 = (Inr (Some u), w')"
        by (rule andThen_Inr)
      have "forward w2 w3"
        using p advance_forward [OF assms, of w2] forward_refl
        by (auto simp: pause_def consult_def ret_def split: if_splits)
      then have "forward w w3"
        using v unfolding w2 by (blast intro: forward_trans)
      then show ?thesis
        using Suc.IH [OF up] forward_trans by blast
    qed
  qed
qed

lemma updateCallState_lands:
  assumes "rely forward c" and "updateCallState cid decide c w = (Inr (Some u), w')"
  shows "\<exists>v. forward w v \<and> lands cid u v w' \<and> updResult u = chResult (decide (updBefore u))"
  using attemptUpdate_lands assms by (auto simp: updateCallState_def)

text \<open>Every attempt that loses was beaten by a write that landed.\<close>

lemma attemptUpdate_conflict:
  assumes "rely forward c"
  shows "attemptUpdate n cid decide c w = (Inl (CallStateConflict cid), w') \<Longrightarrow> 0 < n \<Longrightarrow>
    \<exists>v a b. forward w v \<and> callStates v cid = Some a \<and> callStates w' cid = Some b
      \<and> version a + n \<le> version b"
proof (induction n arbitrary: w)
  case (Suc n)
  have not_redis: "r \<noteq> (Inl RedisError, x)" if "r = (Inl (CallStateConflict cid), w')" for r x
    using that by simp
  obtain read w1 where read: "getCallState cid c w = (Inr read, w1)"
    using Suc.prems(1) unfolding attemptUpdate.simps
    by (auto elim!: andThen_Inl dest: getCallState_Inl)
  note w1 = getCallState_Inr [OF assms read]
  obtain before where before: "read = Some before"
    using Suc.prems(1) read by (cases read) (auto simp: andThen_def ret_def)
  let ?ch = "decide before"
  let ?after = "if chRemove ?ch then None
      else Some ((chDraft ?ch)\<lparr>version := version before + 1\<rparr>)"
  have changed: "\<not> (\<not> chRemove ?ch \<and> (chDraft ?ch)\<lparr>version := version before\<rparr> = before)"
    using Suc.prems(1) read before by (auto simp: andThen_def ret_def Let_def)
  define script where "script = writeCallStateScript cid (version before) ?after"
  define follow where "follow = (\<lambda>wrote :: int. if wrote = 1
      then ret (Some \<lparr>updResult = chResult ?ch, updBefore = before, updAfter = ?after\<rparr>)
      else if wrote = -1 then ret None
      else andThen (if n > 0 then pause else ret ()) (\<lambda>_. attemptUpdate n cid decide))"
  have go: "andThen (redisOp script) follow c w1 = (Inl (CallStateConflict cid), w')"
    using Suc.prems(1) read before changed
    by (simp add: andThen_def [of "getCallState cid"] Let_def script_def follow_def)
  obtain i w2 where step: "redisOp script c w1 = (Inr i, w2)"
    and rest: "follow i c w2 = (Inl (CallStateConflict cid), w')"
    using go by (auto elim!: andThen_Inl dest: redisOp_Inl)
  let ?v = "advance c w1"
  have s: "script ?v = (i, w2)" by (rule redisOp_Inr [OF step])
  have w1v: "forward w1 ?v" by (rule advance_forward [OF assms])
  have i: "i \<noteq> 1" "i \<noteq> -1"
    using rest by (auto simp: follow_def ret_def)
  have again: "andThen (if n > 0 then pause else ret ()) (\<lambda>_. attemptUpdate n cid decide) c w2
      = (Inl (CallStateConflict cid), w')"
    using rest i by (simp add: follow_def)
  have w2: "w2 = ?v"
    using writeCallStateScript_other s i(1) unfolding script_def by blast
  obtain cur where cur: "callStates ?v cid = Some cur" "version cur \<noteq> version before"
    using s i unfolding script_def
    by (auto simp: writeCallStateScript_def split: option.splits if_splits)
  have more: "version before < version cur"
    using forward_live [OF w1v _ cur(1)] w1 before cur(2) by fastforce
  show ?case
  proof (cases "n = 0")
    case True
    then have "w' = w2"
      using again by (simp add: andThen_def ret_def throw_def)
    then show ?thesis
      using w1 before cur(1) more True unfolding w2 by fastforce
  next
    case False
    obtain w3 where w3: "forward w2 w3"
      and up: "attemptUpdate n cid decide c w3 = (Inl (CallStateConflict cid), w')"
      using again False advance_forward [OF assms, of w2]
      by (auto simp: andThen_def pause_def consult_def)
    obtain v a b where v: "forward w3 v" "callStates v cid = Some a" "callStates w' cid = Some b"
      "version a + n \<le> version b"
      using Suc.IH [OF up] False by auto
    have "version cur \<le> version a"
      using forward_live [OF forward_trans [OF w3 v(1)] _ v(2)] cur(1) unfolding w2 by blast
    then have "version before + Suc n \<le> version b"
      using more v(4) by linarith
    then show ?thesis
      using w1 before v(3) by blast
  qed
qed simp

section \<open>Claims\<close>

lemma advance_counted: "rely counted c \<Longrightarrow> counted w (advance c w)"
  by (rule user_revisions.advance_R)

definition readAt :: "world \<Rightarrow> user_id \<Rightarrow> stored_availability" where
  "readAt w user = readScript (redisNow w) user (users w user)"

definition claimedBy :: "call_id \<Rightarrow> user_id \<Rightarrow> world \<Rightarrow> bool" where
  "claimedBy cid user w \<longleftrightarrow>
     aliveClaims (redisNow w) (users w user) = {cid} \<and> \<not> doNotDisturb (users w user)"

lemma readAt_simps [simp]:
  "saUserId (readAt w user) = user" "saRevision (readAt w user) = revision (users w user)"
  "saDoNotDisturb (readAt w user) = doNotDisturb (users w user)"
  "set (saCalls (readAt w user)) = aliveClaims (redisNow w) (users w user)"
  by (simp_all add: readAt_def saCalls_readScript) (simp_all add: readScript_def)

lemma readOne_Inr:
  assumes "rely counted c" and "readOne user c w = (Inr s, w')"
  shows "counted w w' \<and> s = readAt w' user"
  using assms(2) advance_counted [OF assms(1), of w]
  by (auto simp: readOne_def readMany_def readAt_def ret_def elim!: andThen_Inr dest!: redisOp_Inr)

lemma counted_same_revision:
  assumes "counted w0 w" and "ok_user (users w0 user)"
    and "revision (users w user) = revision (users w0 user)"
  shows "ok_user (users w user)" and "doNotDisturb (users w user) = doNotDisturb (users w0 user)"
    and "aliveClaims (redisNow w) (users w user) \<subseteq> aliveClaims (redisNow w0) (users w0 user)"
  using assms unfolding counted_def by metis+

text \<open>A claim taken at the revision of a read that found nobody else claiming.\<close>

lemma claim_at_revision:
  assumes "counted w0 w" and "ok_user (users w0 user)"
    and "aliveClaims (redisNow w0) (users w0 user) \<subseteq> {cid}" and "\<not> doNotDisturb (users w0 user)"
    and "onUser user (claimScript (Some (revision (users w0 user))) cid (redisNow w)) w
       = (Some (rv, added), w')"
  shows "claimedBy cid user w'"
proof -
  let ?u = "users w user"
  obtain u' where script:
    "claimScript (Some (revision (users w0 user))) cid (redisNow w) ?u = (Some (rv, added), u')"
    and w': "w' = w\<lparr>users := (users w)(user := u')\<rparr>"
    using assms(5) by (auto simp: onUser_def split: prod.splits)
  have same: "revision ?u = revision (users w0 user)"
    using claimScript_revision [OF script] .
  have ok: "ok_user ?u" and dnd: "\<not> doNotDisturb ?u"
    and alive: "aliveClaims (redisNow w) ?u \<subseteq> {cid}"
    using counted_same_revision [OF assms(1,2) same] assms(3,4) by auto
  have "aliveClaims (redisNow w) u' = insert cid (aliveClaims (redisNow w) ?u - {cid})"
    using aliveClaims_claim_now [OF ok, of "Some (revision (users w0 user))" cid "redisNow w"]
    by (simp add: script)
  moreover have "doNotDisturb u' = doNotDisturb ?u"
    using script by (auto simp: claimScript_def Let_def split: if_splits)
  ultimately show ?thesis
    using alive dnd by (auto simp: claimedBy_def w')
qed

lemma attemptClaim_exclusive:
  assumes "rely counted c" and "ok_user (users w0 user)"
  shows "attemptClaim n stored sockets cid c w = (Inr (Claimed ids added), w') \<Longrightarrow>
    \<exists>v. counted w0 v \<and> counted v w \<and> stored = readAt v user \<Longrightarrow>
    claimedBy cid user w' \<and> ids \<noteq> []"
proof (induction n arbitrary: stored sockets w)
  case (Suc n)
  from Suc.prems(2) obtain v where v: "counted w0 v" "counted v w" "stored = readAt v user" by blast
  have okv: "ok_user (users v user)"
    using v(1) assms(2) by (auto simp: counted_def)
  have av: "decideAvailability (length sockets) (saDoNotDisturb stored) (saCalls stored) (Some cid)
      = Available"
    using Suc.prems(1) by (auto simp: ret_def split: availability_state.splits)
  then have free: "sockets \<noteq> []" "\<not> doNotDisturb (users v user)"
    "aliveClaims (redisNow v) (users v user) \<subseteq> {cid}"
    using readAt_simps(4) [of v user] by (auto simp: decideAvailability_Available v(3))
  from Suc.prems(1) obtain claim w1 where
    claim: "claimUser (saUserId stored) cid (Some (saRevision stored)) c w = (Inr claim, w1)"
    and rest: "(case claim of
            Some (_, added) \<Rightarrow> ret (Claimed sockets added)
          | None \<Rightarrow>
              if n = 0 then ret (NotClaimed IsBusy)
              else
                andThen (readOne (saUserId stored)) (\<lambda>again.
                andThen (socketIdsOf [saUserId stored]) (\<lambda>now.
                attemptClaim n again (socketsIn now (saUserId stored)) cid))) c w1
        = (Inr (Claimed ids added), w')"
    unfolding attemptClaim.simps av availability_state.case by (rule andThen_Inr)
  let ?w = "advance c w"
  have w: "counted v ?w"
    using v(2) advance_counted [OF assms(1)] counted_trans by blast
  have script: "onUser user (claimScript (Some (revision (users v user))) cid (redisNow ?w)) ?w
      = (claim, w1)"
    using redisOp_Inr [OF claim [unfolded claimUser_def]] by (simp add: v(3))
  show ?case
  proof (cases claim)
    case (Some p)
    obtain rv new where p: "p = (rv, new)" by fastforce
    have "claimedBy cid user w1"
      using claim_at_revision [OF w okv free(3,2)] script Some p by blast
    then show ?thesis
      using rest free(1) by (auto simp: Some p ret_def)
  next
    case None
    then have w1: "counted ?w w1"
      using script user_step.claimed
      by (auto simp: onUser_def split: prod.splits intro!: user_revisions.R_user)
         (metis snd_conv user_step.claimed)
    have "n \<noteq> 0"
    proof
      assume "n = 0"
      with rest None show False by (simp add: ret_def)
    qed
    with rest None obtain again w2 sockets' w3 where
      again: "readOne user c w1 = (Inr again, w2)"
      and m: "socketIdsOf [user] c w2 = (Inr sockets', w3)"
      and up: "attemptClaim n again (socketsIn sockets' user) cid c w3
        = (Inr (Claimed ids added), w')"
      by (auto simp: v(3) elim!: andThen_Inr)
    have w2: "counted w1 w2" "again = readAt w2 user"
      using readOne_Inr [OF assms(1) again] by auto
    have "counted w2 w3"
      using user_revisions.obeysD [OF user_revisions.socketIdsOf_resp assms(1), of w2 "[user]"]
      by (simp add: m)
    moreover have "counted w0 w2"
      using v(1) w w1 w2(1) counted_trans by blast
    ultimately show ?thesis
      using Suc.IH [OF up] w2(2) by blast
  qed
qed (simp add: ret_def)

context world_contract begin

text \<open>What each part of a \<open>Promise.all\<close> did, and when.\<close>

lemma promiseAll_map_mem:
  assumes "rely R c" and "\<And>x. obeys R (f x)"
  shows "promiseAll (map f xs) c w = (Inr ys, w') \<Longrightarrow> y \<in> set ys \<Longrightarrow>
    \<exists>x \<in> set xs. \<exists>v v'. R w v \<and> f x c v = (Inr y, v') \<and> R v' w'"
proof (induction xs arbitrary: w ys)
  case Nil
  then show ?case by (simp add: ret_def)
next
  case (Cons x xs)
  obtain r v where x: "f x c w = (r, v)" by fastforce
  obtain q u where xs: "promiseAll (map f xs) c v = (q, u)" by fastforce
  obtain z zs where r: "r = Inr z" and q: "q = Inr zs" and ys: "ys = z # zs" and u: "u = w'"
    using Cons.prems(1) by (auto simp: x xs split: sum.splits)
  have wv: "R w v"
    using obeysD [OF assms(2) assms(1), of w x] by (simp add: x)
  have vw: "R v w'"
    using obeysD [OF promiseAll_map_resp assms(1), of f v xs] assms(2) by (simp add: xs u)
  show ?case
  proof (cases "y \<in> set zs")
    case True
    then obtain x' v1 v2 where "x' \<in> set xs" "R v v1" "f x' c v1 = (Inr y, v2)" "R v2 w'"
      using Cons.IH [of v zs] xs q u by auto
    then show ?thesis
      using R_trans [OF wv] by (intro bexI [of _ x']) auto
  next
    case False
    then have "y = z" using Cons.prems(2) ys by simp
    then show ?thesis
      using x r vw R_refl [of w] by (intro bexI [of _ x]) auto
  qed
qed

end

lemma sortOutcomes_offered:
  "user \<in> set (offered (fst (sortOutcomes verdicts))) \<longleftrightarrow>
     (\<exists>ids added. (user, Claimed ids added) \<in> set verdicts)"
  by (induction verdicts rule: sortOutcomes.induct)
    (auto split: prod.splits claim_outcome.splits)

lemma readMany_Inr:
  assumes "rely counted c" and "readMany us c w = (Inr stored, w')"
  shows "counted w w' \<and> stored = map (readAt w') us"
proof (cases "us = []")
  case True
  then show ?thesis
    using assms(2) user_revisions.R_refl by (simp add: readMany_def ret_def)
next
  case False
  then have "redisOp (\<lambda>w. (map (readAt w) us, w)) c w = (Inr stored, w')"
    using assms(2) unfolding readMany_def readAt_def by simp
  from redisOp_Inr [OF this] show ?thesis
    using advance_counted [OF assms(1), of w] by auto
qed

end
