(* ===== verification/Quiet.thy ===== *)
theory Quiet
  imports Concurrency
begin

text \<open>
  Handlers run alone, with nobody else acting at their awaits: which effects each of them adds to the
  trace, whatever Redis and Twilio answer. \<open>touches L\<close> is the contract of work that hangs up legs of
  \<open>L\<close>, tells softphones things, and leaves every call's state as it is.
\<close>

definition alone :: "outside \<Rightarrow> bool" where
  "alone c \<longleftrightarrow> (\<forall>n w. interfere c n w = w)"

definition is_emission :: "effect \<Rightarrow> bool" where
  "is_emission e \<longleftrightarrow> (\<exists>ids m. e = Emitted ids m)"

definition touches :: "leg_id set \<Rightarrow> world \<Rightarrow> world \<Rightarrow> bool" where
  "touches L w w' \<longleftrightarrow> callStates w' = callStates w \<and>
     (\<exists>es. trace w' = trace w @ es \<and> (\<forall>e \<in> set es. is_emission e \<or> e \<in> HangUp ` L))"

lemma advance_alone: "alone c \<Longrightarrow> advance c w = w\<lparr>tick := Suc (tick w)\<rparr>"
  by (simp add: alone_def advance_def)

lemma touches_same: "callStates w' = callStates w \<Longrightarrow> trace w' = trace w \<Longrightarrow> touches L w w'"
  by (simp add: touches_def)

lemma touches_trans: "touches L u v \<Longrightarrow> touches L v w \<Longrightarrow> touches L u w"
  unfolding touches_def by fastforce

lemma touches_logged: "is_emission e \<or> e \<in> HangUp ` L \<Longrightarrow> touches L w (logged e w)"
  by (auto simp: touches_def)

interpretation touching: realtime_contract "touches L" for L
proof (unfold_locales, goal_cases)
  case (2 u v w)
  then show ?case by (rule touches_trans)
next
  case (5 w ids e)
  show ?case by (rule touches_logged) (simp add: is_emission_def)
qed (rule touches_same; simp)+

lemma rely_alone: "alone c \<Longrightarrow> rely (touches L) c"
  by (simp add: rely_def alone_def touches_same)

section \<open>Hanging up\<close>

lemma attemptHangup_touches [resp]: "leg \<in> L \<Longrightarrow> obeys (touches L) (attemptHangup n leg)"
proof (induction n)
  case (Suc n)
  have "obeys (touches L) (request (HangUp leg) twilioHangUp)"
    using touching.advance_R touches_logged [of "HangUp leg" L] Suc.prems touches_trans
    by (auto simp: obeys_def request_def) blast
  then show ?case
    unfolding attemptHangup.simps(2) by (intro resp Suc)
qed (simp add: touching.ret_resp)

lemma requireVoice_touches [resp]: "obeys (touches L) requireVoice"
  by (simp add: obeys_def requireVoice_def touches_same)

lemma safeHangup_touches [resp]: "leg \<in> L \<Longrightarrow> obeys (touches L) (safeHangup leg)"
  unfolding safeHangup_def by (intro resp)

lemma safeHangups_touches [resp]:
  assumes "set legs \<subseteq> L"
  shows "obeys (touches L) (safeHangups legs)"
proof -
  have "obeys (touches L) (promiseAll (map safeHangup legs))"
    using assms by (intro touching.promiseAll_resp) (auto intro: safeHangup_touches)
  then show ?thesis
    unfolding safeHangups_def by (intro touching.andThen_resp touching.ret_resp)
qed

text \<open>One leg: at least one request, at most three, and never an error.\<close>

lemma attemptHangup_alone:
  assumes "alone c"
  shows "0 < n \<Longrightarrow> \<exists>k t. 0 < k \<and> k \<le> n \<and> attemptHangup n leg c w
    = (Inr (), w\<lparr>trace := trace w @ replicate k (HangUp leg), tick := t\<rparr>)"
proof (induction n arbitrary: w)
  case (Suc n)
  let ?w = "w\<lparr>trace := trace w @ [HangUp leg], tick := Suc (tick w)\<rparr>"
  let ?stop = "(Inr (), ?w) :: (exn + unit) \<times> world"
  have req: "request (HangUp leg) twilioHangUp c w = (Inr (twilioHangUp c (tick w)), ?w)"
    using assms by (simp add: request_def advance_alone logged_def)
  show ?case
  proof (cases "\<exists>status. twilioHangUp c (tick w) = Some status \<and> status \<noteq> Some 404
      \<and> is_retryable status \<and> 0 < n")
    case True
    let ?w2 = "?w\<lparr>tick := Suc (tick ?w)\<rparr>"
    have step: "attemptHangup (Suc n) leg c w = attemptHangup n leg c ?w2"
      using True assms
      by (auto simp: andThen_def req pause_def consult_def advance_alone split: option.split)
    obtain k t where k: "0 < k" "k \<le> n" "attemptHangup n leg c ?w2
        = (Inr (), ?w2\<lparr>trace := trace ?w2 @ replicate k (HangUp leg), tick := t\<rparr>)"
      using Suc.IH True by blast
    have "attemptHangup (Suc n) leg c w
        = (Inr (), w\<lparr>trace := trace w @ replicate (Suc k) (HangUp leg), tick := t\<rparr>)"
      unfolding step k(3) by simp
    then show ?thesis
      using k(1,2) by (metis Suc_le_mono zero_less_Suc)
  next
    case False
    have "attemptHangup (Suc n) leg c w = ?stop"
      using False by (auto simp: andThen_def req ret_def split: option.split)
    then have "attemptHangup (Suc n) leg c w
        = (Inr (), w\<lparr>trace := trace w @ replicate 1 (HangUp leg), tick := Suc (tick w)\<rparr>)"
      by simp
    then show ?thesis
      by (intro exI [of _ 1] exI [of _ "Suc (tick w)"]) simp
  qed
qed simp

lemma safeHangup_alone:
  assumes "alone c" and "voiceConfigured c"
  shows "\<exists>k t. 0 < k \<and> k \<le> 3 \<and> safeHangup leg c w
    = (Inr (), w\<lparr>trace := trace w @ replicate k (HangUp leg), tick := t\<rparr>)"
  using attemptHangup_alone [OF assms(1), of 3 leg w] assms(2)
  by (simp add: safeHangup_def andThen_def requireVoice_def)

lemma safeHangup_asks:
  assumes "alone c" and "safeHangup leg c w = (Inr x, w')"
  shows "HangUp leg \<in> set (trace w')"
proof -
  have v: "voiceConfigured c"
    using assms(2) by (auto simp: safeHangup_def andThen_def requireVoice_def split: if_splits)
  obtain k t where "0 < k" and "safeHangup leg c w
      = (Inr (), w\<lparr>trace := trace w @ replicate k (HangUp leg), tick := t\<rparr>)"
    using safeHangup_alone [OF assms(1) v] by blast
  then show ?thesis using assms(2) by auto
qed

lemma touches_mono: "touches L w w' \<Longrightarrow> set (trace w) \<subseteq> set (trace w')"
  by (auto simp: touches_def)

lemma safeHangups_asks:
  assumes "alone c" and "safeHangups legs c w = (Inr x, w')" and "leg \<in> set legs"
  shows "HangUp leg \<in> set (trace w')"
  using assms(2,3)
proof (induction legs arbitrary: w x)
  case (Cons l legs)
  obtain r v where l: "safeHangup l c w = (r, v)" by fastforce
  obtain q u where legs: "promiseAll (map safeHangup legs) c v = (q, u)" by fastforce
  have r: "\<exists>y. r = Inr y" and q: "\<exists>ys. q = Inr ys" and u: "u = w'"
    using Cons.prems(1)
    by (auto simp: safeHangups_def andThen_def l legs ret_def split: sum.splits)
  have rest: "safeHangups legs c v = (Inr (), w')"
    using q by (auto simp: safeHangups_def andThen_def legs ret_def u)
  show ?case
  proof (cases "leg \<in> set legs")
    case True
    then show ?thesis using Cons.IH [OF rest] by simp
  next
    case False
    then have "HangUp leg \<in> set (trace v)"
      using safeHangup_asks [OF assms(1), of l w] l r Cons.prems(2) by auto
    moreover have "touches (set legs) v w'"
      using touching.obeysD [OF safeHangups_touches [OF order_refl] rely_alone [OF assms(1)], of legs v]
      by (simp add: rest)
    ultimately show ?thesis
      using touches_mono by blast
  qed
qed simp

section \<open>Changing a call alone\<close>

lemma redisOp_alone:
  assumes "alone c" and "redisOp f c w = (r, w')"
  obtains "r = Inl RedisError" and "w' = w\<lparr>tick := Suc (tick w)\<rparr>"
  | "r = Inl RedisError" and "w' = snd (f (w\<lparr>tick := Suc (tick w)\<rparr>))"
  | x where "r = Inr x" and "f (w\<lparr>tick := Suc (tick w)\<rparr>) = (x, w')"
  using assms(2)
  by (auto simp: redisOp_def Let_def advance_alone [OF assms(1)] split: delivery.splits prod.splits)

lemma getCallState_alone:
  assumes "alone c" and "getCallState cid c w = (r, w')"
  shows "w' = w\<lparr>tick := Suc (tick w)\<rparr> \<and> (r = Inl RedisError \<or> r = Inr (callStates w cid))"
  using assms(2)
  by (auto simp: getCallState_def elim!: redisOp_alone [OF assms(1)])

text \<open>The first attempt settles it: there is no conflict to lose.\<close>

definition settled_update :: "call_id \<Rightarrow> (call_state \<Rightarrow> 'r change) \<Rightarrow> call_state \<Rightarrow> 'r state_update" where
  "settled_update cid decide s =
     (let ch = decide s in
      if \<not> chRemove ch \<and> (chDraft ch)\<lparr>version := version s\<rparr> = s
      then \<lparr>updResult = chResult ch, updBefore = s, updAfter = Some s\<rparr>
      else \<lparr>updResult = chResult ch, updBefore = s, updAfter =
             (if chRemove ch then None else Some ((chDraft ch)\<lparr>version := version s + 1\<rparr>))\<rparr>)"

definition settled_world :: "call_id \<Rightarrow> 'r state_update \<Rightarrow> world \<Rightarrow> world" where
  "settled_world cid u w =
     (case updAfter u of
        None \<Rightarrow> removed cid (updBefore u) w
      | Some t \<Rightarrow> if t = updBefore u then w else written cid (updBefore u) t w)"

lemma updateCallState_alone:
  assumes "alone c" and "updateCallState cid decide c w = (r, w')"
  shows "(\<exists>t. w' = w\<lparr>tick := t\<rparr> \<and> (r = Inl RedisError \<or> r = Inr None \<and> callStates w cid = None)) \<or>
    (\<exists>s t. callStates w cid = Some s \<and> w' = settled_world cid (settled_update cid decide s) (w\<lparr>tick := t\<rparr>)
      \<and> (r = Inl RedisError \<or> r = Inr (Some (settled_update cid decide s))))"
proof -
  obtain r1 w1 where read: "getCallState cid c w = (r1, w1)" by fastforce
  note w1 = getCallState_alone [OF assms(1) read]
  have run: "attemptUpdate (Suc 9) cid decide c w = (r, w')"
    using assms(2) by (simp add: updateCallState_def CALL_STATE_WRITE_ATTEMPTS_def)
  show ?thesis
  proof (cases "\<exists>s. r1 = Inr (Some s)")
    case False
    then have "w' = w1 \<and> (r = Inl RedisError \<or> r = Inr None \<and> callStates w cid = None)"
      using run w1 read unfolding attemptUpdate.simps(2) by (auto simp: andThen_def ret_def)
    then show ?thesis using w1 by blast
  next
    case True
    then obtain s where s: "r1 = Inr (Some s)" by blast
    then have stored: "callStates w cid = Some s"
      using w1 by simp
    let ?ch = "decide s"
    let ?after = "if chRemove ?ch then None else Some ((chDraft ?ch)\<lparr>version := version s + 1\<rparr>)"
    let ?u = "settled_update cid decide s"
    show ?thesis
    proof (cases "\<not> chRemove ?ch \<and> (chDraft ?ch)\<lparr>version := version s\<rparr> = s")
      case True
      then have u: "?u = \<lparr>updResult = chResult ?ch, updBefore = s, updAfter = Some s\<rparr>"
        by (simp add: settled_update_def Let_def)
      have "r = Inr (Some ?u) \<and> w' = w1"
        using run read s True unfolding attemptUpdate.simps(2) by (simp add: andThen_def ret_def Let_def u)
      moreover have "w1 = settled_world cid ?u (w\<lparr>tick := Suc (tick w)\<rparr>)"
        using w1 by (simp add: settled_world_def u)
      ultimately show ?thesis using stored by blast
    next
      case False
      then have u: "?u = \<lparr>updResult = chResult ?ch, updBefore = s, updAfter = ?after\<rparr>"
        by (auto simp: settled_update_def Let_def)
      have ne: "(chDraft ?ch)\<lparr>version := version s + 1\<rparr> \<noteq> s"
        by (metis add_eq_self_zero call_state.select_convs(1) call_state.surjective
            call_state.update_convs(1) zero_neq_one)
      define script where "script = writeCallStateScript cid (version s) ?after"
      obtain r2 w2 where step: "redisOp script c w1 = (r2, w2)" by fastforce
      let ?w2 = "w1\<lparr>tick := Suc (tick w1)\<rparr>"
      have cur: "callStates ?w2 cid = Some s" using w1 stored by simp
      have did: "script ?w2 = (1, settled_world cid ?u ?w2)"
        unfolding script_def
        using cur ne by (simp add: writeCallStateScript_def settled_world_def u removed_def written_def)
      have out: "(r, w') = (case r2 of Inl e \<Rightarrow> (Inl e, w2)
          | Inr i \<Rightarrow> (if i = 1 then ret (Some ?u) else if i = -1 then ret None
              else andThen (if (9::nat) > 0 then pause else ret ()) (\<lambda>_. attemptUpdate 9 cid decide)) c w2)"
        using run read s False step unfolding attemptUpdate.simps(2) u
        by (simp add: andThen_def [of "getCallState cid"] andThen_def [of "redisOp _"] Let_def
            script_def split: sum.splits)
      from redisOp_alone [OF assms(1) step] show ?thesis
      proof cases
        case 1
        then have "r = Inl RedisError \<and> w' = w2" using out by simp
        then show ?thesis using w1 1(2) by auto
      next
        case 2
        then have "r = Inl RedisError \<and> w' = settled_world cid ?u ?w2"
          using out did by simp
        then show ?thesis using stored w1 by auto
      next
        case (3 i)
        then have "r = Inr (Some ?u) \<and> w' = settled_world cid ?u ?w2"
          using out did by (simp add: ret_def)
        then show ?thesis using stored w1 by auto
      qed
    qed
  qed
qed

lemma letGo_touches: "obeys (touches L) (letGo cid us)"
  by (rule touching.letGo_resp)

text \<open>The same with letting go, which adds nothing but what softphones are told.\<close>

lemma changeCall_alone:
  assumes "alone c" and "changeCall cid decide c w = (r, w')"
  shows "(touches {} w w' \<and> (r = Inl RedisError \<or> r = Inr None \<and> callStates w cid = None)) \<or>
    (\<exists>s t. callStates w cid = Some s \<and>
      touches {} (settled_world cid (settled_update cid decide s) (w\<lparr>tick := t\<rparr>)) w'
      \<and> (r = Inl RedisError \<or> r = Inr (Some (settled_update cid decide s))))"
proof -
  obtain q v where up: "updateCallState cid decide c w = (q, v)" by fastforce
  have free: "touches {} v (snd ((case u of None \<Rightarrow> ret () | Some u \<Rightarrow>
      if updAfter u \<noteq> Some (updBefore u)
      then letGo cid (usersLetGo (updBefore u) (updAfter u)) else ret ()) c v))" for u
    by (rule touching.obeysD [OF _ rely_alone [OF assms(1)]]) (intro resp)
  have free_ok: "fst ((case u of None \<Rightarrow> ret () | Some u \<Rightarrow>
      if updAfter u \<noteq> Some (updBefore u)
      then letGo cid (usersLetGo (updBefore u) (updAfter u)) else ret ()) c v) = Inr ()" for u
    by (auto simp: ret_def letGo_def catching_def split: option.split sum.split prod.split)
  have q: "r = q" and w': "touches {} v w'"
  proof -
    have "r = q \<and> touches {} v w'"
    proof (cases q)
      case (Inl e)
      then show ?thesis
        using assms(2) up touches_same by (auto simp: changeCall_def andThen_def)
    next
      case (Inr u)
      then show ?thesis
        using assms(2) up free [of u] free_ok [of u]
        by (auto simp: changeCall_def andThen_def ret_def split: prod.splits)
    qed
    then show "r = q" and "touches {} v w'" by simp_all
  qed
  from updateCallState_alone [OF assms(1) up] show ?thesis
  proof (elim disjE exE conjE)
    fix t
    assume "v = w\<lparr>tick := t\<rparr>"
    then have "touches {} w v" by (simp add: touches_same)
    then have "touches {} w w'" using w' by (rule touches_trans)
    then show ?thesis if "q = Inl RedisError" using that q by simp
    show ?thesis if "q = Inr None" "callStates w cid = None"
      using that q \<open>touches {} w w'\<close> by simp
  qed (use w' q in auto)
qed

end
