(* ===== verification/Quiet_Handlers.thy ===== *)
theory Quiet_Handlers
  imports Quiet
begin

text \<open>
  What single handlers do when they run alone: declining an offer, an agent who joins a call that is
  not theirs, ending a call, a repeated report of a leg's end, a hangup by an outsider, an outbound
  call without a grant; and what voicemail a caller hears.
\<close>

lemma callsAfter: "touches L w w' \<Longrightarrow> callStates w' = callStates w"
  by (simp add: touches_def)

lemma touches_superset: "touches L w w' \<Longrightarrow> L \<subseteq> M \<Longrightarrow> touches M w w'"
  unfolding touches_def by blast

lemma touches_after_read:
  assumes "alone c" and "callStates w' = callStates w" and "trace w' = trace w"
    and "obeys (touches L) m"
  shows "touches L w (snd (m c w'))"
  using touches_trans [OF touches_same [OF assms(2,3)] touching.obeysD [OF assms(4) rely_alone]]
    assms(1) by blast

section \<open>Declining an offer\<close>

definition ringingLegs :: "call_state \<Rightarrow> user_id \<Rightarrow> leg_id set" where
  "ringingLegs s user =
     {leg \<in> set (pendingAgentLegUuids s). map_of (agentLegs s) leg = Some user}"

lemma decline_alone:
  assumes "alone c" and "callStates w cid = Some s" and "pendingTransferToUserId s \<noteq> Some user"
  shows "touches (if answered s then {} else ringingLegs s user) w
    (snd (declineOfferedCall cid user c w))"
proof -
  let ?L = "if answered s then {} else ringingLegs s user"
  obtain r w1 where read: "getCallState cid c w = (r, w1)" by fastforce
  note w1 = getCallState_alone [OF assms(1) read]
  show ?thesis
  proof (cases r)
    case (Inl e)
    then show ?thesis
      using w1 by (simp add: declineOfferedCall_def andThen_def read touches_same)
  next
    case (Inr x)
    then have r: "r = Inr (Some s)" using w1 assms(2) by auto
    let ?legs = "filter (\<lambda>leg. map_of (agentLegs s) leg = Some user) (pendingAgentLegUuids s)"
    define m where "m = (if answered s then ret ()
         else if ?legs = [] then ret ()
         else andThen (safeHangups ?legs) (\<lambda>_. letGo cid [user]))"
    have "obeys (touches ?L) m"
    proof (cases "answered s")
      case False
      then have "set ?legs \<subseteq> ?L" by (auto simp: ringingLegs_def)
      then show ?thesis
        unfolding m_def
        by (intro touching.if_resp touching.andThen_resp touching.ret_resp safeHangups_touches
            touching.letGo_resp)
    qed (simp add: m_def touching.ret_resp)
    then have "touches ?L w (snd (m c w1))"
      by (rule touches_after_read [OF assms(1), rotated -1]) (simp_all add: w1)
    moreover have "declineOfferedCall cid user c w = m c w1"
      using assms(3) by (simp add: declineOfferedCall_def andThen_def read r m_def Let_def)
    ultimately show ?thesis by simp
  qed
qed

section \<open>An agent who joins a call that is not theirs\<close>

lemma intruder_decision:
  assumes "answered s" and "pendingTransferToUserId s \<noteq> Some user"
    and "activeAgentUserId s = Some other" and "other \<noteq> user"
  shows "decideAgentJoined user leg s = keep Intruder s"
  using assms by (simp add: decideAgentJoined_def Let_def)

lemma changeCall_kept:
  assumes "alone c" and "callStates w cid = Some s" and "decide s = keep x s"
    and "changeCall cid decide c w = (r, v)"
  shows "touches {} w v \<and>
    (r = Inl RedisError \<or> r = Inr (Some \<lparr>updResult = x, updBefore = s, updAfter = Some s\<rparr>))"
proof -
  have u: "settled_update cid decide s = \<lparr>updResult = x, updBefore = s, updAfter = Some s\<rparr>"
    using assms(3) by (simp add: settled_update_def)
  from changeCall_alone [OF assms(1,4)] show ?thesis
  proof (elim disjE exE conjE)
    fix s' t
    assume s': "callStates w cid = Some s'"
      and v: "touches {} (settled_world cid (settled_update cid decide s') (w\<lparr>tick := t\<rparr>)) v"
      and r: "r = Inr (Some (settled_update cid decide s'))"
    have "s' = s" using s' assms(2) by simp
    moreover have "touches {} w (w\<lparr>tick := t\<rparr>)" by (simp add: touches_same)
    ultimately show ?thesis
      using v r touches_trans [of "{}" w "w\<lparr>tick := t\<rparr>" v] by (simp add: u settled_world_def)
  next
    fix s' t
    assume s': "callStates w cid = Some s'"
      and v: "touches {} (settled_world cid (settled_update cid decide s') (w\<lparr>tick := t\<rparr>)) v"
      and r: "r = Inl RedisError"
    have "s' = s" using s' assms(2) by simp
    moreover have "touches {} w (w\<lparr>tick := t\<rparr>)" by (simp add: touches_same)
    ultimately show ?thesis
      using v r touches_trans [of "{}" w "w\<lparr>tick := t\<rparr>" v] by (simp add: u settled_world_def)
  qed (use assms(2) in auto)
qed

lemma changeCall_written:
  assumes "alone c" and "callStates w cid = Some s" and "decide s = keep x d"
    and "d\<lparr>version := version s\<rparr> \<noteq> s" and "changeCall cid decide c w = (r, v)"
  defines "t \<equiv> d\<lparr>version := version s + 1\<rparr>"
  shows "touches {} w v \<and> r = Inl RedisError \<or>
    (\<exists>n. touches {} (written cid s t (w\<lparr>tick := n\<rparr>)) v \<and>
      (r = Inl RedisError \<or> r = Inr (Some \<lparr>updResult = x, updBefore = s, updAfter = Some t\<rparr>)))"
proof -
  have u: "settled_update cid decide s = \<lparr>updResult = x, updBefore = s, updAfter = Some t\<rparr>"
    using assms(3,4) by (simp add: settled_update_def t_def)
  have ne: "t \<noteq> s"
  proof
    assume "t = s"
    then have "version t = version s" by simp
    then show False by (simp add: t_def)
  qed
  from changeCall_alone [OF assms(1,5)] assms(2) show ?thesis
    by (auto simp: u ne settled_world_def)
qed

lemma intruder_alone:
  assumes "alone c" and "callStates w cid = Some s" and "answered s"
    and "pendingTransferToUserId s \<noteq> Some user"
    and "activeAgentUserId s = Some other" and "other \<noteq> user"
  shows "touches {leg} w (snd (onAgentJoined cid user leg c w))"
proof -
  obtain r v where ch: "changeCall cid (decideAgentJoined user leg) c w = (r, v)" by fastforce
  let ?u = "\<lparr>updResult = Intruder, updBefore = s, updAfter = Some s\<rparr>"
  have "touches {} w v \<and> (r = Inl RedisError \<or> r = Inr (Some ?u))"
    using changeCall_kept [OF assms(1,2) intruder_decision [OF assms(3-6)] ch] .
  then have v: "touches {leg} w v" and r: "r = Inl RedisError \<or> r = Inr (Some ?u)"
    using touches_superset by auto
  from r show ?thesis
  proof
    assume "r = Inl RedisError"
    then show ?thesis using v by (simp add: onAgentJoined_def andThen_def ch)
  next
    assume "r = Inr (Some ?u)"
    then have "snd (onAgentJoined cid user leg c w) = snd (safeHangup leg c v)"
      by (simp add: onAgentJoined_def andThen_def ch)
    then show ?thesis
      using touches_trans [OF v touching.obeysD [OF safeHangup_touches rely_alone [OF assms(1)]]]
      by simp
  qed
qed

section \<open>Ending a call\<close>

lemma endCall_alone:
  assumes "alone c" and "callStates w cid = Some s" and "\<not> ending s"
    and "endCall cid who c w = (r, w')"
  shows "touches {} w w' \<and> (\<exists>e. r = Inl e) \<or>
    (\<exists>t v. ending t \<and> pendingTransferToUserId t = None \<and> legUuidsOf t = legUuidsOf s \<and>
       trace v = trace w @ [StateWritten cid s t] \<and> callStates v = (callStates w)(cid \<mapsto> t) \<and>
       touches (set (legUuidsOf s)) v w' \<and>
       (\<forall>x. r = Inr x \<longrightarrow> (\<forall>leg \<in> set (legUuidsOf s). HangUp leg \<in> set (trace w'))))"
proof -
  let ?decide = "decideEndCall (clockMs c (tick w)) who"
  define d where "d = clearTransfer (s\<lparr>ending := True,
      endingRequestedAt := Some (clockMs c (tick w)), endingRequestedBy := who\<rparr>)"
  define t where "t = d\<lparr>version := version s + 1\<rparr>"
  have t: "ending t" "pendingTransferToUserId t = None" "legUuidsOf t = legUuidsOf s"
    by (simp_all add: t_def d_def clearTransfer_def legUuidsOf_def)
  have drafted: "?decide s = keep () d"
    using assms(3) by (simp add: decideEndCall_def d_def)
  have "ending (d\<lparr>version := version s\<rparr>)"
    by (simp add: d_def clearTransfer_def)
  then have changed: "d\<lparr>version := version s\<rparr> \<noteq> s" using assms(3) by metis
  obtain q v where ch: "changeCall cid ?decide c w = (q, v)" by fastforce
  have run: "(r, w') = (case q of Inl e \<Rightarrow> (Inl e, v) | Inr update \<Rightarrow>
      (case update of None \<Rightarrow> ret None
        | Some u \<Rightarrow> andThen (hangupConversation cid) (\<lambda>_. ret (updAfter u))) c v)"
    using assms(4) by (simp add: endCall_def andThen_def readNow_def ch split: sum.splits)
  from changeCall_written [OF assms(1,2) drafted changed ch]
  consider "touches {} w v" "q = Inl RedisError"
    | n where "touches {} (written cid s t (w\<lparr>tick := n\<rparr>)) v" "q = Inl RedisError"
    | n where "touches {} (written cid s t (w\<lparr>tick := n\<rparr>)) v"
        "q = Inr (Some \<lparr>updResult = (), updBefore = s, updAfter = Some t\<rparr>)"
    unfolding t_def by blast
  then show ?thesis
  proof cases
    case 1
    then show ?thesis using run by simp
  next
    case (2 n)
    then have "r = Inl RedisError" and "w' = v" using run by simp_all
    moreover have "touches (set (legUuidsOf s)) (written cid s t (w\<lparr>tick := n\<rparr>)) v"
      using 2(1) by (rule touches_superset) simp
    ultimately show ?thesis
      using t by (intro disjI2 exI [of _ t] exI [of _ "written cid s t (w\<lparr>tick := n\<rparr>)"]) simp
  next
    case (3 n)
    let ?v = "written cid s t (w\<lparr>tick := n\<rparr>)"
    obtain q2 v2 where read: "getCallState cid c v = (q2, v2)" by fastforce
    note v2 = getCallState_alone [OF assms(1) read]
    have v: "callStates v cid = Some t" using callsAfter [OF 3(1)] by simp
    have run3: "(r, w') = andThen (hangupConversation cid) (\<lambda>_. ret (Some t)) c v"
      using run by (simp add: 3(2))
    have "touches (set (legUuidsOf s)) v (snd (hangupConversation cid c v))
        \<and> (\<forall>x. fst (hangupConversation cid c v) = Inr x \<longrightarrow>
          (\<forall>leg \<in> set (legUuidsOf s). HangUp leg \<in> set (trace (snd (hangupConversation cid c v)))))"
    proof (cases q2)
      case (Inl e)
      then show ?thesis
        using v2 by (simp add: hangupConversation_def andThen_def read touches_same)
    next
      case (Inr x)
      then have hang: "hangupConversation cid c v = safeHangups (legUuidsOf s) c v2"
        using v2 v t(3) by (simp add: hangupConversation_def andThen_def read)
      have "touches (set (legUuidsOf s)) v (snd (safeHangups (legUuidsOf s) c v2))"
        by (rule touches_after_read [OF assms(1)]) (simp_all add: v2 safeHangups_touches)
      then show ?thesis
        unfolding hang using safeHangups_asks [OF assms(1)] by (metis prod.collapse)
    qed
    then have w': "touches (set (legUuidsOf s)) v w'"
      "\<forall>x. r = Inr x \<longrightarrow> (\<forall>leg \<in> set (legUuidsOf s). HangUp leg \<in> set (trace w'))"
      using run3 by (auto simp: andThen_def ret_def split: sum.splits prod.splits)
    have "touches (set (legUuidsOf s)) ?v w'"
      using touches_superset [OF 3(1)] w'(1) touches_trans by blast
    then show ?thesis
      using t w'(2) by (intro disjI2 exI [of _ t] exI [of _ ?v]) simp
  qed
qed

section \<open>Handlers nobody notices\<close>

text \<open>Nothing was told to anybody, and no call, claim or pending work changed.\<close>

definition unseen :: "world \<Rightarrow> world \<Rightarrow> bool" where
  "unseen w w' \<longleftrightarrow> callStates w' = callStates w \<and> trace w' = trace w \<and> jobs w' = jobs w
     \<and> users w' = users w"

interpretation unnoticed: world_contract unseen
  by unfold_locales (simp_all add: unseen_def)

lemma rely_unseen: "alone c \<Longrightarrow> rely unseen c"
  by (simp add: rely_def alone_def unseen_def)

lemma unseen_redis:
  assumes "\<And>w. callStates (snd (f w)) = callStates w" and "\<And>w. trace (snd (f w)) = trace w"
    and "\<And>w. jobs (snd (f w)) = jobs w" and "\<And>w. users (snd (f w)) = users w"
  shows "obeys unseen (redisOp f)"
  by (rule unnoticed.redisOp_resp) (simp add: unseen_def assms)

lemma getLegMetadata_unseen [resp]: "obeys unseen (getLegMetadata leg)"
  unfolding getLegMetadata_def by (rule unseen_redis) simp_all

lemma getCallState_unseen [resp]: "obeys unseen (getCallState cid)"
  unfolding getCallState_def by (rule unseen_redis) simp_all

lemma deleteLegMetadata_unseen [resp]: "obeys unseen (deleteLegMetadata legs)"
  unfolding deleteLegMetadata_def
  by (intro unnoticed.if_resp unnoticed.ret_resp unseen_redis) simp_all

lemma takeOutboundGrant_unseen [resp]: "obeys unseen (takeOutboundGrant token)"
  unfolding takeOutboundGrant_def
  by (intro unnoticed.andThen_resp unnoticed.ret_resp unseen_redis) simp_all

lemma resolveParticipant_unseen [resp]: "obeys unseen (resolveParticipant s leg label)"
  unfolding resolveParticipant_def participantOfLabel_def by (intro resp)

lemma unseen_run: "alone c \<Longrightarrow> obeys unseen m \<Longrightarrow> unseen w (snd (m c w))"
  using unnoticed.obeysD rely_unseen by blast

subsection \<open>A repeated report of a leg's end\<close>

lemma repeated_end_unseen:
  assumes "alone c" and "callStates w (csnConversationUuid notice) = Some s"
    and "csnLegUuid notice \<notin> set (legUuidsOf s)"
    and "normalizeCallStatus (csnStatus notice) = Some (Ended how)"
  shows "unseen w (snd (handleCallStatus notice c w))"
proof -
  let ?cid = "csnConversationUuid notice" and ?leg = "csnLegUuid notice"
  obtain r v where read: "getCallState ?cid c w = (r, v)" by fastforce
  note v = getCallState_alone [OF assms(1) read]
  then have wv: "unseen w v" by (simp add: unseen_def)
  define m where "m = andThen (resolveParticipant s ?leg (csnParticipantLabel notice)) (\<lambda>participant.
      case participant of None \<Rightarrow> ret () | Some p \<Rightarrow> deleteLegMetadata [?leg])"
  have "obeys unseen m"
    unfolding m_def by (intro resp)
  from unseen_run [OF assms(1) this] have m: "unseen v (snd (m c v))" .
  from v have "r = Inl RedisError \<or> r = Inr (Some s)" using assms(2) by simp
  then show ?thesis
  proof
    assume "r = Inl RedisError"
    then show ?thesis using wv assms(4) by (simp add: handleCallStatus_def andThen_def read Let_def)
  next
    assume "r = Inr (Some s)"
    then have "handleCallStatus notice c w = m c v"
      using assms(3,4)
      by (simp add: handleCallStatus_def andThen_def [of "getCallState _"] read Let_def m_def
          cong: option.case_cong)
    then show ?thesis using unnoticed.R_trans [OF wv m] by simp
  qed
qed

subsection \<open>A hangup by an outsider\<close>

lemma outsider_hangup:
  assumes "alone c" and "legMetas w leg = Some m"
    and "\<not> (participantType (legParticipant m) = Agent \<and> participantId (legParticipant m) = user)"
    and "\<forall>s. callStates w (legConversationUuid m) = Some s \<longrightarrow> activeAgentUserId s \<noteq> Some user"
    and "hangupRoute user leg c w = (r, w')"
  shows "unseen w w' \<and> (r = Inl RedisError \<or> r = Inr (HangupRefused 403))"
proof -
  obtain q v where leg: "getLegMetadata leg c w = (q, v)" by fastforce
  have v: "v = w\<lparr>tick := Suc (tick w)\<rparr> \<and> (q = Inl RedisError \<or> q = Inr (Some m))"
    using leg assms(2) by (auto simp: getLegMetadata_def elim!: redisOp_alone [OF assms(1)])
  show ?thesis
  proof (cases "q = Inl RedisError")
    case True
    then show ?thesis
      using assms(5) v by (auto simp: hangupRoute_def andThen_def leg unseen_def)
  next
    case False
    then have q: "q = Inr (Some m)" using v by simp
    obtain q2 v2 where st: "getCallState (legConversationUuid m) c v = (q2, v2)" by fastforce
    note v2 = getCallState_alone [OF assms(1) st]
    have same: "unseen w v2" using v v2 by (simp add: unseen_def)
    have inactive: "\<not> (case callStates w (legConversationUuid m) of None \<Rightarrow> False
        | Some s \<Rightarrow> activeAgentUserId s = Some user)"
      using assms(4) by (simp split: option.split)
    have "callStates v = callStates w" using v by simp
    then have "(r, w') = (case q2 of Inl e \<Rightarrow> (Inl e, v2) | Inr x \<Rightarrow> (Inr (HangupRefused 403), v2))"
      using assms(3,5) v2 inactive
      by (auto simp: hangupRoute_def andThen_def leg q st ret_def Let_def)
    then show ?thesis using same v2 by auto
  qed
qed

subsection \<open>An outbound call without a grant\<close>

definition usableGrant :: "outbound_call_request \<Rightarrow> world \<Rightarrow> millis \<Rightarrow> outbound_call_grant \<Rightarrow> bool" where
  "usableGrant req w now g \<longleftrightarrow>
     (\<exists>token stored. ocrGrant req = Some token \<and> token \<noteq> [] \<and> grants w token = Some stored \<and>
        parseStoredGrant stored = Some g) \<and>
     now < grantCreatedAt g + 60000 \<and> ocrFrom req = Some (''client:'' @ grantUserId g)"

lemma outbound_needs_grant:
  assumes "alone c" and "\<not> unseen w (snd (startOutboundCall req c w))"
  shows "\<exists>n g. usableGrant req w (clockMs c n) g"
proof -
  define take where "take = (if truthy (ocrGrant req) then takeOutboundGrant (the (ocrGrant req))
      else ret None)"
  obtain r v where take: "take c w = (r, v)" by fastforce
  have "obeys unseen take"
    unfolding take_def by (intro resp)
  from unseen_run [OF assms(1) this, of w] have wv: "unseen w v" by (simp add: take)
  obtain taken where r: "r = Inr taken"
    using assms(2) wv take
    by (cases r) (auto simp: startOutboundCall_def Let_def andThen_def take_def [symmetric])
  have "\<exists>g. admitOutboundCall taken (ocrFrom req) (clockMs c (tick v)) = AdmitCall g"
  proof (rule ccontr)
    assume "\<not> ?thesis"
    then obtain reason where
      "admitOutboundCall taken (ocrFrom req) (clockMs c (tick v)) = RefuseCall reason"
      by (cases "admitOutboundCall taken (ocrFrom req) (clockMs c (tick v))") auto
    then have "snd (startOutboundCall req c w) = v"
      using take r
      by (simp add: startOutboundCall_def Let_def andThen_def take_def [symmetric] readNow_def ret_def)
    with assms(2) wv show False by simp
  qed
  then obtain g where g: "taken = Some g" "clockMs c (tick v) < grantCreatedAt g + 60000"
    "ocrFrom req = Some (''client:'' @ grantUserId g)"
    by (auto simp: admitOutboundCall_admit)
  then have token: "truthy (ocrGrant req)"
    using take r by (auto simp: take_def ret_def split: if_splits)
  then obtain tok where tok: "ocrGrant req = Some tok" "tok \<noteq> []"
    by (auto simp: truthy_iff)
  have "takeOutboundGrant tok c w = (Inr (Some g), v)"
    using take r g(1) tok by (simp add: take_def token)
  then have "Option.bind (grants (advance c w) tok) parseStoredGrant = Some g"
    by (auto simp: takeOutboundGrant_def ret_def elim!: andThen_Inr dest!: redisOp_Inr)
  then obtain stored where "grants w tok = Some stored" "parseStoredGrant stored = Some g"
    by (auto simp: advance_alone [OF assms(1)] bind_eq_Some_conv)
  then show ?thesis
    using g tok unfolding usableGrant_def by blast
qed

text \<open>A grant serves one call: it is read by the step that removes it.\<close>

definition onlyTaken :: "string \<Rightarrow> world \<Rightarrow> world \<Rightarrow> bool" where
  "onlyTaken token w w' \<longleftrightarrow> grants w' token = grants w token \<or> grants w' token = None"

lemma onlyTaken_advance: "rely (onlyTaken token) c \<Longrightarrow> onlyTaken token w (advance c w)"
  by (simp add: rely_def onlyTaken_def advance_def)

lemma issued_grant:
  assumes "issueOutboundGrant g c w = (Inr token, w')"
  shows "grants w' token = Some (storeGrant g)"
  using assms by (auto simp: issueOutboundGrant_def Let_def dest!: redisOp_Inr)

lemma taken_grant:
  assumes "takeOutboundGrant token c w = (Inr x, w')"
  shows "w' = (advance c w)\<lparr>grants := (grants (advance c w))(token := None)\<rparr>"
    and "x = Option.bind (grants (advance c w) token) parseStoredGrant"
  using assms by (auto simp: takeOutboundGrant_def ret_def elim!: andThen_Inr dest!: redisOp_Inr)

section \<open>What a caller hears\<close>

text \<open>A recording is played only where it fits and its address answered with audio.\<close>

lemma voicemail_document:
  assumes "buildVoicemailTwiml cid url reason c w = (Inr doc, w')"
  shows "doc = VoicemailTwiml cid reason (Spoken (voicemailGreeting reason)) \<or>
    (\<exists>u n. url = Some u \<and> doc = VoicemailTwiml cid reason (Recording u) \<and>
       probeGreetingUrl (headAnswer c n) = Reachable \<and>
       (\<forall>why. renderedLength c (VoicemailTwiml cid why (Recording u)) \<le> 4000))"
  using assms
  by (auto simp: buildVoicemailTwiml_def renderVoicemailTwiml_def asks_def ret_def consult_def
      chooseVoicemailGreeting_def fitsInlineForEveryReason_def list_all_iff set_VOICEMAIL_REASONS
      INLINE_TWIML_MAX_LENGTH_def truthy_iff throw_def
      elim!: andThen_Inr split: if_splits)

end
