(* ===== verification/Calm.thy ===== *)
theory Calm
  imports Quiet_Handlers
begin

text \<open>
  When things go well: nobody else acts, Redis delivers every answer and Twilio is configured
  (\<open>calm\<close>). Then what a handler asks for happens: \<open>settles\<close> says it comes back without an error,
  whatever Twilio answers.
\<close>

definition calm :: "outside \<Rightarrow> bool" where
  "calm c \<longleftrightarrow> alone c \<and> (\<forall>n. redisAnswer c n = Delivered) \<and> voiceConfigured c"

definition settles :: "'a io \<Rightarrow> bool" where
  "settles m \<longleftrightarrow> (\<forall>c w. calm c \<longrightarrow> (\<exists>x w'. m c w = (Inr x, w')))"

named_theorems calm_intro "handlers that come back without an error when things go well"

lemma settlesI: "(\<And>c w. calm c \<Longrightarrow> \<exists>x w'. m c w = (Inr x, w')) \<Longrightarrow> settles m"
  by (simp add: settles_def)

lemma settlesD: "settles m \<Longrightarrow> calm c \<Longrightarrow> \<exists>x w'. m c w = (Inr x, w')"
  by (simp add: settles_def)

lemma settles_ret [calm_intro]: "settles (ret x)"
  by (simp add: settles_def ret_def)

lemma settles_readNow [calm_intro]: "settles readNow"
  by (simp add: settles_def readNow_def)

lemma settles_redisOp [calm_intro]: "settles (redisOp f)"
  by (simp add: settles_def calm_def redisOp_def Let_def split_def)

lemma settles_andThen [calm_intro]:
  assumes "settles m" and "\<And>x. settles (f x)"
  shows "settles (andThen m f)"
proof (rule settlesI)
  fix c w assume c: "calm c"
  obtain x w1 where m: "m c w = (Inr x, w1)" using settlesD [OF assms(1) c] by blast
  show "\<exists>y w'. andThen m f c w = (Inr y, w')"
    using settlesD [OF assms(2) c] by (simp add: andThen_def m)
qed

lemma settles_catching_ret [calm_intro]: "settles (catching m (\<lambda>_. ret x))"
  by (rule settlesI) (auto simp: catching_def ret_def split: prod.split sum.split)

lemma settles_if [calm_intro]: "settles a \<Longrightarrow> settles b \<Longrightarrow> settles (if P then a else b)"
  by simp

lemma settles_option [calm_intro]:
  "settles a \<Longrightarrow> (\<And>x. settles (f x)) \<Longrightarrow> settles (case o' of None \<Rightarrow> a | Some x \<Rightarrow> f x)"
  by (cases o') simp_all

lemma settles_promiseAll:
  "(\<And>x. x \<in> set xs \<Longrightarrow> settles (f x)) \<Longrightarrow> settles (promiseAll (map f xs))"
proof (induction xs)
  case (Cons x xs)
  show ?case
  proof (rule settlesI)
    fix c w assume c: "calm c"
    obtain y w1 where x: "f x c w = (Inr y, w1)"
      using settlesD [OF Cons.prems c] by fastforce
    obtain ys w2 where xs: "promiseAll (map f xs) c w1 = (Inr ys, w2)"
      using settlesD [OF Cons.IH c] Cons.prems by fastforce
    show "\<exists>z w'. promiseAll (map f (x # xs)) c w = (Inr z, w')"
      by (simp add: x xs)
  qed
qed (simp add: settles_ret)

lemma settles_getCallState [calm_intro]: "settles (getCallState cid)"
  unfolding getCallState_def by (rule settles_redisOp)

lemma settles_safeHangup [calm_intro]: "settles (safeHangup leg)"
proof (rule settlesI)
  fix c w assume "calm c"
  then show "\<exists>x w'. safeHangup leg c w = (Inr x, w')"
    using safeHangup_alone [of c leg w] by (auto simp: calm_def)
qed

lemma settles_safeHangups [calm_intro]: "settles (safeHangups legs)"
  unfolding safeHangups_def by (intro calm_intro settles_promiseAll)

lemma settles_hangupConversation [calm_intro]: "settles (hangupConversation cid)"
  unfolding hangupConversation_def by (intro calm_intro)

lemma settles_letGo [calm_intro]: "settles (letGo cid us)"
  unfolding letGo_def by (intro calm_intro)

lemmas attemptUpdate_10 = attemptUpdate.simps(2) [of 9, simplified]

text \<open>A change finds no other write, so its first attempt lands.\<close>

lemma settles_updateCallState [calm_intro]: "settles (updateCallState cid decide)"
proof (rule settlesI)
  fix c and w :: world
  assume c: "calm c"
  let ?w = "w\<lparr>tick := Suc (tick w)\<rparr>"
  have read: "getCallState cid c w = (Inr (callStates w cid), ?w)"
    using c by (simp add: getCallState_def redisOp_def Let_def calm_def advance_alone)
  show "\<exists>x w'. updateCallState cid decide c w = (Inr x, w')"
  proof (cases "callStates w cid")
    case None
    then show ?thesis
      by (simp add: updateCallState_def CALL_STATE_WRITE_ATTEMPTS_def attemptUpdate_10 andThen_def read ret_def)
  next
    case (Some s)
    let ?after = "if chRemove (decide s) then None
      else Some ((chDraft (decide s))\<lparr>version := version s + 1\<rparr>)"
    have "\<exists>v. redisOp (writeCallStateScript cid (version s) ?after) c ?w = (Inr 1, v)"
      using c Some
      by (simp add: redisOp_def Let_def calm_def advance_alone writeCallStateScript_def)
    then show ?thesis
      using Some
      by (auto simp: updateCallState_def CALL_STATE_WRITE_ATTEMPTS_def attemptUpdate_10 andThen_def
          read ret_def Let_def)
  qed
qed

lemma settles_changeCall [calm_intro]: "settles (changeCall cid decide)"
  unfolding changeCall_def by (intro calm_intro)

lemma settles_endCall [calm_intro]: "settles (endCall cid who)"
  unfolding endCall_def by (intro calm_intro)

end
