(* ===== verification/Decision_Facts.thy ===== *)
theory Decision_Facts
  imports Call_Decisions Availability
begin

text \<open>
  Facts about single decisions, for the properties of the program: who can come to hold an answered
  call, what a second report or a second settlement finds, and that announcements may finish out of
  order.
\<close>

section \<open>Who holds the call\<close>

lemma agent_kept:
  "activeAgentUserId (chDraft (decideConferenceReference sid s)) = activeAgentUserId s"
  "activeAgentUserId (chDraft (decideRegisterAgentLegs legs s)) = activeAgentUserId s"
  "activeAgentUserId (chDraft (decideExternalLeg l s)) = activeAgentUserId s"
  "activeAgentUserId (chDraft (decideEndCall now who s)) = activeAgentUserId s"
  "activeAgentUserId (chDraft (decideRecordHold h s)) = activeAgentUserId s"
  "activeAgentUserId (chDraft (decideFailPendingTransfer target s)) = activeAgentUserId s"
  "activeAgentUserId (chDraft (decideRingTurn i s)) = activeAgentUserId s"
  "activeAgentUserId (chDraft (decideVoicemailInsteadOfRinging s)) = activeAgentUserId s"
  "activeAgentUserId (chDraft (decideRouteCallerToVoicemail s)) = activeAgentUserId s"
  "activeAgentUserId (chDraft (decideCallerJoined l s)) = activeAgentUserId s"
  "activeAgentUserId (chDraft (decideExternalJoined l s)) = activeAgentUserId s"
  by (simp_all add: plain_decisions decideRegisterAgentLegs_def Let_def)

lemma fold_removeLeg_agent [simp]: "activeAgentUserId (fold removeLeg ls s) = activeAgentUserId s"
  by (induction ls arbitrary: s) simp_all

lemma agent_kept_mark:
  "activeAgentUserId (chDraft (decideMarkTransfer leg req target s)) = activeAgentUserId s"
  by (simp add: decideMarkTransfer_def Let_def split: option.split)

lemma agent_kept_end: "activeAgentUserId (chDraft (decideLegEnded p l st s)) = activeAgentUserId s"
  by (simp add: decideLegEnded_def Let_def split: participant_type.split)

lemma outcome_draft: "outcome ch = Some t \<Longrightarrow> t = chDraft ch"
  by (auto simp: outcome_def split: if_splits)

text \<open>On an answered call only a join replaces the agent, and only the transfer's target can.\<close>

lemma agent_replaced:
  assumes "call_write s (Some t)" and "activeAgentUserId t \<noteq> activeAgentUserId s"
  obtains u l where "t = chDraft (decideAgentJoined u l s)"
  using assms
  by (cases rule: call_write.cases)
    (auto dest!: outcome_draft [OF sym] simp: agent_kept agent_kept_mark agent_kept_end decideFinalize_def)

lemma join_of_answered:
  assumes "answered s" and "activeAgentUserId s = Some a"
    and "activeAgentUserId (chDraft (decideAgentJoined u l s)) \<noteq> Some a"
  shows "pendingTransferToUserId s = Some u \<and>
    activeAgentUserId (chDraft (decideAgentJoined u l s)) = Some u"
  using assms by (auto simp: decideAgentJoined_def clearTransfer_def Let_def split: if_splits)

section \<open>Second reports and second settlements\<close>

lemma legUuidsOf_queue [simp]: "legUuidsOf (s\<lparr>currentQueueIndex := i\<rparr>) = legUuidsOf s"
  by (simp add: legUuidsOf_def)

lemma leg_gone_after_end:
  assumes "chResult (decideLegEnded p l st s) \<noteq> Ignored" and "\<not> chRemove (decideLegEnded p l st s)"
  shows "set (legUuidsOf (chDraft (decideLegEnded p l st s))) = set (legUuidsOf s) - {l}"
  using assms
  by (auto simp: decideLegEnded_def Let_def set_legUuidsOf_removeLeg
      split: if_splits participant_type.splits)

lemma untracked_leg_ignored:
  "l \<notin> set (legUuidsOf s) \<Longrightarrow> decideLegEnded p l st s = keep Ignored s"
  by (simp add: decideLegEnded_def)

lemma no_transfer_pending:
  "pendingTransferToUserId s = None \<Longrightarrow> decideFailPendingTransfer target s = keep None s"
  by (simp add: decideFailPendingTransfer_def)

lemma pending_after_settlement:
  "chResult (decideFailPendingTransfer target s) \<noteq> None \<Longrightarrow>
     pendingTransferToUserId (chDraft (decideFailPendingTransfer target s)) = None"
  by (auto simp: decideFailPendingTransfer_def clearTransfer_def split: if_splits)

lemma pending_after_handover:
  "chResult (decideAgentJoined u l s) = Joined first losing (Some t) \<Longrightarrow>
     pendingTransferToUserId (chDraft (decideAgentJoined u l s)) = None"
  by (auto simp: decideAgentJoined_def clearTransfer_def Let_def truthy_iff split: if_splits)

section \<open>Announcements out of order\<close>

text \<open>
  Two announcements decided at different revisions leave the same record whichever is stored first,
  but for the instant \<open>availableSince\<close> names.
\<close>

definition sameEligibility :: "user_store \<Rightarrow> user_store \<Rightarrow> bool" where
  "sameEligibility a b \<longleftrightarrow> sinceRevision a = sinceRevision b \<and>
     (availableSince a = None \<longleftrightarrow> availableSince b = None)"

lemma eligibility_any_order:
  assumes "r1 \<noteq> r2"
  shows "sameEligibility
     (recordEligibilityScript r2 e2 t2 (recordEligibilityScript r1 e1 t1 u))
     (recordEligibilityScript r1 e1 t3 (recordEligibilityScript r2 e2 t4 u))"
  using assms
  by (cases "sinceRevision u")
    (auto simp: recordEligibilityScript_def sameEligibility_def Let_def)

end
