(* ===== verification/Call_Machine.thy ===== *)
theory Call_Machine
  imports Guarantees Decision_Facts
begin

text \<open>
  The abstract machine of one call. A step is one decision of the code, stored with the next version;
  \<open>evolves\<close> is any number of them. Every handler, under interference that does the same, only moves a
  stored call along this machine or removes it (\<open>follows\<close>), so what holds along the machine's runs
  holds of the program: here, who can come to hold an answered call.
\<close>

section \<open>The machine\<close>

inductive call_step :: "call_state \<Rightarrow> call_state \<Rightarrow> bool" where
  decided: "call_write s (Some d) \<Longrightarrow> call_step s (d\<lparr>version := Suc (version s)\<rparr>)"

inductive_cases call_stepE: "call_step s t"

inductive evolves :: "call_state \<Rightarrow> call_state \<Rightarrow> bool" where
  stays: "evolves s s"
| moves: "evolves s t \<Longrightarrow> call_step t u \<Longrightarrow> evolves s u"

definition follows :: "world \<Rightarrow> world \<Rightarrow> bool" where
  "follows w w' \<longleftrightarrow> (\<forall>cid. case callStates w' cid of
      None \<Rightarrow> True
    | Some t \<Rightarrow> (case callStates w cid of None \<Rightarrow> False | Some s \<Rightarrow> evolves s t))"

lemma evolves_trans: "evolves t u \<Longrightarrow> evolves s t \<Longrightarrow> evolves s u"
  by (induction rule: evolves.induct) (auto intro: evolves.intros)

lemma call_step_version: "call_step s t \<Longrightarrow> version t = Suc (version s)"
  by (auto elim: call_stepE)

lemma followsD:
  "follows w w' \<Longrightarrow> callStates w' cid = Some t \<Longrightarrow> \<exists>s. callStates w cid = Some s \<and> evolves s t"
  unfolding follows_def by (drule spec [of _ cid]) (simp split: option.splits)

lemma followsI:
  "(\<And>cid t. callStates w' cid = Some t \<Longrightarrow> \<exists>s. callStates w cid = Some s \<and> evolves s t) \<Longrightarrow>
     follows w w'"
  by (fastforce simp: follows_def split: option.split)

lemma follows_same: "callStates w' = callStates w \<Longrightarrow> follows w w'"
  by (rule followsI) (auto intro: stays)

lemma follows_trans: "follows u v \<Longrightarrow> follows v w \<Longrightarrow> follows u w"
  by (rule followsI) (meson evolves_trans followsD)

lemma follows_written:
  assumes "follows w0 w" and "callStates w0 cid = Some a" and "callStates w cid = Some b"
    and "version b = version a" and "call_write a (Some t)"
  shows "follows w0 (written cid b (t\<lparr>version := Suc (version a)\<rparr>) w)"
proof (rule followsI)
  fix k u
  assume u: "callStates (written cid b (t\<lparr>version := Suc (version a)\<rparr>) w) k = Some u"
  show "\<exists>s. callStates w0 k = Some s \<and> evolves s u"
  proof (cases "k = cid")
    case True
    then have "u = t\<lparr>version := Suc (version a)\<rparr>" using u by (simp add: written_def)
    then have "evolves a u" using assms(5) by (auto intro: evolves.intros call_step.intros)
    then show ?thesis using assms(2) True by blast
  next
    case False
    then show ?thesis using u followsD [OF assms(1)] by (simp add: written_def)
  qed
qed

lemma follows_removed: "follows w (removed cid cur w)"
  by (rule followsI) (auto simp: removed_def intro: stays split: if_splits)

interpretation machine: call_contract follows "\<lambda>_. follows"
proof (unfold_locales, goal_cases)
  case (2 u v w)
  then show ?case by (rule follows_trans)
next
  case (8 w0 w cid before cur t)
  then show ?case by (rule follows_written)
next
  case (9 w cid cur)
  show ?case by (rule follows_removed)
next
  case (11 u v cid w)
  then show ?case by (rule follows_trans)
next
  case (12 cid u v w)
  then show ?case by (rule follows_trans)
next
  case (13 w0 w1 cid s w n st a b d)
  from 13(3) show ?case by (rule follows_trans) (simp add: follows_same)
qed (auto intro: follows_same)

section \<open>Who comes to hold an answered call\<close>

lemma call_step_agent:
  assumes "call_step s t" and "answered s" and "activeAgentUserId s = Some a"
    and "activeAgentUserId t \<noteq> Some a"
  shows "pendingTransferToUserId s = activeAgentUserId t \<and> activeAgentUserId t \<noteq> None"
proof -
  obtain d where d: "call_write s (Some d)" "t = d\<lparr>version := Suc (version s)\<rparr>"
    using assms(1) by (auto elim: call_stepE)
  have "activeAgentUserId d \<noteq> activeAgentUserId s" using assms(3,4) d(2) by simp
  then obtain u l where "d = chDraft (decideAgentJoined u l s)"
    using agent_replaced [OF d(1)] by blast
  then show ?thesis
    using join_of_answered [OF assms(2,3), of u l] assms(4) d(2) by simp
qed

lemma call_step_answered: "call_step s t \<Longrightarrow> answered s \<Longrightarrow> answered t"
  by (auto elim!: call_stepE dest!: call_write_advances simp: advances_def)

lemma evolves_answered: "evolves s t \<Longrightarrow> answered s \<Longrightarrow> answered t"
  by (induction rule: evolves.induct) (auto intro: call_step_answered)

text \<open>The first change of hands: a transfer to whoever took over was pending just before.\<close>

lemma evolves_takeover:
  assumes "evolves s t" and "answered s" and "activeAgentUserId s = Some a"
    and "activeAgentUserId t \<noteq> Some a"
  shows "\<exists>m n u. evolves s m \<and> call_step m n \<and> evolves n t \<and> activeAgentUserId m = Some a \<and>
    pendingTransferToUserId m = Some u \<and> activeAgentUserId n = Some u"
  using assms
proof (induction rule: evolves.induct)
  case (moves s t u)
  show ?case
  proof (cases "activeAgentUserId t = Some a")
    case True
    then have "pendingTransferToUserId t = activeAgentUserId u \<and> activeAgentUserId u \<noteq> None"
      using call_step_agent [OF moves.hyps(2)] evolves_answered [OF moves.hyps(1)] moves.prems
      by simp
    then show ?thesis using moves.hyps True stays by fastforce
  next
    case False
    then show ?thesis using moves.IH moves.prems moves.hyps(2) evolves.moves by meson
  qed
qed simp

end
