(* ===== verification/One_Call.thy ===== *)
theory One_Call
  imports Call_Machine
begin

text \<open>
  The guarantees of a single call, whatever becomes of the others: others may be started, changed and
  ended meanwhile, and so may this one, as long as nobody starts it a second time. Starting a call that is
  stored overwrites it, which neither relation allows.
\<close>

section \<open>One call moves forward\<close>

definition forwardOf :: "call_id \<Rightarrow> world \<Rightarrow> world \<Rightarrow> bool" where
  "forwardOf cid w w' \<longleftrightarrow>
     (callStates w cid = None \<longrightarrow> callStates w' cid = None) \<and>
     (\<forall>a b. callStates w cid = Some a \<longrightarrow> callStates w' cid = Some b \<longrightarrow>
        version a \<le> version b \<and> (version a = version b \<longrightarrow> a = b) \<and> advances a b)"

lemma forwardOf_all: "forward w w' \<longleftrightarrow> (\<forall>cid. forwardOf cid w w')"
  by (simp add: forward_def forwardOf_def)

lemma forwardOf_same: "callStates w' cid = callStates w cid \<Longrightarrow> forwardOf cid w w'"
  by (simp add: forwardOf_def)

lemma forwardOf_trans:
  assumes uv: "forwardOf cid u v" and vw: "forwardOf cid v w"
  shows "forwardOf cid u w"
proof (cases "callStates v cid")
  case None
  then show ?thesis using vw by (simp add: forwardOf_def)
next
  case (Some m)
  have "version a \<le> version b \<and> (version a = version b \<longrightarrow> a = b) \<and> advances a b"
    if a: "callStates u cid = Some a" and b: "callStates w cid = Some b" for a b
  proof -
    have 1: "version a \<le> version m" "version a = version m \<Longrightarrow> a = m" "advances a m"
      using uv a Some by (simp_all add: forwardOf_def)
    have 2: "version m \<le> version b" "version m = version b \<Longrightarrow> m = b" "advances m b"
      using vw b Some by (simp_all add: forwardOf_def)
    from 1 2 advances_trans [OF 1(3) 2(3)] show ?thesis by (metis le_antisym order_trans)
  qed
  moreover have "callStates u cid \<noteq> None" using uv Some by (auto simp: forwardOf_def)
  ultimately show ?thesis by (auto simp: forwardOf_def)
qed

interpretation one_forward: call_contract "forwardOf cid" "\<lambda>_. forwardOf cid" for cid
proof (unfold_locales, goal_cases)
  case (8 w0 w c before cur t)
  show ?case
  proof (cases "c = cid")
    case True
    then show ?thesis
      using 8 call_write_advances [OF 8(5)] by (auto simp: forwardOf_def written_def)
  next
    case False
    then show ?thesis using 8(1) by (simp add: forwardOf_def written_def)
  qed
next
  case (9 w c cur)
  then show ?case by (simp add: forwardOf_def removed_def)
next
  case (13 w0 w1 c s w n st a b d)
  from 13(3) show ?case by (rule forwardOf_trans) (simp add: forwardOf_same)
qed (auto intro: forwardOf_same elim: forwardOf_trans)

section \<open>One call follows its machine\<close>

definition followsOf :: "call_id \<Rightarrow> world \<Rightarrow> world \<Rightarrow> bool" where
  "followsOf cid w w' \<longleftrightarrow>
     (case callStates w' cid of
        None \<Rightarrow> True
      | Some t \<Rightarrow> (case callStates w cid of None \<Rightarrow> False | Some s \<Rightarrow> evolves s t))"

lemma followsOf_all: "follows w w' \<longleftrightarrow> (\<forall>cid. followsOf cid w w')"
  by (simp add: follows_def followsOf_def)

lemma followsOf_same: "callStates w' cid = callStates w cid \<Longrightarrow> followsOf cid w w'"
  by (auto simp: followsOf_def intro: stays split: option.split)

lemma followsOf_trans: "followsOf cid u v \<Longrightarrow> followsOf cid v w \<Longrightarrow> followsOf cid u w"
  by (auto simp: followsOf_def intro: evolves_trans split: option.splits)

interpretation one_machine: call_contract "followsOf cid" "\<lambda>_. followsOf cid" for cid
proof (unfold_locales, goal_cases)
  case (2 u v w)
  then show ?case by (rule followsOf_trans)
next
  case (8 w0 w c before cur t)
  show ?case
  proof (cases "c = cid")
    case True
    then show ?thesis
      using 8 by (auto simp: followsOf_def written_def intro: evolves.intros call_step.intros)
  next
    case False
    then show ?thesis using 8(1) by (simp add: followsOf_def written_def)
  qed
next
  case (9 w c cur)
  show ?case by (cases "c = cid") (auto simp: followsOf_def removed_def intro: stays split: option.split)
next
  case (11 u v c w)
  then show ?case by (rule followsOf_trans)
next
  case (12 c u v w)
  then show ?case by (rule followsOf_trans)
next
  case (13 w0 w1 c s w n st a b d)
  from 13(3) show ?case by (rule followsOf_trans) (simp add: followsOf_same)
qed (auto intro: followsOf_same)

end
