(* ===== verification/Sole_Claims.thy ===== *)
theory Sole_Claims
  imports Concurrency
begin

text \<open>
  Overlapping offers: a user claimed by at most one call stays so, whatever other offers, softphones and
  calls do between the awaits, as long as they keep to the same. It rests on the check of the revision in
  the claim: what was read as free is claimed only if nothing changed since.
\<close>

section \<open>At most one live claim\<close>

definition sole :: "user_id \<Rightarrow> world \<Rightarrow> bool" where
  "sole user w \<longleftrightarrow> ok_user (users w user) \<and> (\<exists>cid. aliveClaims (redisNow w) (users w user) \<subseteq> {cid})"

text \<open>What an offer keeps, and what it counts on from everybody else.\<close>

definition exclusive :: "user_id \<Rightarrow> world \<Rightarrow> world \<Rightarrow> bool" where
  "exclusive user w w' \<longleftrightarrow> counted w w' \<and> (sole user w \<longrightarrow> sole user w')"

lemma exclusive_counted: "exclusive user w w' \<Longrightarrow> counted w w'"
  by (simp add: exclusive_def)

lemma exclusive_sole: "exclusive user w w' \<Longrightarrow> sole user w \<Longrightarrow> sole user w'"
  by (simp add: exclusive_def)

lemma rely_counted: "rely (exclusive user) c \<Longrightarrow> rely counted c"
  by (simp add: rely_def exclusive_def)

lemma exclusive_same:
  "users w' = users w \<Longrightarrow> redisNow w' = redisNow w \<Longrightarrow> exclusive user w w'"
  by (simp add: exclusive_def counted_same sole_def)

interpretation sole_claims: world_contract "exclusive user" for user
proof
  show "exclusive user w w" for w by (rule exclusive_same) simp_all
  show "exclusive user u w" if "exclusive user u v" "exclusive user v w" for u v w
    using that counted_trans by (auto simp: exclusive_def)
  show "exclusive user w (w\<lparr>tick := n\<rparr>)" for w n by (rule exclusive_same) simp_all
qed

lemma redisOp_exclusive:
  assumes "\<And>w. users (snd (f w)) = users w" and "\<And>w. redisNow (snd (f w)) = redisNow w"
  shows "obeys (exclusive user) (redisOp f)"
  by (rule sole_claims.redisOp_resp) (simp add: exclusive_same assms)

lemma reads_exclusive:
  "obeys (exclusive user) (readMany us)" "obeys (exclusive user) (readOne u)"
  "obeys (exclusive user) (socketIdsOf us)" "obeys (exclusive user) (addCallParticipants cid us)"
  by (auto simp: readMany_def readOne_def socketIdsOf_def addCallParticipants_def
      intro!: redisOp_exclusive sole_claims.ret_resp sole_claims.throw_resp sole_claims.andThen_resp split: list.split)

section \<open>A claim\<close>

lemma claim_keeps_sole:
  assumes read: "counted v w" "sole user v" "\<not> doNotDisturb (users v u)"
    "aliveClaims (redisNow v) (users v u) \<subseteq> {cid}"
    and sole: "sole user w"
  shows "sole user (snd (onUser u (claimScript (Some (revision (users v u))) cid (redisNow w)) w))"
proof (cases "u = user")
  case False
  then show ?thesis using sole by (simp add: sole_def onUser_def split_def)
next
  case True
  let ?script = "claimScript (Some (revision (users v user))) cid (redisNow w) (users w user)"
  have ok: "ok_user (users w user)" using sole by (simp add: sole_def)
  show ?thesis
  proof (cases "fst ?script")
    case None
    then have "snd ?script = users w user"
      by (simp add: claimScript_def Let_def split: if_splits)
    then show ?thesis using sole True by (simp add: sole_def onUser_def split_def)
  next
    case (Some p)
    then have "revision (users w user) = revision (users v user)"
      using claimScript_revision [of "revision (users v user)" cid "redisNow w" "users w user" "fst p" "snd p" "snd ?script"]
      by (simp add: prod_eq_iff)
    then have "aliveClaims (redisNow w) (users w user) \<subseteq> {cid}"
      using counted_same_revision(3) [OF read(1), of user] read(2,4) True by (auto simp: sole_def)
    moreover have "aliveClaims (redisNow w) (snd ?script) = insert cid (aliveClaims (redisNow w) (users w user) - {cid})"
      using Some by (intro aliveClaims_claim_now ok) simp
    ultimately have "aliveClaims (redisNow w) (snd ?script) \<subseteq> {cid}" by blast
    then show ?thesis
      using ok_claim [OF ok] True by (auto simp: sole_def onUser_def split_def)
  qed
qed

lemma snd_andThen: "snd (andThen m f c w) = (case m c w of (Inl e, w1) \<Rightarrow> w1 | (Inr x, w1) \<Rightarrow> snd (f x c w1))"
  by (auto simp: andThen_def split: prod.split sum.split)

lemma attemptClaim_sole:
  assumes rely: "rely (exclusive user) c"
  shows "counted v w \<Longrightarrow> sole user v \<Longrightarrow> stored = readAt v u \<Longrightarrow> sole user w \<Longrightarrow>
    sole user (snd (attemptClaim n stored sockets cid c w))"
proof (induction n arbitrary: v w stored sockets)
  case 0
  then show ?case by (simp add: ret_def)
next
  case (Suc n)
  show ?case
  proof (cases "decideAvailability (length sockets) (saDoNotDisturb stored) (saCalls stored) (Some cid)")
    case (Unavailable reason)
    then show ?thesis using Suc.prems(4) by (simp add: ret_def)
  next
    case Available
    then have free: "\<not> doNotDisturb (users v u)" "aliveClaims (redisNow v) (users v u) \<subseteq> {cid}"
      using readAt_simps(4) [of v u] by (auto simp: decideAvailability_Available Suc.prems(3))
    let ?w = "advance c w" and ?claim = "claimUser u cid (Some (revision (users v u)))"
    have w: "exclusive user w ?w" by (rule sole_claims.advance_R [OF rely])
    have vw: "counted v ?w" using counted_trans [OF Suc.prems(1) exclusive_counted [OF w]] .
    have sole: "sole user ?w" using w Suc.prems(4) by (simp add: exclusive_def)
    have after: "sole user (snd (?claim c w))"
      using sole claim_keeps_sole [OF vw Suc.prems(2) free sole]
      by (auto simp: claimUser_def redisOp_def Let_def split: delivery.split prod.splits)
    have claimed: "counted v (snd (?claim c w))"
      using user_revisions.obeysD [OF user_revisions.claimUser_resp rely_counted [OF rely]] Suc.prems(1) counted_trans by blast
    obtain r w1 where run: "?claim c w = (r, w1)" by fastforce
    have w1: "sole user w1" "counted v w1" using after claimed by (simp_all add: run)
    let ?again = "andThen (readOne u) (\<lambda>again. andThen (socketIdsOf [u]) (\<lambda>now.
        attemptClaim n again (socketsIn now u) cid))"
    have again: "sole user (snd (?again c w1))"
    proof -
      obtain q w2 where q: "readOne u c w1 = (q, w2)" by fastforce
      have w2: "exclusive user w1 w2"
        using sole_claims.obeysD [OF reads_exclusive(2) [where u = u] rely, of w1] by (simp add: q)
      obtain p w3 where p: "socketIdsOf [u] c w2 = (p, w3)" by fastforce
      have w3: "exclusive user w2 w3"
        using sole_claims.obeysD [OF reads_exclusive(3) [where us = "[u]"] rely, of w2] by (simp add: p)
      have soles: "sole user w2" "sole user w3" using w1(1) w2 w3 by (simp_all add: exclusive_def)
      have "s = readAt w2 u" if "q = Inr s" for s
        using readOne_Inr [OF rely_counted [OF rely]] q that by blast
      then show ?thesis
        using Suc.IH [OF exclusive_counted [OF w3] soles(1) _ soles(2)] soles
        by (auto simp: snd_andThen q p split: sum.split)
    qed
    have body: "attemptClaim (Suc n) stored sockets cid = andThen (?claim) (\<lambda>claim.
        case claim of Some (_, added) \<Rightarrow> ret (Claimed sockets added)
        | None \<Rightarrow> if n = 0 then ret (NotClaimed IsBusy) else ?again)"
      unfolding attemptClaim.simps Available availability_state.case by (simp add: Suc.prems(3))
    show ?thesis
      unfolding body using w1(1) again
      by (auto simp: snd_andThen [of ?claim] run ret_def split: sum.split option.split prod.split)
  qed
qed

section \<open>An offer\<close>

abbreviation offerPart :: "online \<Rightarrow> call_id \<Rightarrow> stored_availability \<Rightarrow> (user_id \<times> claim_outcome) io" where
  "offerPart sockets cid s \<equiv> andThen (claimIfAvailable s (socketsIn sockets (saUserId s)) cid)
      (\<lambda>verdict. ret (saUserId s, verdict))"

lemma offerParts_sole:
  assumes rely: "rely (exclusive user) c" and v: "sole user v"
  shows "counted v w \<Longrightarrow> sole user w \<Longrightarrow>
    sole user (snd (promiseAll (map (offerPart sockets cid) (map (readAt v) us)) c w))"
proof (induction us arbitrary: w)
  case (Cons u us)
  let ?part = "offerPart sockets cid (readAt v u)"
  obtain r w1 where run: "?part c w = (r, w1)" by fastforce
  have part: "snd (?part c w) = snd (claimIfAvailable (readAt v u) (socketsIn sockets u) cid c w)"
    by (auto simp: snd_andThen ret_def split: prod.split sum.split)
  have saUserId: "saUserId (readAt v u) = u" by simp
  have "sole user w1"
    using attemptClaim_sole [OF rely Cons.prems(1) v refl Cons.prems(2), of CLAIM_ATTEMPTS u "socketsIn sockets u" cid]
    unfolding claimIfAvailable_def [symmetric] part [symmetric] run by simp
  moreover have "counted v w1"
    using user_revisions.obeysD [OF user_revisions.claimIfAvailable_resp rely_counted [OF rely]] part
      counted_trans [OF Cons.prems(1)] by (metis run snd_conv)
  ultimately show ?case
    using Cons.IH [of w1] run by (auto split: prod.split)
qed (simp add: ret_def)

lemma finish_exclusive:
  "obeys (exclusive user) (andThen (if ids \<noteq> []
      then andThen (addCallParticipants cid us) (\<lambda>_. emit ids e) else ret ())
    (\<lambda>_. andThen (if claimed \<noteq> [] then inBackground j else ret ()) (\<lambda>_. ret x)))"
proof -
  have "obeys (exclusive user) (emit ids e)" "obeys (exclusive user) (inBackground j)"
    by (auto intro!: sole_claims.obeysI exclusive_same simp: emit_def inBackground_def)
  then show ?thesis
    by (intro sole_claims.andThen_resp sole_claims.if_resp sole_claims.ret_resp reads_exclusive)
qed

lemma offerCall_sole:
  assumes rely: "rely (exclusive user) c" and sole: "sole user w"
  shows "sole user (snd (offerCall us call c w))"
proof -
  let ?cid = "icConversationUuid call"
  obtain r1 w1 where read: "readMany (uniq us) c w = (r1, w1)" by fastforce
  obtain r2 w2 where sock: "socketIdsOf (uniq us) c w1 = (r2, w2)" by fastforce
  have w1: "exclusive user w w1"
    using sole_claims.obeysD [OF reads_exclusive(1) [where us = "uniq us"] rely, of w] by (simp add: read)
  have w2: "exclusive user w1 w2"
    using sole_claims.obeysD [OF reads_exclusive(3) [where us = "uniq us"] rely, of w1] by (simp add: sock)
  have soles: "sole user w1" "sole user w2" using sole w1 w2 by (simp_all add: exclusive_def)
  have offers: "sole user (snd (promiseAll (map (offerPart sockets ?cid) stored) c w2))" if "r1 = Inr stored" for sockets stored
  proof -
    have "stored = map (readAt w1) (uniq us)"
      using readMany_Inr [OF rely_counted [OF rely]] read that by blast
    then show ?thesis
      using offerParts_sole [OF rely soles(1) exclusive_counted [OF w2] soles(2)] by blast
  qed
  define finish where "finish = (\<lambda>(offer :: call_offer, ids, claimed).
        andThen (if ids \<noteq> []
                 then andThen (addCallParticipants ?cid (offered offer)) (\<lambda>_.
                      emit ids (EmitIncomingCall call))
                 else ret ()) (\<lambda>_.
        andThen (if claimed \<noteq> [] then inBackground (AnnounceJob claimed) else ret ()) (\<lambda>_.
        ret offer)))"
  have finishes: "sole user v \<Longrightarrow> sole user (snd (finish x c v))" for v x
  proof -
    obtain o' ids claimed where x: "x = (o', ids, claimed)" by (cases x)
    show "sole user v \<Longrightarrow> sole user (snd (finish x c v))"
      unfolding finish_def x prod.case by (rule exclusive_sole [OF sole_claims.obeysD [OF finish_exclusive rely]])
  qed
  have body: "offerCall us call = andThen (readMany (uniq us)) (\<lambda>stored. andThen (socketIdsOf (uniq us)) (\<lambda>sockets.
      andThen (promiseAll (map (offerPart sockets ?cid) stored)) (\<lambda>verdicts. finish (sortOutcomes verdicts))))"
    by (simp add: offerCall_def Let_def finish_def)
  have last: "sole user (snd (andThen (promiseAll (map (offerPart sockets ?cid) stored)) (\<lambda>verdicts.
      finish (sortOutcomes verdicts)) c w2))" if "r1 = Inr stored" for sockets stored
    using offers [OF that, of sockets] finishes [of _ "sortOutcomes _"]
    by (auto simp: snd_andThen simp del: split_paired_All split: sum.split prod.split)
  show ?thesis
    unfolding body using soles last
    by (auto simp: snd_andThen [of "readMany _"] snd_andThen [of "socketIdsOf _"] read sock split: sum.split)
qed

text \<open>Who an offer reaches was claimed by a claim that was made for this offer.\<close>

lemma offerCall_claims:
  assumes "rely counted c" and "ok_user (users w user)"
    and "offerCall us call c w = (Inr offer, w')" and "user \<in> set (offered offer)"
  shows "user \<in> set us \<and>
    (\<exists>stored sockets v ids added v'. counted w v \<and>
       claimIfAvailable stored sockets (icConversationUuid call) c v = (Inr (Claimed ids added), v') \<and>
       claimedBy (icConversationUuid call) user v' \<and> counted v' w')"
proof -
  let ?cid = "icConversationUuid call"
  let ?part = "\<lambda>sockets s. andThen (claimIfAvailable s (socketsIn sockets (saUserId s)) ?cid)
      (\<lambda>verdict. ret (saUserId s, verdict))"
  define finish where "finish = (\<lambda>(offer :: call_offer, ids, claimed).
        andThen (if ids \<noteq> []
                 then andThen (addCallParticipants ?cid (offered offer)) (\<lambda>_.
                      emit ids (EmitIncomingCall call))
                 else ret ()) (\<lambda>_.
        andThen (if claimed \<noteq> [] then inBackground (AnnounceJob claimed) else ret ()) (\<lambda>_.
        ret offer)))"
  have run: "andThen (readMany (uniq us)) (\<lambda>stored.
      andThen (socketIdsOf (uniq us)) (\<lambda>sockets.
      andThen (promiseAll (map (?part sockets) stored)) (\<lambda>verdicts.
      finish (sortOutcomes verdicts)))) c w = (Inr offer, w')"
    using assms(3) by (simp add: offerCall_def Let_def finish_def)
  from run obtain stored w1 where read: "readMany (uniq us) c w = (Inr stored, w1)"
    and run1: "andThen (socketIdsOf (uniq us)) (\<lambda>sockets.
      andThen (promiseAll (map (?part sockets) stored)) (\<lambda>verdicts.
      finish (sortOutcomes verdicts))) c w1 = (Inr offer, w')"
    by (rule andThen_Inr)
  from run1 obtain sockets w2 where sock: "socketIdsOf (uniq us) c w1 = (Inr sockets, w2)"
    and run2: "andThen (promiseAll (map (?part sockets) stored)) (\<lambda>verdicts.
      finish (sortOutcomes verdicts)) c w2 = (Inr offer, w')"
    by (rule andThen_Inr)
  from run2 obtain verdicts w3 where
    parts: "promiseAll (map (?part sockets) stored) c w2 = (Inr verdicts, w3)"
    and last: "finish (sortOutcomes verdicts) c w3 = (Inr offer, w')"
    by (rule andThen_Inr)
  obtain o' ids claimed where sorted: "sortOutcomes verdicts = (o', ids, claimed)"
    by (cases "sortOutcomes verdicts") auto
  have offer: "offer = o'"
    using last by (auto simp: finish_def sorted ret_def elim!: andThen_Inr)
  have "obeys counted (finish (sortOutcomes verdicts))"
    unfolding finish_def sorted prod.case by (intro resp)
  then have w3: "counted w3 w'"
    using user_revisions.obeysD [OF _ assms(1), of _ w3] last by fastforce
  have w1: "counted w w1" "stored = map (readAt w1) (uniq us)"
    using readMany_Inr [OF assms(1) read] by simp_all
  have w2: "counted w1 w2"
    using user_revisions.obeysD [OF user_revisions.socketIdsOf_resp assms(1), of w1 "uniq us"]
    by (simp add: sock)
  obtain ids' added where "(user, Claimed ids' added) \<in> set verdicts"
    using assms(4) sortOutcomes_offered [of user verdicts] by (auto simp: offer sorted)
  moreover have "obeys counted (?part sockets s)" for s
    by (intro resp)
  ultimately obtain s v v' where s: "s \<in> set stored" "counted w2 v"
      "?part sockets s c v = (Inr (user, Claimed ids' added), v')" "counted v' w3"
    using user_revisions.promiseAll_map_mem [OF assms(1) _ parts] by blast
  then have us: "user \<in> set us" "s = readAt w1 user"
    and claim: "claimIfAvailable s (socketsIn sockets (saUserId s)) ?cid c v
      = (Inr (Claimed ids' added), v')"
    by (auto simp: w1(2) ret_def elim!: andThen_Inr)
  have "ok_user (users w1 user)"
    using w1(1) assms(2) by (auto simp: counted_def)
  then have "claimedBy ?cid user v'"
    using attemptClaim_exclusive [OF assms(1) _ claim [unfolded claimIfAvailable_def], of w1 user]
      w1(1) counted_trans [OF w2 s(2)] user_revisions.R_refl us(2) by blast
  moreover have "counted w v"
    using w1(1) w2 s(2) counted_trans by blast
  ultimately show ?thesis
    using us(1) claim counted_trans [OF s(4) w3] by blast
qed

end
