(* ===== verification/Samples.thy ===== *)
theory Samples
  imports Calm One_Call Sole_Claims
begin

text \<open>Concrete outsides, worlds and calls, on which the properties are instantiated.\<close>

definition emptyWorld :: world where
  "emptyWorld = \<lparr>callStates = (\<lambda>_. None), liveCalls = [], reconcileLock = None,
     legMetas = (\<lambda>_. None), grants = (\<lambda>_. None), users = (\<lambda>_. emptyUser), socketsOf = (\<lambda>_. []),
     callParticipantsOf = (\<lambda>_. []), routingCache = (\<lambda>_. None), routingBreaker = closedBreaker,
     redisNow = 1000, jobs = [], trace = [], tick = 0\<rparr>"

text \<open>Nobody interferes, Redis and Twilio answer, and every API lookup fails.\<close>

definition quietOutside :: outside where
  "quietOutside = \<lparr>interfere = (\<lambda>_ w. w), redisAnswer = (\<lambda>_. Delivered), clockMs = (\<lambda>_. 1000),
     voiceConfigured = True, freshToken = (\<lambda>_. ''t1''), twilioDial = (\<lambda>_. Inr ''CA9''),
     twilioHangUp = (\<lambda>_. None), twilioHold = (\<lambda>_. Inr (Some True)),
     twilioFindConference = (\<lambda>_. Inr (Some ''CF1'')),
     twilioLegStatus = (\<lambda>_. LegAnswered ''in-progress'' None), twilioRedirect = (\<lambda>_. None),
     headAnswer = (\<lambda>_. HeadAnswered True (Some ''audio/mpeg'')), apiAnswer = (\<lambda>_. ApiUnreachable),
     renderedLength = (\<lambda>_. 900), stopping = (\<lambda>_. False), scanPages = (\<lambda>_. []),
     parsedUrl = (\<lambda>s. Some (''https:'', s)), parsedRouting = (\<lambda>_. None),
     intlParts = (\<lambda>_ _. \<lparr>partYear = None, partMonth = None, partDay = None, partHour = None,
       partMinute = None, partWeekday = None\<rparr>)\<rparr>"

lemma alone_quietOutside [simp]: "alone quietOutside"
  by (simp add: alone_def quietOutside_def)

lemma rely_quietOutside: "(\<And>w. R w w) \<Longrightarrow> rely R quietOutside"
  by (simp add: rely_def quietOutside_def)

lemma calm_quietOutside [simp]: "calm quietOutside"
  by (simp add: calm_def) (simp add: quietOutside_def)

text \<open>An inbound call that agent u1 answered, and the same while it is handed to u2.\<close>

definition answeredCall :: call_state where
  "answeredCall = (inboundState ''CA1'' ''+15551230001'' ''+15551230002'' 1000)\<lparr>
     version := 3, agentLegUuid := Some ''CA2'', activeAgentUserId := Some ''u1'',
     agentLegs := [(''CA2'', ''u1'')], answered := True\<rparr>"

definition transferringCall :: call_state where
  "transferringCall = answeredCall\<lparr>agentLegs := [(''CA2'', ''u1''), (''CA3'', ''u2'')],
     pendingAgentLegUuids := [''CA3''], pendingTransferToUserId := Some ''u2'',
     transferInitiatedBy := Some ''u1'', transferOriginLegUuid := Some ''CA2''\<rparr>"

text \<open>An inbound call still ringing u1 and u2.\<close>

definition ringingCall :: call_state where
  "ringingCall = (inboundState ''CA1'' ''+15551230001'' ''+15551230002'' 1000)\<lparr>
     version := 2, agentLegs := [(''CA2'', ''u1''), (''CA3'', ''u2'')],
     pendingAgentLegUuids := [''CA2'', ''CA3'']\<rparr>"

definition worldWith :: "call_state \<Rightarrow> world" where
  "worldWith s = emptyWorld\<lparr>callStates := [conversationUuid s \<mapsto> s]\<rparr>"

lemmas sample_calls = answeredCall_def transferringCall_def ringingCall_def inboundState_def
  worldWith_def emptyWorld_def

definition onlineWorld :: world where
  "onlineWorld = (worldWith ringingCall)\<lparr>socketsOf := (\<lambda>_. [(''s1'', 1000)])\<rparr>"

lemma quiet_redis:
  "redisOp f quietOutside w =
     (case f (w\<lparr>tick := Suc (tick w)\<rparr>) of (x, w') \<Rightarrow> (Inr x, w'))"
  by (simp add: redisOp_def advance_def quietOutside_def)

lemmas attemptClaim_5 = attemptClaim.simps(2) [of 4, simplified]

text \<open>An offer to u1, who is online and free.\<close>

lemma sample_offer:
  "fst (offerCall [''u1''] (incomingCallOf ringingCall) quietOutside onlineWorld)
     = Inr \<lparr>offered = [''u1''], refused = []\<rparr>"
  by (simp add: offerCall_def andThen_def readMany_def quiet_redis socketIdsOf_def onlineUsers_def
      onlineWorld_def emptyUser_def readScript_def claimIfAvailable_def CLAIM_ATTEMPTS_def
      attemptClaim_5 decideAvailability_def socketsIn_def liveSockets_def membersScoredAfter_def
      claimUser_def onUser_def claimScript_def ret_def addCallParticipants_def emit_def
      inBackground_def freshOf_def stale_ms Let_def logged_def incomingCallOf_def sample_calls)

text \<open>Another call, CA7, that takes u1 between our look at them and our claim.\<close>

definition rivalOutside :: outside where
  "rivalOutside = quietOutside\<lparr>interfere := (\<lambda>n w.
     if n = 2 \<and> claims (users w ''u1'') = []
     then snd (onUser ''u1'' (claimScript None ''CA7'' (redisNow w)) w) else w)\<rparr>"

lemma rely_rivalOutside: "rely (exclusive ''u1'') rivalOutside"
  unfolding rely_def
proof (intro allI)
  fix n w
  let ?w = "snd (onUser ''u1'' (claimScript None ''CA7'' (redisNow w)) w)"
  have "exclusive ''u1'' w ?w" if none: "claims (users w ''u1'') = []"
    unfolding exclusive_def
  proof (intro conjI impI)
    show "counted w ?w"
      using user_revisions.R_user [OF user_step.claimed] by (simp add: onUser_def split_def)
    have free: "aliveClaims (redisNow w) (users w ''u1'') = {}"
      by (simp add: aliveClaims_def aliveOf_def freshOf_def none)
    assume "sole ''u1'' w"
    then have ok: "ok_user (users w ''u1'')" by (simp add: sole_def)
    have "fst (claimScript None ''CA7'' (redisNow w) (users w ''u1'')) \<noteq> None"
      by (simp add: claimScript_def Let_def)
    then show "sole ''u1'' ?w"
      using aliveClaims_claim_now [OF ok, of None "''CA7''" "redisNow w"] ok_claim [OF ok] free
      by (simp add: sole_def onUser_def split_def)
  qed
  moreover have "exclusive ''u1'' w w" by (simp add: exclusive_same)
  ultimately show "exclusive ''u1'' w (interfere rivalOutside n w)"
    by (simp add: rivalOutside_def)
qed

lemma rival_redis:
  "tick w \<noteq> 2 \<Longrightarrow> redisOp f rivalOutside w = (case f (w\<lparr>tick := Suc (tick w)\<rparr>) of (x, w') \<Rightarrow> (Inr x, w'))"
  "tick w = 2 \<Longrightarrow> claims (users w ''u1'') = [] \<Longrightarrow> redisOp f rivalOutside w =
     (case f ((snd (onUser ''u1'' (claimScript None ''CA7'' (redisNow w)) w))\<lparr>tick := 3\<rparr>) of (x, w') \<Rightarrow> (Inr x, w'))"
  by (simp_all add: redisOp_def advance_def rivalOutside_def) (simp_all add: quietOutside_def)

lemmas attemptClaim_4 = attemptClaim.simps(2) [of 3, simplified]

lemma rival_offer:
  "fst (offerCall [''u1''] (incomingCallOf ringingCall) rivalOutside onlineWorld)
     = Inr \<lparr>offered = [], refused = [(''u1'', IsBusy)]\<rparr>"
  by (simp add: offerCall_def andThen_def readMany_def readOne_def rival_redis socketIdsOf_def onlineUsers_def
      onlineWorld_def emptyUser_def readScript_def claimIfAvailable_def CLAIM_ATTEMPTS_def
      attemptClaim_5 attemptClaim_4 decideAvailability_def socketsIn_def liveSockets_def membersScoredAfter_def
      claimUser_def onUser_def claimScript_def ret_def addCallParticipants_def emit_def CLAIM_LIFETIME_MS_def
      inBackground_def freshOf_def stale_ms Let_def logged_def incomingCallOf_def sample_calls)

text \<open>Somebody else who starts the call CA8 whenever we look away.\<close>

definition startingOutside :: outside where
  "startingOutside = quietOutside\<lparr>interfere := (\<lambda>_ w. w\<lparr>callStates := (callStates w)(''CA8'' \<mapsto>
     inboundState ''CA8'' ''+15551230003'' ''+15551230002'' 1000)\<rparr>)\<rparr>"

text \<open>Somebody else who takes the token t1 first.\<close>

definition takingOutside :: outside where
  "takingOutside = quietOutside\<lparr>interfere := (\<lambda>_ w. w\<lparr>grants := (grants w)(''t1'' := None)\<rparr>)\<rparr>"

lemma sole_onlineWorld: "sole ''u1'' onlineWorld"
  by (simp add: sole_def onlineWorld_def worldWith_def emptyWorld_def ok_user_def emptyUser_def aliveClaims_def aliveOf_def freshOf_def)

lemma sample_legs:
  "legUuidsOf answeredCall = [''CA1'', ''CA2'']"
  "callStates (worldWith answeredCall) ''CA1'' = Some answeredCall"
  "callStates (worldWith ringingCall) ''CA1'' = Some ringingCall"
  by (simp_all add: legUuidsOf_def sample_calls)

text \<open>Somebody else who writes the call CA1 at every step.\<close>

definition bumped :: "world \<Rightarrow> world" where
  "bumped w = w\<lparr>callStates := (callStates w)(''CA1'' :=
     map_option (\<lambda>s. s\<lparr>version := version s + 1\<rparr>) (callStates w ''CA1''))\<rparr>"

definition busyOutside :: outside where
  "busyOutside = quietOutside\<lparr>interfere := (\<lambda>_. bumped)\<rparr>"

lemma forward_bumped: "forward w (bumped w)"
  by (auto simp: forward_def bumped_def split: if_splits)

lemma rely_busyOutside: "rely forward busyOutside"
  by (simp add: rely_def busyOutside_def forward_bumped)

text \<open>Whoever changes the call meanwhile loses all ten attempts.\<close>

lemma busy_attempts:
  "callStates w ''CA1'' \<noteq> None \<Longrightarrow>
    \<exists>w'. attemptUpdate n ''CA1'' decideFinalize busyOutside w = (Inl (CallStateConflict ''CA1''), w')"
proof (induction n arbitrary: w)
  case (Suc n)
  obtain s where s: "callStates w ''CA1'' = Some s" using Suc.prems by blast
  let ?bump = "\<lambda>w. (bumped w)\<lparr>tick := Suc (tick w)\<rparr>"
  have adv: "advance busyOutside w = ?bump w" for w
    by (simp add: advance_def busyOutside_def)
  have ok: "redisAnswer busyOutside k = Delivered" for k
    by (simp add: busyOutside_def quietOutside_def)
  have read: "getCallState ''CA1'' busyOutside w = (Inr (Some (s\<lparr>version := version s + 1\<rparr>)), ?bump w)"
    using s by (simp add: getCallState_def redisOp_def adv ok bumped_def)
  have lost: "redisOp (writeCallStateScript ''CA1'' (version s + 1) None) busyOutside (?bump w)
      = (Inr 0, ?bump (?bump w))"
    using s by (simp add: redisOp_def adv ok bumped_def writeCallStateScript_def)
  define w3 where "w3 = (if n > 0 then ?bump (?bump (?bump w)) else ?bump (?bump w))"
  have "attemptUpdate (Suc n) ''CA1'' decideFinalize busyOutside w
      = attemptUpdate n ''CA1'' decideFinalize busyOutside w3"
    using read lost
    by (simp add: andThen_def decideFinalize_def forget_def pause_def consult_def ret_def adv w3_def)
  moreover have "callStates w3 ''CA1'' \<noteq> None"
    using s by (simp add: w3_def bumped_def)
  ultimately show ?case using Suc.IH by simp
qed (simp add: throw_def)

text \<open>Somebody else who serves the join of u2, the teammate the call is being transferred to.\<close>

definition handedOver :: call_state where
  "handedOver = (chDraft (decideAgentJoined ''u2'' ''CA3'' transferringCall))\<lparr>version := 4\<rparr>"

definition joiningOutside :: outside where
  "joiningOutside = quietOutside\<lparr>interfere := (\<lambda>_ w.
     if callStates w ''CA1'' = Some transferringCall
     then w\<lparr>callStates := (callStates w)(''CA1'' \<mapsto> handedOver)\<rparr> else w)\<rparr>"

lemma transferringCall_joins: "call_step transferringCall handedOver"
proof -
  have "\<not> chRemove (decideAgentJoined ''u2'' ''CA3'' transferringCall)"
    by (simp add: decideAgentJoined_def Let_def)
  then have w: "call_write transferringCall
      (Some (chDraft (decideAgentJoined ''u2'' ''CA3'' transferringCall)))"
    using call_write.agent_joined [of transferringCall "''u2''" "''CA3''"] by (simp add: outcome_def)
  have "version transferringCall = 3" by (simp add: sample_calls)
  then show ?thesis using call_step.decided [OF w] by (simp add: handedOver_def)
qed

lemma rely_joiningOutside: "rely follows joiningOutside"
  unfolding rely_def
proof (intro allI)
  fix n w
  have "\<exists>s. callStates w cid = Some s \<and> evolves s t"
    if "callStates (interfere joiningOutside n w) cid = Some t" for cid t
    using that transferringCall_joins
    by (auto simp: joiningOutside_def intro: evolves.intros split: if_splits)
  then show "follows w (interfere joiningOutside n w)" by (rule followsI)
qed

lemma rely_joiningOutsideOf: "rely (followsOf cid) joiningOutside"
  using rely_joiningOutside by (simp add: rely_def followsOf_all)

lemma sample_handover:
  "callStates (worldWith transferringCall) ''CA1'' = Some transferringCall"
  "callStates (snd (serve (UnlockRound ''h'') joiningOutside (worldWith transferringCall))) ''CA1''
     = Some handedOver"
  "activeAgentUserId handedOver = Some ''u2''"
  by (simp_all add: releaseReconcileLock_def redisOp_def advance_def joiningOutside_def
      quietOutside_def worldWith_def emptyWorld_def transferringCall_def answeredCall_def
      inboundState_def handedOver_def decideAgentJoined_def clearTransfer_def Let_def)

end
