(* ===== verification/Softphone.thy ===== *)
theory Softphone
  imports Call_Types
begin

text \<open>
  \<open>apps/web/src/lib/telephony/telephony-session.ts\<close>: the softphone's state machine over a Twilio
  Voice device. The session's private fields are a record; what it shows (\<open>TelephonyState\<close>) is one of
  them. Every method runs to its first await in one step and continues from there in another, when
  what it awaited answers, so the runs that wait are part of the state. Calls and devices are objects
  of the SDK and appear by identity; what the SDK says of them when it is asked, and which events it
  fires before a request returns, is the \<open>voice_sdk\<close>, a parameter of every step.
\<close>

section \<open>What is shown\<close>

type_synonym voice_call = nat
type_synonym voice_device = nat

datatype device_status = DeviceOffline | DeviceConnecting | DeviceReady | DeviceError

datatype phone_status =
  CallIdle | CallConnecting | CallRinging | CallConnected | CallDisconnecting | CallDisconnected

datatype shown_end = ShownEnded | ShownTransferred

datatype progress_status = Requesting | RingingTeammate | Cancelling | TeammateAnswered

record transfer_target =
  targetId :: user_id
  targetLabel :: string

record transfer_progress =
  progressTarget :: transfer_target
  progressStatus :: progress_status

record telephony_state =
  deviceStatus :: device_status
  callStatus :: phone_status
  remoteNumber :: "string option"
  isMuted :: bool
  isOnHold :: bool
  isHoldPending :: bool
  transferShown :: "transfer_progress option"
  noticeShown :: "string option"
  isEndingCall :: bool
  endReason :: shown_end
  errorShown :: "string option"

definition INITIAL_TELEPHONY_STATE :: telephony_state where
  "INITIAL_TELEPHONY_STATE =
     \<lparr>deviceStatus = DeviceOffline, callStatus = CallIdle, remoteNumber = None, isMuted = False,
      isOnHold = False, isHoldPending = False, transferShown = None, noticeShown = None,
      isEndingCall = False, endReason = ShownEnded, errorShown = None\<rparr>"

section \<open>Errors\<close>

text \<open>
  What a rejected promise carries, as far as the source looks: whether it is an \<open>Error\<close> and its
  message, a \<open>code\<close> that is a string, a \<open>status\<close> that is a number.
\<close>

record thrown =
  isErrorObject :: bool
  errorText :: string
  codeText :: "string option"
  statusNumber :: "int option"

definition messageOf :: "thrown \<Rightarrow> string \<Rightarrow> string" where
  "messageOf e fallback = (if isErrorObject e \<and> errorText e \<noteq> [] then errorText e else fallback)"

definition refusalCodeOf :: "thrown \<Rightarrow> string option" where
  "refusalCodeOf e = codeText e"

definition wasTurnedDown :: "thrown \<Rightarrow> bool" where
  "wasTurnedDown e \<longleftrightarrow> (case statusNumber e of None \<Rightarrow> False | Some n \<Rightarrow> 400 \<le> n \<and> n < 500)"

text \<open>\<open>CallControlRefusalSchema\<close> of the contracts.\<close>

definition callControlRefusals :: "(string \<times> call_control_refusal) list" where
  "callControlRefusals =
     [(''leg-not-found'', LegNotFound), (''not-on-call'', NotOnCall),
      (''not-connected'', NotConnected), (''transfer-pending'', TransferPending),
      (''no-transfer-pending'', NoTransferPending), (''transfer-to-self'', TransferToSelf),
      (''target-on-call'', TargetOnCall), (''target-busy'', TargetBusy),
      (''target-dnd'', TargetDnd), (''target-offline'', TargetOffline),
      (''call-gone'', CallGone), (''provider-error'', ProviderError)]"

definition transferRefusalIn :: "thrown \<Rightarrow> call_control_refusal option" where
  "transferRefusalIn e =
     (case refusalCodeOf e of None \<Rightarrow> None | Some code \<Rightarrow> map_of callControlRefusals code)"

definition HOLD_ENDING_REFUSALS :: "call_control_refusal list" where
  "HOLD_ENDING_REFUSALS = [ProviderError, NoTransferPending, CallGone]"

definition UNCONFIRMED_TRANSFER_MESSAGE :: string where
  "UNCONFIRMED_TRANSFER_MESSAGE =
     ''The transfer could not be confirmed. Cancel it to take the call back.''"

definition transferRefusalNotice :: "thrown \<Rightarrow> string \<Rightarrow> string" where
  "transferRefusalNotice e name =
     (if refusalCodeOf e = Some ''target-offline'' then name @ '' is not online''
      else if refusalCodeOf e = Some ''target-on-call'' then name @ '' is already on this call''
      else if refusalCodeOf e = Some ''target-busy'' then name @ '' is on another call''
      else if refusalCodeOf e = Some ''target-dnd'' then name @ '' does not want to be disturbed''
      else messageOf e ''The call could not be transferred'')"

fun transferFailureNotice :: "transfer_failure_reason option \<Rightarrow> string \<Rightarrow> string option" where
  "transferFailureNotice (Some TransferDeclined) name = Some (name @ '' declined the call'')"
| "transferFailureNotice (Some TransferNoAnswer) name = Some (name @ '' did not answer'')"
| "transferFailureNotice (Some TransferCancelled) name = None"
| "transferFailureNotice _ name = Some (name @ '' could not be reached'')"

section \<open>The session\<close>

datatype answer_action = AcceptIt | RejectIt

text \<open>A transfer this session asked for and has not seen settled.\<close>

record transfer_attempt =
  attemptId :: nat
  attemptCall :: voice_call
  attemptTarget :: transfer_target
  attemptConversation :: "call_id option"

record settled_outcome =
  outcomeConversation :: call_id
  outcomeTarget :: user_id
  outcomeCompleted :: bool
  outcomeReason :: "transfer_failure_reason option"

text \<open>What the session asks of its dependencies and of the SDK, and each state it reports.\<close>

datatype phone_request =
  AskMicrophone
| AskVoiceToken
| CreateDevice string
| RegisterDevice voice_device
| DestroyDevice voice_device
| UpdateToken voice_device string
| AskGrant string string
| ConnectOn voice_device string
| AskHangup leg_id
| AskHold leg_id bool
| AskTransfer leg_id user_id
| AskTransferCancel leg_id
| AcceptCall voice_call
| RejectCall voice_call
| DisconnectCall voice_call
| MuteCall voice_call bool
| SendDigits voice_call string

datatype phone_effect = Asked phone_request | Reported telephony_state

text \<open>What a method that awaits is waiting for, with the variables it goes on with.\<close>

datatype session_wait =
  AwaitMicrophone
| AwaitVoiceToken
| AwaitRegistration
| AwaitGrant voice_device
| AwaitConnection
| AwaitHangup voice_call
| AwaitHold voice_call bool
| AwaitTransfer voice_call transfer_attempt
| AwaitCancel voice_call transfer_attempt transfer_progress
| AwaitFreshToken voice_device

record session =
  shown :: telephony_state
  phoneDevice :: "voice_device option"
  activeCall :: "voice_call option"
  incomingCall :: "voice_call option"
  pendingAnswer :: "(answer_action \<times> millis) option"
  transferAttempt :: "transfer_attempt option"
  transferAttemptCount :: nat
  handedOverCall :: "voice_call option"
  lastEndedCall :: "voice_call option"
  endedTimer :: "nat option"
  disposed :: bool
  boundCalls :: "voice_call list"
  boundDevices :: "voice_device list"
  timersSet :: nat
  timersRunning :: "nat list"
  waitingRuns :: "session_wait list"
  emitted :: "phone_effect list"

definition newSession :: session where
  "newSession =
     \<lparr>shown = INITIAL_TELEPHONY_STATE, phoneDevice = None, activeCall = None, incomingCall = None,
      pendingAnswer = None, transferAttempt = None, transferAttemptCount = 0,
      handedOverCall = None, lastEndedCall = None, endedTimer = None, disposed = False,
      boundCalls = [], boundDevices = [], timersSet = 0, timersRunning = [], waitingRuns = [],
      emitted = []\<rparr>"

text \<open>
  The SDK. \<open>callParameters\<close> are \<open>CallSID\<close>, \<open>CallSid\<close> and \<open>From\<close> of a call; \<open>firesBefore r\<close> are the
  events it fires to the listeners before the request \<open>r\<close> returns; \<open>createsDevice\<close> is a device or the error
  of its constructor, \<open>tokenUpdateError\<close> the error of \<open>updateToken\<close>.
\<close>

datatype heard =
  CallAccepted voice_call voice_call
| CallRings voice_call
| CallMutes voice_call bool
| CallDisconnects voice_call
| CallCancels voice_call
| CallRejects voice_call
| CallErrs voice_call thrown
| DeviceRegistering voice_device
| DeviceRegistered voice_device
| DeviceUnregistered voice_device
| DeviceErrs voice_device thrown

record voice_sdk =
  callParameters :: "voice_call \<Rightarrow> string option \<times> string option \<times> string option"
  callIsMuted :: "voice_call \<Rightarrow> bool"
  callIsClosed :: "voice_call \<Rightarrow> bool"
  firesBefore :: "phone_request \<Rightarrow> heard list"
  createsDevice :: "string \<Rightarrow> thrown + voice_device"
  tokenUpdateError :: "voice_device \<Rightarrow> string \<Rightarrow> thrown option"

definition ENDED_DISPLAY_MS :: millis where
  "ENDED_DISPLAY_MS = 1000"

definition PENDING_ANSWER_TTL_MS :: millis where
  "PENDING_ANSWER_TTL_MS = 10000"

text \<open>\<open>||\<close> between optional strings: an empty one counts as absent.\<close>

definition getCallSid :: "voice_sdk \<Rightarrow> voice_call option \<Rightarrow> leg_id option" where
  "getCallSid sdk call =
     (case call of
        None \<Rightarrow> None
      | Some c \<Rightarrow>
          (case callParameters sdk c of (upper, lower, _) \<Rightarrow>
             if truthy upper then upper else if truthy lower then lower else None))"

section \<open>The steps\<close>

definition update :: "(telephony_state \<Rightarrow> telephony_state) \<Rightarrow> session \<Rightarrow> session" where
  "update patch s =
     (if disposed s then s
      else s\<lparr>shown := patch (shown s), emitted := Reported (patch (shown s)) # emitted s\<rparr>)"

definition clearEndedTimer :: "session \<Rightarrow> session" where
  "clearEndedTimer s =
     (case endedTimer s of
        None \<Rightarrow> s
      | Some t \<Rightarrow> s\<lparr>timersRunning := removeAll t (timersRunning s), endedTimer := None\<rparr>)"

definition clearCallUiSoon :: "session \<Rightarrow> session" where
  "clearCallUiSoon s =
     s\<lparr>endedTimer := Some (timersSet s), timersRunning := timersRunning s @ [timersSet s],
       timersSet := Suc (timersSet s)\<rparr>"

text \<open>The callback of \<open>clearCallUiSoon\<close>'s timer.\<close>

definition timerFired :: "nat \<Rightarrow> session \<Rightarrow> session" where
  "timerFired t s =
     (if t \<notin> set (timersRunning s) then s
      else let s = s\<lparr>timersRunning := removeAll t (timersRunning s), endedTimer := None,
                     lastEndedCall := None\<rparr>
           in if callStatus (shown s) = CallDisconnected
              then update (\<lambda>v. v\<lparr>callStatus := CallIdle, remoteNumber := None\<rparr>)
                     (s\<lparr>transferAttempt := None\<rparr>)
              else s)"

definition ended :: "session \<Rightarrow> session" where
  "ended s =
     (if callStatus (shown s) \<in> {CallIdle, CallDisconnected} then s
      else
        let wasHandedOver = (activeCall s \<noteq> None \<and> activeCall s = handedOverCall s) in
        clearCallUiSoon
          (update (\<lambda>v. v\<lparr>callStatus := CallDisconnected,
                     endReason := (if wasHandedOver then ShownTransferred else ShownEnded),
                     isMuted := False, isOnHold := False, isHoldPending := False,
                     transferShown := None, noticeShown := None, isEndingCall := False\<rparr>)
             (s\<lparr>activeCall := None, incomingCall := None, handedOverCall := None,
                lastEndedCall := activeCall s\<rparr>)))"

text \<open>The listeners of \<open>bind\<close> and of \<open>start\<close>, one event each.\<close>

definition bind :: "voice_call \<Rightarrow> session \<Rightarrow> session" where
  "bind call s = s\<lparr>boundCalls := call # boundCalls s\<rparr>"

fun hear :: "voice_sdk \<Rightarrow> heard \<Rightarrow> session \<Rightarrow> session" where
  "hear sdk (CallAccepted call accepted) s =
     (if call \<in> set (boundCalls s)
      then update (\<lambda>v. v\<lparr>callStatus := CallConnected, isMuted := callIsMuted sdk accepted,
                         isEndingCall := False, errorShown := None\<rparr>)
             (s\<lparr>activeCall := Some accepted, incomingCall := None\<rparr>)
      else s)"
| "hear sdk (CallRings call) s =
     (if call \<in> set (boundCalls s) then update (\<lambda>v. v\<lparr>callStatus := CallRinging\<rparr>) s else s)"
| "hear sdk (CallMutes call muted) s =
     (if call \<in> set (boundCalls s) then update (\<lambda>v. v\<lparr>isMuted := muted\<rparr>) s else s)"
| "hear sdk (CallDisconnects call) s = (if call \<in> set (boundCalls s) then ended s else s)"
| "hear sdk (CallCancels call) s = (if call \<in> set (boundCalls s) then ended s else s)"
| "hear sdk (CallRejects call) s = (if call \<in> set (boundCalls s) then ended s else s)"
| "hear sdk (CallErrs call e) s =
     (if call \<in> set (boundCalls s)
      then let s = update (\<lambda>v. v\<lparr>errorShown := Some (messageOf e ''The call reported an error'')\<rparr>) s
           in if callIsClosed sdk call then ended s else s
      else s)"
| "hear sdk (DeviceRegistering device) s =
     (if device \<in> set (boundDevices s) then update (\<lambda>v. v\<lparr>deviceStatus := DeviceConnecting\<rparr>) s else s)"
| "hear sdk (DeviceRegistered device) s =
     (if device \<in> set (boundDevices s)
      then update (\<lambda>v. v\<lparr>deviceStatus := DeviceReady, errorShown := None\<rparr>) s else s)"
| "hear sdk (DeviceUnregistered device) s =
     (if device \<in> set (boundDevices s) then update (\<lambda>v. v\<lparr>deviceStatus := DeviceOffline\<rparr>) s else s)"
| "hear sdk (DeviceErrs device e) s =
     (if device \<in> set (boundDevices s)
      then update (\<lambda>v. v\<lparr>deviceStatus := DeviceError,
                         errorShown := Some (messageOf e ''The phone reported an error'')\<rparr>) s
      else s)"

text \<open>A request, and what the SDK fires before it returns.\<close>

definition ask :: "voice_sdk \<Rightarrow> phone_request \<Rightarrow> session \<Rightarrow> session" where
  "ask sdk r s = fold (hear sdk) (firesBefore sdk r) (s\<lparr>emitted := Asked r # emitted s\<rparr>)"

definition await :: "session_wait \<Rightarrow> session \<Rightarrow> session" where
  "await w s = s\<lparr>waitingRuns := waitingRuns s @ [w]\<rparr>"

subsection \<open>The device\<close>

definition start :: "voice_sdk \<Rightarrow> session \<Rightarrow> session" where
  "start sdk s = await AwaitMicrophone (ask sdk AskMicrophone s)"

definition startFailed :: "thrown \<Rightarrow> session \<Rightarrow> session" where
  "startFailed e s =
     (if disposed s then s
      else update (\<lambda>v. v\<lparr>deviceStatus := DeviceError,
                         errorShown := Some (messageOf e ''The phone could not start'')\<rparr>) s)"

definition microphoneGranted :: "voice_sdk \<Rightarrow> session \<Rightarrow> session" where
  "microphoneGranted sdk s =
     (if disposed s then s
      else await AwaitVoiceToken (ask sdk AskVoiceToken
             (update (\<lambda>v. v\<lparr>deviceStatus := DeviceConnecting, errorShown := None\<rparr>) s)))"

definition voiceTokenFetched :: "voice_sdk \<Rightarrow> string \<Rightarrow> session \<Rightarrow> session" where
  "voiceTokenFetched sdk token s =
     (if disposed s then s
      else let s = ask sdk (CreateDevice token) s in
        case createsDevice sdk token of
          Inl e \<Rightarrow> startFailed e s
        | Inr device \<Rightarrow>
            await AwaitRegistration (ask sdk (RegisterDevice device)
              (s\<lparr>phoneDevice := Some device, boundDevices := device # boundDevices s\<rparr>)))"

definition dispose :: "voice_sdk \<Rightarrow> session \<Rightarrow> session" where
  "dispose sdk s =
     (let s = clearEndedTimer (s\<lparr>disposed := True\<rparr>);
          s = (case phoneDevice s of None \<Rightarrow> s | Some d \<Rightarrow> ask sdk (DestroyDevice d) s)
      in s\<lparr>phoneDevice := None, activeCall := None, incomingCall := None,
           transferAttempt := None, handedOverCall := None, lastEndedCall := None\<rparr>)"

text \<open>\<open>refreshToken\<close>, on \<open>tokenWillExpire\<close>.\<close>

definition refreshVoiceToken :: "voice_sdk \<Rightarrow> voice_device \<Rightarrow> session \<Rightarrow> session" where
  "refreshVoiceToken sdk device s =
     (if device \<in> set (boundDevices s) then await (AwaitFreshToken device) (ask sdk AskVoiceToken s)
      else s)"

definition refreshFailed :: "thrown \<Rightarrow> session \<Rightarrow> session" where
  "refreshFailed e =
     update (\<lambda>v. v\<lparr>deviceStatus := DeviceError,
                   errorShown := Some (messageOf e ''The phone could not renew its token'')\<rparr>)"

definition freshTokenFetched :: "voice_sdk \<Rightarrow> voice_device \<Rightarrow> string \<Rightarrow> session \<Rightarrow> session" where
  "freshTokenFetched sdk device token s =
     (let s = ask sdk (UpdateToken device token) s in
      case tokenUpdateError sdk device token of None \<Rightarrow> s | Some e \<Rightarrow> refreshFailed e s)"

subsection \<open>Answering and rejecting\<close>

definition acceptCall :: "voice_sdk \<Rightarrow> voice_call \<Rightarrow> session \<Rightarrow> session" where
  "acceptCall sdk call s =
     ask sdk (AcceptCall call) (update (\<lambda>v. v\<lparr>callStatus := CallConnecting\<rparr>) s)"

definition answerIncoming :: "voice_sdk \<Rightarrow> millis \<Rightarrow> session \<Rightarrow> session" where
  "answerIncoming sdk now s =
     (case incomingCall s of
        None \<Rightarrow> s\<lparr>pendingAnswer := Some (AcceptIt, now)\<rparr>
      | Some call \<Rightarrow> acceptCall sdk call s)"

definition rejectIncoming :: "voice_sdk \<Rightarrow> millis \<Rightarrow> session \<Rightarrow> session" where
  "rejectIncoming sdk now s =
     (case incomingCall s of
        None \<Rightarrow> s\<lparr>pendingAnswer := Some (RejectIt, now)\<rparr>
      | Some call \<Rightarrow> ended (ask sdk (RejectCall call) (s\<lparr>incomingCall := None\<rparr>)))"

definition cancelPendingAnswer :: "session \<Rightarrow> session" where
  "cancelPendingAnswer s =
     (case pendingAnswer s of
        Some (AcceptIt, at) \<Rightarrow> s\<lparr>pendingAnswer := None\<rparr>
      | _ \<Rightarrow> s)"

definition takePendingAnswer :: "millis \<Rightarrow> session \<Rightarrow> answer_action option" where
  "takePendingAnswer now s =
     (case pendingAnswer s of
        None \<Rightarrow> None
      | Some (action, at) \<Rightarrow> if int now - int at > int PENDING_ANSWER_TTL_MS then None else Some action)"

definition ring :: "voice_sdk \<Rightarrow> millis \<Rightarrow> voice_call \<Rightarrow> session \<Rightarrow> session" where
  "ring sdk now call s =
     (let from = snd (snd (callParameters sdk call));
          s = update (\<lambda>v. v\<lparr>callStatus := CallRinging,
                            remoteNumber := (if truthy from then from else None),
                            isMuted := False, isEndingCall := False, errorShown := None\<rparr>)
                ((bind call (clearEndedTimer s))\<lparr>incomingCall := Some call, activeCall := Some call\<rparr>);
          pending = takePendingAnswer now s;
          s = s\<lparr>pendingAnswer := None\<rparr>
      in case pending of
           Some AcceptIt \<Rightarrow> acceptCall sdk call s
         | Some RejectIt \<Rightarrow> rejectIncoming sdk now s
         | None \<Rightarrow> s)"

text \<open>The device's \<open>incoming\<close> event.\<close>

definition incoming :: "voice_sdk \<Rightarrow> millis \<Rightarrow> voice_device \<Rightarrow> voice_call \<Rightarrow> session \<Rightarrow> session" where
  "incoming sdk now device call s =
     (if device \<in> set (boundDevices s) then ring sdk now call s else s)"

subsection \<open>Dialing\<close>

definition makeCall :: "voice_sdk \<Rightarrow> string \<Rightarrow> string \<Rightarrow> session \<Rightarrow> session" where
  "makeCall sdk to line s =
     (case phoneDevice s of
        None \<Rightarrow> update (\<lambda>v. v\<lparr>errorShown := Some ''The phone is not ready''\<rparr>) s
      | Some device \<Rightarrow>
          if deviceStatus (shown s) \<noteq> DeviceReady
          then update (\<lambda>v. v\<lparr>errorShown := Some ''The phone is not ready''\<rparr>) s
          else if line = []
          then update (\<lambda>v. v\<lparr>errorShown := Some ''Choose a number to call from''\<rparr>) s
          else if activeCall s \<noteq> None \<or> callStatus (shown s) = CallConnecting
          then update (\<lambda>v. v\<lparr>errorShown := Some ''A call is already in progress''\<rparr>) s
          else await (AwaitGrant device) (ask sdk (AskGrant to line)
                 (update (\<lambda>v. v\<lparr>callStatus := CallConnecting, remoteNumber := Some to,
                                isMuted := False, isEndingCall := False, errorShown := None\<rparr>)
                   (clearEndedTimer s))))"

definition callFailed :: "thrown \<Rightarrow> session \<Rightarrow> session" where
  "callFailed e s =
     (if disposed s \<or> activeCall s \<noteq> None then s
      else update (\<lambda>v. v\<lparr>callStatus := CallIdle, remoteNumber := None,
                         errorShown := Some (messageOf e ''The call could not be started'')\<rparr>) s)"

definition grantGiven :: "voice_sdk \<Rightarrow> voice_device \<Rightarrow> string \<Rightarrow> session \<Rightarrow> session" where
  "grantGiven sdk device grant s =
     (if disposed s \<or> activeCall s \<noteq> None then s
      else await AwaitConnection (ask sdk (ConnectOn device grant) s))"

definition callPlaced :: "voice_call \<Rightarrow> session \<Rightarrow> session" where
  "callPlaced call s = (if disposed s then s else bind call (s\<lparr>activeCall := Some call\<rparr>))"

subsection \<open>Hanging up\<close>

definition dropLeg :: "voice_sdk \<Rightarrow> voice_call \<Rightarrow> session \<Rightarrow> session" where
  "dropLeg sdk call s =
     (if disposed s then s
      else ask sdk (DisconnectCall call)
             (update (\<lambda>v. v\<lparr>callStatus := CallDisconnecting\<rparr>) s))"

definition hangUp :: "voice_sdk \<Rightarrow> millis \<Rightarrow> session \<Rightarrow> session" where
  "hangUp sdk now s =
     (case activeCall s of
        None \<Rightarrow> s
      | Some call \<Rightarrow>
          if isEndingCall (shown s) then s
          else if incomingCall s = Some call then rejectIncoming sdk now s
          else
            let s = update (\<lambda>v. v\<lparr>isEndingCall := True, errorShown := None\<rparr>) s in
            case getCallSid sdk (Some call) of
              None \<Rightarrow> dropLeg sdk call s
            | Some legSid \<Rightarrow> await (AwaitHangup call) (ask sdk (AskHangup legSid) s))"

definition hangupFailed :: "voice_sdk \<Rightarrow> voice_call \<Rightarrow> thrown \<Rightarrow> session \<Rightarrow> session" where
  "hangupFailed sdk call e s =
     dropLeg sdk call
       (update (\<lambda>v. v\<lparr>errorShown :=
            Some (messageOf e ''The call could not be ended on the server'')\<rparr>) s)"

subsection \<open>Mute and digits\<close>

definition toggleMute :: "voice_sdk \<Rightarrow> session \<Rightarrow> session" where
  "toggleMute sdk s =
     (case activeCall s of
        None \<Rightarrow> s
      | Some call \<Rightarrow>
          if callStatus (shown s) \<noteq> CallConnected then s
          else ask sdk (MuteCall call (\<not> callIsMuted sdk call)) s)"

definition sendDigits :: "voice_sdk \<Rightarrow> string \<Rightarrow> session \<Rightarrow> session" where
  "sendDigits sdk digits s =
     (if callStatus (shown s) \<noteq> CallConnected then s
      else case activeCall s of None \<Rightarrow> s | Some call \<Rightarrow> ask sdk (SendDigits call digits) s)"

subsection \<open>Hold\<close>

definition controllableCall :: "session \<Rightarrow> voice_call option" where
  "controllableCall s =
     (if callStatus (shown s) \<noteq> CallConnected \<or> isHoldPending (shown s) \<or>
         transferShown (shown s) \<noteq> None
      then None else activeCall s)"

definition toggleHold :: "voice_sdk \<Rightarrow> session \<Rightarrow> session" where
  "toggleHold sdk s =
     (case (controllableCall s, getCallSid sdk (controllableCall s)) of
        (Some call, Some legSid) \<Rightarrow>
          let hold = (\<not> isOnHold (shown s)) in
          await (AwaitHold call hold) (ask sdk (AskHold legSid hold)
            (update (\<lambda>v. v\<lparr>isHoldPending := True, noticeShown := None, errorShown := None\<rparr>) s))
      | _ \<Rightarrow> s)"

definition holdAnswered :: "voice_call \<Rightarrow> bool \<Rightarrow> session \<Rightarrow> session" where
  "holdAnswered call held s =
     (if activeCall s \<noteq> Some call then s
      else update (\<lambda>v. v\<lparr>isOnHold := held, isHoldPending := False\<rparr>) s)"

definition holdFailed :: "voice_call \<Rightarrow> bool \<Rightarrow> thrown \<Rightarrow> session \<Rightarrow> session" where
  "holdFailed call hold e s =
     (if activeCall s \<noteq> Some call then s
      else update (\<lambda>v. v\<lparr>isHoldPending := False, errorShown := Some (messageOf e
             (if hold then ''The call could not be put on hold''
              else ''The call could not be taken off hold''))\<rparr>) s)"

subsection \<open>Transfer\<close>

definition transferTo :: "voice_sdk \<Rightarrow> transfer_target \<Rightarrow> session \<Rightarrow> session" where
  "transferTo sdk target s =
     (case (controllableCall s, getCallSid sdk (controllableCall s)) of
        (Some call, Some legSid) \<Rightarrow>
          let attempt = \<lparr>attemptId = Suc (transferAttemptCount s), attemptCall = call,
                         attemptTarget = target, attemptConversation = None\<rparr> in
          await (AwaitTransfer call attempt) (ask sdk (AskTransfer legSid (targetId target))
            (update (\<lambda>v. v\<lparr>transferShown := Some \<lparr>progressTarget = target,
                                                    progressStatus = Requesting\<rparr>,
                           noticeShown := None, errorShown := None\<rparr>)
              (s\<lparr>transferAttemptCount := Suc (transferAttemptCount s),
                 transferAttempt := Some attempt\<rparr>)))
      | _ \<Rightarrow> s)"

text \<open>\<open>this.transferAttempt?.id === attempt.id\<close>.\<close>

definition isCurrent :: "transfer_attempt \<Rightarrow> session \<Rightarrow> bool" where
  "isCurrent attempt s \<longleftrightarrow>
     (case transferAttempt s of None \<Rightarrow> False | Some current \<Rightarrow> attemptId current = attemptId attempt)"

text \<open>\<open>shown && { ...shown, status: 'ringing' }\<close>.\<close>

definition asRinging :: "transfer_progress option \<Rightarrow> transfer_progress option" where
  "asRinging p = map_option (\<lambda>p. p\<lparr>progressStatus := RingingTeammate\<rparr>) p"

definition transferRings ::
    "voice_call \<Rightarrow> transfer_attempt \<Rightarrow> call_id \<Rightarrow> session \<Rightarrow> session" where
  "transferRings call attempt conversation s =
     (case transferAttempt s of
        None \<Rightarrow> s
      | Some current \<Rightarrow>
          if attemptId current \<noteq> attemptId attempt then s
          else
            let s = s\<lparr>transferAttempt := Some (current\<lparr>attemptConversation := Some conversation\<rparr>)\<rparr> in
            if activeCall s \<noteq> Some call then s
            else update (\<lambda>v. v\<lparr>isOnHold := True, transferShown := asRinging (transferShown v)\<rparr>) s)"

definition transferRefused ::
    "voice_call \<Rightarrow> transfer_attempt \<Rightarrow> thrown \<Rightarrow> session \<Rightarrow> session" where
  "transferRefused call attempt e s =
     (if \<not> isCurrent attempt s then s
      else if transferRefusalIn e = None \<and> \<not> wasTurnedDown e
      then if activeCall s \<noteq> Some call then s
           else update (\<lambda>v. v\<lparr>transferShown := asRinging (transferShown v),
                              errorShown := Some UNCONFIRMED_TRANSFER_MESSAGE\<rparr>) s
      else
        let refusal = transferRefusalIn e;
            settledMeanwhile = (refusal = Some NoTransferPending);
            s = (if settledMeanwhile then s else s\<lparr>transferAttempt := None\<rparr>);
            name = targetLabel (attemptTarget attempt)
        in if activeCall s \<noteq> Some call then s
           else update (\<lambda>v. v\<lparr>transferShown := None,
                  noticeShown := (if settledMeanwhile then transferFailureNotice None name
                                  else Some (transferRefusalNotice e name)),
                  isOnHold := (if \<exists>r \<in> set HOLD_ENDING_REFUSALS. refusal = Some r then False
                               else isOnHold v)\<rparr>) s)"

definition cancelShownTransfer :: "voice_sdk \<Rightarrow> session \<Rightarrow> session" where
  "cancelShownTransfer sdk s =
     (case (activeCall s, transferAttempt s, transferShown (shown s)) of
        (Some call, Some attempt, Some progress) \<Rightarrow>
          if attemptCall attempt \<noteq> call \<or> progressStatus progress \<noteq> RingingTeammate then s
          else
            (case getCallSid sdk (Some call) of
               None \<Rightarrow> s
             | Some legSid \<Rightarrow>
                 await (AwaitCancel call attempt progress) (ask sdk (AskTransferCancel legSid)
                   (update (\<lambda>v. v\<lparr>transferShown := Some (progress\<lparr>progressStatus := Cancelling\<rparr>),
                                  errorShown := None\<rparr>) s)))
      | _ \<Rightarrow> s)"

definition transferCancelled :: "voice_call \<Rightarrow> transfer_attempt \<Rightarrow> session \<Rightarrow> session" where
  "transferCancelled call attempt s =
     (if \<not> isCurrent attempt s then s
      else let s = s\<lparr>transferAttempt := None\<rparr> in
           if activeCall s \<noteq> Some call then s
           else update (\<lambda>v. v\<lparr>transferShown := None, isOnHold := False\<rparr>) s)"

definition cancelFailed ::
    "voice_call \<Rightarrow> transfer_attempt \<Rightarrow> transfer_progress \<Rightarrow> thrown \<Rightarrow> session \<Rightarrow> session" where
  "cancelFailed call attempt progress e s =
     (if \<not> isCurrent attempt s \<or> activeCall s \<noteq> Some call then s
      else if refusalCodeOf e = Some ''no-transfer-pending''
      then update (\<lambda>v. v\<lparr>transferShown := None,
             isOnHold := (if attemptConversation attempt \<noteq> None then False else isOnHold v)\<rparr>) s
      else update (\<lambda>v. v\<lparr>transferShown := Some progress,
             errorShown := Some (messageOf e ''The transfer could not be cancelled'')\<rparr>) s)"

definition applyTransferOutcome :: "settled_outcome \<Rightarrow> session \<Rightarrow> session" where
  "applyTransferOutcome outcome s =
     (case transferAttempt s of
        None \<Rightarrow> s
      | Some attempt \<Rightarrow>
          if targetId (attemptTarget attempt) \<noteq> outcomeTarget outcome \<or>
             (attemptConversation attempt \<noteq> None \<and>
              attemptConversation attempt \<noteq> Some (outcomeConversation outcome)) then s
          else
            let s = s\<lparr>transferAttempt := None\<rparr> in
            if outcomeCompleted outcome
            then
              if activeCall s = Some (attemptCall attempt)
              then update (\<lambda>v. v\<lparr>transferShown :=
                       map_option (\<lambda>p. p\<lparr>progressStatus := TeammateAnswered\<rparr>) (transferShown v),
                     errorShown := None\<rparr>) (s\<lparr>handedOverCall := Some (attemptCall attempt)\<rparr>)
              else if lastEndedCall s = Some (attemptCall attempt) \<and>
                      callStatus (shown s) = CallDisconnected
              then clearCallUiSoon (clearEndedTimer
                     (update (\<lambda>v. v\<lparr>endReason := ShownTransferred\<rparr>) s))
              else s
            else if activeCall s \<noteq> Some (attemptCall attempt) then s
            else update (\<lambda>v. v\<lparr>transferShown := None, isOnHold := False,
                   noticeShown := transferFailureNotice (outcomeReason outcome)
                     (targetLabel (attemptTarget attempt)),
                   errorShown := None\<rparr>) s)"

section \<open>The machine\<close>

text \<open>How an awaited promise ends: rejected, or resolved to what its type says.\<close>

datatype reply =
  Rejected thrown
| Resolved
| ResolvedText string
| ResolvedFlag bool
| ResolvedCall voice_call

fun resume :: "voice_sdk \<Rightarrow> session_wait \<Rightarrow> reply \<Rightarrow> session \<Rightarrow> session" where
  "resume sdk AwaitMicrophone r s =
     (case r of Rejected e \<Rightarrow> startFailed e s | Resolved \<Rightarrow> microphoneGranted sdk s | _ \<Rightarrow> s)"
| "resume sdk AwaitVoiceToken r s =
     (case r of Rejected e \<Rightarrow> startFailed e s | ResolvedText t \<Rightarrow> voiceTokenFetched sdk t s | _ \<Rightarrow> s)"
| "resume sdk AwaitRegistration r s = (case r of Rejected e \<Rightarrow> startFailed e s | _ \<Rightarrow> s)"
| "resume sdk (AwaitGrant device) r s =
     (case r of Rejected e \<Rightarrow> callFailed e s | ResolvedText g \<Rightarrow> grantGiven sdk device g s | _ \<Rightarrow> s)"
| "resume sdk AwaitConnection r s =
     (case r of Rejected e \<Rightarrow> callFailed e s | ResolvedCall call \<Rightarrow> callPlaced call s | _ \<Rightarrow> s)"
| "resume sdk (AwaitHangup call) r s =
     (case r of Rejected e \<Rightarrow> hangupFailed sdk call e s | _ \<Rightarrow> dropLeg sdk call s)"
| "resume sdk (AwaitHold call hold) r s =
     (case r of Rejected e \<Rightarrow> holdFailed call hold e s | ResolvedFlag b \<Rightarrow> holdAnswered call b s | _ \<Rightarrow> s)"
| "resume sdk (AwaitTransfer call attempt) r s =
     (case r of Rejected e \<Rightarrow> transferRefused call attempt e s
      | ResolvedText conversation \<Rightarrow> transferRings call attempt conversation s | _ \<Rightarrow> s)"
| "resume sdk (AwaitCancel call attempt progress) r s =
     (case r of Rejected e \<Rightarrow> cancelFailed call attempt progress e s
      | _ \<Rightarrow> transferCancelled call attempt s)"
| "resume sdk (AwaitFreshToken device) r s =
     (case r of Rejected e \<Rightarrow> refreshFailed e s
      | ResolvedText token \<Rightarrow> freshTokenFetched sdk device token s | _ \<Rightarrow> s)"

datatype session_input =
  StartSession
| DisposeSession
| MakeCall string string
| PressHangUp
| AnswerIncoming
| RejectIncoming
| CancelPendingAnswer
| ToggleMute
| PressDigits string
| ToggleHold
| TransferTo transfer_target
| CancelTransfer
| TransferOutcome settled_outcome
| Incoming voice_device voice_call
| TokenWillExpire voice_device
| Hears heard
| Replies nat reply
| TimerGoesOff nat

fun sessionStep :: "voice_sdk \<Rightarrow> millis \<Rightarrow> session_input \<Rightarrow> session \<Rightarrow> session" where
  "sessionStep sdk now StartSession s = start sdk s"
| "sessionStep sdk now DisposeSession s = dispose sdk s"
| "sessionStep sdk now (MakeCall to line) s = makeCall sdk to line s"
| "sessionStep sdk now PressHangUp s = hangUp sdk now s"
| "sessionStep sdk now AnswerIncoming s = answerIncoming sdk now s"
| "sessionStep sdk now RejectIncoming s = rejectIncoming sdk now s"
| "sessionStep sdk now CancelPendingAnswer s = cancelPendingAnswer s"
| "sessionStep sdk now ToggleMute s = toggleMute sdk s"
| "sessionStep sdk now (PressDigits digits) s = sendDigits sdk digits s"
| "sessionStep sdk now ToggleHold s = toggleHold sdk s"
| "sessionStep sdk now (TransferTo target) s = transferTo sdk target s"
| "sessionStep sdk now CancelTransfer s = cancelShownTransfer sdk s"
| "sessionStep sdk now (TransferOutcome outcome) s = applyTransferOutcome outcome s"
| "sessionStep sdk now (Incoming device call) s = incoming sdk now device call s"
| "sessionStep sdk now (TokenWillExpire device) s = refreshVoiceToken sdk device s"
| "sessionStep sdk now (Hears event) s = hear sdk event s"
| "sessionStep sdk now (Replies i r) s =
     (if i < length (waitingRuns s)
      then resume sdk (waitingRuns s ! i) r (s\<lparr>waitingRuns := without i (waitingRuns s)\<rparr>)
      else s)"
| "sessionStep sdk now (TimerGoesOff t) s = timerFired t s"

text \<open>A life of a session: at every step the SDK may say something else and the clock has moved.\<close>

primrec sessionRun :: "(voice_sdk \<times> millis \<times> session_input) list \<Rightarrow> session \<Rightarrow> session" where
  "sessionRun [] s = s"
| "sessionRun (step # steps) s =
     sessionRun steps (sessionStep (fst step) (fst (snd step)) (snd (snd step)) s)"

end
