(* ===== verification/Softphone_Safety.thy ===== *)
theory Softphone_Safety
  imports Softphone
begin

text \<open>
  What holds of a softphone session in every life it can have: whatever is pressed, rings, answers or
  fires, in whatever order. Each invariant is shown of the listeners first, and carried through
  \<open>ask\<close> (a request during which listeners may run) to the steps.
\<close>

named_theorems session_defs "the operations of a softphone session, to be unfolded"

lemmas [session_defs] = start_def startFailed_def microphoneGranted_def voiceTokenFetched_def
  refreshVoiceToken_def refreshFailed_def freshTokenFetched_def acceptCall_def answerIncoming_def
  rejectIncoming_def cancelPendingAnswer_def ring_def incoming_def makeCall_def callFailed_def
  grantGiven_def callPlaced_def dropLeg_def hangUp_def hangupFailed_def toggleMute_def
  sendDigits_def toggleHold_def holdAnswered_def holdFailed_def transferTo_def transferRings_def
  transferRefused_def cancelShownTransfer_def transferCancelled_def cancelFailed_def
  applyTransferOutcome_def timerFired_def dispose_def await_def bind_def clearEndedTimer_def
  clearCallUiSoon_def Let_def

lemmas listener_defs = ended_def clearCallUiSoon_def update_def Let_def

text \<open>What holds of the request's record and survives each listener holds after \<open>ask\<close>.\<close>

lemma ask_keeps:
  assumes "P (s\<lparr>emitted := Asked r # emitted s\<rparr>)" and "\<And>e s. P s \<Longrightarrow> P (hear sdk e s)"
  shows "P (ask sdk r s)"
proof -
  have "P t \<Longrightarrow> P (fold (hear sdk) es t)" for es t
    by (induction es arbitrary: t) (simp_all add: assms(2))
  then show ?thesis unfolding ask_def using assms(1) by blast
qed

lemma sessionRun_keeps:
  assumes "P s" and "\<And>sdk now i s. P s \<Longrightarrow> P (sessionStep sdk now i s)"
  shows "P (sessionRun steps s)"
  using assms(1) by (induction steps arbitrary: s) (simp_all add: assms(2))

section \<open>A law every step keeps\<close>

text \<open>What the shown state says of a call under control: nothing.\<close>

definition bare :: "telephony_state \<Rightarrow> bool" where
  "bare v \<longleftrightarrow> \<not> isOnHold v \<and> \<not> isHoldPending v \<and> transferShown v = None \<and> noticeShown v = None \<and>
     callStatus v \<noteq> CallConnected"

lemma bare_fields [simp]:
  "bare (v\<lparr>deviceStatus := d\<rparr>) = bare v" "bare (v\<lparr>remoteNumber := n\<rparr>) = bare v"
  "bare (v\<lparr>isMuted := b\<rparr>) = bare v" "bare (v\<lparr>isEndingCall := b\<rparr>) = bare v"
  "bare (v\<lparr>endReason := r\<rparr>) = bare v" "bare (v\<lparr>errorShown := e\<rparr>) = bare v"
  "bare v \<Longrightarrow> bare (v\<lparr>isOnHold := False\<rparr>)" "bare v \<Longrightarrow> bare (v\<lparr>isHoldPending := False\<rparr>)"
  "bare v \<Longrightarrow> bare (v\<lparr>transferShown := None\<rparr>)" "bare v \<Longrightarrow> bare (v\<lparr>noticeShown := None\<rparr>)"
  "bare v \<Longrightarrow> st \<noteq> CallConnected \<Longrightarrow> bare (v\<lparr>callStatus := st\<rparr>)"
  by (auto simp: bare_def)

lemma bare_not_connected: "bare v \<Longrightarrow> callStatus v \<noteq> CallConnected"
  by (simp add: bare_def)

fun dials :: "phone_request \<Rightarrow> bool" where
  "dials (AskGrant to line) = True"
| "dials (ConnectOn device grant) = True"
| "dials _ = False"

definition same_core :: "session \<Rightarrow> session \<Rightarrow> bool" where
  "same_core s t \<longleftrightarrow> shown t = shown s \<and> phoneDevice t = phoneDevice s \<and>
     activeCall t = activeCall s \<and> incomingCall t = incomingCall s \<and>
     handedOverCall t = handedOverCall s \<and> disposed t = disposed s \<and>
     waitingRuns t = waitingRuns s \<and> emitted t = emitted s"

locale session_moves =
  fixes P :: "session \<Rightarrow> bool"
  assumes hears: "P s \<Longrightarrow> P (hear sdk e s)"
    and ends: "P s \<Longrightarrow> P (ended s)"
    and asks: "P s \<Longrightarrow> \<not> dials r \<Longrightarrow> P (ask sdk r s)"
    and shows_it: "P s \<Longrightarrow> (activeCall s = None \<Longrightarrow> bare (shown s) \<Longrightarrow> bare (f (shown s))) \<Longrightarrow>
      P (update f s)"
    and core: "P s \<Longrightarrow> same_core s t \<Longrightarrow> P t"
    and takes_call: "P s \<Longrightarrow> P (s\<lparr>activeCall := Some c\<rparr>)"
    and rings: "P s \<Longrightarrow> P (s\<lparr>incomingCall := Some c, activeCall := Some c\<rparr>)"
    and answers: "P s \<Longrightarrow> P (s\<lparr>incomingCall := None\<rparr>)"
    and hands_over: "P s \<Longrightarrow> activeCall s = Some c \<Longrightarrow> P (s\<lparr>handedOverCall := Some c\<rparr>)"
    and gets_device: "P s \<Longrightarrow> \<not> disposed s \<Longrightarrow> P (s\<lparr>phoneDevice := Some d\<rparr>)"
    and awaits: "P s \<Longrightarrow> (\<And>d. w \<noteq> AwaitGrant d) \<Longrightarrow> P (await w s)"
    and asks_grant: "P s \<Longrightarrow> phoneDevice s = Some d \<Longrightarrow> line \<noteq> [] \<Longrightarrow>
      P (await (AwaitGrant d) (ask sdk (AskGrant to line) s))"
    and connects: "P s \<Longrightarrow> \<not> disposed s \<Longrightarrow> i < length (waitingRuns s) \<Longrightarrow>
      waitingRuns s ! i = AwaitGrant d \<Longrightarrow>
      P (ask sdk (ConnectOn d g) (s\<lparr>waitingRuns := without i (waitingRuns s)\<rparr>))"
    and disposes: "P s \<Longrightarrow> P (dispose sdk s)"
begin

lemma fields [simp]:
  "P s \<Longrightarrow> P (s\<lparr>pendingAnswer := pa\<rparr>)" "P s \<Longrightarrow> P (s\<lparr>transferAttempt := ta\<rparr>)"
  "P s \<Longrightarrow> P (s\<lparr>transferAttemptCount := n\<rparr>)" "P s \<Longrightarrow> P (s\<lparr>lastEndedCall := l\<rparr>)"
  "P s \<Longrightarrow> P (s\<lparr>endedTimer := et\<rparr>)" "P s \<Longrightarrow> P (s\<lparr>timersSet := m\<rparr>)"
  "P s \<Longrightarrow> P (s\<lparr>timersRunning := ts\<rparr>)" "P s \<Longrightarrow> P (s\<lparr>boundDevices := bd\<rparr>)"
  "P s \<Longrightarrow> P (bind c s)"
  by (erule core, simp add: same_core_def bind_def)+

lemma timers [simp]: "P s \<Longrightarrow> P (clearEndedTimer s)" "P s \<Longrightarrow> P (clearCallUiSoon s)"
  by (simp_all add: clearEndedTimer_def clearCallUiSoon_def split: option.split)

lemma timerFired_keeps: "P s \<Longrightarrow> P (timerFired t s)"
  by (auto simp: timerFired_def Let_def intro!: shows_it fields)

lemma start_keeps: "P s \<Longrightarrow> P (start sdk s)"
  by (simp add: start_def awaits asks)

lemma startFailed_keeps: "P s \<Longrightarrow> P (startFailed e s)"
  by (simp add: startFailed_def shows_it)

lemma microphone_keeps: "P s \<Longrightarrow> P (microphoneGranted sdk s)"
  by (simp add: microphoneGranted_def awaits asks shows_it)

lemma disposed_ask [simp]: "disposed (ask sdk r s) = disposed s"
  by (rule ask_keeps [where P = "\<lambda>t. disposed t = disposed s"])
    (simp, case_tac e, auto simp: listener_defs)

lemma token_keeps: "P s \<Longrightarrow> P (voiceTokenFetched sdk token s)"
  by (auto simp: voiceTokenFetched_def Let_def asks startFailed_keeps
      intro!: awaits asks fields(8) gets_device split: sum.split)

lemma refresh_keeps: "P s \<Longrightarrow> P (refreshVoiceToken sdk d s)"
  by (simp add: refreshVoiceToken_def awaits asks)

lemma refreshFailed_keeps: "P s \<Longrightarrow> P (refreshFailed e s)"
  by (simp add: refreshFailed_def shows_it)

lemma freshToken_keeps: "P s \<Longrightarrow> P (freshTokenFetched sdk d token s)"
  by (simp add: freshTokenFetched_def Let_def asks refreshFailed_keeps split: option.split)

lemma accept_keeps: "P s \<Longrightarrow> P (acceptCall sdk c s)"
  by (simp add: acceptCall_def asks shows_it)

lemma answer_keeps: "P s \<Longrightarrow> P (answerIncoming sdk now s)"
  by (simp add: answerIncoming_def accept_keeps split: option.split)

lemma reject_keeps: "P s \<Longrightarrow> P (rejectIncoming sdk now s)"
  by (simp add: rejectIncoming_def ends asks answers split: option.split)

lemma cancelPending_keeps: "P s \<Longrightarrow> P (cancelPendingAnswer s)"
  by (simp add: cancelPendingAnswer_def split: option.split prod.split answer_action.split)

lemma ring_keeps: "P s \<Longrightarrow> P (ring sdk now c s)"
  by (auto simp: ring_def Let_def intro!: accept_keeps reject_keeps fields shows_it rings
      split: option.split answer_action.split)

lemma incoming_keeps: "P s \<Longrightarrow> P (incoming sdk now d c s)"
  by (simp add: incoming_def ring_keeps)

lemma phoneDevice_prepared [simp]:
  "phoneDevice (update f s) = phoneDevice s" "phoneDevice (clearEndedTimer s) = phoneDevice s"
  by (simp_all add: update_def clearEndedTimer_def split: option.split)

lemma makeCall_keeps: "P s \<Longrightarrow> P (makeCall sdk to line s)"
  by (simp add: makeCall_def shows_it asks_grant split: option.split)

lemma callFailed_keeps: "P s \<Longrightarrow> P (callFailed e s)"
  by (simp add: callFailed_def shows_it)

lemma callPlaced_keeps: "P s \<Longrightarrow> P (callPlaced c s)"
  by (simp add: callPlaced_def takes_call)

lemma dropLeg_keeps: "P s \<Longrightarrow> P (dropLeg sdk c s)"
  by (simp add: dropLeg_def asks shows_it)

lemma hangUp_keeps: "P s \<Longrightarrow> P (hangUp sdk now s)"
  by (simp add: hangUp_def Let_def reject_keeps dropLeg_keeps shows_it asks awaits split: option.split)

lemma hangupFailed_keeps: "P s \<Longrightarrow> P (hangupFailed sdk c e s)"
  by (simp add: hangupFailed_def dropLeg_keeps shows_it)

lemma mute_keeps: "P s \<Longrightarrow> P (toggleMute sdk s)"
  by (simp add: toggleMute_def asks split: option.split)

lemma digits_keeps: "P s \<Longrightarrow> P (sendDigits sdk ds s)"
  by (simp add: sendDigits_def asks split: option.split)

lemma controllable_active: "controllableCall s = Some c \<Longrightarrow> activeCall s = Some c"
  by (simp add: controllableCall_def split: if_splits)

lemma hold_keeps: "P s \<Longrightarrow> P (toggleHold sdk s)"
  by (auto simp: toggleHold_def Let_def dest: controllable_active intro!: awaits asks shows_it
      split: option.split)

lemma holdAnswered_keeps: "P s \<Longrightarrow> P (holdAnswered c b s)"
  by (auto simp: holdAnswered_def intro!: shows_it)

lemma holdFailed_keeps: "P s \<Longrightarrow> P (holdFailed c b e s)"
  by (auto simp: holdFailed_def intro!: shows_it)

lemma transferTo_keeps: "P s \<Longrightarrow> P (transferTo sdk target s)"
  by (auto simp: transferTo_def Let_def dest: controllable_active
      intro!: awaits asks shows_it fields split: option.split)

lemma transferRings_keeps: "P s \<Longrightarrow> P (transferRings c a conversation s)"
  by (auto simp: transferRings_def Let_def intro!: shows_it fields split: option.split)

lemma transferRefused_keeps: "P s \<Longrightarrow> P (transferRefused c a e s)"
  unfolding transferRefused_def Let_def by (auto intro!: shows_it fields split: if_split_asm)

lemma cancelTransfer_keeps: "P s \<Longrightarrow> P (cancelShownTransfer sdk s)"
  by (auto simp: cancelShownTransfer_def intro!: awaits asks shows_it split: option.split)

lemma transferCancelled_keeps: "P s \<Longrightarrow> P (transferCancelled c a s)"
  by (auto simp: transferCancelled_def Let_def intro!: shows_it fields)

lemma cancelFailed_keeps: "P s \<Longrightarrow> P (cancelFailed c a p e s)"
  by (auto simp: cancelFailed_def intro!: shows_it)

lemma outcome_keeps: "P s \<Longrightarrow> P (applyTransferOutcome out s)"
  unfolding applyTransferOutcome_def Let_def
  by (auto intro!: shows_it fields timers hands_over split: option.split)

end

text \<open>A law that may depend on the hangups under way, and one that does not care which runs wait.\<close>

locale session_law = session_moves +
  assumes drops: "P s \<Longrightarrow> i < length (waitingRuns s) \<Longrightarrow> (\<And>c. waitingRuns s ! i \<noteq> AwaitHangup c) \<Longrightarrow>
      P (s\<lparr>waitingRuns := without i (waitingRuns s)\<rparr>)"
    and lets_go: "P s \<Longrightarrow> i < length (waitingRuns s) \<Longrightarrow> waitingRuns s ! i = AwaitHangup c \<Longrightarrow>
      P (resume sdk (AwaitHangup c) r (s\<lparr>waitingRuns := without i (waitingRuns s)\<rparr>))"
begin

lemma grantGiven_keeps:
  "P s \<Longrightarrow> i < length (waitingRuns s) \<Longrightarrow> waitingRuns s ! i = AwaitGrant d \<Longrightarrow>
     P (grantGiven sdk d g (s\<lparr>waitingRuns := without i (waitingRuns s)\<rparr>))"
  by (simp add: grantGiven_def awaits connects drops)

lemma resume_keeps:
  assumes "P s" and "i < length (waitingRuns s)"
  shows "P (resume sdk (waitingRuns s ! i) r (s\<lparr>waitingRuns := without i (waitingRuns s)\<rparr>))"
  using assms
  by (cases "waitingRuns s ! i"; cases r)
    (auto simp: drops grantGiven_keeps startFailed_keeps microphone_keeps token_keeps
      callFailed_keeps callPlaced_keeps holdAnswered_keeps
      holdFailed_keeps transferRings_keeps transferRefused_keeps transferCancelled_keeps
      cancelFailed_keeps refreshFailed_keeps freshToken_keeps
      simp del: resume.simps(6) intro: lets_go)

theorem step_keeps: "P s \<Longrightarrow> P (sessionStep sdk now inp s)"
  by (cases inp)
    (simp_all add: start_keeps disposes makeCall_keeps hangUp_keeps answer_keeps reject_keeps
      cancelPending_keeps mute_keeps digits_keeps hold_keeps transferTo_keeps cancelTransfer_keeps
      outcome_keeps incoming_keeps refresh_keeps hears resume_keeps timerFired_keeps)

theorem run_keeps: "P s \<Longrightarrow> P (sessionRun steps s)"
  by (rule sessionRun_keeps) (simp_all add: step_keeps)

end

locale session_plain = session_moves +
  assumes forgets: "P s \<Longrightarrow> P (s\<lparr>waitingRuns := without i (waitingRuns s)\<rparr>)"

sublocale session_plain \<subseteq> session_law
  by unfold_locales (simp_all add: forgets dropLeg_keeps hangupFailed_keeps split: reply.split)

section \<open>Nothing is controlled without a call\<close>

definition controls_ok :: "session \<Rightarrow> bool" where
  "controls_ok s \<longleftrightarrow> disposed s \<or> activeCall s \<noteq> None \<or>
     bare (shown s) \<and> incomingCall s = None \<and> handedOverCall s = None"

lemma controls_hear: "controls_ok s \<Longrightarrow> controls_ok (hear sdk e s)"
  by (cases e) (auto simp: controls_ok_def listener_defs bare_def)

lemma controls_ask: "controls_ok s \<Longrightarrow> controls_ok (ask sdk r s)"
  by (rule ask_keeps) (simp_all add: controls_hear, simp add: controls_ok_def)

lemma disposed_asks: "disposed s \<Longrightarrow> disposed (ask sdk r s)"
  by (rule ask_keeps) (simp, case_tac e, auto simp: listener_defs)

lemma disposed_after: "disposed (dispose sdk s)"
  by (auto simp: dispose_def Let_def clearEndedTimer_def intro!: disposed_asks split: option.split)

lemma controls_ended: "controls_ok s \<Longrightarrow> controls_ok (ended s)"
  by (auto simp: controls_ok_def listener_defs bare_def)

lemma controls_await [simp]: "controls_ok (await w s) = controls_ok s"
  by (simp add: controls_ok_def await_def)

lemma controls_waiting [simp]: "controls_ok (s\<lparr>waitingRuns := ws\<rparr>) = controls_ok s"
  by (simp add: controls_ok_def)

interpretation controls: session_plain controls_ok
proof
  show "controls_ok (dispose sdk s)" for sdk s
    by (simp add: controls_ok_def disposed_after)
  show "controls_ok (update f s)"
    if "controls_ok s" and "activeCall s = None \<Longrightarrow> bare (shown s) \<Longrightarrow> bare (f (shown s))" for f s
    using that by (auto simp: controls_ok_def update_def)
  show "controls_ok t" if "controls_ok s" and "same_core s t" for s t
    using that by (simp add: controls_ok_def same_core_def)
qed (simp_all add: controls_hear controls_ended controls_ask, auto simp: controls_ok_def)

text \<open>C30. Whatever happens in whatever order, a session that shows a call held, a hold or transfer in
  flight, a notice or a connected call, or that knows of a ringing or handed-over call, has a current
  call: nothing of an ended call stays behind in the controls.\<close>

theorem controls_belong_to_a_call:
  "let s = sessionRun steps newSession in
     activeCall s = None \<and> \<not> disposed s \<longrightarrow>
       \<not> isOnHold (shown s) \<and> \<not> isHoldPending (shown s) \<and> transferShown (shown s) = None \<and>
       noticeShown (shown s) = None \<and> callStatus (shown s) \<noteq> CallConnected \<and>
       incomingCall s = None \<and> handedOverCall s = None"
  using controls.run_keeps [of newSession steps]
  by (auto simp: Let_def controls_ok_def bare_def newSession_def INITIAL_TELEPHONY_STATE_def)

section \<open>A session that was torn down\<close>

fun reports :: "phone_effect \<Rightarrow> bool" where
  "reports (Reported v) = True"
| "reports (Asked r) = False"

fun dialing :: "phone_effect \<Rightarrow> bool" where
  "dialing (Reported v) = False"
| "dialing (Asked r) = dials r"

definition silent_since :: "session \<Rightarrow> session \<Rightarrow> bool" where
  "silent_since s0 s \<longleftrightarrow> disposed s \<and> phoneDevice s = None \<and> shown s = shown s0 \<and>
     filter reports (emitted s) = filter reports (emitted s0) \<and>
     filter dialing (emitted s) = filter dialing (emitted s0)"

lemma silent_ended: "silent_since s0 s \<Longrightarrow> silent_since s0 (ended s)"
  by (auto simp: silent_since_def listener_defs)

lemma silent_hear: "silent_since s0 s \<Longrightarrow> silent_since s0 (hear sdk e s)"
  by (cases e) (auto simp: silent_since_def listener_defs)

lemma silent_ask: "silent_since s0 s \<Longrightarrow> \<not> dials r \<Longrightarrow> silent_since s0 (ask sdk r s)"
  by (rule ask_keeps) (simp_all add: silent_hear, simp add: silent_since_def)

lemma silent_disposing:
  assumes "disposed t" and "shown t = shown s0"
    and "filter reports (emitted t) = filter reports (emitted s0)"
    and "filter dialing (emitted t) = filter dialing (emitted s0)"
  shows "silent_since s0 (t\<lparr>phoneDevice := None, activeCall := None, incomingCall := None,
    transferAttempt := None, handedOverCall := None, lastEndedCall := None\<rparr>)"
  using assms by (simp add: silent_since_def)

text \<open>Tearing a session down is silent too: the device's last events change nothing any more.\<close>

definition muffled :: "session \<Rightarrow> session \<Rightarrow> bool" where
  "muffled s0 t \<longleftrightarrow> disposed t \<and> shown t = shown s0 \<and>
     filter reports (emitted t) = filter reports (emitted s0) \<and>
     filter dialing (emitted t) = filter dialing (emitted s0)"

lemma muffled_hear: "muffled s0 s \<Longrightarrow> muffled s0 (hear sdk e s)"
  by (cases e) (auto simp: muffled_def listener_defs)

lemma muffled_ask: "muffled s0 s \<Longrightarrow> \<not> dials r \<Longrightarrow> muffled s0 (ask sdk r s)"
  by (rule ask_keeps) (simp_all add: muffled_hear, simp add: muffled_def)

lemma dispose_silent: "silent_since s (dispose sdk s)"
proof -
  have quiet: "muffled s (clearEndedTimer (s\<lparr>disposed := True\<rparr>))"
    by (simp add: muffled_def clearEndedTimer_def split: option.split)
  then have "muffled s (case phoneDevice (clearEndedTimer (s\<lparr>disposed := True\<rparr>)) of
      None \<Rightarrow> clearEndedTimer (s\<lparr>disposed := True\<rparr>)
    | Some d \<Rightarrow> ask sdk (DestroyDevice d) (clearEndedTimer (s\<lparr>disposed := True\<rparr>)))"
    by (simp add: muffled_ask split: option.split)
  then show ?thesis
    unfolding dispose_def Let_def muffled_def by (intro silent_disposing) blast+
qed

lemma silent_trans: "silent_since s0 s \<Longrightarrow> silent_since s t \<Longrightarrow> silent_since s0 t"
  by (simp add: silent_since_def)

interpretation silence: session_plain "silent_since s0" for s0
proof
  show "silent_since s0 (dispose sdk s)" if "silent_since s0 s" for sdk s
    using silent_trans [OF that dispose_silent] .
qed (simp_all add: silent_hear silent_ended silent_ask,
  auto simp: silent_since_def update_def same_core_def await_def)

text \<open>A session that was torn down reports no state and dials no call ever again, whatever answer,
  event or timer still comes in, and whatever is still pressed.\<close>

theorem disposed_session_is_silent:
  "let t = sessionRun steps (dispose sdk s) in
     shown t = shown s \<and> filter reports (emitted t) = filter reports (emitted s) \<and>
     filter dialing (emitted t) = filter dialing (emitted s)"
  using silence.run_keeps [OF dispose_silent [of s sdk], of steps] by (simp add: silent_since_def Let_def)

section \<open>Calls are placed on grants\<close>

fun connecting :: "phone_effect \<Rightarrow> bool" where
  "connecting (Asked (ConnectOn device grant)) = True"
| "connecting _ = False"

fun asking_grant :: "phone_effect \<Rightarrow> bool" where
  "asking_grant (Asked (AskGrant to line)) = True"
| "asking_grant _ = False"

fun without_line :: "phone_effect \<Rightarrow> bool" where
  "without_line (Asked (AskGrant to line)) = (line = [])"
| "without_line _ = False"

fun awaits_grant :: "session_wait \<Rightarrow> bool" where
  "awaits_grant (AwaitGrant device) = True"
| "awaits_grant _ = False"

definition granted :: "session \<Rightarrow> bool" where
  "granted s \<longleftrightarrow>
     length (filter connecting (emitted s)) + length (filter awaits_grant (waitingRuns s)) \<le>
       length (filter asking_grant (emitted s)) \<and>
     filter without_line (emitted s) = []"

definition trace_like :: "session \<Rightarrow> session \<Rightarrow> bool" where
  "trace_like s t \<longleftrightarrow> waitingRuns t = waitingRuns s \<and>
     filter (\<lambda>e. \<not> reports e) (emitted t) = filter (\<lambda>e. \<not> reports e) (emitted s)"

lemma trace_filter:
  assumes "trace_like s t" and "\<And>v. \<not> f (Reported v)"
  shows "filter f (emitted t) = filter f (emitted s)"
proof -
  have "filter f (filter (\<lambda>e. \<not> reports e) xs) = filter f xs" for xs
    by (induction xs) (auto simp: assms(2) elim: reports.elims)
  then show ?thesis using assms(1) unfolding trace_like_def by metis
qed

lemma granted_like: "trace_like s t \<Longrightarrow> granted s \<Longrightarrow> granted t"
  by (simp add: granted_def trace_filter) (simp add: trace_like_def)

lemma like_ended: "trace_like s (ended s)"
  by (auto simp: trace_like_def listener_defs)

lemma like_hear: "trace_like s (hear sdk e s)"
  by (cases e) (auto simp: trace_like_def listener_defs)

lemma like_ask: "trace_like (s\<lparr>emitted := Asked r # emitted s\<rparr>) (ask sdk r s)"
  by (rule ask_keeps) (simp add: trace_like_def, use like_hear in \<open>auto simp: trace_like_def\<close>)

lemma granted_ask: "granted s \<Longrightarrow> \<not> dials r \<Longrightarrow> granted (ask sdk r s)"
  by (rule granted_like [OF like_ask], cases r) (simp_all add: granted_def)

lemma granted_forgets: "granted s \<Longrightarrow> granted (s\<lparr>waitingRuns := without i (waitingRuns s)\<rparr>)"
  using count_without [of i "waitingRuns s" awaits_grant]
  by (cases "i < length (waitingRuns s)") (auto simp: granted_def split: if_splits)

lemma granted_waits:
  "granted s \<Longrightarrow> phoneDevice s = Some d \<Longrightarrow> line \<noteq> [] \<Longrightarrow>
     granted (await (AwaitGrant d) (ask sdk (AskGrant to line) s))"
  using like_ask [of "AskGrant to line" s sdk]
  by (simp add: granted_def await_def trace_filter) (simp add: trace_like_def)

lemma granted_connects:
  assumes "granted s" and "i < length (waitingRuns s)" and "waitingRuns s ! i = AwaitGrant d"
  shows "granted (ask sdk (ConnectOn d g) (s\<lparr>waitingRuns := without i (waitingRuns s)\<rparr>))"
  using assms count_without [of i "waitingRuns s" awaits_grant]
  by (intro granted_like [OF like_ask]) (simp add: granted_def)

lemma granted_dispose: "granted s \<Longrightarrow> granted (dispose sdk s)"
proof -
  assume "granted s"
  then have "granted (clearEndedTimer (s\<lparr>disposed := True\<rparr>))"
    by (simp add: granted_def clearEndedTimer_def split: option.split)
  then have "granted (case phoneDevice (clearEndedTimer (s\<lparr>disposed := True\<rparr>)) of
      None \<Rightarrow> clearEndedTimer (s\<lparr>disposed := True\<rparr>)
    | Some d \<Rightarrow> ask sdk (DestroyDevice d) (clearEndedTimer (s\<lparr>disposed := True\<rparr>)))"
    by (simp add: granted_ask split: option.split)
  then show ?thesis unfolding dispose_def Let_def by (simp add: granted_def)
qed

interpretation grants: session_plain granted
proof
  show "granted (ended s)" if "granted s" for s
    using granted_like [OF like_ended that] .
  show "granted (hear sdk e s)" if "granted s" for sdk e s
    using granted_like [OF like_hear that] .
  show "granted (update f s)" if "granted s" for f s
    using that by (simp add: granted_def update_def)
  show "granted (await w s)" if "granted s" and "\<And>d. w \<noteq> AwaitGrant d" for w s
    using that by (cases w) (auto simp: granted_def await_def)
  show "granted t" if "granted s" and "same_core s t" for s t
    using that by (simp add: granted_def same_core_def)
qed (simp_all add: granted_ask granted_forgets granted_waits granted_connects granted_dispose,
  simp_all add: granted_def)

text \<open>C33. In every life of a session the device is told to place at most as many calls as the controller
  was asked for grants, each of them after such a request was answered, and no grant is ever asked for
  without a line to call from.\<close>

theorem calls_are_placed_on_grants:
  "let s = sessionRun steps newSession in
     length (filter connecting (emitted s)) + length (filter awaits_grant (waitingRuns s)) \<le>
       length (filter asking_grant (emitted s)) \<and>
     filter without_line (emitted s) = []"
  using grants.run_keeps [of newSession steps] by (simp add: granted_def newSession_def Let_def)

end
