(* ===== verification/Softphone_Transfers.thy ===== *)
theory Softphone_Transfers
  imports Softphone_Safety
begin

text \<open>
  How a call ends on the softphone: the local leg is dropped whatever the controller answers, and a
  handed-over call reads as transferred in whatever order the controller's answer, its outcome signal
  and Twilio's drop of the leg arrive. Then the races in which the session goes wrong, as runs.
\<close>

section \<open>Hanging up\<close>

definition legDrops :: "voice_call \<Rightarrow> session \<Rightarrow> nat" where
  "legDrops c s = length (filter (\<lambda>e. e = Asked (DisconnectCall c)) (emitted s))"

definition hangs_up :: "voice_call \<Rightarrow> nat \<Rightarrow> session \<Rightarrow> bool" where
  "hangs_up c n s \<longleftrightarrow> disposed s \<or> AwaitHangup c \<in> set (waitingRuns s) \<or> n < legDrops c s"

lemma legDrops_like: "trace_like s t \<Longrightarrow> legDrops c t = legDrops c s"
  by (simp add: legDrops_def trace_filter)

lemma waiting_like: "trace_like s t \<Longrightarrow> waitingRuns t = waitingRuns s"
  by (simp add: trace_like_def)

lemma disposed_ended: "disposed (ended s) = disposed s"
  by (auto simp: listener_defs)

lemma disposed_hear: "disposed (hear sdk e s) = disposed s"
  by (cases e) (auto simp: listener_defs)

lemma hangs_up_ask: "hangs_up c n s \<Longrightarrow> hangs_up c n (ask sdk r s)"
  using like_ask [of r s sdk] disposed_asks [of s sdk r]
  by (auto simp: hangs_up_def legDrops_like waiting_like) (auto simp: legDrops_def split: if_splits)

lemma asked_to_drop: "\<not> disposed s \<Longrightarrow> n \<le> legDrops c s \<Longrightarrow> hangs_up c n (ask sdk (DisconnectCall c) s)"
  using like_ask [of "DisconnectCall c" s sdk]
  by (simp add: hangs_up_def legDrops_like) (simp add: legDrops_def)

definition was_dropped :: "voice_call \<Rightarrow> nat \<Rightarrow> session \<Rightarrow> bool" where
  "was_dropped c n s \<longleftrightarrow> n \<le> legDrops c s \<and> hangs_up c n s"

lemma drops_grow: "legDrops c s \<le> legDrops c (ask sdk r s)"
  using like_ask [of r s sdk] by (simp add: legDrops_like) (simp add: legDrops_def)

lemma in_without: "x \<in> set xs \<Longrightarrow> x \<noteq> xs ! i \<Longrightarrow> x \<in> set (without i xs)"
  by (cases "i < length xs") (metis insert_iff mset_nth_without set_mset_add_mset_insert set_mset_mset,
    simp)

lemma dropped_ask: "was_dropped c n s \<Longrightarrow> was_dropped c n (ask sdk r s)"
  using drops_grow [of c s sdk r] by (simp add: was_dropped_def hangs_up_ask)

lemma dropped_update: "was_dropped c n s \<Longrightarrow> was_dropped c n (update f s)"
  by (auto simp: was_dropped_def hangs_up_def legDrops_def update_def)

lemma dropped_dropLeg:
  assumes "n \<le> legDrops c s" and "c' = c \<or> hangs_up c n s"
  shows "was_dropped c n (dropLeg sdk c' s)"
proof (cases "disposed s")
  case False
  let ?t = "update (\<lambda>v. v\<lparr>callStatus := CallDisconnecting\<rparr>) s"
  have "n \<le> legDrops c ?t" and "\<not> disposed ?t"
    using False assms(1) by (simp_all add: legDrops_def update_def)
  moreover have "c' \<noteq> c \<Longrightarrow> hangs_up c n ?t"
    using assms by (auto simp: hangs_up_def legDrops_def update_def)
  ultimately show ?thesis
    using False drops_grow [of c ?t sdk "DisconnectCall c'"]
    by (cases "c' = c") (auto simp: dropLeg_def was_dropped_def asked_to_drop hangs_up_ask)
qed (use assms in \<open>simp add: dropLeg_def was_dropped_def hangs_up_def\<close>)

lemma dropped_resumed:
  assumes "was_dropped c n s" and "i < length (waitingRuns s)" and "waitingRuns s ! i = AwaitHangup c'"
  shows "was_dropped c n
    (resume sdk (AwaitHangup c') r (s\<lparr>waitingRuns := without i (waitingRuns s)\<rparr>))"
proof -
  let ?s = "s\<lparr>waitingRuns := without i (waitingRuns s)\<rparr>"
  have kept: "n \<le> legDrops c ?s" "c' = c \<or> hangs_up c n ?s"
    using assms in_without [of "AwaitHangup c" "waitingRuns s" i]
    by (auto simp: was_dropped_def hangs_up_def legDrops_def)
  moreover have "n \<le> legDrops c (update f ?s)" "c' = c \<or> hangs_up c n (update f ?s)" for f
    using kept by (auto simp: hangs_up_def legDrops_def update_def)
  ultimately show ?thesis
    by (auto simp: hangupFailed_def intro!: dropped_dropLeg split: reply.split)
qed

lemma dropped_dispose: "was_dropped c n s \<Longrightarrow> was_dropped c n (dispose sdk s)"
proof -
  assume "was_dropped c n s"
  then have "n \<le> legDrops c (clearEndedTimer (s\<lparr>disposed := True\<rparr>))"
    by (simp add: was_dropped_def legDrops_def clearEndedTimer_def split: option.split)
  then have "n \<le> legDrops c (case phoneDevice (clearEndedTimer (s\<lparr>disposed := True\<rparr>)) of
      None \<Rightarrow> clearEndedTimer (s\<lparr>disposed := True\<rparr>)
    | Some d \<Rightarrow> ask sdk (DestroyDevice d) (clearEndedTimer (s\<lparr>disposed := True\<rparr>)))"
    using drops_grow order_trans by (fastforce split: option.split)
  then show ?thesis
    using disposed_after [of sdk s]
    unfolding was_dropped_def hangs_up_def by (simp add: dispose_def Let_def legDrops_def)
qed

interpretation hanging_up: session_law "was_dropped c n" for c n
proof
  show "was_dropped c n (ended s)" if "was_dropped c n s" for s
    using that like_ended [of s]
    by (simp add: was_dropped_def hangs_up_def legDrops_like waiting_like disposed_ended)
  show "was_dropped c n (hear sdk e s)" if "was_dropped c n s" for sdk e s
    using that like_hear [of s sdk e]
    by (simp add: was_dropped_def hangs_up_def legDrops_like waiting_like disposed_hear)
  show await: "was_dropped c n (await w s)" if "was_dropped c n s" for w s
    using that by (auto simp: was_dropped_def hangs_up_def legDrops_def await_def)
  show "was_dropped c n (s\<lparr>waitingRuns := without i (waitingRuns s)\<rparr>)"
    if "was_dropped c n s" and "i < length (waitingRuns s)"
      and "\<And>c. waitingRuns s ! i \<noteq> AwaitHangup c" for s i
    using that in_without [of "AwaitHangup c" "waitingRuns s" i] that(3) [of c]
    by (auto simp: was_dropped_def hangs_up_def legDrops_def)
  then show "was_dropped c n (ask sdk (ConnectOn d g) (s\<lparr>waitingRuns := without i (waitingRuns s)\<rparr>))"
    if "was_dropped c n s" and "i < length (waitingRuns s)" and "waitingRuns s ! i = AwaitGrant d"
    for sdk d g s i
    using that by (intro dropped_ask) simp
  show "was_dropped c n (await (AwaitGrant d) (ask sdk (AskGrant to line) s))"
    if "was_dropped c n s" for d sdk to line s
    using that by (intro await dropped_ask)
  show "was_dropped c n
      (resume sdk (AwaitHangup c') r (s\<lparr>waitingRuns := without i (waitingRuns s)\<rparr>))"
    if "was_dropped c n s" and "i < length (waitingRuns s)" and "waitingRuns s ! i = AwaitHangup c'"
    for sdk c' r s i
    using that by (rule dropped_resumed)
qed (simp_all add: dropped_ask dropped_update dropped_dispose,
  auto simp: was_dropped_def hangs_up_def legDrops_def same_core_def)

lemma hangUp_dropped:
  assumes "activeCall s = Some c" and "\<not> isEndingCall (shown s)" and "incomingCall s \<noteq> Some c"
  shows "was_dropped c (legDrops c s) (hangUp sdk now s)"
proof -
  let ?s = "update (\<lambda>v. v\<lparr>isEndingCall := True, errorShown := None\<rparr>) s"
  have n: "legDrops c s \<le> legDrops c ?s" by (simp add: legDrops_def update_def)
  then have "legDrops c s \<le> legDrops c (ask sdk r ?s)" for r
    using drops_grow order_trans by blast
  then have "was_dropped c (legDrops c s) (await (AwaitHangup c) (ask sdk r ?s))" for r
    by (simp add: was_dropped_def hangs_up_def await_def legDrops_def)
  then show ?thesis
    using assms dropped_dropLeg [OF n] by (simp add: hangUp_def Let_def split: option.split)
qed

text \<open>C32. Hanging up drops the own leg: from the press on, whatever happens, the session was torn down,
  or the controller has not answered the hangup yet, or Twilio was told once more to disconnect the
  call, whether the controller agreed, refused or could not be reached.\<close>

theorem hanging_up_drops_the_leg:
  assumes "activeCall s = Some c" and "\<not> isEndingCall (shown s)" and "incomingCall s \<noteq> Some c"
  shows "let t = sessionRun steps (hangUp sdk now s) in
    disposed t \<or> AwaitHangup c \<in> set (waitingRuns t) \<or> legDrops c s < legDrops c t"
  using hanging_up.run_keeps [OF hangUp_dropped [OF assms], of steps sdk now]
  by (simp add: was_dropped_def hangs_up_def Let_def)

section \<open>Transferred, whichever comes first\<close>

text \<open>The controller's answer to a transfer request that leaves open how the transfer ends: it rings, it
  was settled meanwhile, or there was no answer that says.\<close>

definition leaves_open :: "call_id \<Rightarrow> reply \<Rightarrow> bool" where
  "leaves_open conversation r \<longleftrightarrow>
     (case r of
        ResolvedText t \<Rightarrow> t = conversation
      | Rejected e \<Rightarrow> transferRefusalIn e = Some NoTransferPending \<or>
          (transferRefusalIn e = None \<and> \<not> wasTurnedDown e)
      | _ \<Rightarrow> False)"

definition hands_over :: "voice_call \<Rightarrow> transfer_attempt \<Rightarrow> call_id \<Rightarrow> session \<Rightarrow> bool" where
  "hands_over c a conversation s \<longleftrightarrow> \<not> disposed s \<and> activeCall s = Some c \<and>
     c \<in> set (boundCalls s) \<and> callStatus (shown s) = CallConnected \<and>
     (\<exists>t. transferAttempt s = Some (a\<lparr>attemptConversation := t\<rparr>) \<and>
        (t = None \<or> t = Some conversation)) \<and> attemptCall a = c"

definition handed_over :: "voice_call \<Rightarrow> session \<Rightarrow> bool" where
  "handed_over c s \<longleftrightarrow> \<not> disposed s \<and> activeCall s = Some c \<and> handedOverCall s = Some c \<and>
     c \<in> set (boundCalls s) \<and> callStatus (shown s) = CallConnected \<and> transferAttempt s = None"

definition dropped_first :: "voice_call \<Rightarrow> transfer_attempt \<Rightarrow> call_id \<Rightarrow> session \<Rightarrow> bool" where
  "dropped_first c a conversation s \<longleftrightarrow> \<not> disposed s \<and> activeCall s = None \<and>
     lastEndedCall s = Some c \<and> callStatus (shown s) = CallDisconnected \<and>
     (\<exists>t. transferAttempt s = Some (a\<lparr>attemptConversation := t\<rparr>) \<and>
        (t = None \<or> t = Some conversation)) \<and> attemptCall a = c"

definition shows_transferred :: "session \<Rightarrow> bool" where
  "shows_transferred s \<longleftrightarrow> callStatus (shown s) = CallDisconnected \<and>
     endReason (shown s) = ShownTransferred \<and> activeCall s = None \<and> transferAttempt s = None"

definition completes :: "transfer_attempt \<Rightarrow> call_id \<Rightarrow> settled_outcome \<Rightarrow> bool" where
  "completes a conversation out \<longleftrightarrow> outcomeCompleted out \<and>
     outcomeTarget out = targetId (attemptTarget a) \<and> outcomeConversation out = conversation"

lemmas settling_defs = hands_over_def handed_over_def dropped_first_def shows_transferred_def

lemmas ending_defs = applyTransferOutcome_def ended_def clearCallUiSoon_def clearEndedTimer_def
  update_def transferRings_def transferRefused_def isCurrent_def asRinging_def Let_def

text \<open>The answer settles nothing.\<close>

lemma attempt_fields: "a\<lparr>attemptConversation := t\<rparr>\<lparr>attemptConversation := t'\<rparr> = a\<lparr>attemptConversation := t'\<rparr>"
  by simp

lemma answer_before:
  assumes "leaves_open conversation r"
  shows "hands_over c a conversation s \<Longrightarrow>
      hands_over c a conversation (resume sdk (AwaitTransfer c a) r (s\<lparr>waitingRuns := ws\<rparr>))"
    and "dropped_first c a conversation s \<Longrightarrow>
      dropped_first c a conversation (resume sdk (AwaitTransfer c a) r (s\<lparr>waitingRuns := ws\<rparr>))"
  using assms
  by (auto simp: settling_defs leaves_open_def transferRings_def transferRefused_def isCurrent_def
      update_def Let_def split: reply.splits)

lemma answer_after:
  assumes "leaves_open conversation r"
  shows "handed_over c s \<Longrightarrow>
      handed_over c (resume sdk (AwaitTransfer c a) r (s\<lparr>waitingRuns := ws\<rparr>))"
    and "shows_transferred s \<Longrightarrow>
      shows_transferred (resume sdk (AwaitTransfer c a) r (s\<lparr>waitingRuns := ws\<rparr>))"
  using assms
  by (auto simp: settling_defs leaves_open_def transferRings_def transferRefused_def isCurrent_def
      split: reply.splits)

lemma outcome_hands_over:
  "completes a conversation out \<Longrightarrow> hands_over c a conversation s \<Longrightarrow>
     handed_over c (applyTransferOutcome out s)"
  by (auto simp: settling_defs completes_def applyTransferOutcome_def update_def Let_def)

lemma outcome_after_drop:
  "completes a conversation out \<Longrightarrow> dropped_first c a conversation s \<Longrightarrow>
     shows_transferred (applyTransferOutcome out s)"
  by (auto simp: settling_defs completes_def applyTransferOutcome_def update_def Let_def
      clearCallUiSoon_def clearEndedTimer_def split: option.split)

lemma drop_before:
  "hands_over c a conversation s \<Longrightarrow> dropped_first c a conversation (hear sdk (CallDisconnects c) s)"
  by (auto simp: settling_defs listener_defs)

lemma drop_after: "handed_over c s \<Longrightarrow> shows_transferred (hear sdk (CallDisconnects c) s)"
  by (auto simp: settling_defs listener_defs)

lemma waiting_kept:
  "waitingRuns (hear sdk e s) = waitingRuns s" "waitingRuns (applyTransferOutcome out s) = waitingRuns s"
  using like_hear [of s sdk e]
  by (simp_all add: trace_like_def)
    (auto simp: applyTransferOutcome_def update_def Let_def clearCallUiSoon_def clearEndedTimer_def
      split: option.split)

lemma three_in_any_order:
  assumes "{#x, y, z#} = {#a, b, c#}"
  shows "(x, y, z) \<in> {(a, b, c), (a, c, b), (b, a, c), (b, c, a), (c, a, b), (c, b, a)}"
  using assms by (auto simp: add_eq_conv_ex)

text \<open>C31. A call handed to a teammate reads as transferred however the controller's answer to the
  request, its word that the teammate took the call, and Twilio's drop of the leg are ordered, and
  also when the answer was lost: in every order the call shows as ended by a transfer, and no
  transfer of it is left to be settled.\<close>

theorem transferred_in_any_order:
  assumes "hands_over c a conversation s"
    and "i < length (waitingRuns s)" and "waitingRuns s ! i = AwaitTransfer c a"
    and "leaves_open conversation r" and "completes a conversation out"
    and "{#x, y, z#} = {# Replies i r, TransferOutcome out, Hears (CallDisconnects c) #}"
  shows "shows_transferred (sessionRun [(sdk, now, x), (sdk', now', y), (sdk'', now'', z)] s)"
proof -
  note facts = assms(1-3) answer_before [OF assms(4)] answer_after [OF assms(4)]
    outcome_hands_over [OF assms(5)] outcome_after_drop [OF assms(5)] drop_before drop_after
  consider "x = Replies i r" "y = TransferOutcome out" "z = Hears (CallDisconnects c)"
    | "x = Replies i r" "z = TransferOutcome out" "y = Hears (CallDisconnects c)"
    | "y = Replies i r" "x = TransferOutcome out" "z = Hears (CallDisconnects c)"
    | "z = Replies i r" "x = TransferOutcome out" "y = Hears (CallDisconnects c)"
    | "y = Replies i r" "z = TransferOutcome out" "x = Hears (CallDisconnects c)"
    | "z = Replies i r" "y = TransferOutcome out" "x = Hears (CallDisconnects c)"
    using three_in_any_order [OF assms(6)] by blast
  then show ?thesis
    by cases (simp only: sessionRun.simps sessionStep.simps fst_conv snd_conv waiting_kept if_True
        facts(2,3), blast intro: facts)+
qed

section \<open>A concrete session\<close>

definition sampleSdk :: voice_sdk where
  "sampleSdk = \<lparr>callParameters = (\<lambda>c. (None, Some ''CA1'', Some ''+15551230001'')),
     callIsMuted = (\<lambda>c. False), callIsClosed = (\<lambda>c. False), firesBefore = (\<lambda>r. []),
     createsDevice = (\<lambda>token. Inr 7), tokenUpdateError = (\<lambda>d token. None)\<rparr>"

definition at_once :: "session_input list \<Rightarrow> (voice_sdk \<times> millis \<times> session_input) list" where
  "at_once = map (\<lambda>i. (sampleSdk, 0, i))"

definition onTheLine :: session where
  "onTheLine = sessionRun (at_once [StartSession, Replies 0 Resolved, Replies 0 (ResolvedText ''tok''),
     Hears (DeviceRegistered 7), Replies 0 Resolved, Incoming 7 3, AnswerIncoming,
     Hears (CallAccepted 3 3)]) newSession"

definition sampleTarget :: transfer_target where
  "sampleTarget = \<lparr>targetId = ''u2'', targetLabel = ''Ann''\<rparr>"

definition sampleAttempt :: transfer_attempt where
  "sampleAttempt = \<lparr>attemptId = 1, attemptCall = 3, attemptTarget = sampleTarget,
     attemptConversation = None\<rparr>"

definition askedForTransfer :: session where
  "askedForTransfer = sessionStep sampleSdk 0 (TransferTo sampleTarget) onTheLine"

lemmas session_eval = at_once_def onTheLine_def sampleSdk_def sampleTarget_def sampleAttempt_def
  askedForTransfer_def newSession_def INITIAL_TELEPHONY_STATE_def session_defs listener_defs ask_def
  without_def takePendingAnswer_def getCallSid_def controllableCall_def

lemma onTheLine_facts:
  "activeCall onTheLine = Some 3" "incomingCall onTheLine = None" "\<not> isEndingCall (shown onTheLine)"
  "\<not> disposed onTheLine" "boundCalls onTheLine = [3]" "callStatus (shown onTheLine) = CallConnected"
  "boundDevices onTheLine = [7]" "waitingRuns onTheLine = []"
  by (simp_all add: session_eval)

lemma asked_facts:
  "hands_over 3 sampleAttempt ''CF1'' askedForTransfer"
  "waitingRuns askedForTransfer = [AwaitTransfer 3 sampleAttempt]"
  by (auto simp: session_eval hands_over_def)

theorem hanging_up_drops_the_leg_witness:
  "let t = sessionRun [(sampleSdk, 5, Replies 0 Resolved)] (hangUp sampleSdk 0 onTheLine) in
     disposed t \<or> AwaitHangup 3 \<in> set (waitingRuns t) \<or> legDrops 3 onTheLine < legDrops 3 t"
  by (rule hanging_up_drops_the_leg) (simp_all add: onTheLine_facts)

definition sampleOutcome :: settled_outcome where
  "sampleOutcome = \<lparr>outcomeConversation = ''CF1'', outcomeTarget = ''u2'', outcomeCompleted = True,
     outcomeReason = None\<rparr>"

theorem transferred_in_any_order_witness:
  "shows_transferred (sessionRun [(sampleSdk, 1, Hears (CallDisconnects 3)),
     (sampleSdk, 2, TransferOutcome sampleOutcome), (sampleSdk, 3, Replies 0 (ResolvedText ''CF1''))]
     askedForTransfer)"
  by (rule transferred_in_any_order [where i = 0 and r = "ResolvedText ''CF1''" and out = sampleOutcome,
        OF asked_facts(1)])
    (simp_all add: asked_facts leaves_open_def completes_def sampleOutcome_def sampleAttempt_def
      sampleTarget_def add_mset_commute)

text \<open>A call put on hold, whose leg Twilio drops.\<close>

definition heldAndDropped :: "(voice_sdk \<times> millis \<times> session_input) list" where
  "heldAndDropped =
     at_once [StartSession, Replies 0 Resolved, Replies 0 (ResolvedText ''tok''),
       Hears (DeviceRegistered 7), Replies 0 Resolved, Incoming 7 3, AnswerIncoming,
       Hears (CallAccepted 3 3), ToggleHold, Replies 0 Resolved, Hears (CallDisconnects 3)]"

lemma held_and_dropped:
  "activeCall (sessionRun heldAndDropped newSession) = None" "\<not> disposed (sessionRun heldAndDropped newSession)"
  "lastEndedCall (sessionRun heldAndDropped newSession) = Some 3"
  by (simp_all add: heldAndDropped_def session_eval)

theorem controls_belong_to_a_call_witness:
  "\<not> isOnHold (shown (sessionRun heldAndDropped newSession)) \<and>
   callStatus (shown (sessionRun heldAndDropped newSession)) \<noteq> CallConnected"
  using controls_belong_to_a_call [of heldAndDropped] held_and_dropped by (simp add: Let_def)

section \<open>Races\<close>

text \<open>The controller answers a hangup after Twilio already dropped the leg (ending the conference drops
  it): the call goes back from ended to disconnecting without a call to disconnect, and the timer
  that would clear the display passes it by. Nothing but another call ends that.\<close>

lemma late_hangup_reply_sticks:
  assumes "\<not> disposed s" and "activeCall s = None" and "callStatus (shown s) = CallDisconnected"
    and "firesBefore sdk (DisconnectCall c) = []"
  shows "let t = timerFired n (resume sdk (AwaitHangup c) Resolved s) in
    callStatus (shown t) = CallDisconnecting \<and> activeCall t = None"
  using assms by (simp add: dropLeg_def ask_def update_def timerFired_def Let_def)

lemma late_hangup_reply_run:
  "let t = sessionRun (at_once [PressHangUp, Hears (CallDisconnects 3), Replies 0 Resolved,
       TimerGoesOff 0]) onTheLine in
     callStatus (shown t) = CallDisconnecting \<and> activeCall t = None \<and> timersRunning t = []"
  by (simp add: session_eval)

text \<open>The end of a call that is no longer the current one ends the current one's display.\<close>

lemma other_call_ends_this_one:
  "let t = sessionRun (at_once [Incoming 7 4, AnswerIncoming, Hears (CallAccepted 4 4),
       Hears (CallDisconnects 3)]) onTheLine in
     callStatus (shown t) = CallDisconnected \<and> activeCall t = None \<and> lastEndedCall t = Some 4"
  by (simp add: session_eval)

text \<open>A call that rings while a dialed one is being connected has taken the phone, and is overwritten.\<close>

definition readyToDial :: session where
  "readyToDial = sessionRun (at_once [StartSession, Replies 0 Resolved, Replies 0 (ResolvedText ''tok''),
     Hears (DeviceRegistered 7), Replies 0 Resolved]) newSession"

lemma placed_call_takes_a_ringing_phone:
  "let t = sessionRun (at_once [MakeCall ''+1'' ''+2'', Replies 0 (ResolvedText ''g''), Incoming 7 4,
       Replies 0 (ResolvedCall 5)]) readyToDial in
     activeCall t = Some 5 \<and> incomingCall t = Some 4 \<and> callStatus (shown t) = CallRinging"
  by (simp add: readyToDial_def session_eval)

end
