(* ===== verification/Line_Directory.thy ===== *)
theory Line_Directory
  imports Outbound_Grant Labels
begin

text \<open>
  The API's numbers, departments and users as far as calls are routed by them, and what is derived from
  them: the routing entries the controller reads (\<open>apps/api/src/routing/routing-cache.ts\<close>,
  \<open>greeting-url.ts\<close>) and the lines a user is offered to call from
  (\<open>apps/api/src/calls/call-line.service.ts\<close>). A read of the database sees one state of it; the time an
  entry was cached at is left out, and expiry is somebody else removing entries.
\<close>

section \<open>The database\<close>

record department_settings =
  dsTimezone :: string
  dsIs24Hours :: bool
  dsOpenHoursRouting :: open_hours_routing
  dsRingDuration :: nat
  dsClosedHoursRouting :: closed_hours_routing
  dsExternalNumber :: "string option"
  dsGreetingId :: "string option"

record department_row =
  deptId :: department_id
  deptName :: string
  deptDeleted :: bool
  deptMembers :: "ordered_user list"
  deptSettings :: "department_settings option"
  deptHours :: "cached_business_hours list"
  deptHolidays :: "(string \<times> cached_holiday) list"

record user_row =
  userRowId :: user_id
  userName :: "string option"
  userEmail :: string
  userDeleted :: bool

record number_row =
  numberId :: string
  numberPhone :: phone
  numberLabel :: "string option"
  numberDeleted :: bool
  numberStatus :: string
  numberVoice :: bool
  numberPrimary :: bool
  numberUser :: "user_id option"
  numberDepartment :: "department_id option"

record line_db =
  numbers :: "number_row list"
  departments :: "department_row list"
  userRows :: "user_row list"

definition departmentOf :: "line_db \<Rightarrow> department_id option \<Rightarrow> department_row option" where
  "departmentOf db d = (case d of None \<Rightarrow> None | Some i \<Rightarrow> find (\<lambda>x. deptId x = i) (departments db))"

definition userOf :: "line_db \<Rightarrow> user_id option \<Rightarrow> user_row option" where
  "userOf db u = (case u of None \<Rightarrow> None | Some i \<Rightarrow> find (\<lambda>x. userRowId x = i) (userRows db))"

definition isLiveUser :: "line_db \<Rightarrow> user_id \<Rightarrow> bool" where
  "isLiveUser db u \<longleftrightarrow> (case userOf db (Some u) of None \<Rightarrow> False | Some r \<Rightarrow> \<not> userDeleted r)"

definition routableNumber :: "number_row \<Rightarrow> bool" where
  "routableNumber n \<longleftrightarrow> \<not> numberDeleted n \<and> numberStatus n = ''ACTIVE''"

section \<open>Routing entries\<close>

definition departmentGreetingUrl :: "string \<Rightarrow> string \<Rightarrow> string" where
  "departmentGreetingUrl publicUrl greetingId =
     publicUrl @ ''/media/greetings'' @ ''/'' @ encodeURIComponent greetingId"

text \<open>\<open>routingDepartmentInclude\<close>: the members who are still users, in ring order, and the hours by day.\<close>

definition orderedMembers :: "line_db \<Rightarrow> department_row \<Rightarrow> ordered_user list" where
  "orderedMembers db d = sort_key ouOrder (filter (\<lambda>m. isLiveUser db (ouUserId m)) (deptMembers d))"

definition projectDepartmentRouting :: "string \<Rightarrow> line_db \<Rightarrow> department_row \<Rightarrow> cached_routing" where
  "projectDepartmentRouting publicUrl db d =
     \<lparr>routingTarget = DEPARTMENT, userIds = map ouUserId (orderedMembers db d), voiceEnabled = None,
      orderedUsers = Some (orderedMembers db d),
      settings = map_option (\<lambda>s.
        \<lparr>timezone = dsTimezone s, is24Hours = dsIs24Hours s, openHoursRoutingType = dsOpenHoursRouting s,
         settingsRingDuration = dsRingDuration s, closedHoursRoutingType = dsClosedHoursRouting s,
         closedHoursExternalNumber = dsExternalNumber s,
         settingsGreetingUrl = (if truthy (dsGreetingId s)
           then Some (departmentGreetingUrl publicUrl (the (dsGreetingId s))) else None),
         businessHours = sort_key dayOfWeek (deptHours d), holidays = map snd (deptHolidays d)\<rparr>) (deptSettings d),
      routingDepartmentId = Some (deptId d), routingDepartmentName = Some (deptName d),
      routingUserId = None, routingUserName = None\<rparr>"

definition projectUserRouting :: "user_row \<Rightarrow> cached_routing" where
  "projectUserRouting u =
     \<lparr>routingTarget = USER, userIds = [userRowId u], voiceEnabled = None, orderedUsers = None,
      settings = None, routingDepartmentId = None, routingDepartmentName = None,
      routingUserId = Some (userRowId u), routingUserName = userName u\<rparr>"

definition routingEntry :: "cached_routing \<Rightarrow> number_row \<Rightarrow> cached_routing" where
  "routingEntry target n = target\<lparr>voiceEnabled := Some (numberVoice n)\<rparr>"

record cached_department =
  summaryId :: department_id
  summaryName :: string
  summaryUserIds :: "user_id list"

definition projectDepartmentSummary :: "cached_routing \<Rightarrow> cached_department option" where
  "projectDepartmentSummary r =
     (if routingTarget r \<noteq> DEPARTMENT \<or> \<not> truthy (routingDepartmentId r) then None
      else Some \<lparr>summaryId = the (routingDepartmentId r), summaryName = getOr (routingDepartmentName r) [],
                 summaryUserIds = userIds r\<rparr>)"

record routing_cache =
  phoneEntries :: "phone \<rightharpoonup> cached_routing"
  departmentEntries :: "department_id \<rightharpoonup> cached_department"

definition loadRouting :: "string \<Rightarrow> line_db \<Rightarrow> phone \<Rightarrow> cached_routing option" where
  "loadRouting publicUrl db p =
     (case find (\<lambda>n. numberPhone n = p \<and> routableNumber n) (numbers db) of
        None \<Rightarrow> None
      | Some n \<Rightarrow>
          (case departmentOf db (numberDepartment n) of
             Some d \<Rightarrow>
               if \<not> deptDeleted d then Some (routingEntry (projectDepartmentRouting publicUrl db d) n)
               else (case userOf db (numberUser n) of
                       Some u \<Rightarrow> if \<not> userDeleted u then Some (routingEntry (projectUserRouting u) n) else None
                     | None \<Rightarrow> None)
           | None \<Rightarrow>
               (case userOf db (numberUser n) of
                  Some u \<Rightarrow> if \<not> userDeleted u then Some (routingEntry (projectUserRouting u) n) else None
                | None \<Rightarrow> None)))"

definition queueDepartmentSummary :: "cached_routing \<Rightarrow> routing_cache \<Rightarrow> routing_cache" where
  "queueDepartmentSummary r c =
     (case projectDepartmentSummary r of
        None \<Rightarrow> c
      | Some s \<Rightarrow> c\<lparr>departmentEntries := (departmentEntries c)(summaryId s \<mapsto> s)\<rparr>)"

definition setPhone :: "phone \<Rightarrow> cached_routing \<Rightarrow> routing_cache \<Rightarrow> routing_cache" where
  "setPhone p r c = c\<lparr>phoneEntries := (phoneEntries c)(p \<mapsto> r)\<rparr>"

definition queueRouting :: "phone \<Rightarrow> cached_routing \<Rightarrow> routing_cache \<Rightarrow> routing_cache" where
  "queueRouting p r c = queueDepartmentSummary r (setPhone p r c)"

definition lookupForController ::
    "string \<Rightarrow> line_db \<Rightarrow> phone \<Rightarrow> routing_cache \<Rightarrow> cached_routing option \<times> routing_cache" where
  "lookupForController publicUrl db p c =
     (case loadRouting publicUrl db p of
        None \<Rightarrow> (None, c)
      | Some r \<Rightarrow> (Some r, queueRouting p r c))"

text \<open>Each number is read in its own query, so with the state of the database at that moment; the
  pipeline is sent once at the end.\<close>

primrec refreshPhoneNumbers ::
    "string \<Rightarrow> (phone \<times> line_db) list \<Rightarrow> routing_cache \<Rightarrow> routing_cache" where
  "refreshPhoneNumbers publicUrl [] c = c"
| "refreshPhoneNumbers publicUrl (x # xs) c =
     refreshPhoneNumbers publicUrl xs
       (case loadRouting publicUrl (snd x) (fst x) of
          Some r \<Rightarrow> queueRouting (fst x) r c
        | None \<Rightarrow> c\<lparr>phoneEntries := (phoneEntries c)(fst x := None)\<rparr>)"

definition numbersOf :: "line_db \<Rightarrow> department_id \<Rightarrow> number_row list" where
  "numbersOf db d = filter (\<lambda>n. numberDepartment n = Some d \<and> routableNumber n) (numbers db)"

definition setNumbers :: "cached_routing \<Rightarrow> number_row list \<Rightarrow> routing_cache \<Rightarrow> routing_cache" where
  "setNumbers r ns c = fold (\<lambda>n. setPhone (numberPhone n) (routingEntry r n)) ns c"

definition refreshDepartment :: "string \<Rightarrow> line_db \<Rightarrow> department_id \<Rightarrow> routing_cache \<Rightarrow> routing_cache" where
  "refreshDepartment publicUrl db i c =
     (case find (\<lambda>d. deptId d = i \<and> \<not> deptDeleted d) (departments db) of
        None \<Rightarrow> c\<lparr>departmentEntries := (departmentEntries c)(i := None)\<rparr>
      | Some d \<Rightarrow>
          let r = projectDepartmentRouting publicUrl db d
          in setNumbers r (numbersOf db i) (queueDepartmentSummary r c))"

definition warmDepartment :: "string \<Rightarrow> line_db \<Rightarrow> department_row \<Rightarrow> routing_cache \<Rightarrow> routing_cache" where
  "warmDepartment publicUrl db d c =
     (if numbersOf db (deptId d) = [] then c
      else let r = projectDepartmentRouting publicUrl db d
           in setNumbers r (numbersOf db (deptId d)) (queueDepartmentSummary r c))"

definition directLines :: "line_db \<Rightarrow> (number_row \<times> user_row) list" where
  "directLines db =
     List.map_filter (\<lambda>n.
       if routableNumber n \<and> numberDepartment n = None
       then (case userOf db (numberUser n) of
               Some u \<Rightarrow> if userDeleted u then None else Some (n, u)
             | None \<Rightarrow> None)
       else None) (numbers db)"

definition warmAll :: "string \<Rightarrow> line_db \<Rightarrow> routing_cache \<Rightarrow> routing_cache" where
  "warmAll publicUrl db c =
     fold (\<lambda>x. setPhone (numberPhone (fst x)) (routingEntry (projectUserRouting (snd x)) (fst x)))
       (directLines db)
       (fold (warmDepartment publicUrl db) (filter (\<lambda>d. \<not> deptDeleted d) (departments db)) c)"

section \<open>The lines a user may call from\<close>

datatype line_owner = UserLine | DepartmentLine

record outbound_line =
  outLineId :: string
  outLineNumber :: phone
  outLineLabel :: "string option"
  outLineOwner :: line_owner
  outLineOwnerId :: string
  outLineOwnerName :: string
  outLinePrimary :: bool

definition toOutboundLine :: "line_db \<Rightarrow> number_row \<Rightarrow> outbound_line option" where
  "toOutboundLine db n =
     (let line = (\<lambda>owner i name. \<lparr>outLineId = numberId n, outLineNumber = numberPhone n,
          outLineLabel = numberLabel n, outLineOwner = owner, outLineOwnerId = i,
          outLineOwnerName = name, outLinePrimary = numberPrimary n\<rparr>);
          ofUser = (case userOf db (numberUser n) of
            Some u \<Rightarrow> Some (line UserLine (userRowId u)
              (if truthy (userName u) then the (userName u) else userEmail u))
          | None \<Rightarrow> None)
      in case departmentOf db (numberDepartment n) of
           Some d \<Rightarrow> if \<not> deptDeleted d then Some (line DepartmentLine (deptId d) (deptName d)) else ofUser
         | None \<Rightarrow> ofUser)"

text \<open>\<open>byPreference\<close> as "not after": \<open>collate\<close> is \<open>localeCompare\<close>, negative, zero or positive.\<close>

definition notAfter :: "(string \<Rightarrow> string \<Rightarrow> int) \<Rightarrow> outbound_line \<Rightarrow> outbound_line \<Rightarrow> bool" where
  "notAfter collate a b \<longleftrightarrow>
     (if outLineOwner a \<noteq> outLineOwner b then outLineOwner a = UserLine
      else if outLinePrimary a \<noteq> outLinePrimary b then outLinePrimary a
      else (if collate (outLineOwnerName a) (outLineOwnerName b) \<noteq> 0
            then collate (outLineOwnerName a) (outLineOwnerName b) \<le> 0
            else collate (outLineNumber a) (outLineNumber b) \<le> 0))"

text \<open>A stable sort by such a comparison.\<close>

fun insertLine :: "('a \<Rightarrow> 'a \<Rightarrow> bool) \<Rightarrow> 'a \<Rightarrow> 'a list \<Rightarrow> 'a list" where
  "insertLine le x [] = [x]"
| "insertLine le x (y # ys) = (if le x y then x # y # ys else y # insertLine le x ys)"

definition sortLines :: "('a \<Rightarrow> 'a \<Rightarrow> bool) \<Rightarrow> 'a list \<Rightarrow> 'a list" where
  "sortLines le xs = foldr (insertLine le) xs []"

definition mayCallFrom :: "line_db \<Rightarrow> user_id \<Rightarrow> number_row \<Rightarrow> bool" where
  "mayCallFrom db u n \<longleftrightarrow>
     \<not> numberDeleted n \<and> numberStatus n = ''ACTIVE'' \<and> numberVoice n \<and>
     (numberUser n = Some u \<or>
      (case departmentOf db (numberDepartment n) of
         Some d \<Rightarrow> \<not> deptDeleted d \<and> u \<in> set (map ouUserId (deptMembers d))
       | None \<Rightarrow> False))"

definition listOutboundLines ::
    "(string \<Rightarrow> string \<Rightarrow> int) \<Rightarrow> line_db \<Rightarrow> user_id \<Rightarrow> outbound_line list" where
  "listOutboundLines collate db u =
     sortLines (notAfter collate) (List.map_filter (toOutboundLine db) (filter (mayCallFrom db u) (numbers db)))"

section \<open>Sorting keeps the lines\<close>

lemma mset_insertLine [simp]: "mset (insertLine le x xs) = add_mset x (mset xs)"
  by (induction xs) auto

lemma mset_sortLines [simp]: "mset (sortLines le xs) = mset xs"
  by (induction xs) (simp_all add: sortLines_def)

lemma set_sortLines [simp]: "set (sortLines le xs) = set xs"
  by (metis mset_sortLines set_mset_mset)

definition ranked :: "('a \<Rightarrow> nat) \<Rightarrow> 'a list \<Rightarrow> bool" where
  "ranked rank xs \<longleftrightarrow> sorted (map rank xs)"

lemma ranked_insert:
  assumes "\<And>a b. le a b \<Longrightarrow> rank a \<le> rank b" and "\<And>a b. \<not> le a b \<Longrightarrow> rank b \<le> rank a"
  shows "ranked rank xs \<Longrightarrow> ranked rank (insertLine le x xs)"
proof (induction xs)
  case (Cons y ys)
  have "set (insertLine le x ys) = insert x (set ys)"
    by (metis mset_insertLine set_mset_add_mset_insert set_mset_mset)
  then show ?case
    using Cons assms(1) [of x y] assms(2) [of x y] by (auto simp: ranked_def intro: order_trans)
qed (simp add: ranked_def)

lemma ranked_sortLines:
  assumes "\<And>a b. le a b \<Longrightarrow> rank a \<le> rank b" and "\<And>a b. \<not> le a b \<Longrightarrow> rank b \<le> rank a"
  shows "ranked rank (sortLines le xs)"
proof (induction xs)
  case (Cons x xs)
  then show ?case by (simp add: sortLines_def ranked_insert [of le rank, OF assms])
qed (simp add: sortLines_def ranked_def)

text \<open>A user's own lines come before the lines of departments.\<close>

lemma own_lines_come_first:
  "sorted (map (\<lambda>l. if outLineOwner l = UserLine then 0 else (1 :: nat)) (listOutboundLines collate db u))"
proof -
  have "outLineOwner a = UserLine \<or> outLineOwner a = DepartmentLine" for a :: outbound_line
    by (cases "outLineOwner a") auto
  then show ?thesis
    using ranked_sortLines [of "notAfter collate" "\<lambda>l. if outLineOwner l = UserLine then 0 else (1 :: nat)"]
    unfolding listOutboundLines_def ranked_def by (auto simp: notAfter_def split: if_splits)
qed

section \<open>A well kept directory\<close>

text \<open>
  Numbers, departments and users are known by their keys, and no number belongs to a user and to a
  department that still exists (\<open>assertAssignmentTarget\<close> refuses such an assignment).
\<close>

definition directory_ok :: "line_db \<Rightarrow> bool" where
  "directory_ok db \<longleftrightarrow> distinct (map numberPhone (numbers db)) \<and> distinct (map deptId (departments db)) \<and>
     distinct (map userRowId (userRows db)) \<and>
     (\<forall>n \<in> set (numbers db). numberUser n = None \<or>
        (case departmentOf db (numberDepartment n) of None \<Rightarrow> True | Some d \<Rightarrow> deptDeleted d))"

lemma find_none: "(\<And>y. y \<in> set xs \<Longrightarrow> \<not> Q y) \<Longrightarrow> find Q xs = None"
  by (simp add: find_None_iff)

lemma find_some: "find Q xs = Some x \<Longrightarrow> x \<in> set xs \<and> Q x"
  by (induction xs) (auto split: if_splits)

lemma find_unique:
  assumes "x \<in> set xs" and "Q x" and "\<And>y. y \<in> set xs \<Longrightarrow> Q y \<Longrightarrow> y = x"
  shows "find Q xs = Some x"
proof (cases "find Q xs")
  case None
  then show ?thesis using assms(1,2) by (simp add: find_None_iff)
next
  case (Some y)
  then show ?thesis using assms(3) find_some [OF Some] by blast
qed

text \<open>Writes that each may overwrite what is looked at: the last one shows.\<close>

lemma fold_overwrites:
  assumes "\<And>x c. look (f x c) = (if Q x then Some (v x) else look c)"
  shows "look (fold f xs c) = (case find Q (rev xs) of None \<Rightarrow> look c | Some x \<Rightarrow> Some (v x))"
proof (induction xs rule: rev_induct)
  case (snoc x xs)
  then show ?case by (simp add: assms)
qed simp

lemma same_phone:
  "directory_ok db \<Longrightarrow> n \<in> set (numbers db) \<Longrightarrow> m \<in> set (numbers db) \<Longrightarrow> numberPhone n = numberPhone m \<Longrightarrow>
     n = m"
  by (auto simp: directory_ok_def distinct_map dest: inj_onD)

lemma same_department:
  "directory_ok db \<Longrightarrow> d \<in> set (departments db) \<Longrightarrow> e \<in> set (departments db) \<Longrightarrow> deptId d = deptId e \<Longrightarrow> d = e"
  by (auto simp: directory_ok_def distinct_map dest: inj_onD)

lemma departmentOf_known:
  "departmentOf db i = Some d \<Longrightarrow> d \<in> set (departments db) \<and> i = Some (deptId d)"
  by (auto simp: departmentOf_def dest!: find_some split: option.splits)

lemma departmentOf_id:
  "directory_ok db \<Longrightarrow> d \<in> set (departments db) \<Longrightarrow> departmentOf db (Some (deptId d)) = Some d"
  unfolding departmentOf_def by (simp, rule find_unique) (auto dest: same_department)

lemma userOf_known: "userOf db i = Some u \<Longrightarrow> u \<in> set (userRows db) \<and> i = Some (userRowId u)"
  by (auto simp: userOf_def dest!: find_some split: option.splits)

section \<open>What is cached is what a lookup answers\<close>

lemma phone_queueSummary [simp]: "phoneEntries (queueDepartmentSummary r c) = phoneEntries c"
  by (simp add: queueDepartmentSummary_def split: option.split)

lemma phone_setPhone: "phoneEntries (setPhone q r c) p = (if q = p then Some r else phoneEntries c p)"
  by (simp add: setPhone_def)

lemma phone_setNumbers:
  "phoneEntries (setNumbers r ns c) p =
     (case find (\<lambda>n. numberPhone n = p) (rev ns) of
        None \<Rightarrow> phoneEntries c p
      | Some n \<Rightarrow> Some (routingEntry r n))"
  unfolding setNumbers_def
  by (rule fold_overwrites [where look = "\<lambda>c. phoneEntries c p"]) (simp add: phone_setPhone)

lemma loadRouting_none:
  "\<not> (\<exists>n \<in> set (numbers db). numberPhone n = p \<and> routableNumber n) \<Longrightarrow> loadRouting publicUrl db p = None"
  unfolding loadRouting_def by (subst find_none) auto

lemma loadRouting_number:
  assumes "directory_ok db" and "n \<in> set (numbers db)" and "routableNumber n"
  shows "loadRouting publicUrl db (numberPhone n) =
    (case departmentOf db (numberDepartment n) of
       Some d \<Rightarrow> if \<not> deptDeleted d then Some (routingEntry (projectDepartmentRouting publicUrl db d) n)
                 else (case userOf db (numberUser n) of
                         Some u \<Rightarrow> if \<not> userDeleted u then Some (routingEntry (projectUserRouting u) n) else None
                       | None \<Rightarrow> None)
     | None \<Rightarrow> (case userOf db (numberUser n) of
                  Some u \<Rightarrow> if \<not> userDeleted u then Some (routingEntry (projectUserRouting u) n) else None
                | None \<Rightarrow> None))"
proof -
  have "find (\<lambda>m. numberPhone m = numberPhone n \<and> routableNumber m) (numbers db) = Some n"
    by (rule find_unique) (use assms same_phone in auto)
  then show ?thesis by (simp add: loadRouting_def)
qed

lemma numbersOf_find:
  assumes "directory_ok db"
  shows "find (\<lambda>n. numberPhone n = p) (rev (numbersOf db i)) =
    (case find (\<lambda>n. numberPhone n = p \<and> routableNumber n) (numbers db) of
       Some n \<Rightarrow> if numberDepartment n = Some i then Some n else None
     | None \<Rightarrow> None)"
proof (cases "find (\<lambda>n. numberPhone n = p \<and> routableNumber n) (numbers db)")
  case None
  then have "find (\<lambda>n. numberPhone n = p) (rev (numbersOf db i)) = None"
    by (intro find_none) (auto simp: find_None_iff numbersOf_def)
  then show ?thesis using None by simp
next
  case (Some n)
  then have n: "n \<in> set (numbers db)" "numberPhone n = p" "routableNumber n"
    by (auto dest: find_some)
  show ?thesis
  proof (cases "numberDepartment n = Some i")
    case True
    then have "find (\<lambda>n. numberPhone n = p) (rev (numbersOf db i)) = Some n"
      using n same_phone [OF assms] by (intro find_unique) (auto simp: numbersOf_def)
    then show ?thesis using Some True by simp
  next
    case False
    then have "find (\<lambda>n. numberPhone n = p) (rev (numbersOf db i)) = None"
      using n same_phone [OF assms] by (intro find_none) (auto simp: numbersOf_def)
    then show ?thesis using Some False by simp
  qed
qed

lemma phone_refreshDepartment:
  assumes "directory_ok db" and "d \<in> set (departments db)" and "\<not> deptDeleted d"
    and "n \<in> set (numbersOf db (deptId d))"
  shows "phoneEntries (refreshDepartment publicUrl db (deptId d) c) (numberPhone n) =
    loadRouting publicUrl db (numberPhone n)"
proof -
  have n: "n \<in> set (numbers db)" "routableNumber n" "numberDepartment n = Some (deptId d)"
    using assms(4) by (auto simp: numbersOf_def)
  have "find (\<lambda>m. numberPhone m = numberPhone n \<and> routableNumber m) (numbers db) = Some n"
    by (rule find_unique) (use n same_phone [OF assms(1)] in auto)
  moreover have "find (\<lambda>e. deptId e = deptId d \<and> \<not> deptDeleted e) (departments db) = Some d"
    by (rule find_unique) (use assms(2,3) same_department [OF assms(1)] in auto)
  ultimately show ?thesis
    using n assms(3)
    by (simp add: refreshDepartment_def Let_def phone_setNumbers numbersOf_find [OF assms(1)]
        loadRouting_number [OF assms(1) n(1,2)] departmentOf_id [OF assms(1,2)])
qed

lemma phone_refreshed:
  "phoneEntries (refreshPhoneNumbers publicUrl [(p, db)] c) p = loadRouting publicUrl db p"
  by (simp add: queueRouting_def phone_setPhone split: option.split)

lemma phone_lookup:
  "lookupForController publicUrl db p c = (answer, c') \<Longrightarrow> answer = loadRouting publicUrl db p \<and>
     (answer \<noteq> None \<longrightarrow> phoneEntries c' p = answer)"
  by (auto simp: lookupForController_def queueRouting_def phone_setPhone split: option.splits)

lemma phone_warmDepartment:
  assumes "directory_ok db"
  shows "phoneEntries (warmDepartment publicUrl db d c) p =
    (case find (\<lambda>n. numberPhone n = p \<and> routableNumber n) (numbers db) of
       Some n \<Rightarrow> if numberDepartment n = Some (deptId d)
                 then Some (routingEntry (projectDepartmentRouting publicUrl db d) n) else phoneEntries c p
     | None \<Rightarrow> phoneEntries c p)"
proof (cases "numbersOf db (deptId d) = []")
  case True
  then show ?thesis
    by (auto simp: warmDepartment_def numbersOf_def filter_empty_conv dest!: find_some split: option.split)
next
  case False
  then show ?thesis
    by (simp add: warmDepartment_def Let_def phone_setNumbers numbersOf_find [OF assms] split: option.split)
qed

definition directOwner :: "line_db \<Rightarrow> number_row \<Rightarrow> user_row option" where
  "directOwner db n =
     (if routableNumber n \<and> numberDepartment n = None
      then (case userOf db (numberUser n) of
              Some u \<Rightarrow> if userDeleted u then None else Some u
            | None \<Rightarrow> None)
      else None)"

lemma set_directLines: "(n, u) \<in> set (directLines db) \<longleftrightarrow> n \<in> set (numbers db) \<and> directOwner db n = Some u"
  by (force simp: directLines_def directOwner_def map_filter_def split: option.splits if_splits)

text \<open>Every way an entry gets into the cache writes the same: after warming it up, each number has
  the entry the controller's lookup would be answered with, but a number that kept a deleted department
  beside its user, which a lookup alone resolves; what routes nowhere is left as it was.\<close>

theorem warm_cache_is_what_lookups_answer:
  assumes "directory_ok db"
  shows "phoneEntries (warmAll publicUrl db c) p =
    (case find (\<lambda>n. numberPhone n = p \<and> routableNumber n) (numbers db) of
       None \<Rightarrow> phoneEntries c p
     | Some n \<Rightarrow>
         if loadRouting publicUrl db p = None \<or>
            (numberDepartment n \<noteq> None \<and>
             (case departmentOf db (numberDepartment n) of None \<Rightarrow> True | Some d \<Rightarrow> deptDeleted d))
         then phoneEntries c p
         else loadRouting publicUrl db p)"
proof -
  let ?found = "find (\<lambda>n. numberPhone n = p \<and> routableNumber n) (numbers db)"
  let ?live = "filter (\<lambda>d. \<not> deptDeleted d) (departments db)"
  let ?ofDepartment = "\<lambda>d. \<exists>n. ?found = Some n \<and> numberDepartment n = Some (deptId d)"
  let ?warmed = "fold (warmDepartment publicUrl db) ?live c"
  have departments: "phoneEntries ?warmed p = (case find ?ofDepartment (rev ?live) of
      None \<Rightarrow> phoneEntries c p
    | Some d \<Rightarrow> Some (routingEntry (projectDepartmentRouting publicUrl db d) (the ?found)))"
    by (rule fold_overwrites [where look = "\<lambda>c. phoneEntries c p"])
      (simp add: phone_warmDepartment [OF assms] split: option.split)
  have direct: "phoneEntries (warmAll publicUrl db c) p =
      (case find (\<lambda>x. numberPhone (fst x) = p) (rev (directLines db)) of
         None \<Rightarrow> phoneEntries ?warmed p
       | Some x \<Rightarrow> Some (routingEntry (projectUserRouting (snd x)) (fst x)))"
    unfolding warmAll_def
    by (rule fold_overwrites [where look = "\<lambda>c. phoneEntries c p"]) (simp add: phone_setPhone)
  show ?thesis
  proof (cases ?found)
    case None
    then have "find (\<lambda>x. numberPhone (fst x) = p) (rev (directLines db)) = None"
      by (intro find_none) (auto simp: set_directLines directOwner_def find_None_iff split: if_splits)
    moreover have "find ?ofDepartment (rev ?live) = None" using None by (intro find_none) simp
    ultimately show ?thesis using None direct departments by simp
  next
    case (Some n)
    then have n: "n \<in> set (numbers db)" "numberPhone n = p" "routableNumber n" by (auto dest: find_some)
    have "find (\<lambda>x. numberPhone (fst x) = p) (rev (directLines db)) = map_option (Pair n) (directOwner db n)"
    proof (cases "directOwner db n")
      case None
      have "numberPhone (fst x) \<noteq> p" if "x \<in> set (rev (directLines db))" for x
      proof -
        have "fst x \<in> set (numbers db)" "directOwner db (fst x) = Some (snd x)"
          using that set_directLines [of "fst x" "snd x" db] by simp_all
        then show ?thesis using None same_phone [OF assms n(1)] n(2) by (metis option.distinct(1))
      qed
      then show ?thesis using None find_none [of "rev (directLines db)"] by simp
    next
      case (Some u)
      have only: "x = (n, u)" if "x \<in> set (rev (directLines db))" and "numberPhone (fst x) = p" for x
      proof -
        have "fst x \<in> set (numbers db)" "directOwner db (fst x) = Some (snd x)"
          using that(1) set_directLines [of "fst x" "snd x" db] by simp_all
        then show ?thesis
          using Some that(2) same_phone [OF assms n(1)] n(2) by (metis option.inject prod.collapse)
      qed
      have "(n, u) \<in> set (rev (directLines db))" using Some n(1) by (simp add: set_directLines)
      then have "find (\<lambda>x. numberPhone (fst x) = p) (rev (directLines db)) = Some (n, u)"
        by (rule find_unique) (simp add: n(2), rule only)
      then show ?thesis using Some by simp
    qed
    moreover have "find ?ofDepartment (rev ?live) = (case departmentOf db (numberDepartment n) of
        None \<Rightarrow> None | Some d \<Rightarrow> if deptDeleted d then None else Some d)"
    proof (cases "\<exists>d. departmentOf db (numberDepartment n) = Some d \<and> \<not> deptDeleted d")
      case True
      then obtain d where d: "departmentOf db (numberDepartment n) = Some d" "\<not> deptDeleted d" by blast
      have "find ?ofDepartment (rev ?live) = Some d"
        by (rule find_unique) (use d departmentOf_known [OF d(1)] Some same_department [OF assms] in auto)
      then show ?thesis using d by simp
    next
      case False
      then have "find ?ofDepartment (rev ?live) = None"
        using Some departmentOf_id [OF assms] by (intro find_none) auto
      then show ?thesis using False by (auto split: option.split)
    qed
    ultimately show ?thesis
      using Some direct departments loadRouting_number [OF assms n(1,3), of publicUrl] n(2,3)
      by (cases "numberDepartment n")
        (auto simp: directOwner_def departmentOf_def split: option.splits)
  qed
qed

section \<open>A line is listed when a call from it is accepted\<close>

lemma member_ids: "set (map ouUserId (orderedMembers db d)) =
    {u \<in> set (map ouUserId (deptMembers d)). isLiveUser db u}"
  by (auto simp: orderedMembers_def)

lemma userIds_of_entry:
  "userIds (routingEntry (projectDepartmentRouting publicUrl db d) n) = map ouUserId (orderedMembers db d)"
  "userIds (routingEntry (projectUserRouting u) n) = [userRowId u]"
  "voiceEnabled (routingEntry t n) = Some (numberVoice n)"
  by (simp_all add: routingEntry_def projectDepartmentRouting_def projectUserRouting_def)

lemma granted_iff:
  "(\<exists>g. decideOutboundGrant request r now = IssueGrant g) \<longleftrightarrow>
     (\<exists>e. r = Some e \<and> ogrUserId request \<in> set (userIds e) \<and> voiceEnabled e \<noteq> Some False)"
  by (auto simp: decideOutboundGrant_def planOutboundCall_def split: option.split)

lemma live_user: "isLiveUser db u \<longleftrightarrow> (\<exists>r. userOf db (Some u) = Some r \<and> \<not> userDeleted r)"
  by (auto simp: isLiveUser_def split: option.split)

lemma may_call_iff:
  assumes "directory_ok db" and "isLiveUser db u" and "n \<in> set (numbers db)"
  shows "mayCallFrom db u n \<longleftrightarrow>
    routableNumber n \<and>
    (\<exists>g. decideOutboundGrant \<lparr>ogrUserId = u, ogrTo = callee, ogrFromNumber = numberPhone n\<rparr>
      (loadRouting publicUrl db (numberPhone n)) now = IssueGrant g)"
proof (cases "routableNumber n")
  case True
  obtain r where r: "userOf db (Some u) = Some r" "\<not> userDeleted r" "userRowId r = u"
    using assms(2) userOf_known unfolding live_user by blast
  have route: "routableNumber n \<longleftrightarrow> \<not> numberDeleted n \<and> numberStatus n = ''ACTIVE''"
    by (simp add: routableNumber_def)
  show ?thesis
  proof (cases "\<exists>d. departmentOf db (numberDepartment n) = Some d \<and> \<not> deptDeleted d")
    case live: True
    then obtain d where d: "departmentOf db (numberDepartment n) = Some d" "\<not> deptDeleted d" by blast
    have "numberUser n = None" using assms(1,3) d by (auto simp: directory_ok_def)
    then have "mayCallFrom db u n \<longleftrightarrow> numberVoice n \<and> u \<in> set (map ouUserId (deptMembers d))"
      using True d route by (simp add: mayCallFrom_def)
    also have "\<dots> \<longleftrightarrow> numberVoice n \<and> u \<in> set (map ouUserId (orderedMembers db d))"
      unfolding member_ids using assms(2) by simp
    finally show ?thesis
      using True d by (simp add: granted_iff loadRouting_number [OF assms(1,3) True] userIds_of_entry conj_commute)
  next
    case dead: False
    then have load: "loadRouting publicUrl db (numberPhone n) =
        (case userOf db (numberUser n) of
           Some v \<Rightarrow> if \<not> userDeleted v then Some (routingEntry (projectUserRouting v) n) else None
         | None \<Rightarrow> None)"
      by (auto simp: loadRouting_number [OF assms(1,3) True] split: option.split)
    have may: "mayCallFrom db u n \<longleftrightarrow> numberVoice n \<and> numberUser n = Some u"
      using True dead route by (auto simp: mayCallFrom_def split: option.split)
    show ?thesis
    proof (cases "numberUser n = Some u")
      case mine: True
      then show ?thesis using True may r by (simp add: granted_iff load userIds_of_entry)
    next
      case other: False
      have "userRowId v \<noteq> u" if "userOf db (numberUser n) = Some v" for v
        using userOf_known [OF that] other by auto
      then show ?thesis
        using True may other by (auto simp: granted_iff load userIds_of_entry split: option.split_asm if_split_asm)
    qed
  qed
qed (auto simp: mayCallFrom_def routableNumber_def)

lemma listed_numbers:
  "set (listOutboundLines collate db u) =
     {l. \<exists>n \<in> set (numbers db). mayCallFrom db u n \<and> toOutboundLine db n = Some l}"
  by (force simp: listOutboundLines_def map_filter_def image_iff)

lemma toOutboundLine_number: "toOutboundLine db n = Some l \<Longrightarrow> outLineNumber l = numberPhone n"
  by (auto simp: toOutboundLine_def Let_def split: option.splits if_splits)

lemma toOutboundLine_some:
  assumes "isLiveUser db u" and "mayCallFrom db u n"
  shows "toOutboundLine db n \<noteq> None"
  using assms
  by (auto simp: toOutboundLine_def mayCallFrom_def live_user Let_def split: option.splits)

text \<open>C24. A line is offered to a user exactly when a call from it is granted: over the API's list and its
  routing entry on one side and the controller's decision on the other, and for every number and callee.\<close>

theorem lines_offered_are_lines_granted:
  assumes "directory_ok db" and "isLiveUser db u"
  shows "p \<in> set (map outLineNumber (listOutboundLines collate db u)) \<longleftrightarrow>
    (\<exists>g. decideOutboundGrant \<lparr>ogrUserId = u, ogrTo = callee, ogrFromNumber = p\<rparr>
      (loadRouting publicUrl db p) now = IssueGrant g)"
proof
  assume "p \<in> set (map outLineNumber (listOutboundLines collate db u))"
  then obtain n where "n \<in> set (numbers db)" "mayCallFrom db u n" "numberPhone n = p"
    by (auto simp: listed_numbers dest: toOutboundLine_number)
  then show "\<exists>g. decideOutboundGrant \<lparr>ogrUserId = u, ogrTo = callee, ogrFromNumber = p\<rparr>
      (loadRouting publicUrl db p) now = IssueGrant g"
    using may_call_iff [OF assms] by blast
next
  assume granted: "\<exists>g. decideOutboundGrant \<lparr>ogrUserId = u, ogrTo = callee, ogrFromNumber = p\<rparr>
      (loadRouting publicUrl db p) now = IssueGrant g"
  then have routed: "loadRouting publicUrl db p \<noteq> None" by (auto simp: granted_iff)
  have "\<exists>n \<in> set (numbers db). numberPhone n = p \<and> routableNumber n"
  proof (rule ccontr)
    assume "\<not> (\<exists>n \<in> set (numbers db). numberPhone n = p \<and> routableNumber n)"
    from loadRouting_none [OF this, of publicUrl] routed show False by contradiction
  qed
  then obtain n where n: "n \<in> set (numbers db)" "numberPhone n = p" "routableNumber n" by blast
  then have "mayCallFrom db u n" using may_call_iff [OF assms n(1)] granted by blast
  then show "p \<in> set (map outLineNumber (listOutboundLines collate db u))"
    using toOutboundLine_some [OF assms(2)] n toOutboundLine_number
    by (force simp: listed_numbers image_iff)
qed

definition sampleDirectory :: line_db where
  "sampleDirectory =
     \<lparr>numbers = [\<lparr>numberId = ''n1'', numberPhone = ''+15551230002'', numberLabel = None,
        numberDeleted = False, numberStatus = ''ACTIVE'', numberVoice = True, numberPrimary = True,
        numberUser = None, numberDepartment = Some ''d1''\<rparr>],
      departments = [\<lparr>deptId = ''d1'', deptName = ''Sales'', deptDeleted = False,
        deptMembers = [\<lparr>ouUserId = ''u1'', ouOrder = 0\<rparr>], deptSettings = None, deptHours = [],
        deptHolidays = []\<rparr>],
      userRows = [\<lparr>userRowId = ''u1'', userName = None, userEmail = ''u1@x'', userDeleted = False\<rparr>]\<rparr>"

lemma sample_directory_ok: "directory_ok sampleDirectory" "isLiveUser sampleDirectory ''u1''"
  by (simp_all add: directory_ok_def isLiveUser_def userOf_def sampleDirectory_def)

theorem lines_offered_are_lines_granted_witness:
  "''+15551230002'' \<in> set (map outLineNumber (listOutboundLines (\<lambda>a b. 0) sampleDirectory ''u1'')) \<longleftrightarrow>
    (\<exists>g. decideOutboundGrant \<lparr>ogrUserId = ''u1'', ogrTo = ''+1'', ogrFromNumber = ''+15551230002''\<rparr>
      (loadRouting ''https://x'' sampleDirectory ''+15551230002'') 0 = IssueGrant g)"
  using lines_offered_are_lines_granted [OF sample_directory_ok] .

theorem warm_cache_is_what_lookups_answer_witness:
  "phoneEntries (warmAll ''https://x'' sampleDirectory \<lparr>phoneEntries = Map.empty, departmentEntries = Map.empty\<rparr>)
     ''+15551230002'' = loadRouting ''https://x'' sampleDirectory ''+15551230002'' \<and>
   loadRouting ''https://x'' sampleDirectory ''+15551230002'' \<noteq> None"
proof -
  have "loadRouting ''https://x'' sampleDirectory ''+15551230002'' \<noteq> None"
    by (simp add: loadRouting_def sampleDirectory_def routableNumber_def departmentOf_def)
  moreover have "phoneEntries (warmAll ''https://x'' sampleDirectory
      \<lparr>phoneEntries = Map.empty, departmentEntries = Map.empty\<rparr>) ''+15551230002'' =
      loadRouting ''https://x'' sampleDirectory ''+15551230002''"
    using warm_cache_is_what_lookups_answer [OF sample_directory_ok(1), of "''https://x''"
      "\<lparr>phoneEntries = Map.empty, departmentEntries = Map.empty\<rparr>" "''+15551230002''"] calculation
    by (simp add: sampleDirectory_def routableNumber_def departmentOf_def)
  ultimately show ?thesis by blast
qed

end
