(* ===== verification/Softphone_Display.thy ===== *)
theory Softphone_Display
  imports Softphone Line_Directory
begin

text \<open>
  What the softphone shows around its session: the fate of an offered call (\<open>incoming-offer.ts\<close>), the
  connection and availability it reports (\<open>connection-status.ts\<close>, \<open>availability.ts\<close>), the line under
  the number (\<open>call-status-line.ts\<close>, \<open>duration.ts\<close>), who hands a call over (\<open>transfer-offer.ts\<close>) and
  which of the user's numbers a call leaves from (\<open>call-line.ts\<close>), all under
  \<open>apps/web/src/lib/telephony/\<close> (\<open>duration.ts\<close> one directory up).
\<close>

section \<open>The fate of an offer\<close>

text \<open>Offers are objects compared by identity.\<close>

type_synonym offer = nat

datatype offer_fate = ShowOffer | HoldOffer | DismissOffer

datatype phone_phase = PhoneFree | PhoneRung | PhoneBusy

record offer_memory =
  phase :: phone_phase
  memoryOffer :: "offer option"
  heldOffer :: "offer option"
  rungOffer :: "offer option"

definition NO_OFFER_MEMORY :: offer_memory where
  "NO_OFFER_MEMORY = \<lparr>phase = PhoneFree, memoryOffer = None, heldOffer = None, rungOffer = None\<rparr>"

record offer_question =
  askedStatus :: phone_status
  askedOffer :: "offer option"
  answeredOffer :: "offer option"
  expiredOffer :: "offer option"

definition RING_DURATION_MAX_SECONDS :: nat where
  "RING_DURATION_MAX_SECONDS = 45"

definition OFFER_EXPIRY_MS :: millis where
  "OFFER_EXPIRY_MS = (RING_DURATION_MAX_SECONDS + 5 + 10) * 1000"

fun phaseOf :: "phone_status \<Rightarrow> phone_phase \<Rightarrow> phone_phase" where
  "phaseOf CallIdle before = PhoneFree"
| "phaseOf CallDisconnected before = PhoneFree"
| "phaseOf CallConnecting before = PhoneBusy"
| "phaseOf CallConnected before = PhoneBusy"
| "phaseOf CallDisconnecting before = PhoneBusy"
| "phaseOf CallRinging before = (if before = PhoneBusy then PhoneBusy else PhoneRung)"

definition fateIn ::
    "phone_phase \<Rightarrow> offer \<Rightarrow> offer_memory \<Rightarrow> offer option \<Rightarrow> offer option \<Rightarrow> offer_fate" where
  "fateIn now offer memory tapped expired =
     (let hasExpired = (expired = Some offer);
          wasHeld = (heldOffer memory = Some offer);
          wasRinging = (phase memory = PhoneRung);
          rangForThis = (wasRinging \<and> rungOffer memory = Some offer)
      in case now of
           PhoneRung \<Rightarrow> ShowOffer
         | PhoneBusy \<Rightarrow>
             if hasExpired then DismissOffer
             else
               let wasOnScreen = (memoryOffer memory = Some offer \<and> \<not> wasHeld);
                   wasAnsweredEarly = (\<not> wasRinging \<and> tapped = Some offer);
                   wasAnswered = (wasOnScreen \<and> (rangForThis \<or> wasAnsweredEarly))
               in if wasAnswered then DismissOffer else HoldOffer
         | PhoneFree \<Rightarrow>
             let isAwaitingRing = (tapped = Some offer) in
             if rangForThis \<or> (hasExpired \<and> \<not> isAwaitingRing) then DismissOffer
             else if wasHeld then HoldOffer else ShowOffer)"

definition offerFate :: "offer_memory \<Rightarrow> offer_question \<Rightarrow> offer_fate option \<times> offer_memory" where
  "offerFate memory q =
     (let now = phaseOf (askedStatus q) (phase memory);
          fate = map_option (\<lambda>offer. fateIn now offer memory (answeredOffer q) (expiredOffer q))
                   (askedOffer q)
      in (fate,
          \<lparr>phase = now, memoryOffer = askedOffer q,
           heldOffer = (if fate = Some HoldOffer then askedOffer q else None),
           rungOffer = (if now = PhoneRung
                        then (case rungOffer memory of None \<Rightarrow> askedOffer q | Some r \<Rightarrow> Some r)
                        else None)\<rparr>))"

datatype early_answer = EarlyConnecting | PhoneNotReady

definition earlyAnswerOf ::
    "offer option \<Rightarrow> offer option \<Rightarrow> device_status \<Rightarrow> early_answer option" where
  "earlyAnswerOf offer tapped device =
     (if offer = None \<or> tapped \<noteq> offer then None
      else Some (if device = DeviceReady then EarlyConnecting else PhoneNotReady))"

text \<open>Asked after every change: the memory after a list of questions, oldest first.\<close>

primrec offerMemory :: "offer_question list \<Rightarrow> offer_memory \<Rightarrow> offer_memory" where
  "offerMemory [] m = m"
| "offerMemory (q # qs) m = offerMemory qs (snd (offerFate m q))"

section \<open>Connection and availability\<close>

datatype connection_status = ConnOnline | ConnConnecting | ConnOffline

definition connectionStatus :: "device_status \<Rightarrow> bool \<Rightarrow> connection_status" where
  "connectionStatus device connected =
     (if device = DeviceReady \<and> connected then ConnOnline
      else if device = DeviceError then ConnOffline
      else if device \<noteq> DeviceOffline \<or> connected then ConnConnecting
      else ConnOffline)"

record heard_availability =
  heardUser :: user_id
  heardState :: availability_state
  heardRevision :: nat

record own_answer =
  answeredAvailability :: heard_availability
  ownSwitch :: bool

record own_availability =
  doNotDisturbShown :: bool
  ownRevision :: nat

definition ownAvailabilityOf :: "own_answer \<Rightarrow> own_availability" where
  "ownAvailabilityOf r =
     \<lparr>doNotDisturbShown = ownSwitch r, ownRevision = heardRevision (answeredAvailability r)\<rparr>"

definition applyOwnSnapshot :: "own_availability option \<Rightarrow> own_answer \<Rightarrow> own_availability option" where
  "applyOwnSnapshot current snapshot =
     (case current of
        Some c \<Rightarrow> if heardRevision (answeredAvailability snapshot) < ownRevision c then current
                 else Some (ownAvailabilityOf snapshot)
      | None \<Rightarrow> Some (ownAvailabilityOf snapshot))"

definition applyOwnAnswer :: "own_answer \<Rightarrow> own_availability" where
  "applyOwnAnswer answer = ownAvailabilityOf answer"

definition applyOwnEvent ::
    "own_availability option \<Rightarrow> heard_availability \<Rightarrow> own_availability option" where
  "applyOwnEvent current event =
     (case current of
        Some c \<Rightarrow>
          if heardRevision event \<le> ownRevision c then current
          else if heardState event = Unavailable IsOffline
          then Some (c\<lparr>ownRevision := heardRevision event\<rparr>)
          else Some \<lparr>doNotDisturbShown = (heardState event = Unavailable IsDnd),
                     ownRevision = heardRevision event\<rparr>
      | None \<Rightarrow>
          if heardState event = Unavailable IsOffline then None
          else Some \<lparr>doNotDisturbShown = (heardState event = Unavailable IsDnd),
                     ownRevision = heardRevision event\<rparr>)"

definition mergeOne ::
    "heard_availability \<Rightarrow> (user_id \<rightharpoonup> heard_availability) \<Rightarrow> (user_id \<rightharpoonup> heard_availability)" where
  "mergeOne entry merged =
     (case merged (heardUser entry) of
        None \<Rightarrow> merged(heardUser entry \<mapsto> entry)
      | Some known \<Rightarrow>
          if heardRevision known \<le> heardRevision entry then merged(heardUser entry \<mapsto> entry)
          else merged)"

definition mergeTeammateAvailability ::
    "(user_id \<rightharpoonup> heard_availability) \<Rightarrow> heard_availability list \<Rightarrow>
       (user_id \<rightharpoonup> heard_availability)" where
  "mergeTeammateAvailability current snapshot = fold mergeOne snapshot current"

fun unavailableReason :: "unavailable_reason \<Rightarrow> string" where
  "unavailableReason IsBusy = ''On a call''"
| "unavailableReason IsDnd = ''Do not disturb''"
| "unavailableReason IsOffline = ''Offline''"

fun transferChoiceOf :: "availability_state option \<Rightarrow> bool \<times> string option" where
  "transferChoiceOf None = (True, None)"
| "transferChoiceOf (Some Available) = (True, None)"
| "transferChoiceOf (Some (Unavailable r)) = (False, Some (unavailableReason r))"

definition indicatorStatus :: "connection_status \<Rightarrow> bool option \<Rightarrow> connection_status option" where
  "indicatorStatus connection dnd =
     (if connection = ConnOnline \<and> dnd = Some True then None else Some connection)"

definition transferredByName :: "user_id option \<Rightarrow> (user_id \<times> string) list \<Rightarrow> string option" where
  "transferredByName by teammates =
     (case by of
        None \<Rightarrow> None
      | Some u \<Rightarrow> Some (case map_of teammates u of None \<Rightarrow> ''a teammate'' | Some name \<Rightarrow> name))"

section \<open>The line under the number\<close>

text \<open>Whole seconds; the source floors what is not.\<close>

definition formatDuration :: "int \<Rightarrow> string" where
  "formatDuration seconds =
     (if seconds \<le> 0 then ''0:00''
      else let total = nat seconds;
               hrs = total div 3600;
               mins = total mod 3600 div 60;
               secs = total mod 60
           in if 0 < hrs then decimalNat hrs @ '':'' @ padStart2 (decimalNat mins) @ '':'' @ padStart2 (decimalNat secs)
              else decimalNat mins @ '':'' @ padStart2 (decimalNat secs))"

datatype call_tone =
  RingingTone | ConnectingTone | ConnectedTone | HeldTone | TransferringTone | EndingTone | OverTone

definition holdPrefix :: string where
  "holdPrefix = ''On hold '' @ [CHR 0xC2, CHR 0xB7] @ '' ''"

definition callStatusLine :: "telephony_state \<Rightarrow> int \<Rightarrow> string \<times> call_tone" where
  "callStatusLine call duration =
     (case callStatus call of
        CallIdle \<Rightarrow> ([], OverTone)
      | CallConnecting \<Rightarrow> (''Connecting...'', ConnectingTone)
      | CallRinging \<Rightarrow> (''Ringing...'', RingingTone)
      | CallDisconnecting \<Rightarrow> (''Ending...'', EndingTone)
      | CallDisconnected \<Rightarrow>
          (if endReason call = ShownTransferred then ''Call transferred'' else ''Call ended'', OverTone)
      | CallConnected \<Rightarrow>
          (case transferShown call of
             Some p \<Rightarrow>
               ((case progressStatus p of
                   Cancelling \<Rightarrow> ''Cancelling transfer...''
                 | TeammateAnswered \<Rightarrow> targetLabel (progressTarget p) @ '' answered''
                 | _ \<Rightarrow> ''Transferring to '' @ targetLabel (progressTarget p) @ ''...''),
                TransferringTone)
           | None \<Rightarrow>
               if isOnHold call then (holdPrefix @ formatDuration duration, HeldTone)
               else (formatDuration duration, ConnectedTone)))"

section \<open>The line a call leaves from\<close>

datatype call_lines = LinesLoading | LinesSignedOut | LinesFailed | LinesLoaded "outbound_line list"

record call_lines_answer =
  answerUser :: user_id
  answerLines :: "outbound_line list option"

text \<open>\<open>!session.userId\<close>: an absent id, or an empty one.\<close>

definition callLinesOf :: "user_id option \<Rightarrow> bool \<Rightarrow> call_lines_answer option \<Rightarrow> call_lines" where
  "callLinesOf user isLoading answer =
     (if \<not> truthy user then (if isLoading then LinesLoading else LinesSignedOut)
      else case answer of
        None \<Rightarrow> LinesLoading
      | Some a \<Rightarrow>
          if Some (answerUser a) \<noteq> user then LinesLoading
          else case answerLines a of Some ls \<Rightarrow> LinesLoaded ls | None \<Rightarrow> LinesFailed)"

definition nextCallLinesAnswer ::
    "call_lines_answer option \<Rightarrow> call_lines_answer \<Rightarrow> call_lines_answer option" where
  "nextCallLinesAnswer previous settled =
     (case previous of
        Some p \<Rightarrow> if answerLines settled = None \<and> answerLines p \<noteq> None \<and>
                    answerUser p = answerUser settled
                 then previous else Some settled
      | None \<Rightarrow> Some settled)"

definition chosenLineIdFor :: "(user_id \<times> string) option \<Rightarrow> user_id option \<Rightarrow> string option" where
  "chosenLineIdFor choice user =
     (case choice of
        Some (who, lineId) \<Rightarrow> if Some who = user then Some lineId else None
      | None \<Rightarrow> None)"

datatype call_eligibility = CanCall outbound_line | CannotCall string

definition defaultCallLine :: "outbound_line list \<Rightarrow> outbound_line option" where
  "defaultCallLine lines =
     orElse (find (\<lambda>l. outLineOwner l = UserLine) lines)
       (find (\<lambda>l. outLineOwner l = DepartmentLine) lines)"

definition NO_LINES :: string where
  "NO_LINES = ''You have no number to call from. Ask an administrator to assign you one.''"

definition NOT_CALLABLE :: string where
  "NOT_CALLABLE = ''This contact has no number to call.''"

fun whyNotLoaded :: "call_lines \<Rightarrow> string" where
  "whyNotLoaded LinesLoading = ''Loading the numbers you can call from'' @ [CHR 0xE2, CHR 0x80, CHR 0xA6]"
| "whyNotLoaded LinesSignedOut = ''You are not signed in.''"
| "whyNotLoaded LinesFailed = ''The numbers you can call from could not be loaded.''"
| "whyNotLoaded (LinesLoaded lines) = []"

definition callFromChosenLine :: "call_lines \<Rightarrow> string option \<Rightarrow> call_eligibility" where
  "callFromChosenLine callLines chosen =
     (case callLines of
        LinesLoaded lines \<Rightarrow>
          (case orElse (find (\<lambda>l. Some (outLineId l) = chosen) lines) (defaultCallLine lines) of
             Some line \<Rightarrow> CanCall line
           | None \<Rightarrow> CannotCall NO_LINES)
      | _ \<Rightarrow> CannotCall (whyNotLoaded callLines))"

definition callFromConversationLine :: "call_lines \<Rightarrow> string \<Rightarrow> call_eligibility" where
  "callFromConversationLine callLines number =
     (case callLines of
        LinesLoaded lines \<Rightarrow>
          if lines = [] then CannotCall NO_LINES
          else (case find (\<lambda>l. outLineNumber l = number) lines of
                  Some line \<Rightarrow> CanCall line
                | None \<Rightarrow> CannotCall ''You cannot call from the number this conversation is on.'')
      | _ \<Rightarrow> CannotCall (whyNotLoaded callLines))"

definition callBackFromLine :: "call_lines \<Rightarrow> string \<Rightarrow> string option \<Rightarrow> call_eligibility" where
  "callBackFromLine callLines number chosen =
     (case callFromConversationLine callLines number of
        CanCall line \<Rightarrow> CanCall line
      | CannotCall _ \<Rightarrow> callFromChosenLine callLines chosen)"

definition callToContact :: "call_eligibility \<Rightarrow> string \<Rightarrow> call_eligibility" where
  "callToContact eligibility contact =
     (if toE164PhoneNumber contact = None then CannotCall NOT_CALLABLE else eligibility)"

section \<open>An offer goes for a reason\<close>

text \<open>The phone rang while the offer was there.\<close>

definition rang_with :: "offer \<Rightarrow> offer_question list \<Rightarrow> bool" where
  "rang_with x qs \<longleftrightarrow> (\<exists>q \<in> set qs. askedStatus q = CallRinging \<and> askedOffer q = Some x)"

definition remembers :: "offer_question list \<Rightarrow> offer_memory \<Rightarrow> bool" where
  "remembers qs m \<longleftrightarrow> (\<forall>x. rungOffer m = Some x \<longrightarrow> rang_with x qs)"

lemma phase_rung: "phaseOf st before = PhoneRung \<Longrightarrow> st = CallRinging"
  by (cases st) auto

lemma remembers_next:
  assumes "remembers qs m"
  shows "remembers (qs @ [q]) (snd (offerFate m q))"
  using assms
  by (auto simp: remembers_def rang_with_def offerFate_def Let_def dest!: phase_rung
      split: if_splits option.splits)

lemma remembers_run: "remembers ps m \<Longrightarrow> remembers (ps @ qs) (offerMemory qs m)"
proof (induction qs arbitrary: ps m)
  case (Cons q qs)
  show ?case using Cons.IH [OF remembers_next [OF Cons.prems]] by simp
qed simp

lemma dismissed_reason:
  "fst (offerFate m q) = Some DismissOffer \<Longrightarrow>
     \<exists>x. askedOffer q = Some x \<and>
       (expiredOffer q = Some x \<or> answeredOffer q = Some x \<or> rungOffer m = Some x)"
  by (cases "phaseOf (askedStatus q) (phase m)")
    (auto simp: offerFate_def fateIn_def Let_def split: if_splits)

text \<open>Over any history of the phone, an offer is taken away only once it has been there for longer
  than any ring can last, it was answered, or the phone rang while it was there.\<close>

theorem offers_go_only_for_a_reason:
  assumes "fst (offerFate (offerMemory qs NO_OFFER_MEMORY) q) = Some DismissOffer"
  shows "\<exists>x. askedOffer q = Some x \<and>
    (expiredOffer q = Some x \<or> answeredOffer q = Some x \<or> rang_with x qs)"
proof -
  have "remembers [] NO_OFFER_MEMORY" by (simp add: remembers_def NO_OFFER_MEMORY_def)
  from remembers_run [OF this, of qs] dismissed_reason [OF assms]
  show ?thesis by (auto simp: remembers_def)
qed

theorem offers_go_only_for_a_reason_witness:
  "\<exists>x. askedOffer (\<lparr>askedStatus = CallIdle, askedOffer = Some 1, answeredOffer = None,
       expiredOffer = None\<rparr> :: offer_question) = Some x \<and>
     (False \<or> False \<or> rang_with x [\<lparr>askedStatus = CallRinging, askedOffer = Some 1,
       answeredOffer = None, expiredOffer = None\<rparr>])"
  using offers_go_only_for_a_reason [where qs = "[\<lparr>askedStatus = CallRinging, askedOffer = Some 1,
       answeredOffer = None, expiredOffer = None\<rparr>]" and
     q = "\<lparr>askedStatus = CallIdle, askedOffer = Some 1, answeredOffer = None, expiredOffer = None\<rparr>"]
  by (simp add: offerFate_def fateIn_def NO_OFFER_MEMORY_def Let_def)

text \<open>While it rings, the offer with the only Answer button is on screen.\<close>

lemma rung_offer_is_shown:
  "askedStatus q = CallRinging \<Longrightarrow> phase m \<noteq> PhoneBusy \<Longrightarrow> askedOffer q = Some x \<Longrightarrow>
     fst (offerFate m q) = Some ShowOffer"
  by (simp add: offerFate_def fateIn_def)

section \<open>The newest word wins\<close>

definition newer :: "heard_availability option \<Rightarrow> heard_availability \<Rightarrow> heard_availability option" where
  "newer known e =
     (case known of None \<Rightarrow> Some e
      | Some k \<Rightarrow> if heardRevision k \<le> heardRevision e then Some e else Some k)"

lemma merged_for:
  "mergeTeammateAvailability m es u =
     fold (\<lambda>e k. newer k e) (filter (\<lambda>e. heardUser e = u) es) (m u)"
proof -
  have "fold mergeOne es m u = fold (\<lambda>e k. newer k e) (filter (\<lambda>e. heardUser e = u) es) (m u)"
    by (induction es arbitrary: m) (auto simp: mergeOne_def newer_def split: option.splits)
  then show ?thesis by (simp add: mergeTeammateAvailability_def)
qed

lemma newest_wins:
  "fold (\<lambda>e k. newer k e) es (Some k) = Some r \<Longrightarrow>
     r \<in> insert k (set es) \<and> (\<forall>e \<in> insert k (set es). heardRevision e \<le> heardRevision r)"
proof (induction es arbitrary: k)
  case (Cons e es)
  show ?case
  proof (cases "heardRevision k \<le> heardRevision e")
    case True
    then have "fold (\<lambda>e k. newer k e) es (Some e) = Some r"
      using Cons.prems by (simp add: newer_def)
    from Cons.IH [OF this] True show ?thesis by auto
  next
    case False
    then have "fold (\<lambda>e k. newer k e) es (Some k) = Some r"
      using Cons.prems by (simp add: newer_def)
    from Cons.IH [OF this] False show ?thesis by auto
  qed
qed simp

text \<open>What is shown of a teammate is the newest of everything heard of them, so a poll answered late
  cannot put back what a later one replaced.\<close>

lemma teammate_shows_newest:
  assumes "m u = Some k" and "mergeTeammateAvailability m es u = Some r"
  shows "heardRevision k \<le> heardRevision r \<and>
    (\<forall>e \<in> set es. heardUser e = u \<longrightarrow> heardRevision e \<le> heardRevision r)"
  using newest_wins [of "filter (\<lambda>e. heardUser e = u) es" k r] assms by (simp add: merged_for)

section \<open>The line is one of the user's\<close>

lemma orElse_some: "orElse a b = Some x \<Longrightarrow> a = Some x \<or> b = Some x"
  by (cases a) auto

lemma found_in: "find P xs = Some x \<Longrightarrow> x \<in> set xs"
  by (auto simp: find_Some_iff)

lemma chosen_line_is_own:
  "callFromChosenLine (LinesLoaded ls) chosen = CanCall l \<Longrightarrow> l \<in> set ls"
  by (auto simp: callFromChosenLine_def defaultCallLine_def dest!: orElse_some found_in split: option.splits)

lemma conversation_line_is_own:
  "callFromConversationLine (LinesLoaded ls) number = CanCall l \<Longrightarrow>
     l \<in> set ls \<and> outLineNumber l = number"
  by (auto simp: callFromConversationLine_def find_Some_iff split: if_splits option.splits)

lemma call_back_line_is_own: "callBackFromLine (LinesLoaded ls) number chosen = CanCall l \<Longrightarrow> l \<in> set ls"
  by (auto simp: callBackFromLine_def dest: chosen_line_is_own conversation_line_is_own
      split: call_eligibility.splits)

text \<open>Whatever the softphone picks from the lines the API lists, the controller grants a call from it.\<close>

lemma picked_line_is_granted:
  assumes "directory_ok db" and "isLiveUser db u"
    and "callFromChosenLine (LinesLoaded (listOutboundLines collate db u)) chosen = CanCall l \<or>
      callFromConversationLine (LinesLoaded (listOutboundLines collate db u)) number = CanCall l \<or>
      callBackFromLine (LinesLoaded (listOutboundLines collate db u)) number chosen = CanCall l"
  shows "\<exists>g. decideOutboundGrant \<lparr>ogrUserId = u, ogrTo = callee, ogrFromNumber = outLineNumber l\<rparr>
    (loadRouting publicUrl db (outLineNumber l)) now = IssueGrant g"
proof -
  have "l \<in> set (listOutboundLines collate db u)"
    using assms(3) chosen_line_is_own conversation_line_is_own call_back_line_is_own by blast
  then obtain n where n: "n \<in> set (numbers db)" "mayCallFrom db u n" "toOutboundLine db n = Some l"
    unfolding listed_numbers by blast
  show ?thesis
    using may_call_iff [THEN iffD1, OF assms(1,2) n(1,2)]
    unfolding toOutboundLine_number [OF n(3)] by (rule conjunct2)
qed

end
