(* ===== verification/Recording_Rules.thy ===== *)
theory Recording_Rules
  imports Call_Types
begin

text \<open>
  The rules of the API service about recordings of calls that need no I/O (\<open>apps/api/src/calls\<close>):
  \<open>recording-copy.ts\<close> (where a recording stands), \<open>retention.ts\<close> (when it has outlived its policy),
  \<open>twilio-recording.ts\<close> (which requests are signed with the account's credentials), and the parts of
  \<open>call-record.ts\<close> and \<open>call-scope.ts\<close> that say who is told of which recording.
\<close>

section \<open>A recording\<close>

datatype recording_context = VoicemailRecording | ConferenceRecording

datatype deletion_reason = RetentionPolicy | Manual

text \<open>The columns of \<open>CallRecording\<close> the service decides from.\<close>

record recording_row =
  recordingContext :: recording_context
  recordingSid :: string
  providerUrl :: string
  recordingDuration :: "nat option"
  objectKey :: "string option"
  providerDeletedAt :: "millis option"
  copyStartedAt :: "millis option"
  deletedAt :: "millis option"
  deletionReason :: "deletion_reason option"
  announcedAt :: millis

section \<open>Where a recording stands\<close>

datatype playback_source =
  FromStore string
| FromProvider
| SourceDeleted "deletion_reason option"
| SourceGone

datatype copy_plan = CopyFetch | CopySkip bool

definition playbackSource :: "recording_row \<Rightarrow> playback_source" where
  "playbackSource r =
     (if deletedAt r \<noteq> None then SourceDeleted (deletionReason r)
      else case objectKey r of
             Some key \<Rightarrow> FromStore key
           | None \<Rightarrow> (if providerDeletedAt r = None then FromProvider else SourceGone))"

definition copyPlan :: "recording_row \<Rightarrow> copy_plan" where
  "copyPlan r =
     (if deletedAt r \<noteq> None then CopySkip (providerDeletedAt r = None)
      else if objectKey r = None
           then (if providerDeletedAt r = None then CopyFetch else CopySkip False)
      else if providerDeletedAt r = None then CopySkip True else CopySkip False)"

definition recordingObjectKey :: "call_id \<Rightarrow> string \<Rightarrow> string" where
  "recordingObjectKey conversation sid =
     ''recordings/'' @ conversation @ ''/'' @ sid @ ''.mp3''"

text \<open>The context a recording is announced with, as the API reads it, and its timeline entry.\<close>

definition announcedContext :: "string option \<Rightarrow> recording_context" where
  "announcedContext context =
     (if context = None \<or> context = Some ''voicemail'' then VoicemailRecording
      else ConferenceRecording)"

section \<open>Retention\<close>

datatype retention_policy = KEEP_UNTIL_DELETED | DAYS_30 | DAYS_60 | DAYS_90 | DAYS_180
  | YEARS_1 | YEARS_2 | YEARS_3 | YEARS_5 | YEARS_7

fun retentionDays :: "retention_policy \<Rightarrow> nat option" where
  "retentionDays KEEP_UNTIL_DELETED = None"
| "retentionDays DAYS_30 = Some 30"
| "retentionDays DAYS_60 = Some 60"
| "retentionDays DAYS_90 = Some 90"
| "retentionDays DAYS_180 = Some 180"
| "retentionDays YEARS_1 = Some 365"
| "retentionDays YEARS_2 = Some (2 * 365)"
| "retentionDays YEARS_3 = Some (3 * 365)"
| "retentionDays YEARS_5 = Some (5 * 365)"
| "retentionDays YEARS_7 = Some (7 * 365)"

record recording_retention =
  voicemailPolicy :: retention_policy
  callRecordingsPolicy :: retention_policy

definition DAY_MS :: nat where
  "DAY_MS = 24 * 60 * 60 * 1000"

definition COPY_CLAIM_STALE_MS :: nat where
  "COPY_CLAIM_STALE_MS = 10 * 60 * 1000"

definition RETENTION_LOCK_TTL_SECONDS :: nat where
  "RETENTION_LOCK_TTL_SECONDS = 15 * 60"

definition policyFor :: "recording_retention \<Rightarrow> recording_context \<Rightarrow> retention_policy" where
  "policyFor retention context =
     (if context = VoicemailRecording then voicemailPolicy retention
      else callRecordingsPolicy retention)"

text \<open>Instants before 1970 are fine for a \<open>Date\<close>, so cutoffs are integers.\<close>

definition retentionCutoff :: "retention_policy \<Rightarrow> millis \<Rightarrow> int option" where
  "retentionCutoff policy now =
     map_option (\<lambda>days. int now - int (days * DAY_MS)) (retentionDays policy)"

definition isExpired :: "retention_policy \<Rightarrow> millis \<Rightarrow> millis \<Rightarrow> bool" where
  "isExpired policy created now =
     (case retentionCutoff policy now of None \<Rightarrow> False | Some cutoff \<Rightarrow> int created < cutoff)"

definition expiryScans :: "recording_retention \<Rightarrow> millis \<Rightarrow> (recording_context \<times> int) list" where
  "expiryScans retention now =
     concat (map (\<lambda>context. case retentionCutoff (policyFor retention context) now of
                    None \<Rightarrow> [] | Some cutoff \<Rightarrow> [(context, cutoff)])
       [VoicemailRecording, ConferenceRecording])"

definition staleClaimCutoff :: "millis \<Rightarrow> int" where
  "staleClaimCutoff now = int now - int COPY_CLAIM_STALE_MS"

text \<open>\<open>claimableCopyWhere\<close>, as the rows it selects.\<close>

definition claimableCopy :: "millis \<Rightarrow> recording_row \<Rightarrow> bool" where
  "claimableCopy now r \<longleftrightarrow> objectKey r = None \<and> deletedAt r = None
     \<and> (case copyStartedAt r of None \<Rightarrow> True | Some t \<Rightarrow> int t < staleClaimCutoff now)"

definition SWEEP_BUDGET_MS :: nat where
  "SWEEP_BUDGET_MS = RETENTION_LOCK_TTL_SECONDS * 1000 * 2 div 3"

definition sweepDeadline :: "millis \<Rightarrow> millis" where
  "sweepDeadline startedAt = startedAt + SWEEP_BUDGET_MS"

definition hasTimeLeft :: "millis \<Rightarrow> millis \<Rightarrow> bool" where
  "hasTimeLeft deadline now \<longleftrightarrow> now < deadline"

section \<open>Twilio's recording URLs\<close>

text \<open>What the WHATWG URL parser makes of a text; \<open>None\<close> where \<open>URL.canParse\<close> is false.\<close>

record url_parts =
  protocol :: string
  hostname :: string
  port :: string
  username :: string
  password :: string
  pathname :: string

definition isHex :: "char \<Rightarrow> bool" where
  "isHex c \<longleftrightarrow> c \<in> set ''0123456789abcdefABCDEF''"

text \<open>\<open>AC[0-9a-fA-F]{32}\<close> and \<open>RE[0-9a-fA-F]{32}\<close>.\<close>

definition isSid :: "string \<Rightarrow> string \<Rightarrow> bool" where
  "isSid kind s \<longleftrightarrow> take 2 s = kind \<and> length s = 34 \<and> list_all isHex (drop 2 s)"

definition accountsPath :: string where
  "accountsPath = ''/2010-04-01/Accounts/''"

definition recordingsPath :: string where
  "recordingsPath = ''/Recordings/''"

text \<open>\<open>RECORDING_PATH.exec\<close>: the account and the recording a path names. Both SIDs have a fixed length,
  so the pattern matches in one way at most.\<close>

definition matchRecordingPath :: "string \<Rightarrow> (string \<times> string) option" where
  "matchRecordingPath path =
     (let rest = drop (length accountsPath) path;
          account = take 34 rest;
          rest' = drop 34 rest;
          recording = take 34 (drop (length recordingsPath) rest');
          ending = drop 34 (drop (length recordingsPath) rest')
      in if take (length accountsPath) path = accountsPath \<and> isSid ''AC'' account
            \<and> take (length recordingsPath) rest' = recordingsPath \<and> isSid ''RE'' recording
            \<and> ending \<in> set [[], ''.mp3'', ''.wav'', ''.json'']
         then Some (account, recording) else None)"

definition parseRecordingUrl ::
  "(string \<Rightarrow> url_parts option) \<Rightarrow> string \<Rightarrow> (string \<times> string) option" where
  "parseRecordingUrl urlParse stored =
     (case urlParse stored of
        None \<Rightarrow> None
      | Some url \<Rightarrow>
          (if protocol url \<noteq> ''https:'' \<or> hostname url \<noteq> ''api.twilio.com'' \<or> port url \<noteq> []
              \<or> username url \<noteq> [] \<or> password url \<noteq> []
           then None else matchRecordingPath (pathname url)))"

definition twilioRecordingSid :: "(string \<Rightarrow> url_parts option) \<Rightarrow> string \<Rightarrow> string option" where
  "twilioRecordingSid urlParse stored = map_option snd (parseRecordingUrl urlParse stored)"

record recording_ref =
  refSid :: string
  mediaUrl :: string
  resourceUrl :: string

text \<open>\<open>toLowerCase\<close> of an account's SID, which is ASCII.\<close>

definition lowerAscii :: "char \<Rightarrow> char" where
  "lowerAscii c = (if 65 \<le> (of_char c :: nat) \<and> (of_char c :: nat) \<le> 90
     then char_of ((of_char c :: nat) + 32) else c)"

definition twilioRecordingRef ::
  "(string \<Rightarrow> url_parts option) \<Rightarrow> string \<Rightarrow> string \<Rightarrow> recording_ref option" where
  "twilioRecordingRef urlParse stored accountSid =
     (case parseRecordingUrl urlParse stored of
        None \<Rightarrow> None
      | Some (account, sid) \<Rightarrow>
          (if map lowerAscii account \<noteq> map lowerAscii accountSid then None
           else let resource = ''https://api.twilio.com/2010-04-01/Accounts/'' @ accountSid
                      @ ''/Recordings/'' @ sid
                in Some \<lparr>refSid = sid, mediaUrl = resource @ ''.mp3'',
                         resourceUrl = resource @ ''.json''\<rparr>))"

section \<open>Who is told of a recording\<close>

definition canListenToRecording :: "role \<Rightarrow> recording_context \<Rightarrow> bool" where
  "canListenToRecording r context \<longleftrightarrow>
     context = VoicemailRecording \<or> hasPermission r RecordingsListen"

record recording_deletion =
  rdReason :: deletion_reason
  rdAt :: millis

definition toRecordingDeletion ::
  "millis option \<Rightarrow> deletion_reason option \<Rightarrow> recording_deletion option" where
  "toRecordingDeletion deleted reason =
     map_option (\<lambda>at. \<lparr>rdReason = getOr reason Manual, rdAt = at\<rparr>) deleted"

section \<open>Facts about the rules\<close>

lemma isExpired_iff:
  "isExpired policy created now \<longleftrightarrow>
     (\<exists>days. retentionDays policy = Some days \<and> created + days * DAY_MS < now)"
  by (cases "retentionDays policy")
    (simp_all add: isExpired_def retentionCutoff_def less_diff_eq flip: of_nat_mult of_nat_add)

lemma isExpired_mono: "isExpired policy created now \<Longrightarrow> now \<le> later \<Longrightarrow> isExpired policy created later"
  by (auto simp: isExpired_iff)

lemma set_expiryScans:
  "(ctx, cutoff) \<in> set (expiryScans retention now) \<longleftrightarrow>
     retentionCutoff (policyFor retention ctx) now = Some cutoff"
  by (cases ctx) (auto simp: expiryScans_def split: option.splits)

lemma matchRecordingPath_sids:
  "matchRecordingPath path = Some (account, sid) \<Longrightarrow> isSid ''AC'' account \<and> isSid ''RE'' sid"
  unfolding matchRecordingPath_def Let_def
  by (simp only: option.inject prod.inject option.distinct split: if_split_asm)

lemma matchRecordingPath_reads:
  assumes "isSid ''AC'' account" and "isSid ''RE'' sid" and "ending \<in> set [[], ''.mp3'', ''.wav'', ''.json'']"
  shows "matchRecordingPath (accountsPath @ account @ recordingsPath @ sid @ ending) = Some (account, sid)"
  using assms by (simp add: matchRecordingPath_def isSid_def Let_def)

section \<open>Properties\<close>

text \<open>C25. Whatever URL a webhook stored and however it parses, the requests that carry the account's
  credentials go to Twilio's host over https, for a recording of that account: of the stored URL only
  a well-formed recording SID is used, and only if the URL was Twilio's and the account's own.\<close>

theorem credentials_stay_at_twilio:
  assumes "twilioRecordingRef urlParse stored account = Some ref"
  shows "isSid ''RE'' (refSid ref)
    \<and> mediaUrl ref = ''https://api.twilio.com/2010-04-01/Accounts/'' @ account @ ''/Recordings/''
        @ refSid ref @ ''.mp3''
    \<and> resourceUrl ref = ''https://api.twilio.com/2010-04-01/Accounts/'' @ account @ ''/Recordings/''
        @ refSid ref @ ''.json''
    \<and> (\<exists>(url :: url_parts) a. urlParse stored = Some url \<and> protocol url = ''https:'' \<and> hostname url = ''api.twilio.com''
        \<and> matchRecordingPath (pathname url) = Some (a, refSid ref)
        \<and> map lowerAscii a = map lowerAscii account)"
proof -
  obtain a sid where parsed: "parseRecordingUrl urlParse stored = Some (a, sid)"
      and acc: "map lowerAscii a = map lowerAscii account"
      and ref: "ref = (let resource = ''https://api.twilio.com/2010-04-01/Accounts/'' @ account
                      @ ''/Recordings/'' @ sid
                in \<lparr>refSid = sid, mediaUrl = resource @ ''.mp3'', resourceUrl = resource @ ''.json''\<rparr>)"
    using assms by (auto simp: twilioRecordingRef_def Let_def split: option.splits if_splits)
  from parsed obtain url where "urlParse stored = Some url" "protocol url = ''https:''"
      "hostname url = ''api.twilio.com''" "matchRecordingPath (pathname url) = Some (a, sid)"
    by (auto simp: parseRecordingUrl_def split: option.splits if_splits)
  then show ?thesis
    using acc matchRecordingPath_sids [of "pathname url" a sid] by (auto simp: ref Let_def)
qed

definition sampleUrl :: url_parts where
  "sampleUrl = \<lparr>protocol = ''https:'', hostname = ''api.twilio.com'', port = [], username = [],
     password = [], pathname = accountsPath @ (''AC'' @ replicate 32 CHR ''0'') @ recordingsPath
       @ (''RE'' @ replicate 32 CHR ''a'') @ ''.wav''\<rparr>"

lemma sample_ref:
  "\<exists>ref. twilioRecordingRef (\<lambda>s. Some sampleUrl) stored (''AC'' @ replicate 32 CHR ''0'') = Some ref
     \<and> refSid ref = ''RE'' @ replicate 32 CHR ''a''"
proof -
  have "isSid ''AC'' (''AC'' @ replicate 32 CHR ''0'')" "isSid ''RE'' (''RE'' @ replicate 32 CHR ''a'')"
    by (simp_all add: isSid_def isHex_def list_all_iff)
  from matchRecordingPath_reads [OF this, of "''.wav''"] show ?thesis
    by (simp add: twilioRecordingRef_def parseRecordingUrl_def sampleUrl_def Let_def)
qed

theorem credentials_stay_at_twilio_witness:
  "\<exists>ref :: recording_ref. mediaUrl ref = ''https://api.twilio.com/2010-04-01/Accounts/''
      @ (''AC'' @ replicate 32 CHR ''0'') @ ''/Recordings/'' @ (''RE'' @ replicate 32 CHR ''a'') @ ''.mp3''
    \<and> isSid ''RE'' (refSid ref)"
proof -
  obtain ref where ref: "twilioRecordingRef (\<lambda>s. Some sampleUrl) ''u''
      (''AC'' @ replicate 32 CHR ''0'') = Some ref" "refSid ref = ''RE'' @ replicate 32 CHR ''a''"
    using sample_ref [of "''u''"] by blast
  from credentials_stay_at_twilio [OF ref(1)] show ?thesis
    by (intro exI [of _ ref]) (simp add: ref(2))
qed

end
