(* ===== verification/Recordings.thy ===== *)
theory Recordings
  imports Recording_Rules
begin

text \<open>
  \<open>apps/api/src/calls/recording.service.ts\<close>: copying a recording from Twilio into the media store,
  deleting it at Twilio once the copy is recorded, playing it from whichever side has it, and deleting
  its audio. API instances do all of that at once to the same recording, so every method is cut at its
  awaits: the calls under way are a list, and the answer to what one of them waits for is an event.
  The state is one recording: its row, the keys of the media store that hold its audio, and whether
  Twilio still has it.
\<close>

section \<open>Calls under way\<close>

datatype purpose = Copying | Playing

text \<open>How a play ended: with audio, or with an \<open>HttpError\<close> of a status.\<close>

datatype playback = Played | Streamed | HttpStatus nat

datatype deletion_outcome =
  AudioDeleted bool recording_deletion
| AlreadyDeleted "recording_deletion option"
| DeletionFailed

datatype outcome =
  CopyDone bool bool
| PlayDone playback
| DeleteDone deletion_outcome
| Threw

text \<open>What a deletion at Twilio is the last step of.\<close>

datatype afterwards =
  AfterCopy bool
| AfterPlay
| AfterDelete deletion_reason millis

datatype request = DoCopy | DoPlay | DoDelete deletion_reason

text \<open>A caller that has read the row, and every await of \<open>copy\<close>, \<open>open\<close> and \<open>deleteAudio\<close>. Each keeps the
  row it was called with, the conversation, and the instant its claim was written with.\<close>

datatype call_run =
  Held recording_row call_id
| AwaitClaim purpose recording_row call_id millis
| AwaitFetch recording_row call_id millis
| AwaitPlayFetch recording_row call_id
| AwaitPut purpose recording_row call_id millis
| AwaitRecordCopy purpose recording_row call_id millis
| AwaitDiscard purpose recording_row call_id millis
| AwaitRelease purpose recording_row millis
| AwaitGet recording_row call_id string
| AwaitStoreDelete recording_row call_id deletion_reason nat string
| AwaitMark recording_row call_id deletion_reason nat millis
| AwaitReread recording_row call_id deletion_reason nat
| AwaitProviderDelete afterwards recording_row
| AwaitProviderRecord afterwards recording_row millis

text \<open>
  The recording and everything that works on it. \<open>leftovers\<close> counts the failures the source logs as
  leaving an object behind: a copy it could not record, one it could not drop, and a put whose answer
  was lost. Credentials and the URL parser are parameters.
\<close>

record recording_world =
  row :: "recording_row option"
  audioKeys :: "string set"
  atTwilio :: bool
  timeNow :: millis
  callsUnderWay :: "call_run list"
  outcomes :: "outcome list"
  leftovers :: nat
  twilioAccount :: "string option"
  urlParser :: "string \<Rightarrow> url_parts option"

section \<open>The steps\<close>

datatype next_step = Wait call_run | Finish outcome

datatype provider_access = AccessOk | NoCredentials | AccessRefused

definition providerAccess :: "recording_world \<Rightarrow> recording_row \<Rightarrow> provider_access" where
  "providerAccess w r =
     (case twilioAccount w of
        None \<Rightarrow> NoCredentials
      | Some account \<Rightarrow>
          (if twilioRecordingRef (urlParser w) (providerUrl r) account = None then AccessRefused
           else AccessOk))"

text \<open>\<open>updateMany\<close>: the row is updated if it is there and the guard holds; says whether it was.\<close>

definition updateRow ::
  "(recording_row \<Rightarrow> bool) \<Rightarrow> (recording_row \<Rightarrow> recording_row) \<Rightarrow> recording_world
     \<Rightarrow> bool \<times> recording_world" where
  "updateRow guard f w =
     (case row w of
        None \<Rightarrow> (False, w)
      | Some r \<Rightarrow> (if guard r then (True, w\<lparr>row := Some (f r)\<rparr>) else (False, w)))"

text \<open>\<open>copy\<close> and \<open>open\<close> end differently once the copy was attempted.\<close>

fun attemptOver :: "purpose \<Rightarrow> outcome" where
  "attemptOver Copying = CopyDone False False"
| "attemptOver Playing = PlayDone Played"

fun copyStored :: "purpose \<Rightarrow> afterwards" where
  "copyStored Copying = AfterCopy True"
| "copyStored Playing = AfterPlay"

fun providerDone :: "afterwards \<Rightarrow> bool \<Rightarrow> outcome" where
  "providerDone (AfterCopy copied) gone = CopyDone copied gone"
| "providerDone AfterPlay gone = PlayDone Played"
| "providerDone (AfterDelete reason at) gone =
     DeleteDone (AudioDeleted gone \<lparr>rdReason = reason, rdAt = at\<rparr>)"

definition startCopy :: "recording_row \<Rightarrow> call_id \<Rightarrow> recording_world \<Rightarrow> next_step" where
  "startCopy r conversation w =
     (case copyPlan r of
        CopySkip False \<Rightarrow> Finish (CopyDone False False)
      | plan \<Rightarrow>
          (if providerAccess w r \<noteq> AccessOk then Finish (CopyDone False False)
           else if plan = CopyFetch then Wait (AwaitClaim Copying r conversation (timeNow w))
           else Wait (AwaitProviderDelete (AfterCopy False) r)))"

definition startPlay :: "recording_row \<Rightarrow> call_id \<Rightarrow> recording_world \<Rightarrow> next_step" where
  "startPlay r conversation w =
     (case playbackSource r of
        FromStore key \<Rightarrow> Wait (AwaitGet r conversation key)
      | SourceDeleted reason \<Rightarrow> Finish (PlayDone (HttpStatus 410))
      | SourceGone \<Rightarrow> Finish (PlayDone (HttpStatus 410))
      | FromProvider \<Rightarrow>
          (case providerAccess w r of
             NoCredentials \<Rightarrow> Finish (PlayDone (HttpStatus 503))
           | AccessRefused \<Rightarrow> Finish (PlayDone (HttpStatus 502))
           | AccessOk \<Rightarrow> Wait (AwaitPlayFetch r conversation)))"

definition DELETE_ATTEMPTS :: nat where
  "DELETE_ATTEMPTS = 3"

text \<open>One turn of the loop of \<open>deleteAudio\<close>, from its first line to its first await.\<close>

definition startDelete ::
  "recording_row \<Rightarrow> call_id \<Rightarrow> deletion_reason \<Rightarrow> nat \<Rightarrow> recording_world \<Rightarrow> next_step" where
  "startDelete r conversation reason attempt w =
     (if DELETE_ATTEMPTS < attempt then Finish (DeleteDone DeletionFailed)
      else if deletedAt r \<noteq> None
      then Finish (DeleteDone (AlreadyDeleted (toRecordingDeletion (deletedAt r) (deletionReason r))))
      else case objectKey r of
             Some key \<Rightarrow> Wait (AwaitStoreDelete r conversation reason attempt key)
           | None \<Rightarrow> Wait (AwaitMark r conversation reason attempt (timeNow w)))"

definition dropKey :: "string \<Rightarrow> delivery \<Rightarrow> recording_world \<Rightarrow> recording_world" where
  "dropKey key d w = (if d = Lost then w else w\<lparr>audioKeys := audioKeys w - {key}\<rparr>)"

definition putKey :: "string \<Rightarrow> delivery \<Rightarrow> recording_world \<Rightarrow> recording_world" where
  "putKey key d w = (if d = Lost then w else w\<lparr>audioKeys := insert key (audioKeys w)\<rparr>)"

definition leave :: "nat \<Rightarrow> recording_world \<Rightarrow> recording_world" where
  "leave n w = w\<lparr>leftovers := leftovers w + n\<rparr>"

text \<open>An update whose request may be lost: whether it matched, and the state after it.\<close>

definition tryUpdate ::
  "delivery \<Rightarrow> (recording_row \<Rightarrow> bool) \<Rightarrow> (recording_row \<Rightarrow> recording_row) \<Rightarrow> recording_world
     \<Rightarrow> bool \<times> recording_world" where
  "tryUpdate d guard f w = (if d = Lost then (False, w) else updateRow guard f w)"

section \<open>What an answer leads to\<close>

text \<open>\<open>claimCopy\<close>: a database that fails throws, past the caller's handling of a refused claim.\<close>

definition claimAnswered ::
  "purpose \<Rightarrow> recording_row \<Rightarrow> call_id \<Rightarrow> millis \<Rightarrow> delivery \<Rightarrow> recording_world
     \<Rightarrow> recording_world \<times> next_step" where
  "claimAnswered p r conversation now d w =
     (case tryUpdate d (claimableCopy now) (\<lambda>x. x\<lparr>copyStartedAt := Some now\<rparr>) w of (claimed, w') \<Rightarrow>
        (w', if d \<noteq> Delivered then Finish Threw
             else if \<not> claimed then Finish (attemptOver p)
             else if p = Copying then Wait (AwaitFetch r conversation now)
             else Wait (AwaitPut p r conversation now)))"

definition fetchAnswered ::
  "recording_row \<Rightarrow> call_id \<Rightarrow> millis \<Rightarrow> delivery \<Rightarrow> recording_world \<Rightarrow> next_step" where
  "fetchAnswered r conversation claim d w =
     (if d = Delivered \<and> atTwilio w then Wait (AwaitPut Copying r conversation claim)
      else Wait (AwaitRelease Copying r claim))"

definition playFetchAnswered ::
  "recording_row \<Rightarrow> call_id \<Rightarrow> delivery \<Rightarrow> recording_world \<Rightarrow> next_step" where
  "playFetchAnswered r conversation d w =
     (if d \<noteq> Delivered then Finish (PlayDone (HttpStatus 502))
      else if \<not> atTwilio w then Finish (PlayDone (HttpStatus 410))
      else if recordingContext r \<noteq> VoicemailRecording then Finish (PlayDone Streamed)
      else Wait (AwaitClaim Playing r conversation (timeNow w)))"

text \<open>\<open>store\<close>: the object first, then the row.\<close>

definition putAnswered ::
  "purpose \<Rightarrow> recording_row \<Rightarrow> call_id \<Rightarrow> millis \<Rightarrow> delivery \<Rightarrow> recording_world
     \<Rightarrow> recording_world \<times> next_step" where
  "putAnswered p r conversation claim d w =
     (let w' = putKey (recordingObjectKey conversation (recordingSid r)) d w
      in if d = Delivered then (w', Wait (AwaitRecordCopy p r conversation claim))
         else (leave (if d = ReplyLost then 1 else 0) w', Wait (AwaitRelease p r claim)))"

definition recordAnswered ::
  "purpose \<Rightarrow> recording_row \<Rightarrow> call_id \<Rightarrow> millis \<Rightarrow> delivery \<Rightarrow> recording_world
     \<Rightarrow> recording_world \<times> next_step" where
  "recordAnswered p r conversation claim d w =
     (case tryUpdate d (\<lambda>x. deletedAt x = None)
             (\<lambda>x. x\<lparr>objectKey := Some (recordingObjectKey conversation (recordingSid r))\<rparr>) w of
        (recorded, w') \<Rightarrow>
          (if d \<noteq> Delivered then (leave (if recorded then 0 else 1) w', Wait (AwaitRelease p r claim))
           else if recorded then (w', Wait (AwaitProviderDelete (copyStored p) r))
           else (w', Wait (AwaitDiscard p r conversation claim))))"

definition discardAnswered ::
  "purpose \<Rightarrow> recording_row \<Rightarrow> call_id \<Rightarrow> millis \<Rightarrow> delivery \<Rightarrow> recording_world
     \<Rightarrow> recording_world \<times> next_step" where
  "discardAnswered p r conversation claim d w =
     (leave (if d = Lost then 1 else 0)
        (dropKey (recordingObjectKey conversation (recordingSid r)) d w),
      Wait (AwaitRelease p r claim))"

definition releaseAnswered ::
  "purpose \<Rightarrow> recording_row \<Rightarrow> millis \<Rightarrow> delivery \<Rightarrow> recording_world
     \<Rightarrow> recording_world \<times> next_step" where
  "releaseAnswered p r claim d w =
     (snd (tryUpdate d (\<lambda>x. copyStartedAt x = Some claim) (\<lambda>x. x\<lparr>copyStartedAt := None\<rparr>) w),
      Finish (if d = Delivered then attemptOver p else Threw))"

definition getAnswered ::
  "recording_row \<Rightarrow> call_id \<Rightarrow> string \<Rightarrow> delivery \<Rightarrow> recording_world \<Rightarrow> next_step" where
  "getAnswered r conversation key d w =
     (if d \<noteq> Delivered then Finish Threw
      else if key \<in> audioKeys w then Finish (PlayDone Played)
      else startPlay (r\<lparr>objectKey := None\<rparr>) conversation w)"

definition storeDeleteAnswered ::
  "recording_row \<Rightarrow> call_id \<Rightarrow> deletion_reason \<Rightarrow> nat \<Rightarrow> string \<Rightarrow> delivery \<Rightarrow> recording_world
     \<Rightarrow> recording_world \<times> next_step" where
  "storeDeleteAnswered r conversation reason attempt key d w =
     (dropKey key d w,
      if d = Delivered then Wait (AwaitMark r conversation reason attempt (timeNow w))
      else Finish (DeleteDone DeletionFailed))"

definition markAnswered ::
  "recording_row \<Rightarrow> call_id \<Rightarrow> deletion_reason \<Rightarrow> nat \<Rightarrow> millis \<Rightarrow> delivery \<Rightarrow> recording_world
     \<Rightarrow> recording_world \<times> next_step" where
  "markAnswered r conversation reason attempt at d w =
     (case tryUpdate d (\<lambda>x. deletedAt x = None \<and> objectKey x = objectKey r)
             (\<lambda>x. x\<lparr>deletedAt := Some at, deletionReason := Some reason, objectKey := None\<rparr>) w of
        (marked, w') \<Rightarrow>
          (w', if d \<noteq> Delivered then Finish Threw
               else if \<not> marked then Wait (AwaitReread r conversation reason attempt)
               else if providerDeletedAt r = None \<and> providerAccess w r = AccessOk
               then Wait (AwaitProviderDelete (AfterDelete reason at) r)
               else Finish (providerDone (AfterDelete reason at) False)))"

definition rereadAnswered ::
  "recording_row \<Rightarrow> call_id \<Rightarrow> deletion_reason \<Rightarrow> nat \<Rightarrow> delivery \<Rightarrow> recording_world \<Rightarrow> next_step" where
  "rereadAnswered r conversation reason attempt d w =
     (if d \<noteq> Delivered then Finish Threw
      else case row w of
             None \<Rightarrow> Finish (DeleteDone (AlreadyDeleted None))
           | Some current \<Rightarrow> startDelete current conversation reason (attempt + 1) w)"

text \<open>\<open>deleteAtProvider\<close>: 404 is the same outcome as 204, so a deletion Twilio answered succeeded.\<close>

definition providerDeleteAnswered ::
  "afterwards \<Rightarrow> recording_row \<Rightarrow> delivery \<Rightarrow> recording_world \<Rightarrow> recording_world \<times> next_step" where
  "providerDeleteAnswered a r d w =
     (if d = Lost then w else w\<lparr>atTwilio := False\<rparr>,
      if d = Delivered then Wait (AwaitProviderRecord a r (timeNow w))
      else Finish (providerDone a False))"

definition providerRecordAnswered ::
  "afterwards \<Rightarrow> recording_row \<Rightarrow> millis \<Rightarrow> delivery \<Rightarrow> recording_world
     \<Rightarrow> recording_world \<times> next_step" where
  "providerRecordAnswered a r at d w =
     (case tryUpdate d (\<lambda>x. True) (\<lambda>x. x\<lparr>providerDeletedAt := Some at\<rparr>) w of (recorded, w') \<Rightarrow>
        (w', Finish (providerDone a (d = Delivered \<and> recorded))))"

fun answerRun :: "call_run \<Rightarrow> delivery \<Rightarrow> recording_world \<Rightarrow> recording_world \<times> next_step" where
  "answerRun (AwaitClaim p r c now) d w = claimAnswered p r c now d w"
| "answerRun (AwaitFetch r c claim) d w = (w, fetchAnswered r c claim d w)"
| "answerRun (AwaitPlayFetch r c) d w = (w, playFetchAnswered r c d w)"
| "answerRun (AwaitPut p r c claim) d w = putAnswered p r c claim d w"
| "answerRun (AwaitRecordCopy p r c claim) d w = recordAnswered p r c claim d w"
| "answerRun (AwaitDiscard p r c claim) d w = discardAnswered p r c claim d w"
| "answerRun (AwaitRelease p r claim) d w = releaseAnswered p r claim d w"
| "answerRun (AwaitGet r c key) d w = (w, getAnswered r c key d w)"
| "answerRun (AwaitStoreDelete r c reason n key) d w = storeDeleteAnswered r c reason n key d w"
| "answerRun (AwaitMark r c reason n at) d w = markAnswered r c reason n at d w"
| "answerRun (AwaitReread r c reason n) d w = (w, rereadAnswered r c reason n d w)"
| "answerRun (AwaitProviderDelete a r) d w = providerDeleteAnswered a r d w"
| "answerRun (AwaitProviderRecord a r at) d w = providerRecordAnswered a r at d w"
| "answerRun (Held r c) d w = (w, Wait (Held r c))"

fun startRun :: "request \<Rightarrow> recording_row \<Rightarrow> call_id \<Rightarrow> recording_world \<Rightarrow> next_step" where
  "startRun DoCopy r c w = startCopy r c w"
| "startRun DoPlay r c w = startPlay r c w"
| "startRun (DoDelete reason) r c w = startDelete r c reason 1 w"

section \<open>Runs of the program on one recording\<close>

text \<open>A caller reads the row, calls a method with what it read, something answers, time passes.\<close>

datatype recording_event =
  ReadsRow call_id
| Calls nat request
| Answers nat delivery
| Passes nat

definition settle :: "nat \<Rightarrow> recording_world \<times> next_step \<Rightarrow> recording_world" where
  "settle i ws =
     (case ws of (w, step) \<Rightarrow>
        (case step of
           Wait run \<Rightarrow> w\<lparr>callsUnderWay := (callsUnderWay w)[i := run]\<rparr>
         | Finish out \<Rightarrow> w\<lparr>callsUnderWay := take i (callsUnderWay w) @ drop (Suc i) (callsUnderWay w),
                            outcomes := outcomes w @ [out]\<rparr>))"

fun recordingStep :: "recording_event \<Rightarrow> recording_world \<Rightarrow> recording_world" where
  "recordingStep (ReadsRow c) w =
     (case row w of
        None \<Rightarrow> w
      | Some r \<Rightarrow> w\<lparr>callsUnderWay := callsUnderWay w @ [Held r c]\<rparr>)"
| "recordingStep (Calls i request) w =
     (if i < length (callsUnderWay w)
      then case callsUnderWay w ! i of
             Held r c \<Rightarrow> settle i (w, startRun request r c w)
           | _ \<Rightarrow> w
      else w)"
| "recordingStep (Answers i d) w =
     (if i < length (callsUnderWay w) then settle i (answerRun (callsUnderWay w ! i) d w) else w)"
| "recordingStep (Passes n) w = w\<lparr>timeNow := timeNow w + n\<rparr>"

fun recordingRun :: "recording_event list \<Rightarrow> recording_world \<Rightarrow> recording_world" where
  "recordingRun [] w = w"
| "recordingRun (e # es) w = recordingRun es (recordingStep e w)"

text \<open>\<open>register\<close>: a row for the recording a URL names, unless the URL is none of Twilio's.\<close>

definition registerRecording ::
  "(string \<Rightarrow> url_parts option) \<Rightarrow> recording_context \<Rightarrow> string \<Rightarrow> nat option \<Rightarrow> millis
     \<Rightarrow> recording_row option \<Rightarrow> recording_row option" where
  "registerRecording urlParse ctx url duration now known =
     (case twilioRecordingSid urlParse url of
        None \<Rightarrow> None
      | Some sid \<Rightarrow>
          (case known of
             Some r \<Rightarrow> Some r
           | None \<Rightarrow> Some \<lparr>recordingContext = ctx, recordingSid = sid, providerUrl = url,
               recordingDuration = duration, objectKey = None, providerDeletedAt = None,
               copyStartedAt = None, deletedAt = None, deletionReason = None, announcedAt = now\<rparr>))"

text \<open>A recording Twilio just announced.\<close>

definition announcedWorld ::
  "recording_row \<Rightarrow> string option \<Rightarrow> (string \<Rightarrow> url_parts option) \<Rightarrow> millis \<Rightarrow> recording_world" where
  "announcedWorld r account urlParse now = \<lparr>row = Some (r\<lparr>objectKey := None, providerDeletedAt := None,
     copyStartedAt := None, deletedAt := None, deletionReason := None\<rparr>), audioKeys = {},
     atTwilio = True, timeNow = now, callsUnderWay = [], outcomes = [], leftovers = 0,
     twilioAccount = account, urlParser = urlParse\<rparr>"

end
