(* ===== verification/Call_Records.thy ===== *)
theory Call_Records
  imports Recordings World
begin

text \<open>
  The API's record of calls: \<open>apps/api/src/calls/call-event-subscriber.ts\<close>, which turns what the call
  controller publishes into rows and a timeline, and the dispatch of messages to it
  (\<open>packages/events/src/pubsub.ts\<close>). Redis messages are dispatched without waiting for the handler
  before, so the handlers of different events interleave at their database calls; each is a run cut
  at those calls. Timestamps of events and of rows nothing reads are left out.
\<close>

section \<open>What arrives\<close>

datatype api_event =
  EvIncoming call_id phone phone call_direction "leg_id option" "leg_id option"
    "department_id option" "user_id option"
| EvStarted call_id phone phone user_id "department_id option" call_direction "leg_id option"
    "leg_id option"
| EvEnded call_id nat call_end_status "leg_id option" "leg_id option" "leg_id option"
| EvMissed call_id phone "phone option" "department_id option" "user_id option"
| EvTransferred call_id user_id user_id "leg_id option"
| EvHeld call_id "user_id option" "leg_id option"
| EvResumed call_id "user_id option" "leg_id option"
| EvParticipant call_id "leg_id option" participant_type string string string string "nat option"
| EvRecordingReady call_id string "nat option" "string option"
| EvTranscriptionReady call_id string "string option" "string option"
| EvMigrated call_id call_id

fun conversationOf :: "api_event \<Rightarrow> call_id" where
  "conversationOf (EvIncoming c _ _ _ _ _ _ _) = c"
| "conversationOf (EvStarted c _ _ _ _ _ _ _) = c"
| "conversationOf (EvEnded c _ _ _ _ _) = c"
| "conversationOf (EvMissed c _ _ _ _) = c"
| "conversationOf (EvTransferred c _ _ _) = c"
| "conversationOf (EvHeld c _ _) = c"
| "conversationOf (EvResumed c _ _) = c"
| "conversationOf (EvParticipant c _ _ _ _ _ _ _) = c"
| "conversationOf (EvRecordingReady c _ _ _) = c"
| "conversationOf (EvTranscriptionReady c _ _ _) = c"
| "conversationOf (EvMigrated p c) = c"

section \<open>Rows\<close>

datatype actor_type = SystemActor | CallerActor | AgentActor | ProviderActor

definition CALL_EVENT_TYPES :: "string list" where
  "CALL_EVENT_TYPES =
     [''CALL_INITIATED'', ''CALL_RINGING'', ''CALL_ANSWERED'', ''CALL_COMPLETED'', ''CALL_FAILED'',
      ''CALL_CANCELED'', ''CALL_NO_ANSWER'', ''CALL_BUSY'', ''CALL_TRANSFERRED'', ''CALL_HELD'',
      ''CALL_RESUMED'', ''VOICEMAIL_STARTED'', ''VOICEMAIL_COMPLETED'', ''RECORDING_COMPLETED'',
      ''DIAL_INITIATED'', ''DIAL_ANSWERED'', ''DIAL_NO_ANSWER'', ''DIAL_BUSY'', ''DIAL_FAILED'']"

record call_row =
  callId :: nat
  rowConversation :: call_id
  rowCallerLeg :: "leg_id option"
  rowAgentLeg :: "leg_id option"
  rowExternalLeg :: "leg_id option"
  rowFrom :: phone
  rowTo :: phone
  rowStatus :: string
  rowDuration :: "nat option"
  rowTranscript :: "string option"
  rowDirection :: string
  rowUser :: "user_id option"
  rowDepartment :: "department_id option"
  rowCreatedAt :: millis

text \<open>A field of the metadata; one that is undefined is not stored.\<close>

datatype meta = MetaText string | MetaNumber nat | MetaNull

record timeline_entry =
  entryCall :: nat
  entryType :: string
  entryActor :: actor_type
  entryActorId :: "string option"
  entryDescription :: string
  entryMetadata :: "(string \<times> meta) list"

record call_history =
  callRows :: "call_row list"
  timelineRows :: "timeline_entry list"
  recordingRows :: "(nat \<times> recording_row) list"
  nextCallId :: nat
  copiesAsked :: "(recording_row \<times> call_id) list"

definition emptyHistory :: call_history where
  "emptyHistory = \<lparr>callRows = [], timelineRows = [], recordingRows = [], nextCallId = 0, copiesAsked = []\<rparr>"

definition metaText :: "string \<Rightarrow> string option \<Rightarrow> (string \<times> meta) list" where
  "metaText name v = (case v of None \<Rightarrow> [] | Some s \<Rightarrow> [(name, MetaText s)])"

definition metaNumber :: "string \<Rightarrow> nat option \<Rightarrow> (string \<times> meta) list" where
  "metaNumber name v = (case v of None \<Rightarrow> [] | Some n \<Rightarrow> [(name, MetaNumber n)])"

fun END_STATUS_EVENT :: "call_end_status \<Rightarrow> string" where
  "END_STATUS_EVENT Completed = ''CALL_COMPLETED''"
| "END_STATUS_EVENT Busy = ''CALL_BUSY''"
| "END_STATUS_EVENT Canceled = ''CALL_CANCELED''"
| "END_STATUS_EVENT Failed = ''CALL_FAILED''"
| "END_STATUS_EVENT NoAnswer = ''CALL_NO_ANSWER''"

fun recordingEventType :: "recording_context \<Rightarrow> string" where
  "recordingEventType VoicemailRecording = ''VOICEMAIL_COMPLETED''"
| "recordingEventType ConferenceRecording = ''RECORDING_COMPLETED''"

fun participantText :: "participant_type \<Rightarrow> string" where
  "participantText Agent = ''agent''"
| "participantText External = ''external''"
| "participantText Caller = ''caller''"

section \<open>Database calls\<close>

definition rowOf :: "call_history \<Rightarrow> call_id \<Rightarrow> call_row option" where
  "rowOf h c = find (\<lambda>r. rowConversation r = c) (callRows h)"

definition changeRow :: "nat \<Rightarrow> (call_row \<Rightarrow> call_row) \<Rightarrow> call_history \<Rightarrow> call_history" where
  "changeRow i f h = h\<lparr>callRows := map (\<lambda>r. if callId r = i then f r else r) (callRows h)\<rparr>"

definition addRow :: "call_row \<Rightarrow> call_history \<Rightarrow> call_history" where
  "addRow r h = h\<lparr>callRows := callRows h @ [r\<lparr>callId := nextCallId h\<rparr>],
     nextCallId := Suc (nextCallId h)\<rparr>"

text \<open>\<open>upsert\<close> on the conversation: the id of the row it created or changed.\<close>

definition upsertCall ::
    "call_id \<Rightarrow> call_row \<Rightarrow> (call_row \<Rightarrow> call_row) \<Rightarrow> call_history \<Rightarrow> nat \<times> call_history" where
  "upsertCall c created f h =
     (case rowOf h c of
        Some r \<Rightarrow> (callId r, changeRow (callId r) f h)
      | None \<Rightarrow> (nextCallId h, addRow (created\<lparr>rowConversation := c\<rparr>) h))"

definition blankRow :: "millis \<Rightarrow> call_row" where
  "blankRow now =
     \<lparr>callId = 0, rowConversation = [], rowCallerLeg = None, rowAgentLeg = None, rowExternalLeg = None,
      rowFrom = [], rowTo = [], rowStatus = [], rowDuration = None, rowTranscript = None,
      rowDirection = [], rowUser = None, rowDepartment = None, rowCreatedAt = now\<rparr>"

definition addTimelineEntry :: "timeline_entry \<Rightarrow> call_history \<Rightarrow> call_history" where
  "addTimelineEntry e h = h\<lparr>timelineRows := timelineRows h @ [e]\<rparr>"

section \<open>The handlers\<close>

text \<open>
  A handler that waits for the database: \<open>UpsertCall\<close>, \<open>FindCall\<close> and \<open>UpdateCall\<close> with what it read,
  \<open>WriteEntry\<close> with the copy that follows it, \<open>RegisterRecording\<close>, and the two steps of a migration.
\<close>

datatype record_run =
  UpsertCall api_event
| FindCall api_event
| UpdateCall api_event call_row
| RegisterRecording api_event call_row
| WriteEntry timeline_entry "(recording_row \<times> call_id) option"
| FindMigrated call_id call_id
| MigrateCalls call_id call_id

text \<open>\<open>handle\<close>, up to the first database call. A participant status of an unknown type is dropped.\<close>

fun onEvent :: "api_event \<Rightarrow> record_run option" where
  "onEvent (EvIncoming c f t d cl al dep u) = Some (UpsertCall (EvIncoming c f t d cl al dep u))"
| "onEvent (EvStarted c f t u dep d al el) = Some (UpsertCall (EvStarted c f t u dep d al el))"
| "onEvent (EvMissed c f t dep u) = Some (UpsertCall (EvMissed c f t dep u))"
| "onEvent (EvParticipant c leg pt pid st et ds du) =
     (if et \<in> set CALL_EVENT_TYPES then Some (FindCall (EvParticipant c leg pt pid st et ds du)) else None)"
| "onEvent (EvMigrated p c) = Some (FindMigrated p c)"
| "onEvent e = Some (FindCall e)"

text \<open>\<open>event.x ?? existing.x\<close> and, in an update, \<open>undefined\<close> as no change.\<close>

definition newOr :: "'a option \<Rightarrow> 'a option \<Rightarrow> 'a option" where
  "newOr new old = (case new of None \<Rightarrow> old | Some x \<Rightarrow> Some x)"

fun upserted :: "millis \<Rightarrow> api_event \<Rightarrow> call_history \<Rightarrow> (nat \<times> call_history) option" where
  "upserted now (EvIncoming c f t d cl al dep u) h =
     Some (upsertCall c
       ((blankRow now)\<lparr>rowCallerLeg := cl, rowAgentLeg := al, rowFrom := f, rowTo := t,
          rowDirection := directionText d, rowStatus := ''ringing'', rowDepartment := dep, rowUser := u\<rparr>)
       (\<lambda>r. r\<lparr>rowCallerLeg := newOr cl (rowCallerLeg r), rowAgentLeg := newOr al (rowAgentLeg r),
              rowFrom := f, rowTo := t, rowDirection := directionText d, rowDepartment := dep,
              rowUser := u\<rparr>) h)"
| "upserted now (EvStarted c f t u dep d al el) h =
     Some (upsertCall c
       ((blankRow now)\<lparr>rowFrom := f, rowTo := t, rowDirection := directionText d,
          rowStatus := ''in-progress'', rowUser := Some u, rowDepartment := dep, rowAgentLeg := al,
          rowExternalLeg := el\<rparr>)
       (\<lambda>r. r\<lparr>rowStatus := ''in-progress'', rowUser := Some u,
              rowDepartment := newOr dep (rowDepartment r), rowAgentLeg := newOr al (rowAgentLeg r),
              rowExternalLeg := newOr el (rowExternalLeg r)\<rparr>) h)"
| "upserted now (EvMissed c f t dep u) h =
     Some (upsertCall c
       ((blankRow now)\<lparr>rowFrom := f, rowTo := getOr t [], rowDirection := ''inbound'',
          rowStatus := ''missed'', rowDepartment := dep, rowUser := u\<rparr>)
       (\<lambda>r. r\<lparr>rowStatus := ''missed''\<rparr>) h)"
| "upserted now _ h = None"

definition entry :: "nat \<Rightarrow> string \<Rightarrow> actor_type \<Rightarrow> string option \<Rightarrow> string \<Rightarrow> (string \<times> meta) list
    \<Rightarrow> timeline_entry" where
  "entry i ty actor actorId description md =
     \<lparr>entryCall = i, entryType = ty, entryActor = actor, entryActorId = actorId,
      entryDescription = description, entryMetadata = md\<rparr>"

text \<open>The entry each handler writes once its row is there.\<close>

fun entryOf :: "(string \<Rightarrow> url_parts option) \<Rightarrow> nat \<Rightarrow> api_event \<Rightarrow> timeline_entry option" where
  "entryOf urlParse i (EvIncoming c f t d cl al dep u) =
     Some (entry i (if d = Outbound then ''DIAL_INITIATED'' else ''CALL_RINGING'')
       (if d = Outbound then AgentActor else CallerActor) (if d = Outbound then u else Some f)
       (if d = Outbound then ''Outbound call initiated to '' @ t else ''Incoming call from '' @ f)
       ([(''direction'', MetaText (directionText d))] @ metaText ''departmentId'' dep @
        metaText ''userId'' u @ metaText ''callerLegUuid'' cl @ metaText ''agentLegUuid'' al))"
| "entryOf urlParse i (EvStarted c f t u dep d al el) =
     Some (entry i ''CALL_ANSWERED'' AgentActor (Some u) ''Call answered by agent''
       ([(''direction'', MetaText (directionText d))] @ metaText ''agentLegUuid'' al @
        metaText ''externalLegUuid'' el))"
| "entryOf urlParse i (EvEnded c du st cl al el) =
     Some (entry i (END_STATUS_EVENT st) ProviderActor None
       (''Call '' @ endStatusText st @ '' after '' @ decimalNat du @ ''s'')
       ([(''duration'', MetaNumber du), (''status'', MetaText (endStatusText st))] @
        metaText ''callerLegUuid'' cl @ metaText ''agentLegUuid'' al @ metaText ''externalLegUuid'' el))"
| "entryOf urlParse i (EvMissed c f t dep u) =
     Some (entry i ''CALL_NO_ANSWER'' SystemActor None ''Call missed: no agent answered''
       (metaText ''departmentId'' dep @ metaText ''userId'' u))"
| "entryOf urlParse i (EvTransferred c fu tu al) =
     Some (entry i ''CALL_TRANSFERRED'' AgentActor (Some fu) ''Call transferred to another agent''
       ([(''fromUserId'', MetaText fu), (''toUserId'', MetaText tu)] @ metaText ''agentLegUuid'' al))"
| "entryOf urlParse i (EvHeld c u leg) =
     Some (entry i ''CALL_HELD'' (if truthy u then AgentActor else SystemActor) u
       ''Call placed on hold'' (metaText ''legUuid'' leg))"
| "entryOf urlParse i (EvResumed c u leg) =
     Some (entry i ''CALL_RESUMED'' (if truthy u then AgentActor else SystemActor) u
       ''Call taken off hold'' (metaText ''legUuid'' leg))"
| "entryOf urlParse i (EvParticipant c leg pt pid st et ds du) =
     Some (entry i et
       (case pt of Agent \<Rightarrow> AgentActor | Caller \<Rightarrow> CallerActor | External \<Rightarrow> ProviderActor)
       (Some pid) ds
       ([(''participantType'', MetaText (participantText pt)), (''status'', MetaText st)] @
        metaNumber ''duration'' du @ metaText ''legUuid'' leg))"
| "entryOf urlParse i (EvTranscriptionReady c transcript url ctx) =
     (if announcedContext ctx \<noteq> VoicemailRecording then None
      else Some (entry i ''VOICEMAIL_COMPLETED'' ProviderActor None ''Voicemail transcription ready''
        ([(''recordingSid'',
            if truthy url
            then (case twilioRecordingSid urlParse (the url) of None \<Rightarrow> MetaNull | Some sid \<Rightarrow> MetaText sid)
            else MetaNull)] @ metaText ''context'' ctx)))"
| "entryOf urlParse i _ = None"

definition recordingEntry :: "nat \<Rightarrow> recording_row \<Rightarrow> nat option \<Rightarrow> string option \<Rightarrow> timeline_entry" where
  "recordingEntry i r duration ctx =
     entry i (recordingEventType (announcedContext ctx)) ProviderActor None
       (if announcedContext ctx = VoicemailRecording then ''Voicemail recording ready''
        else ''Call recording ready'')
       ([(''recordingSid'', MetaText (recordingSid r))] @ metaNumber ''duration'' duration @
        metaText ''context'' ctx)"

text \<open>What \<open>update\<close> does to the row an event found.\<close>

fun updated :: "api_event \<Rightarrow> call_row \<Rightarrow> call_row \<Rightarrow> call_row" where
  "updated (EvEnded c du st cl al el) existing r =
     r\<lparr>rowStatus := endStatusText st, rowDuration := Some du,
       rowCallerLeg := newOr cl (rowCallerLeg existing), rowAgentLeg := newOr al (rowAgentLeg existing),
       rowExternalLeg := newOr el (rowExternalLeg existing)\<rparr>"
| "updated (EvTransferred c fu tu al) existing r =
     r\<lparr>rowUser := Some tu, rowAgentLeg := newOr al (rowAgentLeg existing)\<rparr>"
| "updated (EvTranscriptionReady c transcript url ctx) existing r = r\<lparr>rowTranscript := Some transcript\<rparr>"
| "updated _ existing r = r"

fun updates :: "api_event \<Rightarrow> bool" where
  "updates (EvEnded _ _ _ _ _ _) = True"
| "updates (EvTransferred _ _ _ _) = True"
| "updates (EvTranscriptionReady _ _ _ _) = True"
| "updates _ = False"

definition thenEntry :: "(string \<Rightarrow> url_parts option) \<Rightarrow> nat \<Rightarrow> api_event \<Rightarrow> record_run option" where
  "thenEntry urlParse i e = map_option (\<lambda>t. WriteEntry t None) (entryOf urlParse i e)"

definition afterFind :: "(string \<Rightarrow> url_parts option) \<Rightarrow> api_event \<Rightarrow> call_row \<Rightarrow> record_run option" where
  "afterFind urlParse e r =
     (case e of
        EvRecordingReady c url du ctx \<Rightarrow> Some (RegisterRecording e r)
      | _ \<Rightarrow> if updates e then Some (UpdateCall e r) else thenEntry urlParse (callId r) e)"

text \<open>One database call of a run that takes effect: what the run does next, and the database.\<close>

fun runStep :: "(string \<Rightarrow> url_parts option) \<Rightarrow> millis \<Rightarrow> record_run \<Rightarrow> call_history
    \<Rightarrow> record_run option \<times> call_history" where
  "runStep urlParse now (UpsertCall e) h =
     (case upserted now e h of
        None \<Rightarrow> (None, h)
      | Some (i, h') \<Rightarrow> (thenEntry urlParse i e, h'))"
| "runStep urlParse now (FindCall e) h =
     (case rowOf h (conversationOf e) of
        None \<Rightarrow> (None, h)
      | Some r \<Rightarrow> (afterFind urlParse e r, h))"
| "runStep urlParse now (UpdateCall e r) h =
     (if \<exists>x \<in> set (callRows h). callId x = callId r
      then (thenEntry urlParse (callId r) e, changeRow (callId r) (updated e r) h)
      else (None, h))"
| "runStep urlParse now (RegisterRecording e r) h =
     (case e of
        EvRecordingReady c url du ctx \<Rightarrow>
          (case registerRecording urlParse (announcedContext ctx) url du now
                  (case twilioRecordingSid urlParse url of
                     None \<Rightarrow> None
                   | Some sid \<Rightarrow> map_option snd (find (\<lambda>x. recordingSid (snd x) = sid) (recordingRows h))) of
             None \<Rightarrow> (None, h)
           | Some rec \<Rightarrow>
               (Some (WriteEntry (recordingEntry (callId r) rec du ctx) (Some (rec, c))),
                if \<exists>x \<in> set (recordingRows h). recordingSid (snd x) = recordingSid rec then h
                else h\<lparr>recordingRows := recordingRows h @ [(callId r, rec)]\<rparr>))
      | _ \<Rightarrow> (None, h))"
| "runStep urlParse now (WriteEntry t copy) h =
     (None, (addTimelineEntry t h)\<lparr>copiesAsked :=
        copiesAsked h @ (case copy of None \<Rightarrow> [] | Some c \<Rightarrow> [c])\<rparr>)"
| "runStep urlParse now (FindMigrated p c) h =
     (if rowOf h c \<noteq> None then (None, h) else (Some (MigrateCalls p c), h))"
| "runStep urlParse now (MigrateCalls p c) h =
     (if rowOf h c \<noteq> None \<and> p \<noteq> c \<and> rowOf h p \<noteq> None then (None, h)
      else (None, h\<lparr>callRows := map (\<lambda>r. if rowConversation r = p then r\<lparr>rowConversation := c\<rparr> else r)
              (callRows h)\<rparr>))"

section \<open>One handler after the other\<close>

fun runRank :: "record_run \<Rightarrow> nat" where
  "runRank (FindCall e) = 3"
| "runRank (UpsertCall e) = 2"
| "runRank (UpdateCall e r) = 2"
| "runRank (RegisterRecording e r) = 2"
| "runRank (FindMigrated p c) = 2"
| "runRank (MigrateCalls p c) = 1"
| "runRank (WriteEntry t copy) = 1"

lemma thenEntry_rank: "thenEntry urlParse i e = Some r \<Longrightarrow> runRank r = 1"
  by (auto simp: thenEntry_def)

lemma runStep_rank: "runStep urlParse now run h = (Some next_run, h') \<Longrightarrow> runRank next_run < runRank run"
  by (cases run)
    (auto simp: afterFind_def dest: thenEntry_rank split: option.splits api_event.splits if_splits)

function complete ::
    "(string \<Rightarrow> url_parts option) \<Rightarrow> millis \<Rightarrow> record_run option \<Rightarrow> call_history \<Rightarrow> call_history" where
  "complete urlParse now None h = h"
| "complete urlParse now (Some run) h =
     complete urlParse now (fst (runStep urlParse now run h)) (snd (runStep urlParse now run h))"
  by pat_completeness auto
termination
proof (relation "measure (\<lambda>(_, _, run, _). case run of None \<Rightarrow> 0 | Some r \<Rightarrow> runRank r)")
  fix urlParse :: "string \<Rightarrow> url_parts option" and now :: millis and run :: record_run and h
  show "((urlParse, now, fst (runStep urlParse now run h), snd (runStep urlParse now run h)),
      (urlParse, now, Some run, h)) \<in> measure (\<lambda>(_, _, run, _). case run of None \<Rightarrow> 0 | Some r \<Rightarrow> runRank r)"
  proof (cases "fst (runStep urlParse now run h)")
    case None
    then show ?thesis by (cases run) simp_all
  next
    case (Some next_run)
    then have "runStep urlParse now run h = (Some next_run, snd (runStep urlParse now run h))"
      by (metis prod.collapse)
    from runStep_rank [OF this] Some show ?thesis by simp
  qed
qed simp

definition persist :: "(string \<Rightarrow> url_parts option) \<Rightarrow> millis \<times> api_event \<Rightarrow> call_history \<Rightarrow> call_history" where
  "persist urlParse te h = complete urlParse (fst te) (onEvent (snd te)) h"

section \<open>Handlers interleaved\<close>

text \<open>
  The subscriber as it runs: an event starts a handler, and any handler under way makes its next
  database call, which takes effect and answers, is lost, or takes effect and only the answer is lost.
  An error is logged and the handler is over.
\<close>

record subscriber =
  history :: call_history
  handlersUnderWay :: "record_run list"

datatype subscriber_input = Arrives api_event | Proceeds nat delivery

fun subscriberStep :: "(string \<Rightarrow> url_parts option) \<Rightarrow> millis \<Rightarrow> subscriber_input \<Rightarrow> subscriber \<Rightarrow> subscriber"
  where
  "subscriberStep urlParse now (Arrives e) s =
     (case onEvent e of
        None \<Rightarrow> s
      | Some run \<Rightarrow> s\<lparr>handlersUnderWay := handlersUnderWay s @ [run]\<rparr>)"
| "subscriberStep urlParse now (Proceeds i d) s =
     (if i < length (handlersUnderWay s)
      then let done_step = runStep urlParse now (handlersUnderWay s ! i) (history s);
               rest = without i (handlersUnderWay s)
           in case d of
                Lost \<Rightarrow> s\<lparr>handlersUnderWay := rest\<rparr>
              | ReplyLost \<Rightarrow> s\<lparr>history := snd done_step, handlersUnderWay := rest\<rparr>
              | Delivered \<Rightarrow> s\<lparr>history := snd done_step,
                  handlersUnderWay := rest @ (case fst done_step of None \<Rightarrow> [] | Some r \<Rightarrow> [r])\<rparr>
      else s)"

primrec subscriberRun ::
    "(string \<Rightarrow> url_parts option) \<Rightarrow> (millis \<times> subscriber_input) list \<Rightarrow> subscriber \<Rightarrow> subscriber" where
  "subscriberRun urlParse [] s = s"
| "subscriberRun urlParse (x # xs) s =
     subscriberRun urlParse xs (subscriberStep urlParse (fst x) (snd x) s)"

definition newSubscriber :: subscriber where
  "newSubscriber = \<lparr>history = emptyHistory, handlersUnderWay = []\<rparr>"

text \<open>\<open>createChannelSubscriber\<close>: a message of an unknown channel or one that does not parse is dropped.\<close>

definition dispatch ::
    "(string \<Rightarrow> string \<Rightarrow> api_event option) \<Rightarrow> string list \<Rightarrow> string \<Rightarrow> string \<Rightarrow> subscriber_input list" where
  "dispatch parse channels channel message =
     (if channel \<notin> set channels then []
      else case parse channel message of None \<Rightarrow> [] | Some e \<Rightarrow> [Arrives e])"

section \<open>The wire from the controller\<close>

fun timelineText :: "timeline_event \<Rightarrow> string" where
  "timelineText CALL_INITIATED = ''CALL_INITIATED''"
| "timelineText CALL_RINGING = ''CALL_RINGING''"
| "timelineText CALL_ANSWERED = ''CALL_ANSWERED''"
| "timelineText CALL_COMPLETED = ''CALL_COMPLETED''"
| "timelineText CALL_FAILED = ''CALL_FAILED''"
| "timelineText CALL_CANCELED = ''CALL_CANCELED''"
| "timelineText CALL_NO_ANSWER = ''CALL_NO_ANSWER''"
| "timelineText CALL_BUSY = ''CALL_BUSY''"
| "timelineText DIAL_INITIATED = ''DIAL_INITIATED''"
| "timelineText DIAL_ANSWERED = ''DIAL_ANSWERED''"
| "timelineText DIAL_NO_ANSWER = ''DIAL_NO_ANSWER''"
| "timelineText DIAL_BUSY = ''DIAL_BUSY''"
| "timelineText DIAL_FAILED = ''DIAL_FAILED''"

fun statusText :: "participant_status \<Rightarrow> string" where
  "statusText Initiated = ''initiated''"
| "statusText Ringing = ''ringing''"
| "statusText Answered = ''answered''"
| "statusText (Ended st) = endStatusText st"

fun onTheWire :: "call_event \<Rightarrow> api_event" where
  "onTheWire (CallIncoming c f t d cl al dep u) = EvIncoming c f t d cl al dep u"
| "onTheWire (CallStarted c f t u dep d al el) = EvStarted c f t u dep d al el"
| "onTheWire (CallEnded c du st cl al el) = EvEnded c du st cl al el"
| "onTheWire (CallMissed c f t dep u) = EvMissed c f (Some t) dep u"
| "onTheWire (CallTransferred c fu tu leg) = EvTransferred c fu tu (Some leg)"
| "onTheWire (CallHeld c u leg) = EvHeld c u leg"
| "onTheWire (CallResumed c u leg) = EvResumed c u leg"
| "onTheWire (CallParticipantStatus c leg pt pid st ev ds du) =
     EvParticipant c (Some leg) pt pid (statusText st) (timelineText ev) ds du"
| "onTheWire (CallRecordingReady c url du ctx) = EvRecordingReady c url du (Some ctx)"
| "onTheWire (CallTranscriptionReady c transcript url ctx) = EvTranscriptionReady c transcript url ctx"

end
