(* ===== verification/Call_Records_Facts.thy ===== *)
theory Call_Records_Facts
  imports Call_Records
begin

text \<open>
  What the record of calls keeps under any interleaving of its handlers, what it says when they run
  one after the other, and how far the two are apart.
\<close>

section \<open>Rows, found and changed\<close>

definition rowIds :: "call_history \<Rightarrow> nat set" where
  "rowIds h = callId ` set (callRows h)"

definition history_ok :: "call_history \<Rightarrow> bool" where
  "history_ok h \<longleftrightarrow> distinct (map callId (callRows h)) \<and> distinct (map rowConversation (callRows h)) \<and>
     (\<forall>i \<in> rowIds h. i < nextCallId h) \<and>
     (\<forall>t \<in> set (timelineRows h). entryCall t \<in> rowIds h) \<and>
     (\<forall>x \<in> set (recordingRows h). fst x \<in> rowIds h) \<and>
     distinct (map (\<lambda>x. recordingSid (snd x)) (recordingRows h))"

lemma rowOf_in: "rowOf h c = Some r \<Longrightarrow> r \<in> set (callRows h) \<and> rowConversation r = c"
  unfolding rowOf_def by (auto simp: find_Some_iff)

lemma rowOf_none: "rowOf h c = None \<longleftrightarrow> c \<notin> rowConversation ` set (callRows h)"
  unfolding rowOf_def by (auto simp: find_None_iff)

lemma rowOf_id: "rowOf h c = Some r \<Longrightarrow> callId r \<in> rowIds h"
  by (auto simp: rowIds_def dest: rowOf_in)

lemma find_map_keeping:
  "(\<And>x. P (g x) = P x) \<Longrightarrow> find P (map g xs) = map_option g (find P xs)"
  by (induction xs) simp_all

lemma find_append: "find P (xs @ ys) = (case find P xs of None \<Rightarrow> find P ys | Some x \<Rightarrow> Some x)"
  by (induction xs) auto

lemma rowOf_changeRow:
  assumes "\<And>r. rowConversation (f r) = rowConversation r"
  shows "rowOf (changeRow i f h) c = map_option (\<lambda>r. if callId r = i then f r else r) (rowOf h c)"
  unfolding rowOf_def changeRow_def using assms by (simp add: find_map_keeping)

lemma rowOf_addRow:
  "rowOf (addRow r h) c =
     (case rowOf h c of
        None \<Rightarrow> if rowConversation r = c then Some (r\<lparr>callId := nextCallId h\<rparr>) else None
      | Some x \<Rightarrow> Some x)"
  by (auto simp: rowOf_def addRow_def find_append split: option.split)

lemma one_row_per_conversation:
  assumes "history_ok h" and "rowOf h c = Some r" and "rowOf h c' = Some r'" and "callId r = callId r'"
  shows "c = c'"
proof -
  have "r \<in> set (callRows h)" "r' \<in> set (callRows h)" "rowConversation r = c" "rowConversation r' = c'"
    using rowOf_in [OF assms(2)] rowOf_in [OF assms(3)] by auto
  then show ?thesis
    using assms(1,4) by (auto simp: history_ok_def distinct_map dest: inj_onD)
qed

section \<open>What every interleaving keeps\<close>

fun handler_ok :: "call_history \<Rightarrow> record_run \<Rightarrow> bool" where
  "handler_ok h (UpdateCall e r) = (callId r \<in> rowIds h)"
| "handler_ok h (RegisterRecording e r) = (callId r \<in> rowIds h)"
| "handler_ok h (WriteEntry t copy) = (entryCall t \<in> rowIds h)"
| "handler_ok h _ = True"

lemma handler_ok_mono: "handler_ok h r \<Longrightarrow> rowIds h \<subseteq> rowIds h' \<Longrightarrow> handler_ok h' r"
  by (cases r) auto

lemma image_map_keeping: "(\<And>x. k (g x) = k x) \<Longrightarrow> k ` set (map g xs) = k ` set xs"
  by (simp add: image_image)

lemma rowIds_changeRow:
  assumes "\<And>r. callId (f r) = callId r"
  shows "rowIds (changeRow i f h) = rowIds h"
  using image_map_keeping [of callId "\<lambda>r. if callId r = i then f r else r" "callRows h"] assms
  by (simp add: rowIds_def changeRow_def del: set_map)

lemma rowIds_addRow: "rowIds (addRow r h) = insert (nextCallId h) (rowIds h)"
  by (auto simp: rowIds_def addRow_def)

lemma history_ok_changeRow:
  assumes "history_ok h" and "\<And>r. callId (f r) = callId r"
    and "\<And>r. rowConversation (f r) = rowConversation r"
  shows "history_ok (changeRow i f h)"
proof -
  have "map callId (callRows (changeRow i f h)) = map callId (callRows h)"
    "map rowConversation (callRows (changeRow i f h)) = map rowConversation (callRows h)"
    using assms(2,3) by (simp_all add: changeRow_def)
  then show ?thesis
    using assms(1) rowIds_changeRow [OF assms(2)]
    by (simp add: history_ok_def) (simp add: changeRow_def)
qed

lemma history_ok_addRow:
  assumes "history_ok h" and "rowOf h (rowConversation r) = None"
  shows "history_ok (addRow r h)"
  using assms unfolding history_ok_def rowIds_addRow
  by (auto simp: addRow_def rowOf_none rowIds_def image_iff)

lemma upsert_ok:
  assumes "history_ok h" and "\<And>r. callId (f r) = callId r"
    and "\<And>r. rowConversation (f r) = rowConversation r" and "upsertCall c new f h = (i, h')"
  shows "history_ok h' \<and> rowIds h \<subseteq> rowIds h' \<and> i \<in> rowIds h'"
proof (cases "rowOf h c")
  case None
  then show ?thesis
    using assms(4) history_ok_addRow [OF assms(1), of "new\<lparr>rowConversation := c\<rparr>"]
    by (auto simp: upsertCall_def rowIds_addRow)
next
  case (Some r)
  then show ?thesis
    using assms(4) history_ok_changeRow [OF assms(1-3)] rowIds_changeRow [OF assms(2)] rowOf_id [OF Some]
    by (auto simp: upsertCall_def)
qed

lemma upserted_ok:
  assumes "history_ok h" and "upserted now e h = Some (i, h')"
  shows "history_ok h' \<and> rowIds h \<subseteq> rowIds h' \<and> i \<in> rowIds h'"
  using assms(2) by (cases e; simp; elim upsert_ok [OF assms(1), rotated 2]; simp)

lemma updated_fields [simp]:
  "callId (updated e r x) = callId x" "rowConversation (updated e r x) = rowConversation x"
  by (cases e; simp)+

lemma thenEntry_ok: "thenEntry urlParse i e = Some run \<Longrightarrow> i \<in> rowIds h \<Longrightarrow> handler_ok h run"
  by (cases e) (auto simp: thenEntry_def entry_def split: if_splits)

lemma afterFind_ok: "afterFind urlParse e r = Some run \<Longrightarrow> callId r \<in> rowIds h \<Longrightarrow> handler_ok h run"
  by (auto simp: afterFind_def intro: thenEntry_ok split: api_event.splits if_splits)

lemma rowIds_recordings [simp]:
  "rowIds (h\<lparr>recordingRows := rs\<rparr>) = rowIds h" "rowIds (h\<lparr>copiesAsked := cs\<rparr>) = rowIds h"
  "rowIds (addTimelineEntry t h) = rowIds h"
  by (simp_all add: rowIds_def addTimelineEntry_def)

lemma entry_ok: "history_ok h \<Longrightarrow> entryCall t \<in> rowIds h \<Longrightarrow>
    history_ok ((addTimelineEntry t h)\<lparr>copiesAsked := cs\<rparr>)"
  by (auto simp: history_ok_def) (auto simp: addTimelineEntry_def rowIds_def)

lemma migrate_ok:
  assumes "history_ok h" and "rowOf h c = None \<or> p = c \<or> rowOf h p = None"
  defines "h' \<equiv> h\<lparr>callRows := map (\<lambda>r. if rowConversation r = p then r\<lparr>rowConversation := c\<rparr> else r)
              (callRows h)\<rparr>"
  shows "history_ok h' \<and> rowIds h' = rowIds h"
proof -
  let ?g = "\<lambda>r. if rowConversation r = p then r\<lparr>rowConversation := c\<rparr> else r"
  have same: "map callId (callRows h') = map callId (callRows h)" "nextCallId h' = nextCallId h"
    "timelineRows h' = timelineRows h" "recordingRows h' = recordingRows h"
    by (simp_all add: h'_def)
  have renamed: "distinct (map rowConversation (map ?g rows))"
    if "distinct (map rowConversation rows)"
      and "c \<notin> rowConversation ` set rows \<or> p = c \<or> p \<notin> rowConversation ` set rows" for rows
    using that
  proof (induction rows)
    case (Cons r rs)
    then show ?case by (auto simp: image_iff)
  qed simp
  have "distinct (map rowConversation (map ?g (callRows h)))"
    by (rule renamed) (use assms(1,2) in \<open>auto simp: history_ok_def rowOf_none\<close>)
  then have "distinct (map rowConversation (callRows h'))" by (simp add: h'_def)
  moreover have "rowIds h' = rowIds h"
    using image_map_keeping [of callId ?g "callRows h"] by (simp add: rowIds_def h'_def del: set_map)
  ultimately show ?thesis
    using assms(1) same by (simp add: history_ok_def)
qed

lemma register_known: "registerRecording urlParse ctx url du now (Some k) = Some r \<Longrightarrow> r = k"
  by (simp add: registerRecording_def split: option.splits)

lemma history_ok_recording:
  assumes "history_ok h" and "i \<in> rowIds h"
    and "\<not> (\<exists>x \<in> set (recordingRows h). recordingSid (snd x) = recordingSid rec)"
  shows "history_ok (h\<lparr>recordingRows := recordingRows h @ [(i, rec)]\<rparr>)"
  using assms by (auto simp: history_ok_def)

lemma register_ok:
  assumes "history_ok h" and "callId r \<in> rowIds h"
    and "runStep urlParse now (RegisterRecording e r) h = (next_run, h')"
  shows "history_ok h' \<and> rowIds h' = rowIds h \<and> (\<forall>r. next_run = Some r \<longrightarrow> handler_ok h' r)"
proof (cases "\<exists>c url du ctx. e = EvRecordingReady c url du ctx")
  case False
  then show ?thesis using assms by (cases e) auto
next
  case True
  then obtain c url du ctx where e: "e = EvRecordingReady c url du ctx" by blast
  show ?thesis
    using assms history_ok_recording [OF assms(1,2)] unfolding e
    by (simp add: recordingEntry_def entry_def split: option.split_asm if_split_asm) auto
qed

lemma runStep_ok:
  assumes "history_ok h" and "handler_ok h run" and "runStep urlParse now run h = (next_run, h')"
  shows "history_ok h' \<and> rowIds h \<subseteq> rowIds h' \<and> (\<forall>r. next_run = Some r \<longrightarrow> handler_ok h' r)"
proof (cases run)
  case (UpsertCall e)
  then show ?thesis
    using assms by (auto intro: thenEntry_ok dest!: upserted_ok [OF assms(1)] split: option.splits)
next
  case (FindCall e)
  then show ?thesis
    using assms rowOf_id by (auto intro: afterFind_ok split: option.splits)
next
  case (UpdateCall e r)
  then show ?thesis
    using assms history_ok_changeRow [OF assms(1), of "updated e r"]
      rowIds_changeRow [of "updated e r"]
    by (auto intro: thenEntry_ok split: if_splits)
next
  case (RegisterRecording e r)
  then show ?thesis using assms register_ok [OF assms(1), of r urlParse now e next_run h'] by auto
next
  case (WriteEntry t copy)
  then show ?thesis using assms entry_ok [OF assms(1)] by auto
next
  case (FindMigrated p c)
  then show ?thesis using assms by (auto split: if_splits)
next
  case (MigrateCalls p c)
  then show ?thesis using assms migrate_ok [OF assms(1), of c p] by (auto split: if_splits)
qed

definition subscriber_ok :: "subscriber \<Rightarrow> bool" where
  "subscriber_ok s \<longleftrightarrow> history_ok (history s) \<and> (\<forall>r \<in> set (handlersUnderWay s). handler_ok (history s) r)"

lemma onEvent_ok: "onEvent e = Some run \<Longrightarrow> handler_ok h run"
  by (cases e) (auto split: if_splits)

lemma subscriberStep_ok: "subscriber_ok s \<Longrightarrow> subscriber_ok (subscriberStep urlParse now x s)"
proof (induction x)
  case (Arrives e)
  then show ?case by (auto simp: subscriber_ok_def intro: onEvent_ok split: option.split)
next
  case (Proceeds i d)
  show ?case
  proof (cases "i < length (handlersUnderWay s)")
    case True
    obtain n h' where step: "runStep urlParse now (handlersUnderWay s ! i) (history s) = (n, h')"
      by fastforce
    have "handler_ok (history s) (handlersUnderWay s ! i)"
      using Proceeds True by (simp add: subscriber_ok_def)
    from runStep_ok [OF _ this step] Proceeds
    have ok: "history_ok h'" "rowIds (history s) \<subseteq> rowIds h'" "\<forall>r. n = Some r \<longrightarrow> handler_ok h' r"
      by (simp_all add: subscriber_ok_def)
    have rest: "handler_ok (history s) r" if "r \<in> set (without i (handlersUnderWay s))" for r
      using set_without [OF that] Proceeds by (simp add: subscriber_ok_def)
    show ?thesis
      using True step ok rest Proceeds handler_ok_mono [OF _ ok(2)]
      by (cases d) (auto simp: subscriber_ok_def Let_def split: option.splits)
  qed (use Proceeds in simp)
qed

lemma subscriberRun_ok: "subscriber_ok s \<Longrightarrow> subscriber_ok (subscriberRun urlParse xs s)"
  by (induction xs arbitrary: s) (simp_all add: subscriberStep_ok)

text \<open>C29. However the handlers of call events interleave and whatever the database loses, the record
  has at most one row per conversation and per id, every timeline entry and every recording belongs to
  a row that exists, and no recording is known twice.\<close>

theorem call_record_is_consistent:
  "history_ok (history (subscriberRun urlParse xs newSubscriber))"
proof -
  have "subscriber_ok newSubscriber"
    by (simp add: subscriber_ok_def newSubscriber_def history_ok_def emptyHistory_def rowIds_def)
  from subscriberRun_ok [OF this] show ?thesis by (simp add: subscriber_ok_def)
qed

section \<open>What the record says, one handler after the other\<close>

text \<open>Whose call it is and where it stands.\<close>

definition standing :: "call_history \<Rightarrow> call_id \<Rightarrow> (string \<times> user_id option) option" where
  "standing h c = map_option (\<lambda>r. (rowStatus r, rowUser r)) (rowOf h c)"

fun standingAfter ::
    "api_event \<Rightarrow> (string \<times> user_id option) option \<Rightarrow> (string \<times> user_id option) option" where
  "standingAfter (EvIncoming c f t d cl al dep u) st =
     Some (case st of None \<Rightarrow> ''ringing'' | Some (s, _) \<Rightarrow> s, u)"
| "standingAfter (EvStarted c f t u dep d al el) st = Some (''in-progress'', Some u)"
| "standingAfter (EvEnded c du end cl al el) st = map_option (\<lambda>(_, u). (endStatusText end, u)) st"
| "standingAfter (EvMissed c f t dep u) st =
     Some (''missed'', case st of None \<Rightarrow> u | Some (_, u') \<Rightarrow> u')"
| "standingAfter (EvTransferred c fu tu al) st = map_option (\<lambda>(s, _). (s, Some tu)) st"
| "standingAfter _ st = st"

fun migrates :: "api_event \<Rightarrow> bool" where
  "migrates (EvMigrated p c) = True"
| "migrates _ = False"

lemma standing_changeRow:
  assumes "history_ok h" and "rowOf h c = Some r" and "\<And>r. rowConversation (f r) = rowConversation r"
  shows "standing (changeRow (callId r) f h) c' =
    (if c' = c then Some (rowStatus (f r), rowUser (f r)) else standing h c')"
proof (cases "c' = c")
  case True
  then show ?thesis using assms(2) by (simp add: standing_def rowOf_changeRow [OF assms(3)])
next
  case False
  then have "callId r' \<noteq> callId r" if "rowOf h c' = Some r'" for r'
    using one_row_per_conversation [OF assms(1) that assms(2)] by auto
  then show ?thesis
    using False by (cases "rowOf h c'") (simp_all add: standing_def rowOf_changeRow [OF assms(3)])
qed

lemma standing_upsert:
  assumes "history_ok h" and "\<And>r. rowConversation (f r) = rowConversation r"
  shows "standing (snd (upsertCall c new f h)) c' =
    (if c' = c
     then Some (case rowOf h c of None \<Rightarrow> (rowStatus new, rowUser new)
                | Some r \<Rightarrow> (rowStatus (f r), rowUser (f r)))
     else standing h c')"
proof (cases "rowOf h c")
  case None
  then show ?thesis
    by (auto simp: upsertCall_def standing_def rowOf_addRow split: option.split)
next
  case (Some r)
  then show ?thesis
    using standing_changeRow [OF assms(1) Some assms(2)] by (simp add: upsertCall_def)
qed

lemma standing_same: "callRows h' = callRows h \<Longrightarrow> standing h' = standing h"
  by (rule ext) (simp add: standing_def rowOf_def)

lemma complete_entry:
  "callRows (complete urlParse now (Some (WriteEntry t copy)) h) = callRows h"
  by (simp add: addTimelineEntry_def)

lemma complete_then:
  "callRows (complete urlParse now (thenEntry urlParse i e) h) = callRows h"
  by (cases "entryOf urlParse i e") (simp_all add: thenEntry_def addTimelineEntry_def)

lemma complete_upsert:
  assumes "upserted now e h = Some (i, h')"
  shows "standing (complete urlParse now (Some (UpsertCall e)) h) = standing h'"
  using assms by (simp add: standing_same [OF complete_then])

lemma complete_update:
  assumes "history_ok h" and "rowOf h c = Some r" and "updates e"
  shows "standing (complete urlParse now (Some (UpdateCall e r)) h) c' =
    (if c' = c then Some (rowStatus (updated e r r), rowUser (updated e r r)) else standing h c')"
proof -
  have "\<exists>x \<in> set (callRows h). callId x = callId r" using rowOf_in [OF assms(2)] by blast
  then show ?thesis
    using standing_changeRow [OF assms(1,2), of "updated e r" c'] assms(3)
    by (simp add: standing_same [OF complete_then])
qed

lemma complete_register:
  "callRows (complete urlParse now (Some (RegisterRecording e r)) h) = callRows h"
  by (auto simp: addTimelineEntry_def split: api_event.split option.split)

lemma standing_cases:
  "rowOf h c = None \<Longrightarrow> standing h c = None"
  "rowOf h c = Some r \<Longrightarrow> standing h c = Some (rowStatus r, rowUser r)"
  by (simp_all add: standing_def)

lemma upserted_standing:
  assumes "history_ok h" and "upserted now e h = Some (i, h')"
  shows "standing h' c' =
    (if c' = conversationOf e then standingAfter e (standing h c') else standing h c')"
proof -
  have up: "standing h' c' = (if c' = c then Some (case rowOf h c of
        None \<Rightarrow> (rowStatus new, rowUser new) | Some r \<Rightarrow> (rowStatus (f r), rowUser (f r)))
      else standing h c')"
    if "upsertCall c new f h = (i, h')" and "\<And>r. rowConversation (f r) = rowConversation r" for c new f
    using standing_upsert [OF assms(1) that(2), of c new c'] that(1) by simp
  show ?thesis
    using assms(2)
    by (cases e; cases "rowOf h (conversationOf e)"; simp)
      (drule up, simp, auto simp: standing_cases blankRow_def split: if_splits; fail)+
qed

lemma complete_plain:
  "\<not> updates e \<Longrightarrow> callRows (complete urlParse now (afterFind urlParse e r) h) = callRows h"
  by (cases e) (simp_all add: afterFind_def complete_register complete_then del: complete.simps)

lemma persist_standing:
  assumes "history_ok h" and "\<not> migrates e"
  shows "standing (persist urlParse (now, e) h) c' =
    (if c' = conversationOf e then standingAfter e (standing h c') else standing h c')"
proof (cases "onEvent e")
  case None
  then show ?thesis by (cases e) (auto simp: persist_def split: if_splits)
next
  case run: (Some run)
  show ?thesis
  proof (cases "\<exists>i h'. upserted now e h = Some (i, h')")
    case True
    then obtain i h' where up: "upserted now e h = Some (i, h')" by blast
    then have "run = UpsertCall e" using run by (cases e) auto
    then show ?thesis
      using complete_upsert [OF up] upserted_standing [OF assms(1) up] run by (simp add: persist_def)
  next
    case False
    then have find: "run = FindCall e" "standingAfter e None = None"
      using run assms(2) by (cases e; auto split: if_splits)+
    show ?thesis
    proof (cases "rowOf h (conversationOf e)")
      case None
      then show ?thesis using run find by (auto simp: persist_def standing_cases)
    next
      case (Some r)
      have "standing (complete urlParse now (afterFind urlParse e r) h) c' =
        (if c' = conversationOf e then standingAfter e (standing h c') else standing h c')"
      proof (cases "updates e")
        case True
        then show ?thesis
          using complete_update [OF assms(1) Some, of e urlParse now c'] standing_cases(2) [OF Some]
          by (cases e) (auto simp: afterFind_def)
      next
        case plain_case: False
        then have same: "standingAfter e st = st" for st using False by (cases e) auto
        from standing_same [OF complete_plain [OF plain_case]] show ?thesis by (simp add: same)
      qed
      then show ?thesis using run find(1) Some by (simp add: persist_def)
    qed
  qed
qed

lemma complete_ok: "history_ok h \<Longrightarrow> (\<And>r. run = Some r \<Longrightarrow> handler_ok h r) \<Longrightarrow>
    history_ok (complete urlParse now run h)"
proof (induction urlParse now run h rule: complete.induct)
  case (2 urlParse now run h)
  obtain n h' where step: "runStep urlParse now run h = (n, h')" by fastforce
  from runStep_ok [OF 2(2) 2(3) [OF refl] step] 2(1) show ?case by (simp add: step)
qed simp

lemma persist_ok: "history_ok h \<Longrightarrow> history_ok (persist urlParse te h)"
  unfolding persist_def by (rule complete_ok) (auto intro: onEvent_ok)

text \<open>A migration renames the row of a conversation, unless the new name is taken.\<close>

lemma find_mapped: "find P (map g xs) = map_option g (find (P \<circ> g) xs)"
  by (induction xs) simp_all

lemma migrated_standing:
  fixes p :: call_id
  assumes "rowOf h c = None"
  defines "g \<equiv> \<lambda>r. if rowConversation r = p then r\<lparr>rowConversation := c\<rparr> else r"
  shows "standing (h\<lparr>callRows := map g (callRows h)\<rparr>) = (standing h)(p := None, c := standing h p)"
proof
  fix c'
  have none: "rowConversation r \<noteq> c" if "r \<in> set (callRows h)" for r
    using assms(1) that by (auto simp: rowOf_none)
  have renamed: "rowOf (h\<lparr>callRows := map g (callRows h)\<rparr>) c' =
      map_option g (find (\<lambda>r. (if rowConversation r = p then c else rowConversation r) = c') (callRows h))"
    by (auto simp: rowOf_def find_mapped g_def comp_def intro!: arg_cong [where f = "map_option _"] find_cong)
  have "find (\<lambda>r. (if rowConversation r = p then c else rowConversation r) = c') (callRows h) =
      (if c' = c then rowOf h p else if c' = p then None else rowOf h c')"
  proof (cases "c' = c")
    case True
    then show ?thesis using none by (auto simp: rowOf_def intro!: find_cong)
  next
    case False
    have "find (\<lambda>r. (if rowConversation r = p then c else rowConversation r) = c') (callRows h) =
        find (\<lambda>r. rowConversation r \<noteq> p \<and> rowConversation r = c') (callRows h)"
      using False by (intro find_cong) auto
    then show ?thesis
      using False by (cases "c' = p") (auto simp: rowOf_def find_None_iff intro!: find_cong)
  qed
  then show "standing (h\<lparr>callRows := map g (callRows h)\<rparr>) c' = ((standing h)(p := None, c := standing h p)) c'"
    using renamed by (simp add: standing_def g_def option.map_comp comp_def if_distrib [of rowStatus] if_distrib [of rowUser] cong: if_cong)
qed

text \<open>What an event makes of where all conversations stand.\<close>

definition recordAfter ::
    "api_event \<Rightarrow> (call_id \<Rightarrow> (string \<times> user_id option) option) \<Rightarrow> call_id \<Rightarrow> (string \<times> user_id option) option" where
  "recordAfter e st =
     (case e of
        EvMigrated p c \<Rightarrow> if st c \<noteq> None then st else st(p := None, c := st p)
      | _ \<Rightarrow> st(conversationOf e := standingAfter e (st (conversationOf e))))"

lemma persist_migrated:
  "standing (persist urlParse (now, EvMigrated p c) h) = recordAfter (EvMigrated p c) (standing h)"
proof (cases "rowOf h c")
  case None
  then show ?thesis
    using migrated_standing [OF None, of p] by (simp add: persist_def recordAfter_def standing_cases(1))
next
  case (Some r)
  then show ?thesis by (simp add: persist_def recordAfter_def standing_cases(2))
qed

lemma persist_recorded:
  assumes "history_ok h"
  shows "standing (persist urlParse te h) = recordAfter (snd te) (standing h)"
proof (cases "migrates (snd te)")
  case True
  then obtain p c where "snd te = EvMigrated p c" by (cases "snd te") auto
  then show ?thesis using persist_migrated [of urlParse "fst te" p c h] by (cases te) simp
next
  case False
  then have "recordAfter (snd te) st = st(conversationOf (snd te) := standingAfter (snd te) (st (conversationOf (snd te))))" for st
    by (cases "snd te") (simp_all add: recordAfter_def)
  then show ?thesis
    using persist_standing [OF assms False, of urlParse "fst te"] by (cases te) (auto simp: fun_eq_iff)
qed

text \<open>C27. When handlers do not overlap, the record follows the controller: where every conversation stands
  and whose it is are what the events, applied in order by \<open>recordAfter\<close> to what the record said before,
  make of it. An event changes its own conversation only; a migration moves what is recorded of one
  conversation to another that nothing is recorded of, and otherwise changes nothing.\<close>

theorem record_follows_the_events:
  assumes "history_ok h"
  shows "standing (fold (persist urlParse) es h) = fold recordAfter (map snd es) (standing h)"
  using assms
proof (induction es arbitrary: h)
  case (Cons te es)
  then show ?case using persist_recorded [OF Cons.prems, of urlParse te] by (simp add: persist_ok)
qed simp

definition sampleEvents :: "(millis \<times> api_event) list" where
  "sampleEvents =
     [(0, EvIncoming ''CF1'' ''+1'' ''+2'' Inbound None None None None),
      (1, EvStarted ''CF1'' ''+1'' ''+2'' ''u1'' None Inbound None None),
      (2, EvMigrated ''CF1'' ''CF2''), (3, EvTransferred ''CF2'' ''u1'' ''u2'' None),
      (4, EvTransferred ''CF1'' ''u1'' ''u3'' None), (5, EvEnded ''CF2'' 60 Completed None None None)]"

theorem record_follows_the_events_witness:
  "standing (fold (persist (\<lambda>u. None)) sampleEvents emptyHistory) ''CF2'' = Some (''completed'', Some ''u2'') \<and>
   standing (fold (persist (\<lambda>u. None)) sampleEvents emptyHistory) ''CF1'' = None"
proof -
  have "history_ok emptyHistory" by (simp add: history_ok_def emptyHistory_def rowIds_def)
  then have "standing (fold (persist (\<lambda>u. None)) sampleEvents emptyHistory) =
      fold recordAfter (map snd sampleEvents) (standing emptyHistory)"
    by (rule record_follows_the_events)
  then show ?thesis
    by (simp add: sampleEvents_def recordAfter_def standing_def rowOf_def emptyHistory_def)
qed

section \<open>When handlers overlap\<close>

text \<open>Handlers are not queued, so two events of one call can overtake each other between their database
  calls: the answer of a call that is over can be written after its end, and then the call is recorded
  as in progress for good.\<close>

lemma answer_can_overtake_the_end:
  "let s = subscriberRun (\<lambda>u. None)
       [(0, Arrives (EvIncoming ''CF1'' ''+1'' ''+2'' Inbound None None None None)), (0, Proceeds 0 Delivered),
        (0, Proceeds 0 Delivered),
        (1, Arrives (EvStarted ''CF1'' ''+1'' ''+2'' ''u1'' None Inbound None None)),
        (2, Arrives (EvEnded ''CF1'' 1 Completed None None None)),
        (3, Proceeds 1 Delivered), (3, Proceeds 1 Delivered), (3, Proceeds 0 Delivered)] newSubscriber
   in standing (history s) ''CF1'' = Some (''in-progress'', Some ''u1'')"
  by (simp add: newSubscriber_def emptyHistory_def upsertCall_def rowOf_def addRow_def blankRow_def
      without_def thenEntry_def entry_def metaText_def addTimelineEntry_def afterFind_def
      changeRow_def newOr_def standing_def Let_def)

text \<open>And what follows the first event of a call at once can find no row yet, and is dropped.\<close>

lemma early_events_are_dropped:
  "let s = subscriberRun (\<lambda>u. None)
       [(0, Arrives (EvIncoming ''CF1'' ''+1'' ''+2'' Inbound None None None None)),
        (0, Arrives (EvEnded ''CF1'' 1 Canceled None None None)),
        (1, Proceeds 1 Delivered), (1, Proceeds 0 Delivered), (1, Proceeds 0 Delivered)] newSubscriber
   in standing (history s) ''CF1'' = Some (''ringing'', None) \<and> handlersUnderWay s = []"
  by (simp add: newSubscriber_def emptyHistory_def upsertCall_def rowOf_def addRow_def blankRow_def
      without_def thenEntry_def entry_def metaText_def addTimelineEntry_def standing_def Let_def)

section \<open>What the controller publishes is known\<close>

lemma known_type: "timelineText t \<in> set CALL_EVENT_TYPES"
  by (cases t) (simp_all add: CALL_EVENT_TYPES_def)

lemma published_status_is_kept: "onEvent (onTheWire e) \<noteq> None"
  by (cases e) (simp_all add: known_type)

end
