(* ===== verification/Call_Reading.thy ===== *)
theory Call_Reading
  imports Call_Records_Facts
begin

text \<open>
  Reading the record of calls: whose calls a user may see and how a list narrows that
  (\<open>apps/api/src/calls/call-scope.ts\<close>), the published shape of a call (\<open>call-record.ts\<close>), the reads
  (\<open>call-history.service.ts\<close>) and the hangup route (\<open>call.routes.ts\<close>). A filter is a term of the
  fragment of the database's query language the code builds, with the meaning the language documents:
  the members of an object all hold, \<open>OR\<close> is any of a list, a column that is null equals nothing.
\<close>

section \<open>Filters\<close>

datatype call_where =
  AllOf "call_where list"
| AnyOf "call_where list"
| NotThat call_where
| OfUser user_id
| OfDepartments "department_id list"
| OfConversation call_id
| FromIs phone
| ToIs phone
| StatusIn "string list"
| DirectionIs string
| HasEvent string

text \<open>A call as the database sees it when it filters: its row and the types of its timeline entries.\<close>

definition eventsOf :: "call_history \<Rightarrow> call_row \<Rightarrow> string list" where
  "eventsOf h r = map entryType (filter (\<lambda>t. entryCall t = callId r) (timelineRows h))"

fun satisfies :: "call_history \<Rightarrow> call_where \<Rightarrow> call_row \<Rightarrow> bool" where
  "satisfies h (AllOf ws) r = list_all (\<lambda>w. satisfies h w r) ws"
| "satisfies h (AnyOf ws) r = list_ex (\<lambda>w. satisfies h w r) ws"
| "satisfies h (NotThat w) r = (\<not> satisfies h w r)"
| "satisfies h (OfUser u) r = (rowUser r = Some u)"
| "satisfies h (OfDepartments ds) r = (case rowDepartment r of None \<Rightarrow> False | Some d \<Rightarrow> d \<in> set ds)"
| "satisfies h (OfConversation c) r = (rowConversation r = c)"
| "satisfies h (FromIs p) r = (rowFrom r = p)"
| "satisfies h (ToIs p) r = (rowTo r = p)"
| "satisfies h (StatusIn ss) r = (rowStatus r \<in> set ss)"
| "satisfies h (DirectionIs d) r = (rowDirection r = d)"
| "satisfies h (HasEvent ty) r = (ty \<in> set (eventsOf h r))"

section \<open>Scope\<close>

definition VOICEMAIL_EVENT :: string where
  "VOICEMAIL_EVENT = ''VOICEMAIL_COMPLETED''"

definition buildCallScope :: "user_id \<Rightarrow> role \<Rightarrow> department_id list \<Rightarrow> call_where" where
  "buildCallScope user r departmentIds =
     (if r = ADMIN \<or> r = SUPERVISOR then AllOf []
      else AnyOf [OfUser user, OfDepartments departmentIds])"

text \<open>\<open>memberships\<close> is what the database answers for the user's departments.\<close>

definition loadCallScope :: "(user_id \<Rightarrow> department_id list) \<Rightarrow> user_id \<Rightarrow> role \<Rightarrow> call_where" where
  "loadCallScope memberships user r =
     (if r \<noteq> AGENT then buildCallScope user r [] else buildCallScope user r (memberships user))"

record call_list_query =
  queryLimit :: nat
  queryOffset :: nat
  queryLinePhone :: "string option"
  queryContactPhone :: "string option"
  queryStatus :: "string list option"
  queryDirection :: "call_direction option"
  queryHasVoicemail :: "bool option"

definition phoneFilters :: "string option list \<Rightarrow> call_where list" where
  "phoneFilters phones = map (\<lambda>p. AnyOf [FromIs p, ToIs p]) (present phones)"

definition listFilters :: "call_list_query \<Rightarrow> call_where list" where
  "listFilters q =
     phoneFilters [queryLinePhone q, queryContactPhone q]
     @ (case queryStatus q of None \<Rightarrow> [] | Some ss \<Rightarrow> [StatusIn ss])
     @ (case queryDirection q of None \<Rightarrow> [] | Some d \<Rightarrow> [DirectionIs (directionText d)])
     @ (case queryHasVoicemail q of
          None \<Rightarrow> []
        | Some b \<Rightarrow> [if b then HasEvent VOICEMAIL_EVENT else NotThat (HasEvent VOICEMAIL_EVENT)])"

definition buildCallListWhere :: "call_where \<Rightarrow> call_list_query \<Rightarrow> call_where" where
  "buildCallListWhere scope q = (if listFilters q \<noteq> [] then AllOf (scope # listFilters q) else scope)"

section \<open>The published call\<close>

record recording_summary =
  summaryContext :: recording_context
  summaryDuration :: "nat option"
  summaryDeletion :: "recording_deletion option"
  summaryCreatedAt :: millis

record published_call =
  pubId :: nat
  pubConversation :: call_id
  pubLegs :: "leg_id option \<times> leg_id option \<times> leg_id option"
  pubFrom :: phone
  pubTo :: phone
  pubStatus :: string
  pubDuration :: "nat option"
  pubTranscript :: "string option"
  pubDirection :: call_direction
  pubUser :: "user_id option"
  pubDepartment :: "department_id option"
  pubContact :: "string option"
  pubLine :: "string option"
  pubHasVoicemail :: bool
  pubRecordings :: "recording_summary list"
  pubCreatedAt :: millis

definition toRecordingSummary :: "recording_row \<Rightarrow> recording_summary" where
  "toRecordingSummary r =
     \<lparr>summaryContext = recordingContext r, summaryDuration = recordingDuration r,
      summaryDeletion = toRecordingDeletion (deletedAt r) (deletionReason r),
      summaryCreatedAt = announcedAt r\<rparr>"

definition toCallDirection :: "string \<Rightarrow> call_direction" where
  "toCallDirection d = (if d = ''inbound'' then Inbound else Outbound)"

text \<open>The recordings of a call, the newest first.\<close>

definition recordingsOf :: "call_history \<Rightarrow> call_row \<Rightarrow> recording_row list" where
  "recordingsOf h r =
     rev (sort_key announcedAt (map snd (filter (\<lambda>x. fst x = callId r) (recordingRows h))))"

definition toCallRecordDto ::
    "call_history \<Rightarrow> call_row \<Rightarrow> string option \<Rightarrow> string option \<Rightarrow> role \<Rightarrow> published_call" where
  "toCallRecordDto h r contact line role =
     \<lparr>pubId = callId r, pubConversation = rowConversation r,
      pubLegs = (rowCallerLeg r, rowAgentLeg r, rowExternalLeg r), pubFrom = rowFrom r, pubTo = rowTo r,
      pubStatus = rowStatus r, pubDuration = rowDuration r, pubTranscript = rowTranscript r,
      pubDirection = toCallDirection (rowDirection r), pubUser = rowUser r,
      pubDepartment = rowDepartment r, pubContact = contact, pubLine = line,
      pubHasVoicemail = (VOICEMAIL_EVENT \<in> set (eventsOf h r)),
      pubRecordings = map toRecordingSummary
        (filter (\<lambda>rec. canListenToRecording role (recordingContext rec)) (recordingsOf h r)),
      pubCreatedAt = rowCreatedAt r\<rparr>"

section \<open>The reads\<close>

text \<open>The directory: contact and line ids by number. A number is a row at most once in each table.\<close>

record directory =
  contactOf :: "phone \<rightharpoonup> string"
  lineOf :: "phone \<rightharpoonup> string"

text \<open>
  \<open>withParties\<close>: the numbers asked for once each, the rows found put into a map by number, and each call
  given what the map says of its two parties.
\<close>

definition withParties :: "directory \<Rightarrow> call_history \<Rightarrow> call_row list \<Rightarrow> role \<Rightarrow> published_call list" where
  "withParties dir h calls role =
     (let counterparty = (\<lambda>r. callCounterparty (rowDirection r) (rowFrom r) (rowTo r));
          ourLine = (\<lambda>r. callLine (rowDirection r) (rowFrom r) (rowTo r));
          contacts = map_of (List.map_filter
            (\<lambda>n. map_option (Pair n) (contactOf dir n)) (uniq (map counterparty calls)));
          lines = map_of (List.map_filter
            (\<lambda>n. map_option (Pair n) (lineOf dir n)) (uniq (map ourLine calls)))
      in map (\<lambda>r. toCallRecordDto h r (contacts (counterparty r)) (lines (ourLine r)) role) calls)"

record call_list_response =
  respCalls :: "published_call list"
  respTotal :: nat
  respLimit :: nat
  respOffset :: nat

text \<open>Newest first; calls of the same instant in no order the source asks for, here the later row first.\<close>

definition listForUser ::
    "directory \<Rightarrow> call_history \<Rightarrow> call_where \<Rightarrow> call_list_query \<Rightarrow> role \<Rightarrow> call_list_response" where
  "listForUser dir h scope q role =
     (let found = filter (satisfies h (buildCallListWhere scope q)) (callRows h)
      in \<lparr>respCalls = withParties dir h
            (take (queryLimit q) (drop (queryOffset q) (rev (sort_key rowCreatedAt found)))) role,
          respTotal = length found, respLimit = queryLimit q, respOffset = queryOffset q\<rparr>)"

definition findInScope ::
    "directory \<Rightarrow> call_history \<Rightarrow> call_where \<Rightarrow> call_id \<Rightarrow> role \<Rightarrow> published_call option" where
  "findInScope dir h scope conversation role =
     (case find (satisfies h (AllOf [OfConversation conversation, scope])) (callRows h) of
        None \<Rightarrow> None
      | Some r \<Rightarrow> (case withParties dir h [r] role of [] \<Rightarrow> None | p # _ \<Rightarrow> Some p))"

text \<open>The routes: a hangup is published for a call the user may see, and is otherwise not found.\<close>

datatype call_route_answer = CallNotFound | HangupSent call_id user_id

definition hangupCallRoute ::
    "(user_id \<Rightarrow> department_id list) \<Rightarrow> directory \<Rightarrow> call_history \<Rightarrow> user_id \<Rightarrow> role \<Rightarrow> call_id \<Rightarrow> call_route_answer"
  where
  "hangupCallRoute memberships dir h user r conversation =
     (case findInScope dir h (loadCallScope memberships user r) conversation r of
        None \<Rightarrow> CallNotFound
      | Some call \<Rightarrow> HangupSent (pubConversation call) user)"

section \<open>A list narrows its scope\<close>

lemma list_where_narrows:
  "satisfies h (buildCallListWhere scope q) r \<longleftrightarrow>
     satisfies h scope r \<and> list_all (\<lambda>w. satisfies h w r) (listFilters q)"
  by (auto simp: buildCallListWhere_def)

lemma phone_filters:
  "list_all (\<lambda>w. satisfies h w r) (phoneFilters ps) \<longleftrightarrow>
     (\<forall>p. Some p \<in> set ps \<longrightarrow> p \<noteq> [] \<longrightarrow> rowFrom r = p \<or> rowTo r = p)"
  by (induction ps rule: present.induct) (auto simp: phoneFilters_def)

lemma conversation_filters:
  "satisfies h (buildCallListWhere scope q) r \<Longrightarrow> queryLinePhone q = Some l \<Longrightarrow> queryContactPhone q = Some p \<Longrightarrow>
     l \<noteq> [] \<Longrightarrow> p \<noteq> [] \<Longrightarrow> (rowFrom r = l \<or> rowTo r = l) \<and> (rowFrom r = p \<or> rowTo r = p)"
  by (simp add: list_where_narrows listFilters_def phone_filters)

section \<open>What an agent is told\<close>

definition agentMaySee :: "user_id \<Rightarrow> department_id list \<Rightarrow> published_call \<Rightarrow> bool" where
  "agentMaySee user departments p \<longleftrightarrow>
     (pubUser p = Some user \<or> (\<exists>d \<in> set departments. pubDepartment p = Some d)) \<and>
     list_all (\<lambda>rec. summaryContext rec = VoicemailRecording) (pubRecordings p)"

lemma agent_scope:
  "satisfies h (loadCallScope memberships user AGENT) r \<longleftrightarrow>
     rowUser r = Some user \<or> (\<exists>d \<in> set (memberships user). rowDepartment r = Some d)"
  by (auto simp: loadCallScope_def buildCallScope_def split: option.splits)

lemma agent_hears_voicemail: "canListenToRecording AGENT context \<longleftrightarrow> context = VoicemailRecording"
  by (auto simp: canListenToRecording_def hasPermission_def)

lemma agent_sees:
  assumes "satisfies h (loadCallScope memberships user AGENT) r"
  shows "agentMaySee user (memberships user) (toCallRecordDto h r contact line AGENT)"
  using assms
  by (auto simp: agentMaySee_def agent_scope toCallRecordDto_def toRecordingSummary_def
      agent_hears_voicemail list_all_iff)

lemma withParties_of: "p \<in> set (withParties dir h calls role) \<Longrightarrow>
    \<exists>r \<in> set calls. \<exists>contact line. p = toCallRecordDto h r contact line role"
  by (auto simp: withParties_def Let_def)

lemma listed_calls:
  "p \<in> set (respCalls (listForUser dir h scope q role)) \<Longrightarrow>
     \<exists>r \<in> set (callRows h). satisfies h scope r \<and> (\<exists>contact line. p = toCallRecordDto h r contact line role)"
  by (auto simp: listForUser_def Let_def list_where_narrows dest!: withParties_of in_set_takeD in_set_dropD) blast

text \<open>C28. Whatever an agent asks for, every call a list shows them, and every call a lookup finds, is
  theirs or a department's they belong to, and mentions no recording but voicemails; a lookup outside
  that answers as if the call did not exist, so a hangup there is not published.\<close>

theorem agents_see_only_their_calls:
  "list_all (agentMaySee user (memberships user))
     (respCalls (listForUser dir h (loadCallScope memberships user AGENT) q AGENT)) \<and>
   pred_option (agentMaySee user (memberships user))
     (findInScope dir h (loadCallScope memberships user AGENT) c AGENT) \<and>
   (hangupCallRoute memberships dir h user AGENT c = CallNotFound \<longleftrightarrow>
     filter (\<lambda>r. rowConversation r = c \<and>
       (rowUser r = Some user \<or> list_ex (\<lambda>d. rowDepartment r = Some d) (memberships user))) (callRows h) = [])"
proof (intro conjI)
  show "list_all (agentMaySee user (memberships user))
     (respCalls (listForUser dir h (loadCallScope memberships user AGENT) q AGENT))"
    unfolding list_all_iff using listed_calls agent_sees by blast
next
  show "pred_option (agentMaySee user (memberships user))
     (findInScope dir h (loadCallScope memberships user AGENT) c AGENT)"
    using agent_sees
    by (auto simp: findInScope_def find_Some_iff withParties_def Let_def split: option.split)
next
  show "hangupCallRoute memberships dir h user AGENT c = CallNotFound \<longleftrightarrow>
     filter (\<lambda>r. rowConversation r = c \<and>
       (rowUser r = Some user \<or> list_ex (\<lambda>d. rowDepartment r = Some d) (memberships user))) (callRows h) = []"
    by (auto simp: hangupCallRoute_def findInScope_def withParties_def Let_def find_None_iff
        filter_empty_conv agent_scope list_ex_iff find_Some_iff split: option.split)
qed

text \<open>A page is never longer than asked for, and the total counts every call in scope that matches.\<close>

lemma page_is_bounded: "length (respCalls (listForUser dir h scope q role)) \<le> queryLimit q"
  by (simp add: listForUser_def withParties_def Let_def)

lemma pages_cover_the_list:
  assumes "queryOffset q = 0" and "respTotal (listForUser dir h scope q role) \<le> queryLimit q"
  shows "mset (map pubId (respCalls (listForUser dir h scope q role))) =
    mset (map callId (filter (satisfies h (buildCallListWhere scope q)) (callRows h)))"
  using assms by (simp add: listForUser_def withParties_def Let_def toCallRecordDto_def comp_def)

end
