(* ===== verification/Administration.thy ===== *)
theory Administration
  imports Line_Directory
begin

text \<open>
  Who holds which number, who is in which department and how a department answers: the services an
  administrator changes them through (\<open>apps/api/src/phone-numbers/phone-number.service.ts\<close>,
  \<open>departments/department.service.ts\<close>, \<open>users/user.service.ts\<close>), every method cut at its awaits, so that
  requests may overlap. Each reads, decides, commits one transaction with its audit entry, and
  refreshes the routing cache. Columns that neither routing nor assignment reads are left out, and so
  are lists, roles, passwords and invitations.
\<close>

section \<open>Requests\<close>

text \<open>An optional value of an optional field: not given, cleared, or set.\<close>

type_synonym 'a change = "'a option option"

record purchase =
  boughtPhone :: phone
  boughtLabel :: "string option"
  boughtForUser :: "user_id option"
  boughtForDepartment :: "department_id option"
  boughtPrimary :: bool

record number_update =
  updLabel :: "string change"
  updUser :: "user_id change"
  updDepartment :: "department_id change"
  updPrimary :: "bool option"

record settings_change =
  chTimezone :: "string option"
  chIs24Hours :: "bool option"
  chOpenRouting :: "open_hours_routing option"
  chClosedRouting :: "closed_hours_routing option"
  chExternalNumber :: "string change"
  chRingDuration :: "nat option"

record holiday_change =
  chHolidayName :: "string option"
  chHolidayDay :: "int option"
  chRecurring :: "bool option"
  chHolidayRouting :: "closed_hours_routing option"
  chHolidayValue :: "string option"

datatype admin_request =
  PurchaseNumber purchase
| UpdateNumber string number_update
| ReleaseNumber string
| CreateDepartment string
| UpdateDepartment department_id "string option"
| DeleteDepartment department_id
| RestoreDepartment department_id
| UpdateSettings department_id settings_change
| UpdateBusinessHours department_id "cached_business_hours list"
| AddHoliday department_id cached_holiday
| UpdateHoliday department_id string holiday_change
| DeleteHoliday department_id string
| AddAgent department_id user_id nat
| UpdateAgentOrder department_id "(user_id \<times> nat) list"
| RemoveAgent department_id user_id
| DepartmentTakes department_id string bool
| DepartmentDrops department_id string
| CreateUser string "string option" "department_id list" "string list"
| UpdateUser user_id "string option" "string option"
| DeleteUser user_id
| RestoreUser user_id
| JoinDepartment user_id department_id nat
| LeaveDepartment user_id department_id
| UserTakes user_id string
| UserDrops user_id string

text \<open>\<open>null\<close> or \<open>false\<close>, an \<open>AdminServiceError\<close> with its status, any other error, or success.\<close>

datatype admin_answer = Missing | RefusedWith nat | Broke | Succeeded

section \<open>The store\<close>

text \<open>An entry of the audit log: its action and whom it is about.\<close>

type_synonym audit_entry = "string \<times> string"

record admin_store =
  lineDb :: line_db
  auditLog :: "audit_entry list"
  routes :: routing_cache
  twilioNumbers :: "phone list"

text \<open>
  What surrounds a step: the address greetings are served from, the id the database would give a new
  row, and what Twilio answers about a number: whether it sells, configures and cancels it, and
  whether the bought number does voice.
\<close>

record admin_outside =
  publicAddress :: string
  freshId :: string
  sellsNumber :: "phone \<Rightarrow> bool"
  configuresNumber :: "phone \<Rightarrow> bool"
  cancelsNumber :: "phone \<Rightarrow> bool"
  ownedVoice :: "phone \<Rightarrow> bool option"

definition changeNumbers :: "(number_row \<Rightarrow> bool) \<Rightarrow> (number_row \<Rightarrow> number_row) \<Rightarrow> line_db \<Rightarrow> line_db" where
  "changeNumbers Q f db = db\<lparr>numbers := map (\<lambda>n. if Q n then f n else n) (numbers db)\<rparr>"

definition changeDepartment :: "department_id \<Rightarrow> (department_row \<Rightarrow> department_row) \<Rightarrow> line_db \<Rightarrow> line_db" where
  "changeDepartment i f db =
     db\<lparr>departments := map (\<lambda>d. if deptId d = i then f d else d) (departments db)\<rparr>"

definition changeUser :: "user_id \<Rightarrow> (user_row \<Rightarrow> user_row) \<Rightarrow> line_db \<Rightarrow> line_db" where
  "changeUser i f db = db\<lparr>userRows := map (\<lambda>u. if userRowId u = i then f u else u) (userRows db)\<rparr>"

definition liveNumber :: "line_db \<Rightarrow> string \<Rightarrow> number_row option" where
  "liveNumber db i = find (\<lambda>n. numberId n = i \<and> \<not> numberDeleted n) (numbers db)"

definition isLiveDepartment :: "line_db \<Rightarrow> department_id \<Rightarrow> bool" where
  "isLiveDepartment db i \<longleftrightarrow>
     (case departmentOf db (Some i) of None \<Rightarrow> False | Some d \<Rightarrow> \<not> deptDeleted d)"

definition isMember :: "line_db \<Rightarrow> department_id \<Rightarrow> user_id \<Rightarrow> bool" where
  "isMember db i u \<longleftrightarrow>
     (case departmentOf db (Some i) of None \<Rightarrow> False | Some d \<Rightarrow> u \<in> set (map ouUserId (deptMembers d)))"

definition departmentsOfUser :: "line_db \<Rightarrow> user_id \<Rightarrow> department_id list" where
  "departmentsOfUser db u = map deptId (filter (\<lambda>d. u \<in> set (map ouUserId (deptMembers d))) (departments db))"

definition unheld :: "number_row \<Rightarrow> bool" where
  "unheld n \<longleftrightarrow> numberUser n = None \<and> numberDepartment n = None"

text \<open>\<open>undefined\<close> keeps a column.\<close>

definition orKeep :: "'a option \<Rightarrow> 'a \<Rightarrow> 'a" where
  "orKeep new old = (case new of None \<Rightarrow> old | Some x \<Rightarrow> x)"

section \<open>Transactions of departments\<close>

text \<open>A transaction commits a store, or is rolled back with the answer.\<close>

type_synonym transaction = "admin_answer + (line_db \<times> audit_entry list)"

definition defaultSettings :: department_settings where
  "defaultSettings =
     \<lparr>dsTimezone = ''America/Chicago'', dsIs24Hours = False, dsOpenHoursRouting = SIMULTANEOUS,
      dsRingDuration = 30, dsClosedHoursRouting = VOICEMAIL, dsExternalNumber = None, dsGreetingId = None\<rparr>"

text \<open>Monday to Friday, 08:00 to 17:00.\<close>

definition defaultHours :: "cached_business_hours list" where
  "defaultHours =
     map (\<lambda>day. let open_day = (day \<in> {1, 2, 3, 4, 5}) in
       \<lparr>dayOfWeek = day, isOpen = open_day, openTime = (if open_day then Some ''08:00'' else None),
        closeTime = (if open_day then Some ''17:00'' else None)\<rparr>) [0, 1, 2, 3, 4, 5, 6]"

definition createDepartment :: "string \<Rightarrow> string \<Rightarrow> line_db \<Rightarrow> transaction" where
  "createDepartment fresh name db =
     (if name \<in> set (map deptName (departments db)) then Inl (RefusedWith 409)
      else if fresh \<in> set (map deptId (departments db)) then Inl Broke
      else Inr (db\<lparr>departments := departments db @
          [\<lparr>deptId = fresh, deptName = name, deptDeleted = False, deptMembers = [],
            deptSettings = Some defaultSettings, deptHours = defaultHours, deptHolidays = []\<rparr>]\<rparr>,
        [(''department.created'', fresh)]))"

definition updateDepartment :: "department_id \<Rightarrow> string option \<Rightarrow> bool \<Rightarrow> line_db \<Rightarrow> transaction" where
  "updateDepartment i name renamed db =
     (if name \<noteq> None \<and> (\<exists>d \<in> set (departments db). deptId d \<noteq> i \<and> Some (deptName d) = name)
      then Inl (RefusedWith 409)
      else Inr (changeDepartment i (\<lambda>d. d\<lparr>deptName := orKeep name (deptName d)\<rparr>) db,
        if renamed then [(''department.updated'', i)] else []))"

definition clearGreeting :: "department_row \<Rightarrow> department_row" where
  "clearGreeting d =
     d\<lparr>deptSettings := map_option (\<lambda>s. if truthy (dsGreetingId s) then s\<lparr>dsGreetingId := None\<rparr> else s)
         (deptSettings d)\<rparr>"

definition deleteDepartment :: "department_id \<Rightarrow> line_db \<Rightarrow> transaction" where
  "deleteDepartment i db =
     Inr (changeNumbers (\<lambda>n. numberDepartment n = Some i)
         (\<lambda>n. n\<lparr>numberDepartment := None, numberPrimary := False, numberStatus := ''RESERVED''\<rparr>)
       (changeDepartment i (\<lambda>d. clearGreeting (d\<lparr>deptDeleted := True\<rparr>)) db),
       [(''department.deleted'', i)])"

definition restoreDepartment :: "department_id \<Rightarrow> line_db \<Rightarrow> transaction" where
  "restoreDepartment i db =
     Inr (changeDepartment i (\<lambda>d. d\<lparr>deptDeleted := False\<rparr>) db, [(''department.restored'', i)])"

definition changeSettings :: "settings_change \<Rightarrow> department_settings \<Rightarrow> department_settings" where
  "changeSettings c s =
     s\<lparr>dsTimezone := orKeep (chTimezone c) (dsTimezone s),
       dsIs24Hours := orKeep (chIs24Hours c) (dsIs24Hours s),
       dsOpenHoursRouting := orKeep (chOpenRouting c) (dsOpenHoursRouting s),
       dsClosedHoursRouting := orKeep (chClosedRouting c) (dsClosedHoursRouting s),
       dsExternalNumber := orKeep (chExternalNumber c) (dsExternalNumber s),
       dsRingDuration := orKeep (chRingDuration c) (dsRingDuration s)\<rparr>"

definition updateSettings :: "department_id \<Rightarrow> settings_change \<Rightarrow> line_db \<Rightarrow> transaction" where
  "updateSettings i c db =
     (if (case departmentOf db (Some i) of None \<Rightarrow> True | Some d \<Rightarrow> deptSettings d = None) then Inl Broke
      else Inr (changeDepartment i (\<lambda>d. d\<lparr>deptSettings := map_option (changeSettings c) (deptSettings d)\<rparr>) db,
        [(''department.settings_updated'', i)]))"

definition upsertDay :: "cached_business_hours \<Rightarrow> cached_business_hours list \<Rightarrow> cached_business_hours list" where
  "upsertDay h hs =
     (if dayOfWeek h \<in> set (map dayOfWeek hs)
      then map (\<lambda>x. if dayOfWeek x = dayOfWeek h then h else x) hs else hs @ [h])"

definition updateBusinessHours :: "department_id \<Rightarrow> cached_business_hours list \<Rightarrow> line_db \<Rightarrow> transaction" where
  "updateBusinessHours i hours db =
     Inr (changeDepartment i (\<lambda>d. d\<lparr>deptHours := fold upsertDay hours (deptHours d)\<rparr>) db,
       [(''department.business_hours_updated'', i)])"

definition addHoliday :: "string \<Rightarrow> department_id \<Rightarrow> cached_holiday \<Rightarrow> line_db \<Rightarrow> transaction" where
  "addHoliday fresh i h db =
     (if \<exists>d \<in> set (departments db). fresh \<in> set (map fst (deptHolidays d)) then Inl Broke
      else Inr (changeDepartment i (\<lambda>d. d\<lparr>deptHolidays := deptHolidays d @ [(fresh, h)]\<rparr>) db,
        [(''department.holiday_created'', fresh)]))"

definition changeHoliday :: "holiday_change \<Rightarrow> cached_holiday \<Rightarrow> cached_holiday" where
  "changeHoliday c h =
     h\<lparr>holidayName := orKeep (chHolidayName c) (holidayName h),
       holidayDay := orKeep (chHolidayDay c) (holidayDay h),
       isRecurring := orKeep (chRecurring c) (isRecurring h),
       holidayRoutingType := orKeep (chHolidayRouting c) (holidayRoutingType h),
       holidayRoutingValue := orElse (chHolidayValue c) (holidayRoutingValue h)\<rparr>"

definition hasHoliday :: "line_db \<Rightarrow> department_id \<Rightarrow> string \<Rightarrow> bool" where
  "hasHoliday db i hid \<longleftrightarrow>
     (case departmentOf db (Some i) of None \<Rightarrow> False | Some d \<Rightarrow> hid \<in> set (map fst (deptHolidays d)))"

text \<open>A holiday never moves to another department, so the row is still looked for there.\<close>

definition updateHoliday :: "department_id \<Rightarrow> string \<Rightarrow> holiday_change \<Rightarrow> line_db \<Rightarrow> transaction" where
  "updateHoliday i hid c db =
     (if \<not> hasHoliday db i hid then Inl Broke
      else Inr (changeDepartment i (\<lambda>d. d\<lparr>deptHolidays :=
            map (\<lambda>x. if fst x = hid then (hid, changeHoliday c (snd x)) else x) (deptHolidays d)\<rparr>) db,
        [(''department.holiday_updated'', hid)]))"

definition deleteHoliday :: "department_id \<Rightarrow> string \<Rightarrow> line_db \<Rightarrow> transaction" where
  "deleteHoliday i hid db =
     (if \<not> hasHoliday db i hid then Inl Broke
      else Inr (changeDepartment i (\<lambda>d. d\<lparr>deptHolidays := filter (\<lambda>x. fst x \<noteq> hid) (deptHolidays d)\<rparr>) db,
        [(''department.holiday_deleted'', hid)]))"

definition addMember :: "audit_entry \<Rightarrow> department_id \<Rightarrow> user_id \<Rightarrow> nat \<Rightarrow> line_db \<Rightarrow> transaction" where
  "addMember audited i u order db =
     (if isMember db i u then Inl Broke
      else Inr (changeDepartment i (\<lambda>d. d\<lparr>deptMembers := deptMembers d @ [\<lparr>ouUserId = u, ouOrder = order\<rparr>]\<rparr>) db,
        [audited]))"

definition removeMember :: "audit_entry \<Rightarrow> department_id \<Rightarrow> user_id \<Rightarrow> line_db \<Rightarrow> transaction" where
  "removeMember audited i u db =
     (if \<not> isMember db i u then Inl Broke
      else Inr (changeDepartment i (\<lambda>d. d\<lparr>deptMembers := filter (\<lambda>m. ouUserId m \<noteq> u) (deptMembers d)\<rparr>) db,
        [audited]))"

definition reorder :: "user_id \<times> nat \<Rightarrow> ordered_user list \<Rightarrow> ordered_user list" where
  "reorder x ms = map (\<lambda>m. if ouUserId m = fst x then m\<lparr>ouOrder := snd x\<rparr> else m) ms"

definition updateAgentOrder :: "department_id \<Rightarrow> (user_id \<times> nat) list \<Rightarrow> line_db \<Rightarrow> transaction" where
  "updateAgentOrder i agentOrder db =
     (if \<not> list_all (\<lambda>x. isMember db i (fst x)) agentOrder then Inl Broke
      else Inr (changeDepartment i (\<lambda>d. d\<lparr>deptMembers := fold reorder agentOrder (deptMembers d)\<rparr>) db,
        [(''department.agent_order_updated'', i)]))"

section \<open>Transactions of numbers\<close>

text \<open>Given to somebody only while nobody holds it, and taken only while the one named still does.\<close>

definition departmentTakes :: "department_id \<Rightarrow> string \<Rightarrow> bool \<Rightarrow> line_db \<Rightarrow> transaction" where
  "departmentTakes i nid primary db =
     (let claims = (\<lambda>n. numberId n = nid \<and> \<not> numberDeleted n \<and> unheld n);
          claimed = changeNumbers claims (\<lambda>n. n\<lparr>numberDepartment := Some i, numberPrimary := primary,
            numberStatus := ''ACTIVE''\<rparr>) db
      in if \<not> list_ex claims (numbers db) then Inl Missing
         else Inr (if primary
             then changeNumbers (\<lambda>n. numberDepartment n = Some i \<and> numberPrimary n \<and> numberId n \<noteq> nid)
               (\<lambda>n. n\<lparr>numberPrimary := False\<rparr>) claimed
             else claimed,
           [(''department.phone_number_assigned'', i)]))"

definition departmentDrops :: "department_id \<Rightarrow> string \<Rightarrow> line_db \<Rightarrow> transaction" where
  "departmentDrops i nid db =
     (let held = (\<lambda>n. numberId n = nid \<and> numberDepartment n = Some i \<and> \<not> numberDeleted n)
      in if \<not> list_ex held (numbers db) then Inl Missing
         else Inr (changeNumbers held (\<lambda>n. n\<lparr>numberDepartment := None, numberPrimary := False,
             numberStatus := ''RESERVED''\<rparr>) db,
           [(''department.phone_number_removed'', i)]))"

definition userTakes :: "user_id \<Rightarrow> string \<Rightarrow> line_db \<Rightarrow> transaction" where
  "userTakes u nid db =
     (let claims = (\<lambda>n. numberId n = nid \<and> \<not> numberDeleted n \<and> unheld n)
      in if \<not> list_ex claims (numbers db) then Inl Missing
         else Inr (changeNumbers claims (\<lambda>n. n\<lparr>numberUser := Some u, numberStatus := ''ACTIVE''\<rparr>) db,
           [(''user.phone_number_assigned'', u)]))"

definition userDrops :: "user_id \<Rightarrow> string \<Rightarrow> line_db \<Rightarrow> transaction" where
  "userDrops u nid db =
     (let held = (\<lambda>n. numberId n = nid \<and> numberUser n = Some u \<and> \<not> numberDeleted n)
      in if \<not> list_ex held (numbers db) then Inl Missing
         else Inr (changeNumbers held (\<lambda>n. n\<lparr>numberUser := None, numberStatus := ''RESERVED''\<rparr>) db,
           [(''user.phone_number_removed'', u)]))"

text \<open>A department's first number becomes primary; a later one only on request.\<close>

definition resolvePrimaryAssignment :: "purchase \<Rightarrow> line_db \<Rightarrow> bool \<times> line_db" where
  "resolvePrimaryAssignment p db =
     (if \<not> truthy (boughtForDepartment p) then (False, db)
      else
        let primaries = (\<lambda>n. numberDepartment n = boughtForDepartment p \<and> \<not> numberDeleted n \<and> numberPrimary n)
        in if \<not> list_ex primaries (numbers db) then (True, db)
           else (boughtPrimary p,
             if boughtPrimary p then changeNumbers primaries (\<lambda>n. n\<lparr>numberPrimary := False\<rparr>) db else db))"

definition recordPurchase :: "string \<Rightarrow> purchase \<Rightarrow> line_db \<Rightarrow> transaction" where
  "recordPurchase fresh p db =
     (if fresh \<in> set (map numberId (numbers db)) \<or> boughtPhone p \<in> set (map numberPhone (numbers db))
      then Inl (RefusedWith 500)
      else let resolved = resolvePrimaryAssignment p db
           in Inr ((snd resolved)\<lparr>numbers := numbers (snd resolved) @
                 [\<lparr>numberId = fresh, numberPhone = boughtPhone p, numberLabel = boughtLabel p,
                   numberDeleted = False,
                   numberStatus = (if truthy (boughtForUser p) \<or> truthy (boughtForDepartment p)
                     then ''ACTIVE'' else ''RESERVED''),
                   numberVoice = True, numberPrimary = fst resolved, numberUser = boughtForUser p,
                   numberDepartment = boughtForDepartment p\<rparr>]\<rparr>,
               [(''phone_number.purchased'', fresh)]))"

text \<open>Naming either owner replaces the whole assignment; naming neither keeps it.\<close>

definition assignmentChanged :: "number_update \<Rightarrow> bool" where
  "assignmentChanged u \<longleftrightarrow> updUser u \<noteq> None \<or> updDepartment u \<noteq> None"

definition nextUser :: "number_update \<Rightarrow> number_row \<Rightarrow> user_id option" where
  "nextUser u existing = (if assignmentChanged u then orKeep (updUser u) None else numberUser existing)"

definition nextDepartment :: "number_update \<Rightarrow> number_row \<Rightarrow> department_id option" where
  "nextDepartment u existing =
     (if assignmentChanged u then orKeep (updDepartment u) None else numberDepartment existing)"

definition ownerChanges :: "number_update \<Rightarrow> number_row \<Rightarrow> bool" where
  "ownerChanges u existing \<longleftrightarrow>
     (updUser u \<noteq> None \<and> updUser u \<noteq> Some (numberUser existing)) \<or>
     (updDepartment u \<noteq> None \<and> updDepartment u \<noteq> Some (numberDepartment existing))"

definition anythingChanges :: "number_update \<Rightarrow> number_row \<Rightarrow> bool" where
  "anythingChanges u existing \<longleftrightarrow>
     ownerChanges u existing \<or> (updLabel u \<noteq> None \<and> updLabel u \<noteq> Some (numberLabel existing)) \<or>
     (updPrimary u \<noteq> None \<and> updPrimary u \<noteq> Some (numberPrimary existing))"

definition truthyOnly :: "string option \<Rightarrow> string option" where
  "truthyOnly x = (if truthy x then x else None)"

definition writtenPrimary :: "number_update \<Rightarrow> number_row \<Rightarrow> bool option" where
  "writtenPrimary u existing =
     (if truthy (nextDepartment u existing) then updPrimary u else Some False)"

definition writeNumber :: "number_update \<Rightarrow> number_row \<Rightarrow> number_row \<Rightarrow> number_row" where
  "writeNumber u existing n =
     (let labelled = n\<lparr>numberLabel := orKeep (updLabel u) (numberLabel n),
            numberPrimary := orKeep (writtenPrimary u existing) (numberPrimary n)\<rparr>
      in if \<not> assignmentChanged u then labelled
         else labelled\<lparr>numberUser := truthyOnly (nextUser u existing),
            numberDepartment := truthyOnly (nextDepartment u existing),
            numberStatus := (if truthy (nextUser u existing) \<or> truthy (nextDepartment u existing)
              then ''ACTIVE'' else ''RESERVED'')\<rparr>)"

text \<open>The row is claimed only while it still has the owner that was read.\<close>

definition updateNumber :: "string \<Rightarrow> number_update \<Rightarrow> number_row \<Rightarrow> line_db \<Rightarrow> transaction" where
  "updateNumber nid u existing db =
     (let claims = (\<lambda>n. numberId n = nid \<and> \<not> numberDeleted n \<and> numberUser n = numberUser existing \<and>
            numberDepartment n = numberDepartment existing);
          demoted = (if writtenPrimary u existing = Some True \<and> truthy (nextDepartment u existing)
            then changeNumbers (\<lambda>n. numberDepartment n = nextDepartment u existing \<and> numberPrimary n \<and>
                numberId n \<noteq> nid) (\<lambda>n. n\<lparr>numberPrimary := False\<rparr>) db
            else db)
      in if \<not> list_ex claims (numbers db) then Inl (RefusedWith 409)
         else Inr (changeNumbers (\<lambda>n. numberId n = nid) (writeNumber u existing) demoted,
           if anythingChanges u existing then [(''phone_number.updated'', nid)] else []))"

definition releaseNumber :: "string \<Rightarrow> line_db \<Rightarrow> transaction" where
  "releaseNumber nid db =
     Inr (changeNumbers (\<lambda>n. numberId n = nid) (\<lambda>n. n\<lparr>numberStatus := ''RELEASED'', numberDeleted := True,
         numberUser := None, numberDepartment := None, numberPrimary := False\<rparr>) db,
       [(''phone_number.released'', nid)])"

section \<open>Transactions of users\<close>

definition freeNumbers :: "string list \<Rightarrow> number_row \<Rightarrow> bool" where
  "freeNumbers wanted n \<longleftrightarrow> numberId n \<in> set wanted \<and> \<not> numberDeleted n \<and> unheld n"

text \<open>The user joins each department at the place it is named at. Joining one twice is a unique violation
  like a taken email, joining one that is not there is another error.\<close>

definition joinAll :: "user_id \<Rightarrow> department_id list \<Rightarrow> line_db \<Rightarrow> line_db" where
  "joinAll u ds db =
     fold (\<lambda>x. changeDepartment (snd x)
         (\<lambda>d. d\<lparr>deptMembers := deptMembers d @ [\<lparr>ouUserId = u, ouOrder = fst x\<rparr>]\<rparr>))
       (enumerate 0 ds) db"

definition createUser :: "string \<Rightarrow> string \<Rightarrow> string option \<Rightarrow> department_id list \<Rightarrow> string list \<Rightarrow> line_db
    \<Rightarrow> transaction" where
  "createUser fresh email name joined wanted db =
     (if email \<in> set (map userEmail (userRows db)) \<or> \<not> distinct joined then Inl (RefusedWith 409)
      else if fresh \<in> set (map userRowId (userRows db)) \<or> \<not> set joined \<subseteq> set (map deptId (departments db))
      then Inl Broke
      else
        let created = db\<lparr>userRows := userRows db @
              [\<lparr>userRowId = fresh, userName = name, userEmail = email, userDeleted = False\<rparr>]\<rparr>
        in Inr (changeNumbers (freeNumbers wanted)
              (\<lambda>n. n\<lparr>numberUser := Some fresh, numberStatus := ''ACTIVE''\<rparr>) (joinAll fresh joined created),
            [(''user.created'', fresh)]))"

definition updateUser :: "user_id \<Rightarrow> string option \<Rightarrow> string option \<Rightarrow> bool \<Rightarrow> line_db \<Rightarrow> transaction" where
  "updateUser u email name changed db =
     (if email \<noteq> None \<and> (\<exists>r \<in> set (userRows db). userRowId r \<noteq> u \<and> Some (userEmail r) = email)
      then Inl (RefusedWith 409)
      else Inr (changeUser u (\<lambda>r. r\<lparr>userEmail := orKeep email (userEmail r),
            userName := (if name = None then userName r else name)\<rparr>) db,
        if changed then [(''user.updated'', u)] else []))"

definition deleteUser :: "user_id \<Rightarrow> line_db \<Rightarrow> transaction" where
  "deleteUser u db =
     Inr (changeNumbers (\<lambda>n. numberUser n = Some u) (\<lambda>n. n\<lparr>numberUser := None, numberStatus := ''RESERVED''\<rparr>)
       (changeUser u (\<lambda>r. r\<lparr>userDeleted := True\<rparr>) db), [(''user.deleted'', u)])"

definition restoreUser :: "user_id \<Rightarrow> line_db \<Rightarrow> transaction" where
  "restoreUser u db = Inr (changeUser u (\<lambda>r. r\<lparr>userDeleted := False\<rparr>) db, [(''user.restored'', u)])"

section \<open>A request under way\<close>

text \<open>
  What a method waits for: a read (\<open>FirstRead\<close>, \<open>SecondRead\<close>, \<open>ThirdRead\<close>, and \<open>CheckOwner\<close> for the
  target of an assignment), Twilio, its transaction with what was read for it, or the routing cache:
  the numbers and departments still to refresh, the writes of one pipeline, and the answer after.
\<close>

datatype admin_run =
  FirstRead admin_request
| CheckOwner admin_request "number_row option"
| SecondRead admin_request
| ThirdRead admin_request
| Buying purchase
| RecordingPurchase purchase
| Configuring purchase string
| ReadingMetadata purchase string
| StoringMetadata purchase string "bool option"
| CommittingUpdate string number_update number_row
| CancellingNumber string phone
| CommittingRelease string phone
| Committing admin_request bool "phone list" "department_id list"
| ReadNumber phone "phone list" "(phone \<times> line_db) list" "department_id list"
| ReadDepartment department_id "department_id list"
| Executing "routing_cache \<Rightarrow> routing_cache" "department_id list"

fun refreshing :: "phone list \<Rightarrow> department_id list \<Rightarrow> admin_run + admin_answer" where
  "refreshing [] [] = Inr Succeeded"
| "refreshing [] (d # ds) = Inl (ReadDepartment d ds)"
| "refreshing (p # ps) ds = Inl (ReadNumber p ps [] ds)"

text \<open>\<open>assertAssignmentTarget\<close>: refused, with its row to look up, or nothing to check.\<close>

definition assertAssignmentTarget ::
    "user_id option \<Rightarrow> department_id option \<Rightarrow> admin_request \<Rightarrow> number_row option
      \<Rightarrow> admin_run \<Rightarrow> admin_run + admin_answer" where
  "assertAssignmentTarget u d req existing after =
     (if truthy u \<and> truthy d then Inr (RefusedWith 400)
      else if truthy u \<or> truthy d then Inl (CheckOwner req existing)
      else Inl after)"

definition ownerExists :: "line_db \<Rightarrow> user_id option \<Rightarrow> department_id option \<Rightarrow> bool" where
  "ownerExists db u d \<longleftrightarrow>
     (truthy u \<longrightarrow> isLiveUser db (the u)) \<and> (truthy d \<longrightarrow> isLiveDepartment db (the d))"

text \<open>A request, up to its first await.\<close>

fun beginRequest :: "admin_request \<Rightarrow> admin_run + admin_answer" where
  "beginRequest (PurchaseNumber p) =
     assertAssignmentTarget (boughtForUser p) (boughtForDepartment p) (PurchaseNumber p) None (Buying p)"
| "beginRequest (CreateDepartment name) = Inl (Committing (CreateDepartment name) True [] [])"
| "beginRequest (CreateUser email name joined wanted) = Inl (Committing (CreateUser email name joined wanted) True [] [])"
| "beginRequest req = Inl (FirstRead req)"

definition phonesOf :: "(number_row \<Rightarrow> bool) \<Rightarrow> line_db \<Rightarrow> phone list" where
  "phonesOf Q db = map numberPhone (filter Q (numbers db))"

text \<open>What the first read decides.\<close>

fun firstRead :: "line_db \<Rightarrow> admin_request \<Rightarrow> admin_run + admin_answer" where
  "firstRead db (UpdateNumber nid u) =
     (case liveNumber db nid of
        None \<Rightarrow> Inr Missing
      | Some existing \<Rightarrow>
          assertAssignmentTarget (orKeep (updUser u) None) (orKeep (updDepartment u) None)
            (UpdateNumber nid u) (Some existing) (CommittingUpdate nid u existing))"
| "firstRead db (ReleaseNumber nid) =
     (case liveNumber db nid of None \<Rightarrow> Inr Missing | Some n \<Rightarrow> Inl (CancellingNumber nid (numberPhone n)))"
| "firstRead db (UpdateDepartment i name) =
     (case departmentOf db (Some i) of
        None \<Rightarrow> Inr Missing
      | Some d \<Rightarrow>
          let renamed = (truthy name \<and> name \<noteq> Some (deptName d))
          in Inl (Committing (UpdateDepartment i name) renamed [] (if renamed then [i] else [])))"
| "firstRead db (DeleteDepartment i) =
     (if \<not> isLiveDepartment db i then Inr Missing
      else Inl (Committing (DeleteDepartment i) True
        (phonesOf (\<lambda>n. numberDepartment n = Some i \<and> \<not> numberDeleted n) db) [i]))"
| "firstRead db (RestoreDepartment i) =
     (if departmentOf db (Some i) = None \<or> isLiveDepartment db i then Inr Missing
      else Inl (Committing (RestoreDepartment i) True [] []))"
| "firstRead db (UpdateSettings i c) =
     (if \<not> isLiveDepartment db i then Inr Missing else Inl (Committing (UpdateSettings i c) True [] [i]))"
| "firstRead db (UpdateBusinessHours i hours) =
     (if \<not> isLiveDepartment db i then Inr Missing
      else Inl (Committing (UpdateBusinessHours i hours) True [] [i]))"
| "firstRead db (AddHoliday i h) =
     (if \<not> isLiveDepartment db i then Inr Missing else Inl (Committing (AddHoliday i h) True [] [i]))"
| "firstRead db (UpdateHoliday i hid c) =
     (if \<not> hasHoliday db i hid then Inr Missing else Inl (Committing (UpdateHoliday i hid c) True [] [i]))"
| "firstRead db (DeleteHoliday i hid) =
     (if \<not> hasHoliday db i hid then Inr Missing else Inl (Committing (DeleteHoliday i hid) True [] [i]))"
| "firstRead db (AddAgent i u order) =
     (if \<not> isLiveDepartment db i then Inr Missing else Inl (SecondRead (AddAgent i u order)))"
| "firstRead db (UpdateAgentOrder i agentOrder) =
     (if \<not> isLiveDepartment db i then Inr Missing else Inl (SecondRead (UpdateAgentOrder i agentOrder)))"
| "firstRead db (RemoveAgent i u) =
     (if \<not> isMember db i u then Inr Missing else Inl (Committing (RemoveAgent i u) True [] [i]))"
| "firstRead db (DepartmentTakes i nid primary) =
     (if \<not> isLiveDepartment db i then Inr Missing else Inl (SecondRead (DepartmentTakes i nid primary)))"
| "firstRead db (DepartmentDrops i nid) =
     (case liveNumber db nid of
        None \<Rightarrow> Inr Missing
      | Some n \<Rightarrow>
          if numberDepartment n \<noteq> Some i then Inr Missing
          else Inl (Committing (DepartmentDrops i nid) True [numberPhone n] []))"
| "firstRead db (UpdateUser u email name) =
     (case userOf db (Some u) of
        None \<Rightarrow> Inr Missing
      | Some r \<Rightarrow> Inl (Committing (UpdateUser u email name)
          ((truthy email \<and> email \<noteq> Some (userEmail r)) \<or> (truthy name \<and> name \<noteq> userName r)) [] []))"
| "firstRead db (DeleteUser u) =
     (if \<not> isLiveUser db u then Inr Missing
      else Inl (Committing (DeleteUser u) True (phonesOf (\<lambda>n. numberUser n = Some u \<and> \<not> numberDeleted n) db)
        (departmentsOfUser db u)))"
| "firstRead db (RestoreUser u) =
     (if userOf db (Some u) = None \<or> isLiveUser db u then Inr Missing
      else Inl (Committing (RestoreUser u) True [] []))"
| "firstRead db (JoinDepartment u i order) =
     (if \<not> isLiveUser db u then Inr Missing else Inl (SecondRead (JoinDepartment u i order)))"
| "firstRead db (LeaveDepartment u i) =
     (if \<not> isMember db i u then Inr Missing else Inl (Committing (LeaveDepartment u i) True [] [i]))"
| "firstRead db (UserTakes u nid) =
     (if \<not> isLiveUser db u then Inr Missing else Inl (SecondRead (UserTakes u nid)))"
| "firstRead db (UserDrops u nid) =
     (case liveNumber db nid of
        None \<Rightarrow> Inr Missing
      | Some n \<Rightarrow>
          if numberUser n \<noteq> Some u then Inr Missing
          else Inl (Committing (UserDrops u nid) True [numberPhone n] []))"
| "firstRead db _ = Inr Missing"

fun secondRead :: "line_db \<Rightarrow> admin_request \<Rightarrow> admin_run + admin_answer" where
  "secondRead db (AddAgent i u order) =
     (if \<not> isLiveUser db u then Inr Missing else Inl (ThirdRead (AddAgent i u order)))"
| "secondRead db (JoinDepartment u i order) =
     (if \<not> isLiveDepartment db i then Inr Missing else Inl (ThirdRead (JoinDepartment u i order)))"
| "secondRead db (UpdateAgentOrder i agentOrder) =
     (if list_ex (\<lambda>x. \<not> isMember db i (fst x)) agentOrder then Inr (RefusedWith 400)
      else Inl (Committing (UpdateAgentOrder i agentOrder) True [] [i]))"
| "secondRead db (DepartmentTakes i nid primary) =
     (case liveNumber db nid of
        None \<Rightarrow> Inr Missing
      | Some n \<Rightarrow>
          if truthy (numberUser n) \<or> truthy (numberDepartment n) then Inr Missing
          else Inl (Committing (DepartmentTakes i nid primary) True [numberPhone n] []))"
| "secondRead db (UserTakes u nid) =
     (case liveNumber db nid of
        None \<Rightarrow> Inr Missing
      | Some n \<Rightarrow>
          if truthy (numberUser n) \<or> truthy (numberDepartment n) then Inr Missing
          else Inl (Committing (UserTakes u nid) True [numberPhone n] []))"
| "secondRead db _ = Inr Missing"

fun thirdRead :: "line_db \<Rightarrow> admin_request \<Rightarrow> admin_run + admin_answer" where
  "thirdRead db (AddAgent i u order) =
     (if isMember db i u then Inr Missing else Inl (Committing (AddAgent i u order) True [] [i]))"
| "thirdRead db (JoinDepartment u i order) =
     (if isMember db i u then Inr Missing else Inl (Committing (JoinDepartment u i order) True [] [i]))"
| "thirdRead db _ = Inr Missing"

fun checkOwner :: "line_db \<Rightarrow> admin_request \<Rightarrow> number_row option \<Rightarrow> admin_run + admin_answer" where
  "checkOwner db (PurchaseNumber p) existing =
     (if ownerExists db (boughtForUser p) (boughtForDepartment p) then Inl (Buying p) else Inr (RefusedWith 400))"
| "checkOwner db (UpdateNumber nid u) (Some existing) =
     (if ownerExists db (orKeep (updUser u) None) (orKeep (updDepartment u) None)
      then Inl (CommittingUpdate nid u existing) else Inr (RefusedWith 400))"
| "checkOwner db _ _ = Inr Broke"

text \<open>The transaction of a request, and what is refreshed after it: what was read before it, except for a
  new user and a restored one, whose numbers and departments the transaction reads.\<close>

fun committed :: "string \<Rightarrow> bool \<Rightarrow> admin_request \<Rightarrow> line_db \<Rightarrow> transaction" where
  "committed fresh noted (CreateDepartment name) db = createDepartment fresh name db"
| "committed fresh noted (UpdateDepartment i name) db = updateDepartment i name noted db"
| "committed fresh noted (DeleteDepartment i) db = deleteDepartment i db"
| "committed fresh noted (RestoreDepartment i) db = restoreDepartment i db"
| "committed fresh noted (UpdateSettings i c) db = updateSettings i c db"
| "committed fresh noted (UpdateBusinessHours i hours) db = updateBusinessHours i hours db"
| "committed fresh noted (AddHoliday i h) db = addHoliday fresh i h db"
| "committed fresh noted (UpdateHoliday i hid c) db = updateHoliday i hid c db"
| "committed fresh noted (DeleteHoliday i hid) db = deleteHoliday i hid db"
| "committed fresh noted (AddAgent i u order) db = addMember (''department.agent_added'', i) i u order db"
| "committed fresh noted (UpdateAgentOrder i agentOrder) db = updateAgentOrder i agentOrder db"
| "committed fresh noted (RemoveAgent i u) db = removeMember (''department.agent_removed'', i) i u db"
| "committed fresh noted (DepartmentTakes i nid primary) db = departmentTakes i nid primary db"
| "committed fresh noted (DepartmentDrops i nid) db = departmentDrops i nid db"
| "committed fresh noted (CreateUser email name joined wanted) db = createUser fresh email name joined wanted db"
| "committed fresh noted (UpdateUser u email name) db = updateUser u email name noted db"
| "committed fresh noted (DeleteUser u) db = deleteUser u db"
| "committed fresh noted (RestoreUser u) db = restoreUser u db"
| "committed fresh noted (JoinDepartment u i order) db = addMember (''user.department_assigned'', u) i u order db"
| "committed fresh noted (LeaveDepartment u i) db = removeMember (''user.department_removed'', u) i u db"
| "committed fresh noted (UserTakes u nid) db = userTakes u nid db"
| "committed fresh noted (UserDrops u nid) db = userDrops u nid db"
| "committed fresh noted _ db = Inl Broke"

fun refreshedAfter ::
    "string \<Rightarrow> admin_request \<Rightarrow> phone list \<Rightarrow> department_id list \<Rightarrow> line_db \<Rightarrow> admin_run + admin_answer" where
  "refreshedAfter fresh (CreateUser email name joined wanted) ps ds db =
     refreshing (phonesOf (\<lambda>n. numberUser n = Some fresh \<and> \<not> numberDeleted n) db) (departmentsOfUser db fresh)"
| "refreshedAfter fresh (RestoreUser u) ps ds db = refreshing [] (departmentsOfUser db u)"
| "refreshedAfter fresh req ps ds db = refreshing ps ds"

definition commitTo ::
    "transaction \<Rightarrow> (line_db \<Rightarrow> admin_run + admin_answer) \<Rightarrow> admin_store
      \<Rightarrow> (admin_run + admin_answer) \<times> admin_store" where
  "commitTo tx after s =
     (case tx of
        Inl answer \<Rightarrow> (Inr answer, s)
      | Inr (db, entries) \<Rightarrow> (after db, s\<lparr>lineDb := db, auditLog := auditLog s @ entries\<rparr>))"

text \<open>One awaited call: what the method does after it, and the store with its effect.\<close>

fun adminStep :: "admin_outside \<Rightarrow> admin_run \<Rightarrow> admin_store \<Rightarrow> (admin_run + admin_answer) \<times> admin_store" where
  "adminStep out (FirstRead req) s = (firstRead (lineDb s) req, s)"
| "adminStep out (CheckOwner req existing) s = (checkOwner (lineDb s) req existing, s)"
| "adminStep out (SecondRead req) s = (secondRead (lineDb s) req, s)"
| "adminStep out (ThirdRead req) s = (thirdRead (lineDb s) req, s)"
| "adminStep out (Buying p) s =
     (if sellsNumber out (boughtPhone p)
      then (Inl (RecordingPurchase p), s\<lparr>twilioNumbers := boughtPhone p # twilioNumbers s\<rparr>) else (Inr Broke, s))"
| "adminStep out (RecordingPurchase p) s =
     commitTo (recordPurchase (freshId out) p (lineDb s)) (\<lambda>db. Inl (Configuring p (freshId out))) s"
| "adminStep out (Configuring p nid) s =
     (if configuresNumber out (boughtPhone p) then Inl (ReadingMetadata p nid) else Inr Broke, s)"
| "adminStep out (ReadingMetadata p nid) s = (Inl (StoringMetadata p nid (ownedVoice out (boughtPhone p))), s)"
| "adminStep out (StoringMetadata p nid voice) s =
     (refreshing [boughtPhone p] [],
      s\<lparr>lineDb := changeNumbers (\<lambda>n. numberId n = nid) (\<lambda>n. n\<lparr>numberVoice := orKeep voice (numberVoice n)\<rparr>)
          (lineDb s)\<rparr>)"
| "adminStep out (CommittingUpdate nid u existing) s =
     commitTo (updateNumber nid u existing (lineDb s))
       (\<lambda>db. refreshing (if ownerChanges u existing then [numberPhone existing] else []) []) s"
| "adminStep out (CancellingNumber nid p) s =
     (if cancelsNumber out p
      then (Inl (CommittingRelease nid p), s\<lparr>twilioNumbers := removeAll p (twilioNumbers s)\<rparr>) else (Inr Broke, s))"
| "adminStep out (CommittingRelease nid p) s =
     commitTo (releaseNumber nid (lineDb s)) (\<lambda>db. refreshing [p] []) s"
| "adminStep out (Committing req noted ps ds) s =
     commitTo (committed (freshId out) noted req (lineDb s)) (refreshedAfter (freshId out) req ps ds) s"
| "adminStep out (ReadNumber p ps found ds) s =
     (Inl (let found' = found @ [(p, lineDb s)] in
        case ps of
          [] \<Rightarrow> Executing (refreshPhoneNumbers (publicAddress out) found') ds
        | q # qs \<Rightarrow> ReadNumber q qs found' ds), s)"
| "adminStep out (ReadDepartment d ds) s =
     (Inl (Executing (refreshDepartment (publicAddress out) (lineDb s) d) ds), s)"
| "adminStep out (Executing writes ds) s = (refreshing [] ds, s\<lparr>routes := writes (routes s)\<rparr>)"

section \<open>Requests that overlap\<close>

text \<open>An awaited call that is lost, or whose answer is, throws; no service catches that (a purchase that
  cannot be recorded answers 500 either way).\<close>

record administration =
  store :: admin_store
  requestsUnderWay :: "admin_run list"

datatype admin_input = Asks admin_request | Continues nat delivery

fun administrationStep :: "admin_outside \<Rightarrow> admin_input \<Rightarrow> administration \<Rightarrow> administration" where
  "administrationStep out (Asks req) a =
     (case beginRequest req of
        Inl run \<Rightarrow> a\<lparr>requestsUnderWay := requestsUnderWay a @ [run]\<rparr>
      | Inr answer \<Rightarrow> a)"
| "administrationStep out (Continues i d) a =
     (if i < length (requestsUnderWay a)
      then let (next_run, s') = adminStep out (requestsUnderWay a ! i) (store a);
               rest = without i (requestsUnderWay a)
           in case d of
                Lost \<Rightarrow> a\<lparr>requestsUnderWay := rest\<rparr>
              | ReplyLost \<Rightarrow> a\<lparr>store := s', requestsUnderWay := rest\<rparr>
              | Delivered \<Rightarrow> a\<lparr>store := s', requestsUnderWay :=
                  (case next_run of Inl run \<Rightarrow> rest @ [run] | Inr answer \<Rightarrow> rest)\<rparr>
      else a)"

primrec administrationRun :: "(admin_outside \<times> admin_input) list \<Rightarrow> administration \<Rightarrow> administration" where
  "administrationRun [] a = a"
| "administrationRun (x # xs) a = administrationRun xs (administrationStep (fst x) (snd x) a)"

section \<open>One request after the other\<close>

text \<open>How many awaits are left at most: each read leads on, and each refresh takes one number or one
  department off the lists.\<close>

fun stepsLeft :: "admin_run \<Rightarrow> nat" where
  "stepsLeft (Executing writes ds) = 1 + 2 * length ds"
| "stepsLeft (ReadDepartment d ds) = 2 + 2 * length ds"
| "stepsLeft (ReadNumber p ps found ds) = 2 + length ps + 2 * length ds"
| "stepsLeft _ = 0"

fun stage :: "admin_run \<Rightarrow> nat" where
  "stage (FirstRead req) = 9"
| "stage (SecondRead req) = 8"
| "stage (ThirdRead req) = 7"
| "stage (CheckOwner req existing) = 7"
| "stage (Buying p) = 6"
| "stage (RecordingPurchase p) = 5"
| "stage (Configuring p nid) = 4"
| "stage (ReadingMetadata p nid) = 3"
| "stage (CancellingNumber nid p) = 2"
| "stage (StoringMetadata p nid voice) = 1"
| "stage (CommittingUpdate nid u existing) = 1"
| "stage (CommittingRelease nid p) = 1"
| "stage (Committing req noted ps ds) = 1"
| "stage _ = 0"

lemma refreshing_stage: "refreshing ps ds = Inl run \<Longrightarrow> stage run = 0"
  by (cases "(ps, ds)" rule: refreshing.cases) auto

lemma refreshedAfter_stage: "refreshedAfter fresh req ps ds db = Inl run \<Longrightarrow> stage run = 0"
  by (cases req) (auto dest: refreshing_stage)

lemma firstRead_stage: "firstRead db req = Inl run \<Longrightarrow> stage run < 9"
  by (cases req) (auto simp: assertAssignmentTarget_def Let_def split: option.splits if_splits)

lemma secondRead_stage: "secondRead db req = Inl run \<Longrightarrow> stage run < 8"
  by (cases req) (auto split: option.splits if_splits)

lemma thirdRead_stage: "thirdRead db req = Inl run \<Longrightarrow> stage run < 7"
  by (cases req) (auto split: if_splits)

lemma checkOwner_stage: "checkOwner db req existing = Inl run \<Longrightarrow> stage run < 7"
  by (cases "(db, req, existing)" rule: checkOwner.cases) (auto split: if_splits)

lemma adminStep_ends:
  assumes "adminStep out run s = (Inl next_run, s')"
  shows "stage next_run < stage run \<or> stage next_run = stage run \<and> stepsLeft next_run < stepsLeft run"
proof (cases run)
  case (ReadNumber p ps found ds)
  then show ?thesis using assms by (cases ps) auto
next
  case (Executing writes ds)
  then show ?thesis using assms by (cases ds) auto
qed (use assms in \<open>auto simp: commitTo_def dest: firstRead_stage secondRead_stage thirdRead_stage
    checkOwner_stage refreshing_stage refreshedAfter_stage split: sum.splits if_splits prod.splits\<close>)

function handled ::
    "admin_outside \<Rightarrow> admin_run + admin_answer \<Rightarrow> admin_store \<Rightarrow> admin_answer \<times> admin_store" where
  "handled out (Inr answer) s = (answer, s)"
| "handled out (Inl run) s = handled out (fst (adminStep out run s)) (snd (adminStep out run s))"
  by pat_completeness auto
termination
proof (relation "inv_image (less_than <*lex*> less_than) (\<lambda>(_, run, _).
    case run of Inr a \<Rightarrow> (0, 0) | Inl r \<Rightarrow> (Suc (stage r), stepsLeft r))")
  fix out :: admin_outside and run s
  show "((out, fst (adminStep out run s), snd (adminStep out run s)), (out, Inl run, s))
    \<in> inv_image (less_than <*lex*> less_than) (\<lambda>(_, run, _).
      case run of Inr a \<Rightarrow> (0, 0) | Inl r \<Rightarrow> (Suc (stage r), stepsLeft r))"
    using adminStep_ends [of out run s] by (cases "fst (adminStep out run s)") (auto simp: prod_eq_iff)
qed auto

definition served :: "admin_outside \<Rightarrow> admin_request \<Rightarrow> admin_store \<Rightarrow> admin_answer \<times> admin_store" where
  "served out req s = handled out (beginRequest req) s"

end
