(* ===== verification/Administration_Facts.thy ===== *)
theory Administration_Facts
  imports Administration
begin

text \<open>
  What holds of the directory while administrators' requests overlap: a number is held by one owner and
  is in service exactly while somebody holds it, nobody's number is taken by a request that had not
  seen them hold it, and what the API offers to call from stays what the controller grants.
\<close>

section \<open>A directory that is kept\<close>

definition number_ok :: "number_row \<Rightarrow> bool" where
  "number_ok n \<longleftrightarrow>
     (numberUser n = None \<or> numberDepartment n = None) \<and>
     (numberPrimary n \<longrightarrow> numberDepartment n \<noteq> None) \<and>
     (numberStatus n = ''ACTIVE'' \<longleftrightarrow> \<not> unheld n) \<and>
     (numberDeleted n \<longrightarrow> unheld n)"

definition directory_kept :: "line_db \<Rightarrow> bool" where
  "directory_kept db \<longleftrightarrow> distinct (map numberId (numbers db)) \<and> distinct (map numberPhone (numbers db)) \<and>
     distinct (map deptId (departments db)) \<and> distinct (map userRowId (userRows db)) \<and>
     list_all number_ok (numbers db)"

lemma kept_is_ok: "directory_kept db \<Longrightarrow> directory_ok db"
  by (auto simp: directory_kept_def directory_ok_def number_ok_def list_all_iff departmentOf_def split: option.split)

lemma key_kept: "(\<And>x. k (f x) = k x) \<Longrightarrow> k \<circ> (\<lambda>x. if Q x then f x else x) = k"
  by (simp add: fun_eq_iff)

lemma changeNumbers_kept:
  assumes "directory_kept db" and "\<And>n. numberId (f n) = numberId n" and "\<And>n. numberPhone (f n) = numberPhone n"
    and "\<And>n. n \<in> set (numbers db) \<Longrightarrow> number_ok n \<Longrightarrow> Q n \<Longrightarrow> number_ok (f n)"
  shows "directory_kept (changeNumbers Q f db)"
  using assms(1,4) by (auto simp: directory_kept_def changeNumbers_def key_kept [of numberId, OF assms(2)]
      key_kept [of numberPhone, OF assms(3)] list_all_iff)

lemma changeDepartment_kept:
  "directory_kept db \<Longrightarrow> (\<And>d. deptId (f d) = deptId d) \<Longrightarrow> directory_kept (changeDepartment i f db)"
  by (simp add: directory_kept_def changeDepartment_def key_kept)

lemma changeUser_kept:
  "directory_kept db \<Longrightarrow> (\<And>u. userRowId (f u) = userRowId u) \<Longrightarrow> directory_kept (changeUser i f db)"
  by (simp add: directory_kept_def changeUser_def key_kept)

lemma demote_ok: "number_ok n \<Longrightarrow> number_ok (n\<lparr>numberPrimary := False\<rparr>)"
  by (simp add: number_ok_def unheld_def)

lemma departmentTakes_kept: "directory_kept db \<Longrightarrow> departmentTakes i nid primary db = Inr (db', es) \<Longrightarrow> directory_kept db'"
  by (auto simp: departmentTakes_def Let_def number_ok_def unheld_def split: if_splits
      intro!: changeNumbers_kept)

lemma departmentDrops_kept: "directory_kept db \<Longrightarrow> departmentDrops i nid db = Inr (db', es) \<Longrightarrow> directory_kept db'"
  by (auto simp: departmentDrops_def Let_def number_ok_def unheld_def split: if_splits
      intro!: changeNumbers_kept)

lemma userTakes_kept: "directory_kept db \<Longrightarrow> userTakes u nid db = Inr (db', es) \<Longrightarrow> directory_kept db'"
  by (auto simp: userTakes_def Let_def number_ok_def unheld_def split: if_splits intro!: changeNumbers_kept)

lemma userDrops_kept: "directory_kept db \<Longrightarrow> userDrops u nid db = Inr (db', es) \<Longrightarrow> directory_kept db'"
  by (auto simp: userDrops_def Let_def number_ok_def unheld_def split: if_splits intro!: changeNumbers_kept)

lemma releaseNumber_kept: "directory_kept db \<Longrightarrow> releaseNumber nid db = Inr (db', es) \<Longrightarrow> directory_kept db'"
  by (auto simp: releaseNumber_def number_ok_def unheld_def intro!: changeNumbers_kept)

lemma deleteUser_kept: "directory_kept db \<Longrightarrow> deleteUser u db = Inr (db', es) \<Longrightarrow> directory_kept db'"
  by (auto simp: deleteUser_def number_ok_def unheld_def intro!: changeNumbers_kept changeUser_kept)

lemma deleteDepartment_kept: "directory_kept db \<Longrightarrow> deleteDepartment i db = Inr (db', es) \<Longrightarrow> directory_kept db'"
  by (auto simp: deleteDepartment_def clearGreeting_def number_ok_def unheld_def
      intro!: changeNumbers_kept changeDepartment_kept)

text \<open>A purchase names at most one owner, and the schema lets no empty id in.\<close>

definition purchase_ok :: "purchase \<Rightarrow> bool" where
  "purchase_ok p \<longleftrightarrow> boughtForUser p \<noteq> Some [] \<and> boughtForDepartment p \<noteq> Some [] \<and>
     (boughtForUser p = None \<or> boughtForDepartment p = None)"

lemma resolved_kept: "directory_kept db \<Longrightarrow> directory_kept (snd (resolvePrimaryAssignment p db))"
  by (auto simp: resolvePrimaryAssignment_def Let_def demote_ok intro!: changeNumbers_kept)

lemma resolved_keys:
  "map numberId (numbers (snd (resolvePrimaryAssignment p db))) = map numberId (numbers db)"
  "map numberPhone (numbers (snd (resolvePrimaryAssignment p db))) = map numberPhone (numbers db)"
  by (simp_all add: resolvePrimaryAssignment_def Let_def changeNumbers_def)

lemma resolved_primary: "fst (resolvePrimaryAssignment p db) \<Longrightarrow> truthy (boughtForDepartment p)"
  by (auto simp: resolvePrimaryAssignment_def split: if_splits)

lemma recordPurchase_kept:
  assumes "directory_kept db" and "purchase_ok p" and "recordPurchase fresh p db = Inr (db', es)"
  shows "directory_kept db'"
proof -
  let ?r = "resolvePrimaryAssignment p db"
  have fresh: "fresh \<notin> set (map numberId (numbers (snd ?r)))" "boughtPhone p \<notin> set (map numberPhone (numbers (snd ?r)))"
    using assms(3) unfolding resolved_keys by (auto simp: recordPurchase_def split: if_splits)
  let ?row = "\<lparr>numberId = fresh, numberPhone = boughtPhone p, numberLabel = boughtLabel p,
      numberDeleted = False,
      numberStatus = (if truthy (boughtForUser p) \<or> truthy (boughtForDepartment p)
        then ''ACTIVE'' else ''RESERVED''),
      numberVoice = True, numberPrimary = fst ?r, numberUser = boughtForUser p,
      numberDepartment = boughtForDepartment p\<rparr>"
  have "truthy (boughtForUser p) \<longleftrightarrow> boughtForUser p \<noteq> None"
    "truthy (boughtForDepartment p) \<longleftrightarrow> boughtForDepartment p \<noteq> None"
    using assms(2) by (auto simp: purchase_ok_def truthy_iff)
  then have "number_ok ?row"
    using assms(2) resolved_primary [of p db] by (auto simp: number_ok_def unheld_def purchase_ok_def)
  moreover have "db' = (snd ?r)\<lparr>numbers := numbers (snd ?r) @ [?row]\<rparr>"
    using assms(3) unfolding recordPurchase_def Let_def by (cases "fresh \<in> set (map numberId (numbers db)) \<or>
      boughtPhone p \<in> set (map numberPhone (numbers db))") (simp_all only: if_True if_False sum.inject prod.inject
      sum.distinct)
  ultimately show ?thesis
    using resolved_kept [OF assms(1), of p] fresh by (simp add: directory_kept_def)
qed

text \<open>An edit that names two owners is refused before, and what it read was a kept row.\<close>

definition edit_ok :: "number_update \<Rightarrow> number_row \<Rightarrow> bool" where
  "edit_ok u existing \<longleftrightarrow>
     \<not> (truthy (orKeep (updUser u) None) \<and> truthy (orKeep (updDepartment u) None))"

lemma truthyOnly_None [simp]: "truthyOnly x = None \<longleftrightarrow> \<not> truthy x"
  by (cases x) (simp_all add: truthyOnly_def)

lemma writeNumber_ok:
  assumes "edit_ok u existing" and "number_ok n" and "numberDepartment n = numberDepartment existing"
    and "\<not> numberDeleted n"
  shows "number_ok (writeNumber u existing n)"
proof (cases "assignmentChanged u")
  case True
  have "\<not> truthy (nextUser u existing) \<or> \<not> truthy (nextDepartment u existing)"
    using assms(1) True by (simp add: edit_ok_def nextUser_def nextDepartment_def)
  then show ?thesis
    using True assms(4) by (auto simp: writeNumber_def Let_def number_ok_def unheld_def writtenPrimary_def orKeep_def)
next
  case False
  have "truthy x \<Longrightarrow> x \<noteq> None" for x by (cases x) simp_all
  then show ?thesis
    using False assms(2-4)
    by (simp add: writeNumber_def Let_def number_ok_def unheld_def writtenPrimary_def orKeep_def nextDepartment_def)
qed

lemma writeNumber_keys [simp]:
  "numberId (writeNumber u existing n) = numberId n" "numberPhone (writeNumber u existing n) = numberPhone n"
  by (simp_all add: writeNumber_def Let_def)

lemma updateNumber_kept:
  assumes "directory_kept db" and "edit_ok u existing" and "updateNumber nid u existing db = Inr (db', es)"
  shows "directory_kept db'"
proof -
  define demoted where "demoted = (if writtenPrimary u existing = Some True \<and> truthy (nextDepartment u existing)
      then changeNumbers (\<lambda>n. numberDepartment n = nextDepartment u existing \<and> numberPrimary n \<and>
          numberId n \<noteq> nid) (\<lambda>n. n\<lparr>numberPrimary := False\<rparr>) db else db)"
  have kept: "directory_kept demoted"
    using assms(1) by (auto simp: demoted_def demote_ok intro: changeNumbers_kept)
  from assms(3) obtain m where m: "m \<in> set (numbers db)" "numberId m = nid" "\<not> numberDeleted m"
    "numberDepartment m = numberDepartment existing"
    by (auto simp: updateNumber_def Let_def list_ex_iff split: if_splits)
  have "n = m" if "n \<in> set (numbers demoted)" "numberId n = nid" for n
  proof -
    have "n \<in> set (numbers db)"
      using that by (auto simp: demoted_def changeNumbers_def split: if_splits)
    then show ?thesis using assms(1) m that by (auto simp: directory_kept_def distinct_map dest: inj_onD)
  qed
  then have "directory_kept (changeNumbers (\<lambda>n. numberId n = nid) (writeNumber u existing) demoted)"
    using m assms(2) by (intro changeNumbers_kept [OF kept] writeNumber_ok) auto
  moreover have "db' = changeNumbers (\<lambda>n. numberId n = nid) (writeNumber u existing) demoted"
    using assms(3) by (auto simp: updateNumber_def demoted_def Let_def split: if_splits)
  ultimately show ?thesis by simp
qed

lemma joinAll_kept: "directory_kept db \<Longrightarrow> directory_kept (joinAll u ds db)"
proof -
  have "directory_kept (fold (\<lambda>x. changeDepartment (snd x)
      (\<lambda>d. d\<lparr>deptMembers := deptMembers d @ [\<lparr>ouUserId = u, ouOrder = fst x\<rparr>]\<rparr>)) xs db)"
    if "directory_kept db" for xs db
    using that by (induction xs arbitrary: db) (simp_all add: changeDepartment_kept)
  then show "directory_kept db \<Longrightarrow> directory_kept (joinAll u ds db)" by (simp add: joinAll_def)
qed

lemma createUser_kept:
  assumes "directory_kept db" and "createUser fresh email name joined wanted db = Inr (db', es)"
  shows "directory_kept db'"
proof -
  let ?created = "db\<lparr>userRows := userRows db @
      [\<lparr>userRowId = fresh, userName = name, userEmail = email, userDeleted = False\<rparr>]\<rparr>"
  have "fresh \<notin> set (map userRowId (userRows db))" and
    db': "db' = changeNumbers (freeNumbers wanted)
      (\<lambda>n. n\<lparr>numberUser := Some fresh, numberStatus := ''ACTIVE''\<rparr>) (joinAll fresh joined ?created)"
    using assms(2) by (auto simp: createUser_def Let_def split: if_splits)
  then have "directory_kept (joinAll fresh joined ?created)"
    using assms(1) by (intro joinAll_kept) (simp add: directory_kept_def)
  then show ?thesis
    unfolding db' by (auto simp: freeNumbers_def number_ok_def unheld_def intro!: changeNumbers_kept)
qed

lemma committed_kept:
  assumes "directory_kept db" and "committed fresh noted req db = Inr (db', es)"
  shows "directory_kept db'"
proof (cases req)
  case (CreateDepartment name)
  then show ?thesis
    using assms by (auto simp: createDepartment_def directory_kept_def split: if_splits)
next
  case (CreateUser email name joined wanted)
  then show ?thesis using assms createUser_kept by simp
qed (use assms in \<open>auto intro: departmentTakes_kept departmentDrops_kept userTakes_kept userDrops_kept
    deleteUser_kept deleteDepartment_kept simp: updateDepartment_def restoreDepartment_def updateSettings_def
    updateBusinessHours_def addHoliday_def updateHoliday_def deleteHoliday_def addMember_def removeMember_def
    updateAgentOrder_def updateUser_def restoreUser_def changeDepartment_kept changeUser_kept split: if_splits\<close>)

section \<open>Requests that overlap keep it\<close>

fun run_admitted :: "admin_run \<Rightarrow> bool" where
  "run_admitted (CheckOwner (PurchaseNumber p) existing) = purchase_ok p"
| "run_admitted (CheckOwner (UpdateNumber nid u) (Some existing)) = edit_ok u existing"
| "run_admitted (Buying p) = purchase_ok p"
| "run_admitted (RecordingPurchase p) = purchase_ok p"
| "run_admitted (CommittingUpdate nid u existing) = edit_ok u existing"
| "run_admitted _ = True"

text \<open>The schemas let no empty id and no empty name in.\<close>

fun request_parsed :: "admin_request \<Rightarrow> bool" where
  "request_parsed (PurchaseNumber p) = (boughtForUser p \<noteq> Some [] \<and> boughtForDepartment p \<noteq> Some [])"
| "request_parsed (UpdateDepartment i name) = (name \<noteq> Some [])"
| "request_parsed _ = True"

lemma asked_admitted: "request_parsed req \<Longrightarrow> beginRequest req = Inl run \<Longrightarrow> run_admitted run"
proof (cases req)
  case (PurchaseNumber p)
  then show "request_parsed req \<Longrightarrow> beginRequest req = Inl run \<Longrightarrow> run_admitted run"
    by (cases "boughtForUser p"; cases "boughtForDepartment p")
      (auto simp: assertAssignmentTarget_def purchase_ok_def split: if_splits)
qed auto

lemma refreshing_admitted: "refreshing ps ds = Inl run \<Longrightarrow> run_admitted run"
  by (cases "(ps, ds)" rule: refreshing.cases) auto

lemma refreshedAfter_admitted: "refreshedAfter fresh req ps ds db = Inl run \<Longrightarrow> run_admitted run"
  by (cases req) (auto dest: refreshing_admitted)

lemma firstRead_admitted: "firstRead db req = Inl run \<Longrightarrow> run_admitted run"
  by (cases req) (auto simp: assertAssignmentTarget_def edit_ok_def Let_def split: option.splits if_splits)

lemma secondRead_admitted: "secondRead db req = Inl run \<Longrightarrow> run_admitted run"
  by (cases req) (auto split: option.splits if_splits)

lemma thirdRead_admitted: "thirdRead db req = Inl run \<Longrightarrow> run_admitted run"
  by (cases req) (auto split: if_splits)

lemma checkOwner_admitted:
  "run_admitted (CheckOwner req existing) \<Longrightarrow> checkOwner db req existing = Inl run \<Longrightarrow> run_admitted run"
  by (cases "(db, req, existing)" rule: checkOwner.cases) (auto split: if_splits)

lemma adminStep_admitted:
  assumes "run_admitted run" and "adminStep out run s = (Inl next_run, s')"
  shows "run_admitted next_run"
proof (cases run)
  case (ReadNumber p ps found ds)
  then show ?thesis using assms by (cases ps) auto
qed (use assms in \<open>auto simp: commitTo_def dest: firstRead_admitted secondRead_admitted thirdRead_admitted
    checkOwner_admitted refreshing_admitted refreshedAfter_admitted split: sum.splits if_splits prod.splits\<close>)

lemma adminStep_kept:
  assumes "run_admitted run" and "directory_kept (lineDb s)"
  shows "directory_kept (lineDb (snd (adminStep out run s)))"
proof (cases run)
  case (StoringMetadata p nid voice)
  then show ?thesis using assms by (auto simp: number_ok_def unheld_def intro!: changeNumbers_kept)
qed (use assms in \<open>auto simp: commitTo_def dest: recordPurchase_kept updateNumber_kept releaseNumber_kept
    committed_kept split: sum.splits\<close>)

definition administration_ok :: "administration \<Rightarrow> bool" where
  "administration_ok a \<longleftrightarrow> directory_kept (lineDb (store a)) \<and> list_all run_admitted (requestsUnderWay a)"

fun input_parsed :: "admin_input \<Rightarrow> bool" where
  "input_parsed (Asks req) = request_parsed req"
| "input_parsed (Continues i d) = True"

lemma administrationStep_ok:
  assumes "administration_ok a" and "input_parsed x"
  shows "administration_ok (administrationStep out x a)"
proof (cases x)
  case (Asks req)
  then show ?thesis
    using assms by (auto simp: administration_ok_def dest: asked_admitted split: sum.split)
next
  case (Continues i d)
  show ?thesis
  proof (cases "i < length (requestsUnderWay a)")
    case True
    obtain run' s' where step: "adminStep out (requestsUnderWay a ! i) (store a) = (run', s')" by fastforce
    have admitted: "run_admitted (requestsUnderWay a ! i)" and kept: "directory_kept (lineDb (store a))"
      using assms(1) True by (simp_all add: administration_ok_def list_all_length)
    have "directory_kept (lineDb s')" using adminStep_kept [OF admitted kept, of out] step by simp
    moreover have "list_all run_admitted (without i (requestsUnderWay a))"
      using assms(1) by (auto simp: administration_ok_def list_all_iff dest: set_without)
    moreover have "run' = Inl r \<Longrightarrow> run_admitted r" for r using adminStep_admitted [OF admitted] step by simp
    ultimately show ?thesis
      using Continues True step kept by (cases d) (auto simp: administration_ok_def Let_def split: sum.split)
  qed (use Continues assms in simp)
qed

lemma administrationRun_ok:
  "administration_ok a \<Longrightarrow> list_all (\<lambda>x. input_parsed (snd x)) xs \<Longrightarrow> administration_ok (administrationRun xs a)"
  by (induction xs arbitrary: a) (simp_all add: administrationStep_ok)

text \<open>C14. However administrators' requests overlap, and whatever of them is lost on the way, every number is
  held by one user or one department or by nobody, is in service exactly while somebody holds it, is
  primary only of a department, is held by nobody once it was released, and no two rows share an id or
  a number.\<close>

theorem numbers_have_one_holder:
  assumes "directory_kept (lineDb s)" and "list_all (\<lambda>x. input_parsed (snd x)) xs"
  shows "directory_kept (lineDb (store (administrationRun xs \<lparr>store = s, requestsUnderWay = []\<rparr>)))"
proof -
  have "administration_ok \<lparr>store = s, requestsUnderWay = []\<rparr>"
    using assms(1) by (simp add: administration_ok_def)
  from administrationRun_ok [OF this assms(2)] show ?thesis by (simp add: administration_ok_def)
qed

text \<open>So at every moment the lines offered to a user are those a call is granted from.\<close>

lemma offered_lines_stay_granted:
  assumes "directory_kept (lineDb s)" and "list_all (\<lambda>x. input_parsed (snd x)) xs"
    and "db = lineDb (store (administrationRun xs \<lparr>store = s, requestsUnderWay = []\<rparr>))"
    and "isLiveUser db u" and "n \<in> set (numbers db)"
  shows "mayCallFrom db u n \<longleftrightarrow>
    routableNumber n \<and>
    (\<exists>g. decideOutboundGrant \<lparr>ogrUserId = u, ogrTo = callee, ogrFromNumber = numberPhone n\<rparr>
      (loadRouting publicUrl db (numberPhone n)) now = IssueGrant g)"
proof -
  have "administration_ok \<lparr>store = s, requestsUnderWay = []\<rparr>"
    using assms(1) by (simp add: administration_ok_def)
  from administrationRun_ok [OF this assms(2)] have "directory_kept db"
    by (simp add: administration_ok_def assms(3))
  from may_call_iff [OF kept_is_ok [OF this] assms(4,5)] show ?thesis .
qed

section \<open>Whose number a request may take\<close>

definition holderOf :: "number_row \<Rightarrow> user_id option \<times> department_id option" where
  "holderOf n = (numberUser n, numberDepartment n)"

text \<open>From the row \<open>n\<close> to the row \<open>n'\<close>, by what a run is about to do.\<close>

fun mayMove :: "admin_run \<Rightarrow> number_row \<Rightarrow> number_row \<Rightarrow> bool" where
  "mayMove (CommittingUpdate nid u existing) n n' = (numberId n = nid \<and> holderOf n = holderOf existing)"
| "mayMove (CommittingRelease nid p) n n' = (numberId n = nid \<and> unheld n')"
| "mayMove (Committing (DepartmentTakes i nid primary) noted ps ds) n n' =
     (numberId n = nid \<and> unheld n \<and> holderOf n' = (None, Some i))"
| "mayMove (Committing (UserTakes u nid) noted ps ds) n n' =
     (numberId n = nid \<and> unheld n \<and> holderOf n' = (Some u, None))"
| "mayMove (Committing (CreateUser email name joined wanted) noted ps ds) n n' =
     (numberId n \<in> set wanted \<and> unheld n \<and> numberDepartment n' = None)"
| "mayMove (Committing (DepartmentDrops i nid) noted ps ds) n n' =
     (numberId n = nid \<and> holderOf n = (None, Some i) \<and> unheld n')"
| "mayMove (Committing (UserDrops u nid) noted ps ds) n n' =
     (numberId n = nid \<and> holderOf n = (Some u, None) \<and> unheld n')"
| "mayMove (Committing (DeleteDepartment i) noted ps ds) n n' = (holderOf n = (None, Some i) \<and> unheld n')"
| "mayMove (Committing (DeleteUser u) noted ps ds) n n' = (holderOf n = (Some u, None) \<and> unheld n')"
| "mayMove _ n n' = False"

lemma changed_row:
  assumes "distinct (map numberId (numbers db))" and "\<And>n. numberId (f n) = numberId n"
    and "n \<in> set (numbers db)" and "n' \<in> set (numbers (changeNumbers Q f db))" and "numberId n' = numberId n"
  shows "n' = (if Q n then f n else n)"
proof -
  from assms(4) obtain m where m: "m \<in> set (numbers db)" "n' = (if Q m then f m else m)"
    by (auto simp: changeNumbers_def)
  then have "numberId m = numberId n" using assms(2,5) by (auto split: if_splits)
  then have "m = n" using assms(1,3) m(1) by (auto simp: distinct_map dest: inj_onD)
  then show ?thesis using m(2) by simp
qed

lemma same_row:
  assumes "distinct (map numberId (numbers db))" and "n \<in> set (numbers db)" and "n' \<in> set (numbers db)"
    and "numberId n' = numberId n"
  shows "n' = n"
  using assms by (auto simp: distinct_map dest: inj_onD)

lemma numbers_changeDepartment [simp]: "numbers (changeDepartment i f db) = numbers db"
  by (simp add: changeDepartment_def)

lemma numbers_changeUser [simp]: "numbers (changeUser i f db) = numbers db"
  by (simp add: changeUser_def)

lemma numbers_joinAll [simp]: "numbers (joinAll u ds db) = numbers db"
proof -
  have "numbers (fold (\<lambda>x. changeDepartment (snd x)
      (\<lambda>d. d\<lparr>deptMembers := deptMembers d @ [\<lparr>ouUserId = u, ouOrder = fst x\<rparr>]\<rparr>)) xs db) = numbers db" for xs db
    by (induction xs arbitrary: db) simp_all
  then show ?thesis by (simp add: joinAll_def)
qed

lemma ids_changeNumbers: "(\<And>n. numberId (f n) = numberId n) \<Longrightarrow>
    map numberId (numbers (changeNumbers Q f db)) = map numberId (numbers db)"
  by (simp add: changeNumbers_def key_kept)

lemma holder_through:
  assumes "n' \<in> set (numbers (changeNumbers Q f db))"
    and "\<And>n. numberId (f n) = numberId n" and "\<And>n. holderOf (f n) = holderOf n"
  shows "\<exists>m \<in> set (numbers db). numberId m = numberId n' \<and> holderOf m = holderOf n'"
  using assms by (fastforce simp: changeNumbers_def)

lemma demoted_holder: "holderOf (n\<lparr>numberPrimary := b\<rparr>) = holderOf n"
  by (simp add: holderOf_def)

lemma demote_through: "n' \<in> set (numbers (changeNumbers Q (\<lambda>n. n\<lparr>numberPrimary := False\<rparr>) db)) \<Longrightarrow>
    \<exists>m \<in> set (numbers db). numberId m = numberId n' \<and> holderOf m = holderOf n'"
  by (rule holder_through [where f = "\<lambda>n. n\<lparr>numberPrimary := False\<rparr>"]) (simp_all add: demoted_holder)

lemma changeNumbers_none [simp]: "changeNumbers (\<lambda>n. False) f db = db"
  by (simp add: changeNumbers_def)

text \<open>A change of rows that leaves every other holder alone moves a number only where it applies.\<close>

lemma moved_by:
  assumes "directory_kept db" and "n \<in> set (numbers db)" and "n' \<in> set (numbers (changeNumbers Q f db))"
    and "numberId n' = numberId n" and "holderOf n' \<noteq> holderOf n" and "\<And>n. numberId (f n) = numberId n"
  shows "Q n \<and> n' = f n"
proof -
  have "n' = (if Q n then f n else n)"
    using changed_row [of db f, OF _ assms(6,2,3,4)] assms(1) by (simp add: directory_kept_def)
  then show ?thesis using assms(5) by (simp split: if_splits)
qed

lemma departmentTakes_moves:
  assumes "directory_kept db" and "departmentTakes i nid primary db = Inr (db', es)"
    and "n \<in> set (numbers db)" and "n' \<in> set (numbers db')" and "numberId n' = numberId n"
    and "holderOf n' \<noteq> holderOf n"
  shows "numberId n = nid \<and> unheld n \<and> holderOf n' = (None, Some i)"
proof -
  let ?claims = "\<lambda>n. numberId n = nid \<and> \<not> numberDeleted n \<and> unheld n"
  let ?give = "\<lambda>n. n\<lparr>numberDepartment := Some i, numberPrimary := primary, numberStatus := ''ACTIVE''\<rparr>"
  have "\<exists>m \<in> set (numbers (changeNumbers ?claims ?give db)). numberId m = numberId n' \<and> holderOf m = holderOf n'"
  proof (cases primary)
    case True
    then show ?thesis
      using assms(2,4) by (intro demote_through) (auto simp: departmentTakes_def Let_def split: if_splits)
  next
    case False
    then show ?thesis using assms(2,4) by (auto simp: departmentTakes_def Let_def split: if_splits)
  qed
  then obtain m where m: "m \<in> set (numbers (changeNumbers ?claims ?give db))" "numberId m = numberId n'"
    "holderOf m = holderOf n'" by blast
  with moved_by [OF assms(1,3) m(1)] assms(5,6) have "?claims n \<and> m = ?give n" by simp
  then show ?thesis using m(3) by (auto simp: holderOf_def unheld_def)
qed

lemma updateNumber_moves:
  assumes "directory_kept db" and "updateNumber nid u existing db = Inr (db', es)"
    and "n \<in> set (numbers db)" and "n' \<in> set (numbers db')" and "numberId n' = numberId n"
    and "holderOf n' \<noteq> holderOf n"
  shows "numberId n = nid \<and> holderOf n = holderOf existing"
proof -
  have "\<exists>Q. db' = changeNumbers (\<lambda>n. numberId n = nid) (writeNumber u existing)
      (changeNumbers Q (\<lambda>n. n\<lparr>numberPrimary := False\<rparr>) db)"
  proof (cases "writtenPrimary u existing = Some True \<and> truthy (nextDepartment u existing)")
    case True
    then show ?thesis using assms(2) by (auto simp: updateNumber_def Let_def split: if_splits)
  next
    case False
    then have "db' = changeNumbers (\<lambda>n. numberId n = nid) (writeNumber u existing)
        (changeNumbers (\<lambda>n. False) (\<lambda>n. n\<lparr>numberPrimary := False\<rparr>) db)"
      using assms(2) by (auto simp: updateNumber_def Let_def split: if_splits)
    then show ?thesis by blast
  qed
  then obtain Q where db': "db' = changeNumbers (\<lambda>n. numberId n = nid) (writeNumber u existing)
      (changeNumbers Q (\<lambda>n. n\<lparr>numberPrimary := False\<rparr>) db)" by blast
  from assms(4) obtain m where m: "m \<in> set (numbers (changeNumbers Q (\<lambda>n. n\<lparr>numberPrimary := False\<rparr>) db))"
    "n' = (if numberId m = nid then writeNumber u existing m else m)"
    unfolding db' changeNumbers_def [of "\<lambda>n. numberId n = nid"] by auto
  obtain k where k: "k \<in> set (numbers db)" "numberId k = numberId m" "holderOf k = holderOf m"
    using demote_through [OF m(1)] by blast
  have "k = n"
    using same_row [of db n k] assms(1,3,5) k m(2) by (auto simp: directory_kept_def split: if_splits)
  then have nid: "numberId n = nid" using m(2) k assms(6) by (auto split: if_splits)
  obtain c where "c \<in> set (numbers db)" "numberId c = nid" "holderOf c = holderOf existing"
    using assms(2) by (auto simp: updateNumber_def Let_def list_ex_iff holderOf_def split: if_splits)
  then show ?thesis using nid same_row [of db n c] assms(1,3) by (auto simp: directory_kept_def)
qed

lemma recordPurchase_moves:
  assumes "directory_kept db" and "recordPurchase fresh p db = Inr (db', es)"
    and "n \<in> set (numbers db)" and "n' \<in> set (numbers db')" and "numberId n' = numberId n"
  shows "holderOf n' = holderOf n"
proof -
  have "n' \<in> set (numbers (snd (resolvePrimaryAssignment p db)))"
    using assms(2-5) by (auto simp: recordPurchase_def Let_def split: if_splits)
  then have "\<exists>m \<in> set (numbers db). numberId m = numberId n' \<and> holderOf m = holderOf n'"
    by (auto simp: resolvePrimaryAssignment_def Let_def split: if_splits intro: demote_through)
  then obtain m where "m \<in> set (numbers db)" "numberId m = numberId n'" "holderOf m = holderOf n'" by blast
  moreover have "distinct (map numberId (numbers db))" using assms(1) by (simp add: directory_kept_def)
  ultimately show ?thesis using same_row [of db n m] assms(3,5) by simp
qed

lemma committed_moves:
  assumes "directory_kept db" and "committed fresh noted req db = Inr (db', es)"
    and "n \<in> set (numbers db)" and "n' \<in> set (numbers db')" and "numberId n' = numberId n"
    and "holderOf n' \<noteq> holderOf n"
  shows "mayMove (Committing req noted ps ds) n n'"
proof -
  have ok: "number_ok n" using assms(1,3) by (auto simp: directory_kept_def list_all_iff)
  have same: "n' \<in> set (numbers db) \<Longrightarrow> n' = n"
    using same_row [of db n n'] assms(1,3,5) by (simp add: directory_kept_def)
  have moved: "n' \<in> set (numbers (changeNumbers Q f db)) \<Longrightarrow> (\<And>n. numberId (f n) = numberId n) \<Longrightarrow> Q n \<and> n' = f n"
    for Q f by (rule moved_by [OF assms(1,3) _ assms(5,6)])
  show ?thesis
  proof (cases req)
    case (DepartmentTakes i nid primary)
    then show ?thesis using departmentTakes_moves [OF assms(1) _ assms(3-6)] assms(2) by simp
  next
    case (DepartmentDrops i nid)
    then show ?thesis
      using assms(2,4) ok by (auto simp: departmentDrops_def Let_def holderOf_def unheld_def number_ok_def
          split: if_splits dest!: moved)
  next
    case (UserTakes u nid)
    then show ?thesis
      using assms(2,4) ok by (auto simp: userTakes_def Let_def holderOf_def unheld_def number_ok_def
          split: if_splits dest!: moved)
  next
    case (UserDrops u nid)
    then show ?thesis
      using assms(2,4) ok by (auto simp: userDrops_def Let_def holderOf_def unheld_def number_ok_def
          split: if_splits dest!: moved)
  next
    case (DeleteUser u)
    have "n' \<in> set (numbers (changeNumbers (\<lambda>n. numberUser n = Some u)
        (\<lambda>n. n\<lparr>numberUser := None, numberStatus := ''RESERVED''\<rparr>) db))"
      using DeleteUser assms(2,4) by (auto simp: deleteUser_def changeNumbers_def)
    from moved [OF this] DeleteUser ok show ?thesis by (auto simp: holderOf_def unheld_def number_ok_def)
  next
    case (DeleteDepartment i)
    have "n' \<in> set (numbers (changeNumbers (\<lambda>n. numberDepartment n = Some i)
        (\<lambda>n. n\<lparr>numberDepartment := None, numberPrimary := False, numberStatus := ''RESERVED''\<rparr>) db))"
      using DeleteDepartment assms(2,4) by (auto simp: deleteDepartment_def changeNumbers_def)
    from moved [OF this] DeleteDepartment ok show ?thesis by (auto simp: holderOf_def unheld_def number_ok_def)
  next
    case (CreateUser email name joined wanted)
    have "n' \<in> set (numbers (changeNumbers (freeNumbers wanted)
        (\<lambda>n. n\<lparr>numberUser := Some fresh, numberStatus := ''ACTIVE''\<rparr>) db))"
      using CreateUser assms(2,4) by (auto simp: createUser_def Let_def changeNumbers_def split: if_splits)
    from moved [OF this] CreateUser show ?thesis by (auto simp: freeNumbers_def unheld_def)
  qed (use assms(2,4,6) same in \<open>auto simp: createDepartment_def updateDepartment_def restoreDepartment_def
      updateSettings_def updateBusinessHours_def addHoliday_def updateHoliday_def deleteHoliday_def
      addMember_def removeMember_def updateAgentOrder_def updateUser_def restoreUser_def split: if_splits\<close>)
qed

text \<open>C15. A number changes hands in one step only by a request that may: an assignment takes numbers nobody
  holds, a removal and the deletion of a user or a department only what they themselves hold, an edit
  only from the holder it had read, and a release ends with nobody; whatever else went on between.\<close>

theorem numbers_change_hands_as_seen:
  assumes "directory_kept (lineDb s)" and "n \<in> set (numbers (lineDb s))"
    and "n' \<in> set (numbers (lineDb (snd (adminStep out run s))))" and "numberId n' = numberId n"
    and "holderOf n' \<noteq> holderOf n"
  shows "mayMove run n n'"
proof -
  have same: "n' \<in> set (numbers (lineDb s)) \<Longrightarrow> n' = n"
    using same_row [of "lineDb s" n n'] assms(1,2,4) by (simp add: directory_kept_def)
  show ?thesis
  proof (cases run)
    case (RecordingPurchase p)
    then show ?thesis
      using assms(3,5) same recordPurchase_moves [OF assms(1) _ assms(2) _ assms(4)]
      by (auto simp: commitTo_def split: sum.splits)
  next
    case (StoringMetadata p nid voice)
    then have "n' \<in> set (numbers (changeNumbers (\<lambda>n. numberId n = nid)
        (\<lambda>n. n\<lparr>numberVoice := orKeep voice (numberVoice n)\<rparr>) (lineDb s)))"
      using assms(3) by simp
    from moved_by [OF assms(1,2) this assms(4,5)] assms(5) show ?thesis by (simp add: holderOf_def)
  next
    case (CommittingUpdate nid u existing)
    then show ?thesis
      using assms(3,5) same updateNumber_moves [OF assms(1) _ assms(2) _ assms(4,5)]
      by (auto simp: commitTo_def split: sum.splits)
  next
    case (CommittingRelease nid p)
    then have "n' \<in> set (numbers (changeNumbers (\<lambda>n. numberId n = nid) (\<lambda>n. n\<lparr>numberStatus := ''RELEASED'',
        numberDeleted := True, numberUser := None, numberDepartment := None, numberPrimary := False\<rparr>) (lineDb s)))"
      using assms(3) by (simp add: commitTo_def releaseNumber_def)
    from moved_by [OF assms(1,2) this assms(4,5)] CommittingRelease show ?thesis by (simp add: unheld_def)
  next
    case (Committing req noted ps ds)
    then show ?thesis
      using assms(3,5) same committed_moves [OF assms(1) _ assms(2) _ assms(4,5)]
      by (auto simp: commitTo_def split: sum.splits)
  qed (use assms(3,5) same in \<open>auto split: if_splits\<close>)
qed

end
