(* ===== verification/Administration_Cache.thy ===== *)
theory Administration_Cache
  imports Administration_Facts
begin

text \<open>
  What administrators change and what calls are routed by: handled one after the other, their requests
  leave no routing entry that a lookup would answer differently, but for the name of a user, which
  renaming does not refresh, and one edit of a number, which is shown to leave an entry behind.
\<close>

section \<open>What an entry depends on\<close>

definition ringsWhom :: "cached_routing \<Rightarrow> cached_routing" where
  "ringsWhom r = r\<lparr>routingUserName := None\<rparr>"

definition route :: "string \<Rightarrow> line_db \<Rightarrow> phone \<Rightarrow> cached_routing option" where
  "route url db p = map_option ringsWhom (loadRouting url db p)"

definition routableAt :: "line_db \<Rightarrow> phone \<Rightarrow> number_row option" where
  "routableAt db p = find (\<lambda>n. numberPhone n = p \<and> routableNumber n) (numbers db)"

definition ofUser :: "line_db \<Rightarrow> number_row \<Rightarrow> cached_routing option" where
  "ofUser db n =
     (case userOf db (numberUser n) of
        Some u \<Rightarrow> if userDeleted u then None else Some (ringsWhom (routingEntry (projectUserRouting u) n))
      | None \<Rightarrow> None)"

definition ofDepartment :: "string \<Rightarrow> line_db \<Rightarrow> number_row \<Rightarrow> cached_routing option" where
  "ofDepartment url db n =
     (case departmentOf db (numberDepartment n) of
        Some d \<Rightarrow> if deptDeleted d then None else Some (routingEntry (projectDepartmentRouting url db d) n)
      | None \<Rightarrow> None)"

lemma department_entry_has_no_user [simp]:
  "ringsWhom (routingEntry (projectDepartmentRouting url db d) n) = routingEntry (projectDepartmentRouting url db d) n"
  by (simp add: ringsWhom_def routingEntry_def projectDepartmentRouting_def)

lemma route_of: "route url db p = (case routableAt db p of None \<Rightarrow> None | Some n \<Rightarrow> orElse (ofDepartment url db n) (ofUser db n))"
  by (auto simp: route_def loadRouting_def routableAt_def ofDepartment_def ofUser_def split: option.split)

text \<open>A number that is kept is routed by its department or its user, never by both.\<close>

lemma routableAt_some: "routableAt db p = Some n \<Longrightarrow> n \<in> set (numbers db) \<and> numberPhone n = p \<and> routableNumber n"
  unfolding routableAt_def by (rule find_some)

lemma find_map: "find P (map f xs) = map_option f (find (P \<circ> f) xs)"
  by (induction xs) simp_all

lemma find_cong_on: "(\<And>x. x \<in> set xs \<Longrightarrow> P x = Q x) \<Longrightarrow> find P xs = find Q xs"
  by (induction xs) auto

lemma routableAt_changeNumbers:
  assumes "\<And>n. numberPhone (f n) = numberPhone n"
    and "\<And>n. n \<in> set (numbers db) \<Longrightarrow> numberPhone n = p \<Longrightarrow> Q n \<Longrightarrow> routableNumber (f n) = routableNumber n"
  shows "routableAt (changeNumbers Q f db) p = map_option (\<lambda>n. if Q n then f n else n) (routableAt db p)"
proof -
  have "find ((\<lambda>n. numberPhone n = p \<and> routableNumber n) \<circ> (\<lambda>n. if Q n then f n else n)) (numbers db) =
      find (\<lambda>n. numberPhone n = p \<and> routableNumber n) (numbers db)"
    by (rule find_cong_on) (use assms in auto)
  then show ?thesis by (simp add: routableAt_def changeNumbers_def find_map)
qed

text \<open>The columns of a number that routing reads.\<close>

definition routedAlike :: "number_row \<Rightarrow> number_row \<Rightarrow> bool" where
  "routedAlike n m \<longleftrightarrow> routableNumber n = routableNumber m \<and> holderOf n = holderOf m \<and> numberVoice n = numberVoice m"

lemma owners_same [simp]:
  "departmentOf (changeNumbers Q f db) i = departmentOf db i" "userOf (changeNumbers Q f db) u = userOf db u"
  "departmentOf (changeUser v g db) i = departmentOf db i" "userOf (changeDepartment j h db) u = userOf db u"
  by (simp_all add: departmentOf_def userOf_def changeNumbers_def changeUser_def changeDepartment_def split: option.split)

lemma projected_same:
  assumes "\<And>u. u \<in> set (map ouUserId (deptMembers d)) \<Longrightarrow> isLiveUser db' u = isLiveUser db u"
  shows "projectDepartmentRouting url db' d = projectDepartmentRouting url db d"
proof -
  have "filter (\<lambda>m. isLiveUser db' (ouUserId m)) (deptMembers d) = filter (\<lambda>m. isLiveUser db (ouUserId m)) (deptMembers d)"
    by (rule filter_cong) (use assms in auto)
  then show ?thesis by (simp add: projectDepartmentRouting_def orderedMembers_def)
qed

lemma liveUser_same [simp]:
  "isLiveUser (changeNumbers Q f db) u = isLiveUser db u" "isLiveUser (changeDepartment i g db) u = isLiveUser db u"
  by (simp_all add: isLiveUser_def)

lemma route_changeNumbers:
  assumes "\<And>n. numberPhone (f n) = numberPhone n"
    and "\<And>n. n \<in> set (numbers db) \<Longrightarrow> numberPhone n = p \<Longrightarrow> Q n \<Longrightarrow> routedAlike (f n) n"
  shows "route url (changeNumbers Q f db) p = route url db p"
proof (cases "routableAt db p")
  case None
  then show ?thesis
    using routableAt_changeNumbers [of f db p Q, OF assms(1)] assms(2) by (simp add: route_of routedAlike_def)
next
  case (Some n)
  have at: "routableAt (changeNumbers Q f db) p = Some (if Q n then f n else n)"
    using routableAt_changeNumbers [of f db p Q, OF assms(1)] assms(2) Some by (simp add: routedAlike_def)
  have n: "n \<in> set (numbers db)" "numberPhone n = p" using routableAt_some [OF Some] by simp_all
  have alike: "routedAlike (if Q n then f n else n) n"
    using assms(2) [OF n] by (auto simp: routedAlike_def)
  have "projectDepartmentRouting url (changeNumbers Q f db) d = projectDepartmentRouting url db d" for d
    by (rule projected_same) simp
  then show ?thesis
    using alike by (auto simp: route_of at Some ofDepartment_def ofUser_def routedAlike_def holderOf_def
        routingEntry_def ringsWhom_def simp del: if_split split: option.split)
qed

lemma departmentOf_changed:
  assumes "\<And>d. deptId (f d) = deptId d"
  shows "departmentOf (changeDepartment i f db) x = map_option (\<lambda>d. if deptId d = i then f d else d) (departmentOf db x)"
proof -
  have "(\<lambda>d. deptId d = k) \<circ> (\<lambda>d. if deptId d = i then f d else d) = (\<lambda>d. deptId d = k)" for k
    using assms by (simp add: fun_eq_iff)
  then show ?thesis
    by (simp add: departmentOf_def changeDepartment_def find_map split: option.split)
qed

lemma userOf_changed:
  assumes "\<And>u. userRowId (f u) = userRowId u"
  shows "userOf (changeUser i f db) x = map_option (\<lambda>u. if userRowId u = i then f u else u) (userOf db x)"
proof -
  have "(\<lambda>u. userRowId u = k) \<circ> (\<lambda>u. if userRowId u = i then f u else u) = (\<lambda>u. userRowId u = k)" for k
    using assms by (simp add: fun_eq_iff)
  then show ?thesis by (simp add: userOf_def changeUser_def find_map split: option.split)
qed

section \<open>Entries that are still to be refreshed\<close>

definition covered :: "line_db \<Rightarrow> phone list \<Rightarrow> department_id list \<Rightarrow> phone \<Rightarrow> bool" where
  "covered db ps ds p \<longleftrightarrow> p \<in> set ps \<or>
     (\<exists>d \<in> set ds. isLiveDepartment db d \<and> (\<exists>n \<in> set (numbersOf db d). numberPhone n = p))"

text \<open>Every entry is what a lookup would answer, or about to be refreshed.\<close>

definition fresh_but :: "string \<Rightarrow> line_db \<Rightarrow> routing_cache \<Rightarrow> phone list \<Rightarrow> department_id list \<Rightarrow> bool" where
  "fresh_but url db c ps ds \<longleftrightarrow>
     (\<forall>p r. phoneEntries c p = Some r \<longrightarrow> covered db ps ds p \<or> route url db p = Some (ringsWhom r))"

definition coherent :: "string \<Rightarrow> line_db \<Rightarrow> routing_cache \<Rightarrow> bool" where
  "coherent url db c \<longleftrightarrow> fresh_but url db c [] []"

lemma pending_mono:
  "fresh_but url db c ps ds \<Longrightarrow> set ps \<subseteq> set ps' \<Longrightarrow> set ds \<subseteq> set ds' \<Longrightarrow> fresh_but url db c ps' ds'"
  unfolding fresh_but_def covered_def by blast

text \<open>A transaction leaves no entry wrong but those refreshed after it, if it changes no other entry's route.\<close>

lemma pending_after:
  assumes "coherent url db c"
    and "\<And>p. \<not> covered db' ps ds p \<Longrightarrow> route url db p \<noteq> None \<Longrightarrow> route url db' p = route url db p"
  shows "fresh_but url db' c ps ds"
  unfolding fresh_but_def
proof (intro allI impI)
  fix p r assume entry: "phoneEntries c p = Some r"
  then have "route url db p = Some (ringsWhom r)"
    using assms(1) by (auto simp: coherent_def fresh_but_def covered_def)
  then show "covered db' ps ds p \<or> route url db' p = Some (ringsWhom r)" using assms(2) [of p] by auto
qed

lemma refreshed_numbers:
  assumes "\<forall>x \<in> set xs. snd x = db"
  shows "phoneEntries (refreshPhoneNumbers url xs c) p =
    (if p \<in> set (map fst xs) then loadRouting url db p else phoneEntries c p)"
  using assms
proof (induction xs arbitrary: c)
  case (Cons x xs)
  then show ?case
    by (cases "p \<in> set (map fst xs)"; cases "loadRouting url db (fst x)")
      (auto simp: queueRouting_def phone_setPhone)
qed simp

lemma refreshed_department:
  assumes "directory_ok db"
  shows "phoneEntries (refreshDepartment url db d c) p =
    (if covered db [] [d] p then loadRouting url db p else phoneEntries c p)"
proof (cases "find (\<lambda>x. deptId x = d \<and> \<not> deptDeleted x) (departments db)")
  case None
  then have "\<not> isLiveDepartment db d"
    by (auto simp: isLiveDepartment_def find_None_iff dest: departmentOf_known split: option.split)
  then show ?thesis using None by (simp add: refreshDepartment_def covered_def)
next
  case (Some x)
  then have x: "x \<in> set (departments db)" "deptId x = d" "\<not> deptDeleted x" by (auto dest: find_some)
  then have live: "isLiveDepartment db d"
    using departmentOf_id [OF assms] by (auto simp: isLiveDepartment_def)
  show ?thesis
  proof (cases "\<exists>n \<in> set (numbersOf db d). numberPhone n = p")
    case True
    then show ?thesis
      using phone_refreshDepartment [OF assms x(1,3)] x(2) live by (auto simp: covered_def)
  next
    case False
    then have "find (\<lambda>n. numberPhone n = p) (rev (numbersOf db d)) = None"
      by (auto simp: find_None_iff)
    then show ?thesis
      using Some False by (simp add: refreshDepartment_def Let_def phone_setNumbers covered_def)
  qed
qed

lemma route_loaded: "loadRouting url db p = Some r \<Longrightarrow> route url db p = Some (ringsWhom r)"
  by (simp add: route_def)

lemma pending_numbers:
  assumes "\<forall>x \<in> set xs. snd x = db" and "fresh_but url db c (map fst xs) ds"
  shows "fresh_but url db (refreshPhoneNumbers url xs c) [] ds"
  using assms(2) refreshed_numbers [OF assms(1), of url c]
  by (auto simp: fresh_but_def covered_def route_loaded split: if_splits)

lemma pending_department:
  assumes "directory_ok db" and "fresh_but url db c [] (d # ds)"
  shows "fresh_but url db (refreshDepartment url db d c) [] ds"
  unfolding fresh_but_def
proof (intro allI impI)
  fix p r assume entry: "phoneEntries (refreshDepartment url db d c) p = Some r"
  show "covered db [] ds p \<or> route url db p = Some (ringsWhom r)"
  proof (cases "covered db [] [d] p")
    case True
    then show ?thesis using entry refreshed_department [OF assms(1), of url d c p] by (simp add: route_loaded)
  next
    case False
    then have "covered db [] (d # ds) p \<longleftrightarrow> covered db [] ds p" by (auto simp: covered_def)
    then show ?thesis
      using False entry refreshed_department [OF assms(1), of url d c p] assms(2) by (auto simp: fresh_but_def)
  qed
qed

section \<open>What a transaction leaves to be refreshed\<close>

lemma covers_department:
  "routableAt db p = Some n \<Longrightarrow> numberDepartment n = Some i \<Longrightarrow> isLiveDepartment db i \<Longrightarrow> i \<in> set ds \<Longrightarrow>
     covered db ps ds p"
  using routableAt_some [of db p n] by (auto simp: covered_def numbersOf_def)

lemma routableAt_same [simp]:
  "routableAt (changeDepartment i f db) p = routableAt db p" "routableAt (changeUser u g db) p = routableAt db p"
  by (simp_all add: routableAt_def)

lemma ofUser_same [simp]: "ofUser (changeDepartment i f db) n = ofUser db n"
  by (simp add: ofUser_def)

text \<open>What only shows in a department shows in the numbers of that department.\<close>

lemma route_changeDepartment:
  assumes "\<And>d. deptId (f d) = deptId d" and "\<And>d. deptDeleted (f d) = deptDeleted d"
    and "i \<in> set ds" and "\<not> covered (changeDepartment i f db) ps ds p"
  shows "route url (changeDepartment i f db) p = route url db p"
proof (cases "routableAt db p")
  case (Some n)
  have "ofDepartment url (changeDepartment i f db) n = ofDepartment url db n"
  proof (cases "departmentOf db (numberDepartment n)")
    case None
    then show ?thesis by (simp add: ofDepartment_def departmentOf_changed [OF assms(1)])
  next
    case (Some d)
    have id: "numberDepartment n = Some (deptId d)" using departmentOf_known [OF Some] by simp
    show ?thesis
    proof (cases "deptId d = i")
      case True
      have "\<not> isLiveDepartment (changeDepartment i f db) i"
        using assms(3,4) covers_department [of "changeDepartment i f db" p n i ds ps] True id
          \<open>routableAt db p = Some n\<close> by auto
      then have "deptDeleted d"
        using Some True id by (simp add: isLiveDepartment_def departmentOf_changed [OF assms(1)] assms(2))
      then show ?thesis
        using Some True by (simp add: ofDepartment_def departmentOf_changed [OF assms(1)] assms(2))
    next
      case False
      have "projectDepartmentRouting url (changeDepartment i f db) d = projectDepartmentRouting url db d"
        by (rule projected_same) simp
      then show ?thesis
        using Some False by (simp add: ofDepartment_def departmentOf_changed [OF assms(1)])
    qed
  qed
  then show ?thesis using Some by (simp add: route_of)
qed (simp add: route_of)

text \<open>What changes about a user shows in their own numbers and in the departments they are in.\<close>

lemma isLiveUser_other:
  "(\<And>r. userRowId (g r) = userRowId r) \<Longrightarrow> v \<noteq> u \<Longrightarrow> isLiveUser (changeUser u g db) v = isLiveUser db v"
  by (cases "userOf db (Some v)") (auto simp: isLiveUser_def userOf_changed dest: userOf_known)

lemma member_covers:
  assumes "directory_ok db" and "routableAt db p = Some n" and "departmentOf db (numberDepartment n) = Some d"
    and "\<not> deptDeleted d" and "u \<in> set (map ouUserId (deptMembers d))"
  shows "covered db ps (departmentsOfUser db u) p"
proof -
  have d: "d \<in> set (departments db)" "numberDepartment n = Some (deptId d)"
    using departmentOf_known [OF assms(3)] by simp_all
  then show ?thesis
    using assms(2-5) by (intro covers_department) (auto simp: departmentsOfUser_def isLiveDepartment_def)
qed

lemma route_changeUser:
  assumes "directory_ok (changeUser u g db)" and "\<And>r. userRowId (g r) = userRowId r"
    and "\<And>n. n \<in> set (numbers db) \<Longrightarrow> routableNumber n \<Longrightarrow> numberPhone n = p \<Longrightarrow> numberUser n \<noteq> Some u"
    and "\<not> covered (changeUser u g db) ps (departmentsOfUser (changeUser u g db) u) p"
  shows "route url (changeUser u g db) p = route url db p"
proof (cases "routableAt db p")
  case (Some n)
  have n: "n \<in> set (numbers db)" "routableNumber n" "numberPhone n = p" using routableAt_some [OF Some] by simp_all
  have "userOf (changeUser u g db) (numberUser n) = userOf db (numberUser n)"
    using assms(3) [OF n] userOf_known [of db "numberUser n"]
    by (cases "userOf db (numberUser n)") (auto simp: userOf_changed [OF assms(2)])
  then have user: "ofUser (changeUser u g db) n = ofUser db n" by (simp add: ofUser_def)
  have "ofDepartment url (changeUser u g db) n = ofDepartment url db n"
  proof (cases "departmentOf db (numberDepartment n)")
    case None
    then show ?thesis by (simp add: ofDepartment_def)
  next
    case (Some d)
    show ?thesis
    proof (cases "deptDeleted d")
      case False
      have "u \<notin> set (map ouUserId (deptMembers d))"
        using member_covers [OF assms(1), of p n d u ps] assms(4) Some False \<open>routableAt db p = Some n\<close> by auto
      then have "projectDepartmentRouting url (changeUser u g db) d = projectDepartmentRouting url db d"
        by (intro projected_same isLiveUser_other [OF assms(2)]) auto
      then show ?thesis using Some by (simp add: ofDepartment_def)
    qed (use Some in \<open>simp add: ofDepartment_def\<close>)
  qed
  then show ?thesis using Some user by (simp add: route_of)
qed (simp add: route_of)

text \<open>Rows that come in are nobody's yet.\<close>

lemma route_addedNumber:
  assumes "numberPhone m \<noteq> p"
  shows "route url (db\<lparr>numbers := numbers db @ [m]\<rparr>) p = route url db p"
proof -
  have "find Q (xs @ [m]) = (case find Q xs of None \<Rightarrow> if Q m then Some m else None | Some x \<Rightarrow> Some x)" for Q xs
    by (induction xs) auto
  then have at: "routableAt (db\<lparr>numbers := numbers db @ [m]\<rparr>) p = routableAt db p"
    using assms by (simp add: routableAt_def split: option.split)
  have "departmentOf (db\<lparr>numbers := numbers db @ [m]\<rparr>) i = departmentOf db i"
    "userOf (db\<lparr>numbers := numbers db @ [m]\<rparr>) j = userOf db j" for i j
    by (simp_all add: departmentOf_def userOf_def split: option.split)
  moreover from this have "projectDepartmentRouting url (db\<lparr>numbers := numbers db @ [m]\<rparr>) d =
      projectDepartmentRouting url db d" for d
    by (intro projected_same) (simp add: isLiveUser_def)
  ultimately show ?thesis by (simp add: route_of at ofDepartment_def ofUser_def split: option.split)
qed

lemma no_route: "routableAt db p = None \<Longrightarrow> route url db p = None"
  by (simp add: route_of)

text \<open>The numbers named are covered; whoever else's are not changed.\<close>

lemma pending_changeNumbers:
  assumes "coherent url db c" and "\<And>n. numberPhone (f n) = numberPhone n"
    and "\<And>n. n \<in> set (numbers db) \<Longrightarrow> Q n \<Longrightarrow> numberPhone n \<in> set ps \<or> routedAlike (f n) n"
  shows "fresh_but url (changeNumbers Q f db) c ps ds"
  by (rule pending_after [OF assms(1)], rule route_changeNumbers [OF assms(2)])
    (use assms(3) in \<open>auto simp: covered_def\<close>)

lemma pending_changeDepartment:
  assumes "coherent url db c" and "\<And>d. deptId (f d) = deptId d" and "\<And>d. deptDeleted (f d) = deptDeleted d"
    and "i \<in> set ds"
  shows "fresh_but url (changeDepartment i f db) c ps ds"
  by (rule pending_after [OF assms(1)], rule route_changeDepartment [OF assms(2-4)])

lemma phone_of_id:
  "directory_kept db \<Longrightarrow> n \<in> set (numbers db) \<Longrightarrow> m \<in> set (numbers db) \<Longrightarrow> numberId n = numberId m \<Longrightarrow> n = m"
  using same_row [of db m n] by (simp add: directory_kept_def)

lemma demotion_routes_alike: "routedAlike (n\<lparr>numberPrimary := b\<rparr>) n"
  by (simp add: routedAlike_def routableNumber_def holderOf_def)

lemma phone_in_image: "(\<exists>n \<in> A. numberPhone n = p) \<longleftrightarrow> p \<in> numberPhone ` A"
  by auto

lemma pending_demotion:
  assumes "fresh_but url db c ps ds"
  shows "fresh_but url (changeNumbers Q (\<lambda>n. n\<lparr>numberPrimary := False\<rparr>) db) c ps ds"
proof -
  have route: "route url (changeNumbers Q (\<lambda>n. n\<lparr>numberPrimary := False\<rparr>) db) p = route url db p" for p
    by (rule route_changeNumbers) (simp_all add: demotion_routes_alike)
  have "isLiveDepartment (changeNumbers Q (\<lambda>n. n\<lparr>numberPrimary := False\<rparr>) db) d = isLiveDepartment db d" for d
    by (simp add: isLiveDepartment_def)
  moreover have "numberPhone ` set (numbersOf (changeNumbers Q (\<lambda>n. n\<lparr>numberPrimary := False\<rparr>) db) d) =
      numberPhone ` set (numbersOf db d)" for d
  proof -
    have "map numberPhone (filter (\<lambda>n. numberDepartment n = Some d \<and> routableNumber n)
        (map (\<lambda>n. if Q n then n\<lparr>numberPrimary := False\<rparr> else n) xs)) =
      map numberPhone (filter (\<lambda>n. numberDepartment n = Some d \<and> routableNumber n) xs)" for xs
      by (induction xs) (auto simp: routableNumber_def)
    then have "map numberPhone (numbersOf (changeNumbers Q (\<lambda>n. n\<lparr>numberPrimary := False\<rparr>) db) d) =
        map numberPhone (numbersOf db d)"
      by (simp add: numbersOf_def changeNumbers_def)
    then show ?thesis by (metis set_map)
  qed
  ultimately have "covered (changeNumbers Q (\<lambda>n. n\<lparr>numberPrimary := False\<rparr>) db) ps ds p = covered db ps ds p" for p
    by (simp add: covered_def phone_in_image)
  then show ?thesis using assms route by (simp add: fresh_but_def)
qed

lemma route_otherDepartment:
  assumes "\<And>d. deptId (f d) = deptId d" and "\<And>n. routableAt db p = Some n \<Longrightarrow> numberDepartment n \<noteq> Some i"
  shows "route url (changeDepartment i f db) p = route url db p"
proof (cases "routableAt db p")
  case (Some n)
  have "departmentOf (changeDepartment i f db) (numberDepartment n) = departmentOf db (numberDepartment n)"
    using assms(2) [OF Some] departmentOf_known [of db "numberDepartment n"]
    by (cases "departmentOf db (numberDepartment n)") (auto simp: departmentOf_changed [OF assms(1)])
  moreover have "projectDepartmentRouting url (changeDepartment i f db) d = projectDepartmentRouting url db d" for d
    by (rule projected_same) simp
  ultimately show ?thesis using Some by (simp add: route_of ofDepartment_def split: option.split)
qed (simp add: route_of)

lemma kept_row: "directory_kept db \<Longrightarrow> routableAt db p = Some n \<Longrightarrow> number_ok n"
  using routableAt_some by (auto simp: directory_kept_def list_all_iff)

text \<open>A number of a department that is not there, or of a user who is not, is routed nowhere.\<close>

lemma no_department_no_route:
  assumes "directory_kept db" and "routableAt db p = Some n" and "numberDepartment n = Some i"
    and "\<not> isLiveDepartment db i"
  shows "route url db p = None"
proof -
  have "numberUser n = None" using kept_row [OF assms(1,2)] assms(3) by (auto simp: number_ok_def)
  moreover have "ofDepartment url db n = None"
    using assms(3,4) by (auto simp: ofDepartment_def isLiveDepartment_def split: option.splits)
  ultimately show ?thesis using assms(2) by (simp add: route_of ofUser_def userOf_def)
qed

lemma no_user_no_route:
  assumes "directory_kept db" and "routableAt db p = Some n" and "numberUser n = Some u"
    and "\<not> isLiveUser db u"
  shows "route url db p = None"
proof -
  have "numberDepartment n = None" using kept_row [OF assms(1,2)] assms(3) by (auto simp: number_ok_def)
  moreover have "ofUser db n = None"
    using assms(3,4) by (auto simp: ofUser_def isLiveUser_def split: option.splits)
  ultimately show ?thesis using assms(2) by (simp add: route_of ofDepartment_def departmentOf_def)
qed

lemma find_in_append: "find Q (xs @ ys) = (case find Q xs of None \<Rightarrow> find Q ys | Some x \<Rightarrow> Some x)"
  by (induction xs) auto

lemma pending_createDepartment:
  assumes "coherent url db c" and "directory_kept db" and "createDepartment fresh name db = Inr (db', es)"
  shows "fresh_but url db' c ps ds"
proof (rule pending_after [OF assms(1)])
  fix p assume routed: "route url db p \<noteq> None"
  have fresh: "fresh \<notin> set (map deptId (departments db))" using assms(3) by (auto simp: createDepartment_def split: if_splits)
  from assms(3) obtain d0 where db': "db' = db\<lparr>departments := departments db @ [d0]\<rparr>" "deptId d0 = fresh"
    by (auto simp: createDepartment_def split: if_splits)
  have users: "userOf db' i = userOf db i" for i by (simp add: db' userOf_def split: option.split)
  have projected: "projectDepartmentRouting url db' d = projectDepartmentRouting url db d" for d
    by (rule projected_same) (simp add: isLiveUser_def users)
  have at: "routableAt db' p = routableAt db p" by (simp add: routableAt_def db')
  from routed obtain n where n: "routableAt db p = Some n" by (auto simp: route_of split: option.splits)
  have "departmentOf db (Some fresh) = None"
    using fresh by (auto simp: departmentOf_def find_None_iff)
  then have "numberDepartment n \<noteq> Some fresh"
    using no_department_no_route [OF assms(2) n, of fresh url] routed by (auto simp: isLiveDepartment_def)
  then have "departmentOf db' (numberDepartment n) = departmentOf db (numberDepartment n)"
    using db' by (auto simp: departmentOf_def find_in_append split: option.split)
  then show "route url db' p = route url db p"
    using n by (simp add: route_of at ofDepartment_def ofUser_def users projected split: option.split)
qed

lemma pending_deleteDepartment:
  assumes "coherent url db c" and "deleteDepartment i db = Inr (db', es)"
    and "\<forall>n \<in> set (numbers db). numberDepartment n = Some i \<longrightarrow> numberPhone n \<in> set ps"
  shows "fresh_but url db' c ps ds"
proof (rule pending_after [OF assms(1)])
  fix p assume "\<not> covered db' ps ds p"
  then have other: "numberDepartment n \<noteq> Some i" if "n \<in> set (numbers db)" "numberPhone n = p" for n
    using assms(3) that by (auto simp: covered_def)
  let ?gone = "changeDepartment i (\<lambda>d. clearGreeting (d\<lparr>deptDeleted := True\<rparr>)) db"
  have "route url ?gone p = route url db p"
    by (rule route_otherDepartment) (use other routableAt_some in \<open>auto simp: clearGreeting_def\<close>)
  moreover have "route url db' p = route url ?gone p"
    using assms(2) other by (auto simp: deleteDepartment_def intro!: route_changeNumbers)
  ultimately show "route url db' p = route url db p" by simp
qed

lemma pending_restoreDepartment:
  assumes "coherent url db c" and "directory_kept db" and "restoreDepartment i db = Inr (db', es)"
    and "\<not> isLiveDepartment db i"
  shows "fresh_but url db' c ps ds"
proof (rule pending_after [OF assms(1)])
  fix p assume routed: "route url db p \<noteq> None"
  then have "numberDepartment n \<noteq> Some i" if "routableAt db p = Some n" for n
    using no_department_no_route [OF assms(2) that _ assms(4), where url = url] by auto
  then show "route url db' p = route url db p"
    using assms(3) by (auto simp: restoreDepartment_def intro!: route_otherDepartment)
qed

lemma pending_changeUser:
  assumes "coherent url db c" and "directory_kept db" and "\<And>r. userRowId (g r) = userRowId r"
    and "\<And>n. n \<in> set (numbers db) \<Longrightarrow> numberUser n = Some u \<Longrightarrow>
      numberPhone n \<in> set ps \<or> \<not> isLiveUser db u"
  shows "fresh_but url (changeUser u g db) c ps (departmentsOfUser (changeUser u g db) u)"
proof (rule pending_after [OF assms(1)])
  fix p assume uncovered: "\<not> covered (changeUser u g db) ps (departmentsOfUser (changeUser u g db) u) p"
    and routed: "route url db p \<noteq> None"
  have "numberUser n \<noteq> Some u" if n: "n \<in> set (numbers db)" "routableNumber n" "numberPhone n = p" for n
  proof
    assume held: "numberUser n = Some u"
    have "routableAt db p = Some n"
      unfolding routableAt_def
      by (rule find_unique) (use n assms(2) in \<open>auto simp: directory_kept_def distinct_map dest: inj_onD\<close>)
    from no_user_no_route [OF assms(2) this held, of url] routed have "isLiveUser db u" by auto
    then show False using assms(4) [OF n(1) held] n(3) uncovered by (auto simp: covered_def)
  qed
  moreover have "directory_ok (changeUser u g db)"
    by (rule kept_is_ok, rule changeUser_kept [OF assms(2,3)])
  ultimately show "route url (changeUser u g db) p = route url db p"
    using uncovered by (intro route_changeUser assms(3)) auto
qed

lemma pending_deleteUser:
  assumes "coherent url db c" and "directory_kept db" and "deleteUser u db = Inr (db', es)"
    and "\<forall>n \<in> set (numbers db). numberUser n = Some u \<longrightarrow> numberPhone n \<in> set ps"
  shows "fresh_but url db' c ps (departmentsOfUser db u)"
proof -
  let ?gone = "changeUser u (\<lambda>r. r\<lparr>userDeleted := True\<rparr>) db"
  have same: "departmentsOfUser ?gone u = departmentsOfUser db u"
    by (simp add: departmentsOfUser_def changeUser_def)
  have db': "db' = changeNumbers (\<lambda>n. numberUser n = Some u)
      (\<lambda>n. n\<lparr>numberUser := None, numberStatus := ''RESERVED''\<rparr>) ?gone"
    using assms(3) by (simp add: deleteUser_def)
  have fresh_but: "fresh_but url ?gone c ps (departmentsOfUser db u)"
    using pending_changeUser [of url db c "\<lambda>r. r\<lparr>userDeleted := True\<rparr>" u ps] assms(1,2,4) same by auto
  show ?thesis
    unfolding fresh_but_def
  proof (intro allI impI)
    fix p r assume entry: "phoneEntries c p = Some r"
    show "covered db' ps (departmentsOfUser db u) p \<or> route url db' p = Some (ringsWhom r)"
    proof (cases "p \<in> set ps")
      case False
      have other: "numberUser n \<noteq> Some u" if "n \<in> set (numbers db)" "numberPhone n = p" for n
        using assms(4) False that by auto
      have "route url db' p = route url ?gone p"
        unfolding db' by (rule route_changeNumbers) (use other in auto)
      moreover have "covered ?gone ps (departmentsOfUser db u) p \<Longrightarrow> covered db' ps (departmentsOfUser db u) p"
      proof -
        assume "covered ?gone ps (departmentsOfUser db u) p"
        then obtain d n where d: "d \<in> set (departmentsOfUser db u)" "isLiveDepartment ?gone d"
          "n \<in> set (numbersOf ?gone d)" "numberPhone n = p" using False by (auto simp: covered_def)
        then have "n \<in> set (numbers db)" by (simp add: numbersOf_def)
        then have "numberUser n \<noteq> Some u" using other d(4) by simp
        then have "n \<in> set (numbersOf db' d)"
          using d(3) by (auto simp: db' numbersOf_def changeNumbers_def image_iff)
        moreover have "isLiveDepartment db' d" using d(2) by (simp add: db' isLiveDepartment_def)
        ultimately show ?thesis using d(1,4) by (auto simp: covered_def)
      qed
      ultimately show ?thesis using fresh_but entry by (auto simp: fresh_but_def)
    qed (simp add: covered_def)
  qed
qed

lemma pending_restoreUser:
  assumes "coherent url db c" and "directory_kept db" and "restoreUser u db = Inr (db', es)"
    and "\<not> isLiveUser db u"
  shows "fresh_but url db' c [] (departmentsOfUser db' u)"
  using pending_changeUser [of url db c "\<lambda>r. r\<lparr>userDeleted := False\<rparr>" u "[]"] assms
  by (simp add: restoreUser_def)

text \<open>A new name shows nowhere but in the name.\<close>

lemma pending_updateUser:
  assumes "coherent url db c" and "updateUser u email name noted db = Inr (db', es)"
  shows "fresh_but url db' c ps ds"
proof (rule pending_after [OF assms(1)])
  fix p
  obtain g where g: "db' = changeUser u g db" "\<And>r. userRowId (g r) = userRowId r"
    "\<And>r. userDeleted (g r) = userDeleted r"
    using assms(2) that [of "\<lambda>r. r\<lparr>userEmail := orKeep email (userEmail r),
        userName := (if name = None then userName r else name)\<rparr>"] by (auto simp: updateUser_def split: if_splits)
  have live: "isLiveUser db' v = isLiveUser db v" for v
    by (simp add: isLiveUser_def g userOf_changed split: option.split)
  have "projectDepartmentRouting url db' d = projectDepartmentRouting url db d" for d
    by (rule projected_same) (simp add: live)
  then have "ofDepartment url db' n = ofDepartment url db n" for n
    by (simp add: ofDepartment_def g(1) split: option.split)
  moreover have "ofUser db' n = ofUser db n" for n
    by (cases "userOf db (numberUser n)")
      (auto simp: ofUser_def g userOf_changed ringsWhom_def routingEntry_def projectUserRouting_def)
  ultimately show "route url db' p = route url db p" by (simp add: route_of g(1) split: option.split)
qed

text \<open>A new user shows in the departments they join and in the numbers they are given.\<close>

definition joins :: "user_id \<Rightarrow> (nat \<times> department_id) list \<Rightarrow> line_db \<Rightarrow> line_db" where
  "joins u xs db = fold (\<lambda>x. changeDepartment (snd x)
     (\<lambda>d. d\<lparr>deptMembers := deptMembers d @ [\<lparr>ouUserId = u, ouOrder = fst x\<rparr>]\<rparr>)) xs db"

lemma joinAll_joins: "joinAll u ds db = joins u (enumerate 0 ds) db"
  by (simp add: joinAll_def joins_def)

lemma route_joins:
  "(\<And>n. routableAt db p = Some n \<Longrightarrow> numberDepartment n \<notin> Some ` set (map snd xs)) \<Longrightarrow>
     route url (joins u xs db) p = route url db p"
proof (induction xs arbitrary: db)
  case (Cons x xs)
  have "route url (joins u xs (changeDepartment (snd x)
      (\<lambda>d. d\<lparr>deptMembers := deptMembers d @ [\<lparr>ouUserId = u, ouOrder = fst x\<rparr>]\<rparr>) db)) p =
    route url (changeDepartment (snd x)
      (\<lambda>d. d\<lparr>deptMembers := deptMembers d @ [\<lparr>ouUserId = u, ouOrder = fst x\<rparr>]\<rparr>) db) p"
    by (rule Cons.IH) (use Cons.prems in auto)
  also have "\<dots> = route url db p"
    by (rule route_otherDepartment) (use Cons.prems in auto)
  finally show ?case by (simp add: joins_def)
qed (simp add: joins_def)

lemma joins_department:
  assumes "departmentOf db i = Some d"
  shows "\<exists>d'. departmentOf (joins u xs db) i = Some d' \<and> deptId d' = deptId d \<and> deptDeleted d' = deptDeleted d \<and>
    set (map ouUserId (deptMembers d)) \<subseteq> set (map ouUserId (deptMembers d')) \<and>
    (deptId d \<in> set (map snd xs) \<longrightarrow> u \<in> set (map ouUserId (deptMembers d')))"
  using assms
proof (induction xs arbitrary: db d)
  case (Cons x xs)
  let ?f = "\<lambda>d. d\<lparr>deptMembers := deptMembers d @ [\<lparr>ouUserId = u, ouOrder = fst x\<rparr>]\<rparr>"
  have "departmentOf (changeDepartment (snd x) ?f db) i = Some (if deptId d = snd x then ?f d else d)"
    using Cons.prems by (simp add: departmentOf_changed)
  from Cons.IH [OF this] show ?case by (auto simp: joins_def split: if_splits)
qed (simp add: joins_def)

lemma in_phonesOf: "n \<in> set (numbers db) \<Longrightarrow> Q n \<Longrightarrow> numberPhone n \<in> set (phonesOf Q db)"
  by (simp add: phonesOf_def)

lemma pending_createUser:
  assumes "coherent url db c" and "directory_kept db" and "createUser fresh email name joined wanted db = Inr (db', es)"
  shows "fresh_but url db' c (phonesOf (\<lambda>n. numberUser n = Some fresh \<and> \<not> numberDeleted n) db')
    (departmentsOfUser db' fresh)"
proof (rule pending_after [OF assms(1)])
  let ?ps = "phonesOf (\<lambda>n. numberUser n = Some fresh \<and> \<not> numberDeleted n) db'"
  fix p assume uncovered: "\<not> covered db' ?ps (departmentsOfUser db' fresh) p" and routed: "route url db p \<noteq> None"
  let ?created = "db\<lparr>userRows := userRows db @
      [\<lparr>userRowId = fresh, userName = name, userEmail = email, userDeleted = False\<rparr>]\<rparr>"
  let ?joined = "joinAll fresh joined ?created"
  let ?give = "\<lambda>n. n\<lparr>numberUser := Some fresh, numberStatus := ''ACTIVE''\<rparr>"
  have fresh: "fresh \<notin> set (map userRowId (userRows db))" and
    db': "db' = changeNumbers (freeNumbers wanted) ?give ?joined"
    using assms(3) by (auto simp: createUser_def Let_def split: if_splits)
  have ok': "directory_ok db'" using createUser_kept [OF assms(2,3)] by (rule kept_is_ok)
  from routed obtain n where n: "routableAt db p = Some n" by (auto simp: route_of split: option.splits)
  have free: "\<not> freeNumbers wanted m" if "m \<in> set (numbers db)" "numberPhone m = p" for m
  proof
    assume "freeNumbers wanted m"
    then have "?give m \<in> set (numbers db')" "\<not> numberDeleted m"
      using that by (auto simp: db' changeNumbers_def freeNumbers_def image_iff)
    then have "numberPhone (?give m) \<in> set ?ps" by (intro in_phonesOf) simp_all
    then show False using uncovered that(2) by (simp add: covered_def)
  qed
  have stays: "n \<in> set (numbers db')" "numberPhone n = p" "routableNumber n" "n \<in> set (numbers db)"
    using routableAt_some [OF n] free [of n] by (auto simp: db' changeNumbers_def image_iff)
  have at: "routableAt db' p = Some n"
    unfolding routableAt_def by (rule find_unique) (use stays same_phone [OF ok'] in auto)
  have notFresh: "numberUser n \<noteq> Some fresh"
    using stays uncovered in_phonesOf [of n db' "\<lambda>n. numberUser n = Some fresh \<and> \<not> numberDeleted n"]
    by (auto simp: covered_def routableNumber_def)
  have apart: "fresh \<notin> set (map ouUserId (deptMembers d)) \<and> deptId d \<notin> set joined"
    if d: "departmentOf db (numberDepartment n) = Some d" "\<not> deptDeleted d" for d
  proof -
    have "departmentOf ?created (numberDepartment n) = Some d" using d(1) by (simp add: departmentOf_def split: option.splits)
    from joins_department [OF this, of fresh "enumerate 0 joined"]
    obtain d' where d': "departmentOf db' (numberDepartment n) = Some d'" "deptDeleted d' = deptDeleted d"
      "set (map ouUserId (deptMembers d)) \<subseteq> set (map ouUserId (deptMembers d'))"
      "deptId d \<in> set joined \<longrightarrow> fresh \<in> set (map ouUserId (deptMembers d'))"
      by (auto simp: db' joinAll_joins)
    then have "fresh \<notin> set (map ouUserId (deptMembers d'))"
      using member_covers [OF ok' at d'(1), of fresh ?ps] d(2) uncovered by auto
    then show ?thesis using d' by auto
  qed
  have "route url db' p = route url ?joined p"
    unfolding db' by (rule route_changeNumbers) (use free in auto)
  moreover have "route url ?joined p = route url ?created p"
  proof (cases "\<exists>d. departmentOf db (numberDepartment n) = Some d \<and> \<not> deptDeleted d")
    case True
    then show ?thesis
      using apart n departmentOf_known [of db "numberDepartment n"] unfolding joinAll_joins
      by (intro route_joins) (auto simp: routableAt_def)
  next
    case False
    have "numberDepartment n = None"
    proof (rule ccontr)
      assume "numberDepartment n \<noteq> None"
      then obtain i where i: "numberDepartment n = Some i" by blast
      have "\<not> isLiveDepartment db i" using False i by (auto simp: isLiveDepartment_def split: option.split)
      from no_department_no_route [OF assms(2) n i this, of url] routed show False by simp
    qed
    then show ?thesis
      using n unfolding joinAll_joins by (intro route_joins) (auto simp: routableAt_def)
  qed
  moreover have "route url ?created p = route url db p"
  proof -
    have users: "userOf ?created v = userOf db v" if "v \<noteq> Some fresh" for v
      using that by (auto simp: userOf_def find_in_append split: option.split)
    have live: "isLiveUser ?created v = isLiveUser db v" if "v \<noteq> fresh" for v
      using users [of "Some v"] that by (simp add: isLiveUser_def)
    have "ofDepartment url ?created n = ofDepartment url db n"
    proof (cases "departmentOf db (numberDepartment n)")
      case (Some d)
      moreover have "departmentOf ?created (numberDepartment n) = departmentOf db (numberDepartment n)"
        by (simp add: departmentOf_def split: option.split)
      moreover have "\<not> deptDeleted d \<Longrightarrow> projectDepartmentRouting url ?created d = projectDepartmentRouting url db d"
        using apart [OF Some] by (intro projected_same live) auto
      ultimately show ?thesis by (simp add: ofDepartment_def)
    qed (simp add: ofDepartment_def departmentOf_def split: option.splits)
    moreover have "ofUser ?created n = ofUser db n" by (simp add: ofUser_def users [OF notFresh])
    moreover have "routableAt ?created p = Some n" using n by (simp add: routableAt_def)
    ultimately show ?thesis using n by (simp add: route_of)
  qed
  ultimately show "route url db' p = route url db p" by simp
qed

lemma named_number:
  assumes "directory_kept db" and "m \<in> set (numbers db)" and "numberPhone m \<in> set ps"
    and "n \<in> set (numbers db)" and "numberId n = numberId m"
  shows "numberPhone n \<in> set ps"
  using phone_of_id [OF assms(1,4,2,5)] assms(3) by simp

lemma pending_number_moves:
  assumes "coherent url db c" and "directory_kept db" and "m \<in> set (numbers db)" and "numberId m = nid"
    and "numberPhone m \<in> set ps"
  shows "departmentTakes i nid primary db = Inr (db', es) \<Longrightarrow> fresh_but url db' c ps ds"
    and "departmentDrops i nid db = Inr (db', es) \<Longrightarrow> fresh_but url db' c ps ds"
    and "userTakes u nid db = Inr (db', es) \<Longrightarrow> fresh_but url db' c ps ds"
    and "userDrops u nid db = Inr (db', es) \<Longrightarrow> fresh_but url db' c ps ds"
    and "releaseNumber nid db = Inr (db', es) \<Longrightarrow> fresh_but url db' c ps ds"
proof -
  have named: "n \<in> set (numbers db) \<Longrightarrow> numberId n = nid \<Longrightarrow> numberPhone n \<in> set ps" for n
    using named_number [OF assms(2,3,5)] assms(4) by simp
  have moves: "(\<And>n. numberPhone (f n) = numberPhone n) \<Longrightarrow> (\<And>n. Q n \<Longrightarrow> numberId n = nid) \<Longrightarrow>
      fresh_but url (changeNumbers Q f db) c ps ds" for Q f
    by (rule pending_changeNumbers [OF assms(1)]) (use named in auto)
  show "departmentTakes i nid primary db = Inr (db', es) \<Longrightarrow> fresh_but url db' c ps ds"
    by (auto simp: departmentTakes_def Let_def split: if_splits intro!: moves pending_demotion)
  show "departmentDrops i nid db = Inr (db', es) \<Longrightarrow> fresh_but url db' c ps ds"
    by (auto simp: departmentDrops_def Let_def split: if_splits intro!: moves)
  show "userTakes u nid db = Inr (db', es) \<Longrightarrow> fresh_but url db' c ps ds"
    by (auto simp: userTakes_def Let_def split: if_splits intro!: moves)
  show "userDrops u nid db = Inr (db', es) \<Longrightarrow> fresh_but url db' c ps ds"
    by (auto simp: userDrops_def Let_def split: if_splits intro!: moves)
  show "releaseNumber nid db = Inr (db', es) \<Longrightarrow> fresh_but url db' c ps ds"
    by (auto simp: releaseNumber_def intro!: moves)
qed

text \<open>An edit that takes a number from its holder without naming the holder: the other owner is cleared,
  nothing of that is a change to the row that was read, and so no entry is refreshed.\<close>

definition hiddenMove :: "number_update \<Rightarrow> number_row \<Rightarrow> bool" where
  "hiddenMove u n \<longleftrightarrow> \<not> ownerChanges u n \<and> assignmentChanged u \<and>
     (truthyOnly (nextUser u n), truthyOnly (nextDepartment u n)) \<noteq> holderOf n"

lemma truthyOnly_some: "truthyOnly x = Some y \<Longrightarrow> truthy x"
  by (auto simp: truthyOnly_def split: if_splits)

lemma writeNumber_alike:
  assumes "\<not> ownerChanges u e" and "\<not> hiddenMove u e" and "number_ok e" and "\<not> numberDeleted e"
  shows "routedAlike (writeNumber u e e) e"
proof (cases "assignmentChanged u")
  case True
  then have next_holder: "truthyOnly (nextUser u e) = numberUser e" "truthyOnly (nextDepartment u e) = numberDepartment e"
    using assms(1,2) by (auto simp: hiddenMove_def holderOf_def)
  have "truthy (nextUser u e) \<longleftrightarrow> numberUser e \<noteq> None" "truthy (nextDepartment u e) \<longleftrightarrow> numberDepartment e \<noteq> None"
    using next_holder truthyOnly_None by metis+
  then show ?thesis
    using True next_holder assms(3,4)
    by (auto simp: writeNumber_def Let_def routedAlike_def holderOf_def routableNumber_def number_ok_def unheld_def)
next
  case False
  then show ?thesis
    by (simp add: writeNumber_def Let_def routedAlike_def holderOf_def routableNumber_def)
qed

lemma pending_updateNumber:
  assumes "coherent url db c" and "directory_kept db" and "e \<in> set (numbers db)" and "numberId e = nid"
    and "\<not> numberDeleted e" and "\<not> hiddenMove u e" and "updateNumber nid u e db = Inr (db', es)"
  shows "fresh_but url db' c (if ownerChanges u e then [numberPhone e] else []) ds"
proof -
  let ?ps = "if ownerChanges u e then [numberPhone e] else []"
  have "\<exists>Q. db' = changeNumbers (\<lambda>n. numberId n = nid) (writeNumber u e)
      (changeNumbers (\<lambda>n. Q n \<and> numberId n \<noteq> nid) (\<lambda>n. n\<lparr>numberPrimary := False\<rparr>) db)"
  proof (cases "writtenPrimary u e = Some True \<and> truthy (nextDepartment u e)")
    case True
    then have "db' = changeNumbers (\<lambda>n. numberId n = nid) (writeNumber u e) (changeNumbers
        (\<lambda>n. (numberDepartment n = nextDepartment u e \<and> numberPrimary n) \<and> numberId n \<noteq> nid)
        (\<lambda>n. n\<lparr>numberPrimary := False\<rparr>) db)"
      using assms(7) by (auto simp: updateNumber_def Let_def split: if_splits)
    then show ?thesis by (rule exI [where x = "\<lambda>n. numberDepartment n = nextDepartment u e \<and> numberPrimary n"])
  next
    case False
    then have "db' = changeNumbers (\<lambda>n. numberId n = nid) (writeNumber u e)
        (changeNumbers (\<lambda>n. False \<and> numberId n \<noteq> nid) (\<lambda>n. n\<lparr>numberPrimary := False\<rparr>) db)"
      using assms(7) by (auto simp: updateNumber_def Let_def split: if_splits)
    then show ?thesis by (rule exI [where x = "\<lambda>n. False"])
  qed
  then obtain Q where db': "db' = changeNumbers (\<lambda>n. numberId n = nid) (writeNumber u e)
      (changeNumbers (\<lambda>n. Q n \<and> numberId n \<noteq> nid) (\<lambda>n. n\<lparr>numberPrimary := False\<rparr>) db)" ..
  let ?demoted = "changeNumbers (\<lambda>n. Q n \<and> numberId n \<noteq> nid) (\<lambda>n. n\<lparr>numberPrimary := False\<rparr>) db"
  have coherent: "coherent url ?demoted c"
    using pending_demotion assms(1) unfolding coherent_def by blast
  have "n = e" if n: "n \<in> set (numbers ?demoted)" "numberId n = nid" for n
  proof -
    have "n \<in> set (numbers db)" using n by (auto simp: changeNumbers_def split: if_splits)
    then show ?thesis using phone_of_id [OF assms(2) _ assms(3)] n(2) assms(4) by simp
  qed
  moreover have "number_ok e" using assms(2,3) by (simp add: directory_kept_def list_all_iff)
  ultimately show ?thesis
    unfolding db' using writeNumber_alike [OF _ assms(6) _ assms(5)]
    by (intro pending_changeNumbers [OF coherent]) auto
qed

lemma pending_recordPurchase:
  assumes "coherent url db c" and "recordPurchase fresh p db = Inr (db', es)"
  shows "coherent url db' c"
proof -
  have resolved: "coherent url (snd (resolvePrimaryAssignment p db)) c"
    using assms(1) by (auto simp: resolvePrimaryAssignment_def Let_def coherent_def intro: pending_demotion)
  obtain m where db': "db' = (snd (resolvePrimaryAssignment p db))\<lparr>numbers :=
      numbers (snd (resolvePrimaryAssignment p db)) @ [m]\<rparr>" "numberPhone m = boughtPhone p"
    "boughtPhone p \<notin> set (map numberPhone (numbers db))"
    using assms(2) by (auto simp: recordPurchase_def Let_def split: if_splits)
  have "routableAt (snd (resolvePrimaryAssignment p db)) (boughtPhone p) = None"
    using db'(3) resolved_keys(2) [of p db] by (metis (mono_tags, lifting) imageI image_set routableAt_some option.exhaust)
  then have "route url (snd (resolvePrimaryAssignment p db)) (boughtPhone p) = None" by (rule no_route)
  then have "numberPhone m \<noteq> q" if "route url (snd (resolvePrimaryAssignment p db)) q \<noteq> None" for q
    using that db'(2) by auto
  then show ?thesis
    unfolding coherent_def db'(1) by (intro pending_after [OF resolved] route_addedNumber)
qed

section \<open>One request after the other\<close>

text \<open>What was read for a transaction, if nothing came between.\<close>

fun readFor :: "admin_request \<Rightarrow> bool \<Rightarrow> phone list \<Rightarrow> department_id list \<Rightarrow> line_db \<Rightarrow> bool" where
  "readFor (DepartmentTakes i nid primary) noted ps ds db =
     (\<exists>n \<in> set (numbers db). numberId n = nid \<and> numberPhone n \<in> set ps)"
| "readFor (DepartmentDrops i nid) noted ps ds db =
     (\<exists>n \<in> set (numbers db). numberId n = nid \<and> numberPhone n \<in> set ps)"
| "readFor (UserTakes u nid) noted ps ds db = (\<exists>n \<in> set (numbers db). numberId n = nid \<and> numberPhone n \<in> set ps)"
| "readFor (UserDrops u nid) noted ps ds db = (\<exists>n \<in> set (numbers db). numberId n = nid \<and> numberPhone n \<in> set ps)"
| "readFor (UpdateDepartment i name) noted ps ds db =
     (if noted then i \<in> set ds
      else \<forall>d \<in> set (departments db). deptId d = i \<longrightarrow> orKeep name (deptName d) = deptName d)"
| "readFor (UpdateSettings i c) noted ps ds db = (i \<in> set ds)"
| "readFor (UpdateBusinessHours i hours) noted ps ds db = (i \<in> set ds)"
| "readFor (AddHoliday i h) noted ps ds db = (i \<in> set ds)"
| "readFor (UpdateHoliday i hid c) noted ps ds db = (i \<in> set ds)"
| "readFor (DeleteHoliday i hid) noted ps ds db = (i \<in> set ds)"
| "readFor (AddAgent i u order) noted ps ds db = (i \<in> set ds)"
| "readFor (UpdateAgentOrder i agentOrder) noted ps ds db = (i \<in> set ds)"
| "readFor (RemoveAgent i u) noted ps ds db = (i \<in> set ds)"
| "readFor (JoinDepartment u i order) noted ps ds db = (i \<in> set ds)"
| "readFor (LeaveDepartment u i) noted ps ds db = (i \<in> set ds)"
| "readFor (DeleteDepartment i) noted ps ds db =
     (\<forall>n \<in> set (numbers db). numberDepartment n = Some i \<longrightarrow> numberPhone n \<in> set ps)"
| "readFor (RestoreDepartment i) noted ps ds db = (\<not> isLiveDepartment db i)"
| "readFor (DeleteUser u) noted ps ds db =
     ((\<forall>n \<in> set (numbers db). numberUser n = Some u \<longrightarrow> numberPhone n \<in> set ps) \<and> ds = departmentsOfUser db u)"
| "readFor (RestoreUser u) noted ps ds db = (\<not> isLiveUser db u)"
| "readFor _ noted ps ds db = True"

lemma changeDepartment_idle:
  assumes "\<forall>d \<in> set (departments db). deptId d = i \<longrightarrow> f d = d"
  shows "changeDepartment i f db = db"
proof -
  have "map (\<lambda>d. if deptId d = i then f d else d) (departments db) = departments db"
    by (rule map_idI) (use assms in auto)
  then show ?thesis by (simp add: changeDepartment_def)
qed

definition answers_or_waits ::
    "(admin_run \<Rightarrow> admin_store \<Rightarrow> bool) \<Rightarrow> string \<Rightarrow> admin_run + admin_answer \<Rightarrow> admin_store \<Rightarrow> bool" where
  "answers_or_waits waits url x s =
     (case x of Inl run \<Rightarrow> waits run s | Inr answer \<Rightarrow> coherent url (lineDb s) (routes s))"

fun ready :: "string \<Rightarrow> admin_run \<Rightarrow> admin_store \<Rightarrow> bool" where
  "ready url (ReadNumber p ps found ds) s =
     ((\<forall>x \<in> set found. snd x = lineDb s) \<and> fresh_but url (lineDb s) (routes s) (map fst found @ p # ps) ds)"
| "ready url (ReadDepartment d ds) s = fresh_but url (lineDb s) (routes s) [] (d # ds)"
| "ready url (Executing writes ds) s = fresh_but url (lineDb s) (writes (routes s)) [] ds"
| "ready url (FirstRead (UpdateNumber nid u)) s =
     (coherent url (lineDb s) (routes s) \<and> (\<forall>e. liveNumber (lineDb s) nid = Some e \<longrightarrow> \<not> hiddenMove u e))"
| "ready url (FirstRead (UpdateDepartment i name)) s = (coherent url (lineDb s) (routes s) \<and> name \<noteq> Some [])"
| "ready url (CheckOwner (UpdateNumber nid u) (Some e)) s =
     (coherent url (lineDb s) (routes s) \<and> e \<in> set (numbers (lineDb s)) \<and> numberId e = nid \<and>
      \<not> numberDeleted e \<and> \<not> hiddenMove u e)"
| "ready url (CommittingUpdate nid u e) s =
     (coherent url (lineDb s) (routes s) \<and> e \<in> set (numbers (lineDb s)) \<and> numberId e = nid \<and>
      \<not> numberDeleted e \<and> \<not> hiddenMove u e)"
| "ready url (CancellingNumber nid p) s =
     (coherent url (lineDb s) (routes s) \<and> (\<exists>n \<in> set (numbers (lineDb s)). numberId n = nid \<and> numberPhone n = p))"
| "ready url (CommittingRelease nid p) s =
     (coherent url (lineDb s) (routes s) \<and> (\<exists>n \<in> set (numbers (lineDb s)). numberId n = nid \<and> numberPhone n = p))"
| "ready url (Configuring p nid) s =
     (coherent url (lineDb s) (routes s) \<and> (\<forall>n \<in> set (numbers (lineDb s)). numberId n = nid \<longrightarrow> numberPhone n = boughtPhone p))"
| "ready url (ReadingMetadata p nid) s =
     (coherent url (lineDb s) (routes s) \<and> (\<forall>n \<in> set (numbers (lineDb s)). numberId n = nid \<longrightarrow> numberPhone n = boughtPhone p))"
| "ready url (StoringMetadata p nid voice) s =
     (coherent url (lineDb s) (routes s) \<and> (\<forall>n \<in> set (numbers (lineDb s)). numberId n = nid \<longrightarrow> numberPhone n = boughtPhone p))"
| "ready url (Committing req noted ps ds) s = (coherent url (lineDb s) (routes s) \<and> readFor req noted ps ds (lineDb s))"
| "ready url _ s = coherent url (lineDb s) (routes s)"

lemma refreshing_ready:
  "fresh_but url (lineDb s) (routes s) ps ds \<Longrightarrow> answers_or_waits (ready url) url (refreshing ps ds) s"
  by (cases "(ps, ds)" rule: refreshing.cases) (simp_all add: answers_or_waits_def coherent_def)

lemma committed_pending:
  assumes "coherent url db c" and "directory_kept db" and "readFor req noted ps ds db"
    and "committed fresh noted req db = Inr (db', es)"
  shows "\<exists>ps' ds'. refreshedAfter fresh req ps ds db' = refreshing ps' ds' \<and> fresh_but url db' c ps' ds'"
    (is ?goal)
proof -
  have as_read: "refreshedAfter fresh req ps ds db' = refreshing ps ds \<Longrightarrow> fresh_but url db' c ps ds \<Longrightarrow> ?goal"
    by blast
  show ?goal
  proof (cases req)
    case (CreateDepartment name)
    then show ?goal using assms pending_createDepartment by fastforce
  next
    case (UpdateDepartment i name)
    then show ?goal
    proof (cases noted)
      case True
      then have "fresh_but url db' c ps ds"
        using UpdateDepartment assms by (auto simp: updateDepartment_def split: if_splits
            intro!: pending_changeDepartment)
      then show ?goal using UpdateDepartment by auto
    next
      case False
      then have "db' = changeDepartment i (\<lambda>d. d\<lparr>deptName := orKeep name (deptName d)\<rparr>) db"
        using UpdateDepartment assms(4) by (auto simp: updateDepartment_def split: if_splits)
      moreover have "changeDepartment i (\<lambda>d. d\<lparr>deptName := orKeep name (deptName d)\<rparr>) db = db"
        using UpdateDepartment assms(3) False by (intro changeDepartment_idle) simp
      ultimately have "fresh_but url db' c ps ds"
        using assms(1) pending_mono [of url db c "[]" "[]" ps ds] by (simp add: coherent_def)
      then show ?goal using UpdateDepartment by auto
    qed
  next
    case (DeleteDepartment i)
    then show ?goal using assms pending_deleteDepartment by fastforce
  next
    case (RestoreDepartment i)
    then show ?goal using assms pending_restoreDepartment by fastforce
  next
    case (DepartmentTakes i nid primary)
    then show ?goal using assms pending_number_moves(1) by fastforce
  next
    case (DepartmentDrops i nid)
    then show ?goal using assms pending_number_moves(2) by fastforce
  next
    case (UserTakes u nid)
    then show ?goal using assms pending_number_moves(3) by fastforce
  next
    case (UserDrops u nid)
    then show ?goal using assms pending_number_moves(4) by fastforce
  next
    case (CreateUser email name joined wanted)
    then show ?goal using assms pending_createUser by fastforce
  next
    case (UpdateUser u email name)
    then show ?goal using assms pending_updateUser by fastforce
  next
    case (DeleteUser u)
    then show ?goal using assms pending_deleteUser by fastforce
  next
    case (RestoreUser u)
    then show ?goal using assms pending_restoreUser by fastforce
  qed (rule as_read; use assms in \<open>auto simp: updateSettings_def updateBusinessHours_def addHoliday_def
      updateHoliday_def deleteHoliday_def addMember_def removeMember_def updateAgentOrder_def split: if_splits
      intro!: pending_changeDepartment\<close>)+
qed

lemma live_number: "liveNumber db nid = Some n \<Longrightarrow> n \<in> set (numbers db) \<and> numberId n = nid \<and> \<not> numberDeleted n"
  unfolding liveNumber_def by (rule find_some)

lemma kept_phones:
  assumes "directory_kept db" and "\<And>n. Q n \<Longrightarrow> \<not> unheld n"
  shows "\<forall>n \<in> set (numbers db). Q n \<longrightarrow> numberPhone n \<in> set (phonesOf (\<lambda>n. Q n \<and> \<not> numberDeleted n) db)"
  using assms by (fastforce simp: phonesOf_def directory_kept_def list_all_iff number_ok_def)

lemma firstRead_ready:
  assumes "directory_kept (lineDb s)" and "ready url (FirstRead req) s"
  shows "answers_or_waits (ready url) url (firstRead (lineDb s) req) s"
proof (cases req)
  case (DeleteDepartment i)
  have "\<forall>n \<in> set (numbers (lineDb s)). numberDepartment n = Some i \<longrightarrow>
      numberPhone n \<in> set (phonesOf (\<lambda>n. numberDepartment n = Some i \<and> \<not> numberDeleted n) (lineDb s))"
    by (rule kept_phones [OF assms(1)]) (simp add: unheld_def)
  then show ?thesis using DeleteDepartment assms(2) by (simp add: answers_or_waits_def)
next
  case (DeleteUser u)
  have "\<forall>n \<in> set (numbers (lineDb s)). numberUser n = Some u \<longrightarrow>
      numberPhone n \<in> set (phonesOf (\<lambda>n. numberUser n = Some u \<and> \<not> numberDeleted n) (lineDb s))"
    by (rule kept_phones [OF assms(1)]) (simp add: unheld_def)
  then show ?thesis using DeleteUser assms(2) by (simp add: answers_or_waits_def)
next
  case (UpdateDepartment i name)
  have "\<forall>d \<in> set (departments (lineDb s)). deptId d = i \<longrightarrow> orKeep name (deptName d) = deptName d"
    if "departmentOf (lineDb s) (Some i) = Some x" "\<not> (truthy name \<and> name \<noteq> Some (deptName x))" for x
  proof (intro ballI impI)
    fix d assume "d \<in> set (departments (lineDb s))" "deptId d = i"
    then have "d = x" using departmentOf_id [OF kept_is_ok [OF assms(1)]] that(1) by auto
    then show "orKeep name (deptName d) = deptName d"
      using that(2) UpdateDepartment assms(2) by (cases name) (auto simp: orKeep_def)
  qed
  then show ?thesis
    using UpdateDepartment assms(2) by (auto simp: answers_or_waits_def Let_def split: option.split)
qed (use assms in \<open>auto simp: answers_or_waits_def assertAssignmentTarget_def dest!: live_number
    split: option.split\<close>)

lemma secondRead_ready:
  "coherent url (lineDb s) (routes s) \<Longrightarrow> answers_or_waits (ready url) url (secondRead (lineDb s) req) s"
  by (cases req) (auto simp: answers_or_waits_def dest!: live_number split: option.split)

lemma thirdRead_ready:
  "coherent url (lineDb s) (routes s) \<Longrightarrow> answers_or_waits (ready url) url (thirdRead (lineDb s) req) s"
  by (cases req) (auto simp: answers_or_waits_def)

lemma checkOwner_ready:
  "ready url (CheckOwner req e) s \<Longrightarrow> coherent url (lineDb s) (routes s) \<Longrightarrow>
     answers_or_waits (ready url) url (checkOwner (lineDb s) req e) s"
  by (cases "(lineDb s, req, e)" rule: checkOwner.cases) (auto simp: answers_or_waits_def)

lemma recorded_phone:
  assumes "recordPurchase fresh p db = Inr (db', es)"
  shows "\<forall>n \<in> set (numbers db'). numberId n = fresh \<longrightarrow> numberPhone n = boughtPhone p"
proof -
  have "fresh \<notin> set (map numberId (numbers (snd (resolvePrimaryAssignment p db))))"
    using assms unfolding resolved_keys by (auto simp: recordPurchase_def split: if_splits)
  moreover obtain m where "db' = (snd (resolvePrimaryAssignment p db))\<lparr>numbers :=
      numbers (snd (resolvePrimaryAssignment p db)) @ [m]\<rparr>" "numberPhone m = boughtPhone p"
    using assms by (auto simp: recordPurchase_def Let_def split: if_splits)
  ultimately show ?thesis by auto
qed

lemma adminStep_ready:
  assumes "publicAddress out = url" and "directory_kept (lineDb s)" and "ready url run s"
    and "adminStep out run s = (x, s')"
  shows "answers_or_waits (ready url) url x s'"
proof (cases run)
  case (FirstRead req)
  then show ?thesis using assms firstRead_ready by auto
next
  case (SecondRead req)
  then show ?thesis using assms secondRead_ready by auto
next
  case (ThirdRead req)
  then show ?thesis using assms thirdRead_ready by auto
next
  case (CheckOwner req e)
  have "coherent url (lineDb s) (routes s)"
    using assms(3) unfolding CheckOwner by (cases req; cases e) auto
  then show ?thesis using CheckOwner assms checkOwner_ready by auto
next
  case (RecordingPurchase p)
  then show ?thesis
    using assms(3,4) pending_recordPurchase recorded_phone
    by (auto simp: answers_or_waits_def commitTo_def split: sum.splits)
next
  case (StoringMetadata p nid voice)
  have "fresh_but url (lineDb s') (routes s') [boughtPhone p] []"
    using StoringMetadata assms(3,4) by (auto intro!: pending_changeNumbers)
  then show ?thesis using StoringMetadata assms(4) by (auto simp: answers_or_waits_def)
next
  case (CommittingUpdate nid u e)
  show ?thesis
  proof (cases "updateNumber nid u e (lineDb s)")
    case (Inl answer)
    then show ?thesis using CommittingUpdate assms(3,4) by (auto simp: commitTo_def answers_or_waits_def)
  next
    case (Inr tx)
    obtain db' es where tx: "tx = (db', es)" by fastforce
    have "fresh_but url db' (routes s) (if ownerChanges u e then [numberPhone e] else []) []"
      using CommittingUpdate assms(2,3) Inr tx by (intro pending_updateNumber [of url "lineDb s"]) auto
    then show ?thesis
      using CommittingUpdate assms(4) Inr tx refreshing_ready [of url s'] by (auto simp: commitTo_def)
  qed
next
  case (CommittingRelease nid p)
  then obtain n where "n \<in> set (numbers (lineDb s))" "numberId n = nid" "numberPhone n = p"
    using assms(3) by auto
  then have "fresh_but url (lineDb s') (routes s') [p] []"
    using CommittingRelease assms(2-4) pending_number_moves(5) [of url "lineDb s" "routes s" n nid "[p]"]
    by (auto simp: commitTo_def releaseNumber_def)
  then show ?thesis
    using CommittingRelease assms(4) by (auto simp: commitTo_def releaseNumber_def answers_or_waits_def)
next
  case (Committing req noted ps ds)
  show ?thesis
  proof (cases "committed (freshId out) noted req (lineDb s)")
    case (Inl answer)
    then show ?thesis using Committing assms(3,4) by (auto simp: commitTo_def answers_or_waits_def)
  next
    case (Inr tx)
    obtain db' es where tx: "tx = (db', es)" by fastforce
    from committed_pending [of url "lineDb s" "routes s" req noted ps ds "freshId out" db' es]
    obtain ps' ds' where "refreshedAfter (freshId out) req ps ds db' = refreshing ps' ds'"
      "fresh_but url db' (routes s) ps' ds'"
      using Committing assms(2,3) Inr tx by auto
    then show ?thesis
      using Committing assms(4) Inr tx refreshing_ready [of url s' ps' ds'] by (auto simp: commitTo_def)
  qed
next
  case (ReadNumber p ps found ds)
  then show ?thesis
    using assms(1,3,4) pending_numbers [of "found @ [(p, lineDb s)]" "lineDb s" url "routes s" ds]
    by (cases ps) (auto simp: answers_or_waits_def)
next
  case (ReadDepartment d ds)
  then show ?thesis
    using assms pending_department [OF kept_is_ok [OF assms(2)]] by (auto simp: answers_or_waits_def)
next
  case (Executing writes ds)
  then show ?thesis using assms(3,4) refreshing_ready [of url s' "[]" ds] by auto
qed (use assms(3,4) in \<open>auto simp: answers_or_waits_def split: if_splits\<close>)

lemma handled_coherent:
  assumes "publicAddress out = url" and "directory_kept (lineDb s)"
    and "\<And>run. x = Inl run \<Longrightarrow> run_admitted run" and "answers_or_waits (ready url) url x s"
  shows "coherent url (lineDb (snd (handled out x s))) (routes (snd (handled out x s)))"
  using assms
proof (induction out x s rule: handled.induct)
  case (2 out run s)
  have admitted: "run_admitted run" using "2.prems"(3) by simp
  show ?case
    using "2.IH" [OF "2.prems"(1)] adminStep_kept [OF admitted "2.prems"(2)]
      adminStep_admitted [OF admitted, of out s] adminStep_ready [OF "2.prems"(1,2), of run] "2.prems"(4)
    by (simp add: answers_or_waits_def) (metis prod.collapse)
qed (simp add: answers_or_waits_def)

fun hides :: "admin_request \<Rightarrow> line_db \<Rightarrow> bool" where
  "hides (UpdateNumber nid u) db = (case liveNumber db nid of None \<Rightarrow> False | Some e \<Rightarrow> hiddenMove u e)"
| "hides _ db = False"

text \<open>C16. Handled one after the other, administrators' requests keep the routing cache coherent: whatever is
  changed about numbers, departments, members, hours, holidays and users, and however the request ends,
  no entry is left behind that a lookup would answer differently, but for a renamed user's name; only
  an edit that takes a number from its holder without naming the holder is excepted.\<close>

theorem requests_keep_the_cache_coherent:
  assumes "directory_kept (lineDb s)" and "coherent (publicAddress out) (lineDb s) (routes s)"
    and "request_parsed req" and "\<not> hides req (lineDb s)"
  shows "coherent (publicAddress out) (lineDb (snd (served out req s))) (routes (snd (served out req s)))"
proof -
  have "answers_or_waits (ready (publicAddress out)) (publicAddress out) (beginRequest req) s"
    using assms(2-4) by (cases req)
      (auto simp: answers_or_waits_def assertAssignmentTarget_def split: option.splits)
  then show ?thesis
    unfolding served_def by (intro handled_coherent assms(1) asked_admitted [OF assms(3)]) auto
qed

section \<open>Concrete requests\<close>

definition sampleOutside :: admin_outside where
  "sampleOutside = \<lparr>publicAddress = ''https://x'', freshId = ''n9'', sellsNumber = (\<lambda>p. True),
     configuresNumber = (\<lambda>p. True), cancelsNumber = (\<lambda>p. True), ownedVoice = (\<lambda>p. Some True)\<rparr>"

definition sampleStore :: admin_store where
  "sampleStore = \<lparr>lineDb = sampleDirectory, auditLog = [],
     routes = warmAll ''https://x'' sampleDirectory \<lparr>phoneEntries = Map.empty, departmentEntries = Map.empty\<rparr>,
     twilioNumbers = [''+15551230002'']\<rparr>"

lemma sample_kept: "directory_kept (lineDb sampleStore)"
  by (simp add: directory_kept_def sampleStore_def sampleDirectory_def number_ok_def unheld_def)

lemma sample_loaded: "loadRouting ''https://x'' sampleDirectory ''+15551230002'' \<noteq> None"
  by (simp add: loadRouting_def sampleDirectory_def routableNumber_def departmentOf_def)

lemma sample_routes:
  "phoneEntries (routes sampleStore) p =
     (if p = ''+15551230002'' then loadRouting ''https://x'' sampleDirectory ''+15551230002'' else None)"
  by (simp add: sampleStore_def sampleDirectory_def warmAll_def warmDepartment_def numbersOf_def setNumbers_def
      directLines_def List.map_filter_def routableNumber_def phone_setPhone loadRouting_def departmentOf_def Let_def)

lemma sample_db: "lineDb sampleStore = sampleDirectory" "auditLog sampleStore = []"
  by (simp_all add: sampleStore_def)

lemma sample_coherent: "coherent ''https://x'' (lineDb sampleStore) (routes sampleStore)"
  unfolding coherent_def fresh_but_def sample_routes sample_db by (auto simp: route_def split: if_splits)

theorem requests_keep_the_cache_coherent_witness:
  "coherent ''https://x'' (lineDb (snd (served sampleOutside (DepartmentDrops ''d1'' ''n1'') sampleStore)))
     (routes (snd (served sampleOutside (DepartmentDrops ''d1'' ''n1'') sampleStore)))"
  using requests_keep_the_cache_coherent [OF sample_kept, of sampleOutside "DepartmentDrops ''d1'' ''n1''"]
    sample_coherent by (simp add: sampleOutside_def)

text \<open>Two administrators at once: one takes the number from the department, the other gives it to a user.\<close>

theorem numbers_have_one_holder_witness:
  "directory_kept (lineDb (store (administrationRun (map (\<lambda>x. (sampleOutside, x))
     [Asks (DepartmentDrops ''d1'' ''n1''), Asks (UserTakes ''u1'' ''n1''), Continues 0 Delivered,
      Continues 0 Delivered, Continues 0 Delivered, Continues 0 Delivered, Continues 1 ReplyLost])
     \<lparr>store = sampleStore, requestsUnderWay = []\<rparr>)))"
  by (rule numbers_have_one_holder [OF sample_kept]) simp

definition sampleRow :: number_row where
  "sampleRow = hd (numbers sampleDirectory)"

theorem numbers_change_hands_as_seen_witness:
  "mayMove (Committing (DepartmentDrops ''d1'' ''n1'') True [] []) sampleRow
     (sampleRow\<lparr>numberDepartment := None, numberPrimary := False, numberStatus := ''RESERVED''\<rparr>)"
  by (rule numbers_change_hands_as_seen [OF sample_kept, where out = sampleOutside])
    (simp_all add: sampleRow_def sample_db sampleDirectory_def commitTo_def departmentDrops_def changeNumbers_def
      Let_def holderOf_def)

text \<open>The exception: clearing the user of a number a department holds unassigns it, but the department's
  entry stays, and the audit log has no entry.\<close>

lemma hidden_move_leaves_the_entry:
  "let s = snd (served sampleOutside (UpdateNumber ''n1'' \<lparr>updLabel = None, updUser = Some None,
       updDepartment = None, updPrimary = None\<rparr>) sampleStore) in
     map numberDepartment (numbers (lineDb s)) = [None] \<and> loadRouting ''https://x'' (lineDb s) ''+15551230002'' = None \<and>
     phoneEntries (routes s) ''+15551230002'' \<noteq> None \<and> auditLog s = []"
  by (simp add: served_def sampleOutside_def sample_routes liveNumber_def assertAssignmentTarget_def orKeep_def
      commitTo_def updateNumber_def assignmentChanged_def nextUser_def nextDepartment_def ownerChanges_def
      anythingChanges_def writtenPrimary_def writeNumber_def changeNumbers_def truthyOnly_def Let_def
      loadRouting_def routableNumber_def sample_db sampleDirectory_def departmentOf_def)

text \<open>Moving a primary number to another department leaves that department with two.\<close>

lemma moved_primary_stays_primary:
  "let db = sampleDirectory\<lparr>numbers := numbers sampleDirectory @ [(hd (numbers sampleDirectory))\<lparr>numberId := ''n2'',
         numberPhone := ''+15551230003'', numberDepartment := Some ''d2''\<rparr>]\<rparr>;
       u = \<lparr>updLabel = None, updUser = None, updDepartment = Some (Some ''d2''), updPrimary = None\<rparr>
   in (case updateNumber ''n1'' u (hd (numbers db)) db of
         Inr (db', es) \<Rightarrow> map (\<lambda>n. (numberDepartment n, numberPrimary n)) (numbers db') =
           [(Some ''d2'', True), (Some ''d2'', True)]
       | Inl answer \<Rightarrow> False)"
  by (simp add: sampleDirectory_def updateNumber_def assignmentChanged_def nextUser_def nextDepartment_def
      orKeep_def writtenPrimary_def writeNumber_def changeNumbers_def truthyOnly_def Let_def)

end
