(* ===== verification/Messaging.thy ===== *)
theory Messaging
  imports Line_Directory
begin

text \<open>
  Text messages, \<open>apps/api/src/messaging/\<close>: whose a thread is and who sees it
  (\<open>conversation-scope.ts\<close>, \<open>sender.service.ts\<close>), what an inbound message and a status callback write
  (\<open>webhook.service.ts\<close>, \<open>webhook-failure.ts\<close>) and what preparing a send writes
  (\<open>send.service.ts\<close>, \<open>conversation.service.ts\<close>, \<open>contact.service.ts\<close>). A database transaction is a
  function of the tables that either fails, and then changes nothing, or gives its result and the
  tables after it.
\<close>

section \<open>The tables\<close>

datatype text_channel = SMS | MMS

datatype text_status = RECEIVED | PENDING | ACCEPTED | DELIVERED | FAILED | REJECTED | EXPIRED | BUFFERED | UNKNOWN

datatype event_state = EventReceived | EventProcessed | EventQuarantined | EventOrphaned

record contact =
  contactId :: string
  contactPhone :: string
  contactName :: "string option"

text \<open>\<open>MessageConversation\<close>: a contact on a line under the owner the line had when it was created.\<close>

record thread =
  threadId :: string
  threadContact :: string
  threadLine :: string
  threadUser :: "user_id option"
  threadDepartment :: "department_id option"
  threadUnread :: nat
  threadReadAt :: "millis option"
  threadMessageAt :: "millis option"

record text_row =
  textId :: string
  textThread :: string
  textInbound :: bool
  textChannel :: text_channel
  textStatus :: text_status
  textBody :: "string option"
  textFrom :: string
  textTo :: string
  textProviderId :: "string option"
  textKey :: "string option"
  textFailureCode :: "string option"
  textFailureReason :: "string option"
  textSentAt :: "millis option"
  textDeliveredAt :: "millis option"
  textFailedAt :: "millis option"
  textCreatedAt :: millis

record suppression =
  supContact :: string
  supLine :: string
  supKeyword :: string
  supReason :: string
  supAt :: millis
  supReleased :: "millis option"

text \<open>\<open>MessageProviderEvent\<close>, known by its dedupe key.\<close>

record provider_event =
  eventKey :: string
  eventProviderId :: string
  eventState :: event_state
  eventError :: "string option"
  eventText :: "string option"
  eventThread :: "string option"

text \<open>The tables, the directory of lines, departments and users among them; \<open>textsOn\<close> is the columns
  \<open>smsEnabled\<close> and \<open>mmsEnabled\<close> of a line.\<close>

record message_db =
  directory :: line_db
  textsOn :: "string \<Rightarrow> text_channel \<Rightarrow> bool"
  contacts :: "contact list"
  threads :: "thread list"
  texts :: "text_row list"
  suppressions :: "suppression list"
  providerEvents :: "provider_event list"

section \<open>Owners, readers and senders\<close>

datatype message_owner = UserOwner user_id | DepartmentOwner department_id

definition lineOwnerOf :: "user_id option \<Rightarrow> department_id option \<Rightarrow> message_owner option" where
  "lineOwnerOf u d =
     (if truthy u then Some (UserOwner (the u))
      else if truthy d then Some (DepartmentOwner (the d))
      else None)"

definition isSameMessageOwner :: "message_owner option \<Rightarrow> message_owner option \<Rightarrow> bool" where
  "isSameMessageOwner left right \<longleftrightarrow> (case (left, right) of (Some a, Some b) \<Rightarrow> a = b | _ \<Rightarrow> False)"

definition isLineOwnersThread :: "thread \<Rightarrow> message_owner option \<Rightarrow> bool" where
  "isLineOwnersThread t lineOwner \<longleftrightarrow>
     isSameMessageOwner (lineOwnerOf (threadUser t) (threadDepartment t)) lineOwner"

definition loadDepartmentIds :: "message_db \<Rightarrow> user_id \<Rightarrow> department_id list" where
  "loadDepartmentIds db u =
     map deptId (filter (\<lambda>d. \<not> deptDeleted d \<and> u \<in> set (map ouUserId (deptMembers d))) (departments (directory db)))"

text \<open>The Prisma filter of \<open>buildConversationScope\<close>, as the rows it selects.\<close>

definition buildConversationScope :: "user_id \<Rightarrow> department_id list \<Rightarrow> thread \<Rightarrow> bool" where
  "buildConversationScope u ds t \<longleftrightarrow>
     threadUser t = Some u \<or> (ds \<noteq> [] \<and> (case threadDepartment t of None \<Rightarrow> False | Some d \<Rightarrow> d \<in> set ds))"

definition canAccessConversation :: "thread \<Rightarrow> user_id \<Rightarrow> department_id list \<Rightarrow> bool" where
  "canAccessConversation t u ds \<longleftrightarrow>
     (if threadUser t = Some u then True
      else case threadDepartment t of None \<Rightarrow> False | Some d \<Rightarrow> d \<in> set ds)"

definition threadAt :: "message_db \<Rightarrow> string \<Rightarrow> thread option" where
  "threadAt db i = find (\<lambda>t. threadId t = i) (threads db)"

definition loadConversationAudience :: "message_db \<Rightarrow> string \<Rightarrow> user_id list" where
  "loadConversationAudience db i =
     (case threadAt db i of
        None \<Rightarrow> []
      | Some t \<Rightarrow>
          let members = (case departmentOf (directory db) (threadDepartment t) of
                           None \<Rightarrow> []
                         | Some d \<Rightarrow> if deptDeleted d then []
                             else filter (isLiveUser (directory db)) (map ouUserId (deptMembers d)));
              gone = (case userOf (directory db) (threadUser t) of None \<Rightarrow> False | Some r \<Rightarrow> userDeleted r)
          in uniq (if truthy (threadUser t) \<and> \<not> gone then the (threadUser t) # members else members))"

text \<open>The threads \<open>listForUser\<close> of the conversation service shows a user, before its other filters.\<close>

definition threadsForUser :: "message_db \<Rightarrow> user_id \<Rightarrow> thread list" where
  "threadsForUser db u = filter (buildConversationScope u (loadDepartmentIds db u)) (threads db)"

definition worksForDepartment :: "line_db \<Rightarrow> user_id \<Rightarrow> number_row \<Rightarrow> bool" where
  "worksForDepartment dir u n \<longleftrightarrow>
     (case departmentOf dir (numberDepartment n) of
        Some d \<Rightarrow> \<not> deptDeleted d \<and> u \<in> set (map ouUserId (deptMembers d))
      | None \<Rightarrow> False)"

text \<open>\<open>getAllowedSmsSender\<close> and \<open>getAllowedMmsSender\<close>.\<close>

definition getAllowedSender :: "message_db \<Rightarrow> text_channel \<Rightarrow> user_id \<Rightarrow> string \<Rightarrow> number_row option" where
  "getAllowedSender db c u i =
     find (\<lambda>n. numberId n = i \<and> \<not> numberDeleted n \<and> numberStatus n = ''ACTIVE'' \<and> textsOn db i c \<and>
               (numberUser n = Some u \<or> worksForDepartment (directory db) u n)) (numbers (directory db))"

record message_sender =
  senderId :: string
  senderPhone :: phone
  senderLabel :: "string option"
  senderOwner :: message_owner
  senderOwnerName :: string
  senderPrimary :: bool
  senderSms :: bool
  senderMms :: bool

text \<open>\<open>toMessageOwner\<close>: the owner with its name, null when its row is missing.\<close>

definition toMessageOwner :: "line_db \<Rightarrow> user_id option \<Rightarrow> department_id option \<Rightarrow> (message_owner \<times> string) option" where
  "toMessageOwner dir u d =
     (case lineOwnerOf u d of
        Some (UserOwner i) \<Rightarrow>
          map_option (\<lambda>r. (UserOwner i, if truthy (userName r) then the (userName r) else userEmail r)) (userOf dir u)
      | Some (DepartmentOwner i) \<Rightarrow> map_option (\<lambda>r. (DepartmentOwner i, deptName r)) (departmentOf dir d)
      | None \<Rightarrow> None)"

definition mapSender :: "message_db \<Rightarrow> number_row \<Rightarrow> message_sender option" where
  "mapSender db n =
     (case toMessageOwner (directory db) (numberUser n) (numberDepartment n) of
        None \<Rightarrow> None
      | Some (holder, name) \<Rightarrow>
          Some \<lparr>senderId = numberId n, senderPhone = numberPhone n, senderLabel = numberLabel n,
            senderOwner = holder, senderOwnerName = name, senderPrimary = numberPrimary n,
            senderSms = textsOn db (numberId n) SMS, senderMms = textsOn db (numberId n) MMS\<rparr>)"

definition senderNotAfter :: "(string \<Rightarrow> string \<Rightarrow> int) \<Rightarrow> message_sender \<Rightarrow> message_sender \<Rightarrow> bool" where
  "senderNotAfter collate a b \<longleftrightarrow>
     (if senderPrimary a \<noteq> senderPrimary b then senderPrimary a
      else if senderOwnerName a \<noteq> senderOwnerName b then collate (senderOwnerName a) (senderOwnerName b) \<le> 0
      else collate (senderPhone a) (senderPhone b) \<le> 0)"

text \<open>\<open>listAllowedSenders\<close>; nothing when a sender has no owner to show, for which it throws.\<close>

definition listAllowedSenders :: "(string \<Rightarrow> string \<Rightarrow> int) \<Rightarrow> message_db \<Rightarrow> user_id \<Rightarrow> message_sender list option" where
  "listAllowedSenders collate db u =
     (let dir = directory db;
          textable = filter (\<lambda>n. \<not> numberDeleted n \<and> numberStatus n = ''ACTIVE'' \<and>
                                 (textsOn db (numberId n) SMS \<or> textsOn db (numberId n) MMS)) (numbers dir);
          found = map (mapSender db) (filter (\<lambda>n. numberUser n = Some u) textable @ filter (worksForDepartment dir u) textable)
      in if None \<in> set found then None else Some (sortLines (senderNotAfter collate) (map the found)))"

section \<open>What the database reports\<close>

text \<open>An \<open>unknown\<close> as \<open>classifyWebhookWriteFailure\<close> reads it; \<open>undefined\<close> is no value at all.\<close>

datatype json = JNull | JBool bool | JNumber int | JString string | JArray "json list" | JObject "(string \<times> json) list"

fun readProperty :: "json option \<Rightarrow> string \<Rightarrow> json option" where
  "readProperty (Some (JObject members)) k = map_of members k"
| "readProperty x k = None"

fun stringItem :: "json \<Rightarrow> string option" where
  "stringItem (JString s) = Some s"
| "stringItem x = None"

fun isStringArray :: "json option \<Rightarrow> string list option" where
  "isStringArray (Some (JArray xs)) =
     (if xs = [] \<or> None \<in> set (map stringItem xs) then None else Some (map (the \<circ> stringItem) xs))"
| "isStringArray x = None"

fun uniqueKeyTarget :: "json option \<Rightarrow> string list" where
  "uniqueKeyTarget (Some (JString s)) = [s]"
| "uniqueKeyTarget x = (case isStringArray x of Some names \<Rightarrow> names | None \<Rightarrow> [])"

definition uniqueKeyNames :: "json option \<Rightarrow> string list" where
  "uniqueKeyNames e =
     (let meta = readProperty e ''meta'';
          violated = readProperty (readProperty (readProperty meta ''driverAdapterError'') ''cause'') ''constraint''
      in case readProperty violated ''index'' of
           Some (JString i) \<Rightarrow> [i]
         | _ \<Rightarrow> (case isStringArray (readProperty violated ''fields'') of
                    Some names \<Rightarrow> names
                  | None \<Rightarrow> uniqueKeyTarget (readProperty meta ''target'')))"

definition DEDUPE_KEY_NAMES :: "string list" where
  "DEDUPE_KEY_NAMES = [''message_provider_events_dedupe_key_key'', ''dedupe_key'', ''dedupeKey'']"

fun joinNames :: "string list \<Rightarrow> string" where
  "joinNames [] = []"
| "joinNames [x] = x"
| "joinNames (x # xs) = x @ '','' @ joinNames xs"

datatype write_failure = DuplicateDelivery | LostRace "string option" | Unrelated

definition classifyWebhookWriteFailure :: "json option \<Rightarrow> write_failure" where
  "classifyWebhookWriteFailure e =
     (if readProperty e ''code'' \<noteq> Some (JString ''P2002'') then Unrelated
      else let names = uniqueKeyNames e
           in if names \<noteq> [] \<and> list_all (\<lambda>n. n \<in> set DEDUPE_KEY_NAMES) names then DuplicateDelivery
              else LostRace (if joinNames names = [] then None else Some (joinNames names)))"

text \<open>\<open>isUniqueConstraintError\<close> of the send service.\<close>

definition isUniqueConstraintError :: "json option \<Rightarrow> bool" where
  "isUniqueConstraintError e \<longleftrightarrow> readProperty e ''code'' = Some (JString ''P2002'')"

text \<open>A violated unique key, as the pg driver adapter names it.\<close>

definition violates :: "string \<Rightarrow> json" where
  "violates name =
     JObject [(''code'', JString ''P2002''),
       (''meta'', JObject [(''driverAdapterError'',
          JObject [(''cause'', JObject [(''constraint'', JObject [(''index'', JString name)])])])])]"

definition plainError :: json where
  "plainError = JObject []"

section \<open>Writing rows\<close>

definition changeText :: "string \<Rightarrow> (text_row \<Rightarrow> text_row) \<Rightarrow> message_db \<Rightarrow> message_db" where
  "changeText i f db = db\<lparr>texts := map (\<lambda>m. if textId m = i then f m else m) (texts db)\<rparr>"

definition changeThread :: "string \<Rightarrow> (thread \<Rightarrow> thread) \<Rightarrow> message_db \<Rightarrow> message_db" where
  "changeThread i f db = db\<lparr>threads := map (\<lambda>t. if threadId t = i then f t else t) (threads db)\<rparr>"

definition changeEvent :: "string \<Rightarrow> (provider_event \<Rightarrow> provider_event) \<Rightarrow> message_db \<Rightarrow> message_db" where
  "changeEvent k f db = db\<lparr>providerEvents := map (\<lambda>e. if eventKey e = k then f e else e) (providerEvents db)\<rparr>"

text \<open>\<open>messageProviderEvent.create\<close>: its dedupe key is unique.\<close>

definition createEvent :: "string \<Rightarrow> string \<Rightarrow> message_db \<Rightarrow> json + message_db" where
  "createEvent k sid db =
     (if k \<in> set (map eventKey (providerEvents db)) then Inl (violates ''message_provider_events_dedupe_key_key'')
      else Inr (db\<lparr>providerEvents := providerEvents db @
        [\<lparr>eventKey = k, eventProviderId = sid, eventState = EventReceived, eventError = None,
          eventText = None, eventThread = None\<rparr>]\<rparr>))"

text \<open>The identifiers the database would give new rows.\<close>

record fresh_ids =
  freshContact :: string
  freshThread :: string
  freshText :: string

text \<open>\<open>message.create\<close>: its id, its provider id and its key within a thread are unique.\<close>

definition createText :: "text_row \<Rightarrow> message_db \<Rightarrow> json + message_db" where
  "createText m db =
     (if textId m \<in> set (map textId (texts db)) then Inl (violates ''messages_pkey'')
      else if textProviderId m \<noteq> None \<and> textProviderId m \<in> set (map textProviderId (texts db))
        then Inl (violates ''messages_provider_message_id_key'')
      else if textKey m \<noteq> None \<and> (textThread m, textKey m) \<in> set (map (\<lambda>x. (textThread x, textKey x)) (texts db))
        then Inl (violates ''messages_conversation_id_client_reference_key'')
      else Inr (db\<lparr>texts := texts db @ [m]\<rparr>))"

text \<open>\<open>findOrCreateByPhoneNumber\<close> without a name.\<close>

definition findOrCreateByPhoneNumber :: "fresh_ids \<Rightarrow> string \<Rightarrow> message_db \<Rightarrow> json + (contact \<times> message_db)" where
  "findOrCreateByPhoneNumber ids p db =
     (case find (\<lambda>c. contactPhone c = p) (contacts db) of
        Some c \<Rightarrow> Inr (c, db)
      | None \<Rightarrow>
          if freshContact ids \<in> set (map contactId (contacts db)) then Inl (violates ''contacts_pkey'')
          else let c = \<lparr>contactId = freshContact ids, contactPhone = p, contactName = None\<rparr>
               in Inr (c, db\<lparr>contacts := contacts db @ [c]\<rparr>))"

fun heldBy :: "message_owner \<Rightarrow> thread \<Rightarrow> bool" where
  "heldBy (UserOwner u) t = (threadUser t = Some u)"
| "heldBy (DepartmentOwner d) t = (threadDepartment t = Some d)"

fun ownerUser :: "message_owner \<Rightarrow> user_id option" where
  "ownerUser (UserOwner u) = Some u"
| "ownerUser (DepartmentOwner d) = None"

fun ownerDepartment :: "message_owner \<Rightarrow> department_id option" where
  "ownerDepartment (UserOwner u) = None"
| "ownerDepartment (DepartmentOwner d) = Some d"

text \<open>\<open>findOrCreateFor\<close>: the thread of the line's owner with the contact, upserted on the owner's key.\<close>

definition findOrCreateFor :: "fresh_ids \<Rightarrow> string \<Rightarrow> number_row \<Rightarrow> message_db \<Rightarrow> json + (thread \<times> message_db)" where
  "findOrCreateFor ids p line db =
     (case lineOwnerOf (numberUser line) (numberDepartment line) of
        None \<Rightarrow> Inl plainError
      | Some holder \<Rightarrow>
          (case findOrCreateByPhoneNumber ids p db of
             Inl e \<Rightarrow> Inl e
           | Inr (c, db') \<Rightarrow>
               (case find (\<lambda>t. threadContact t = contactId c \<and> threadLine t = numberId line \<and> heldBy holder t) (threads db') of
                  Some t \<Rightarrow> Inr (t, db')
                | None \<Rightarrow>
                    if freshThread ids \<in> set (map threadId (threads db')) then Inl (violates ''message_conversations_pkey'')
                    else let t = \<lparr>threadId = freshThread ids, threadContact = contactId c, threadLine = numberId line,
                                  threadUser = ownerUser holder, threadDepartment = ownerDepartment holder,
                                  threadUnread = 0, threadReadAt = None, threadMessageAt = None\<rparr>
                         in Inr (t, db'\<lparr>threads := threads db' @ [t]\<rparr>))))"

section \<open>An inbound message\<close>

record inbound_event =
  inSid :: string
  inChannel :: text_channel
  inFrom :: string
  inTo :: string
  inBody :: "string option"
  inKeyword :: "string option"
  inMedia :: nat

definition STOP_KEYWORDS :: "string list" where
  "STOP_KEYWORDS = [''STOP'', ''STOPALL'', ''UNSUBSCRIBE'', ''CANCEL'', ''END'', ''QUIT'']"

definition START_KEYWORDS :: "string list" where
  "START_KEYWORDS = [''START'', ''YES'', ''UNSTOP'']"

text \<open>
  \<open>toUpperCase\<close> as far as a keyword can tell: the letters of ASCII, the dotless i (bytes 196 177), the
  long s (197 191) and the two ligatures of s and t (239 172 133 and 134). No other character becomes
  letters the keywords are made of.
\<close>

definition upperByte :: "char \<Rightarrow> char" where
  "upperByte c = (let n = (of_char c :: nat) in if 97 \<le> n \<and> n \<le> 122 then char_of (n - 32) else c)"

fun toUpperCase :: "string \<Rightarrow> string" where
  "toUpperCase (a # b # c # s) =
     (if (of_char a :: nat) = 196 \<and> (of_char b :: nat) = 177 then CHR ''I'' # toUpperCase (c # s)
      else if (of_char a :: nat) = 197 \<and> (of_char b :: nat) = 191 then CHR ''S'' # toUpperCase (c # s)
      else if (of_char a :: nat) = 239 \<and> (of_char b :: nat) = 172 \<and> (of_char c :: nat) \<in> {133, 134}
        then CHR ''S'' # CHR ''T'' # toUpperCase s
      else upperByte a # toUpperCase (b # c # s))"
| "toUpperCase [a, b] =
     (if (of_char a :: nat) = 196 \<and> (of_char b :: nat) = 177 then [CHR ''I'']
      else if (of_char a :: nat) = 197 \<and> (of_char b :: nat) = 191 then [CHR ''S'']
      else [upperByte a, upperByte b])"
| "toUpperCase [a] = [upperByte a]"
| "toUpperCase [] = []"

datatype opt_out = Suppress string | Release string

definition resolveOptOut :: "inbound_event \<Rightarrow> opt_out option" where
  "resolveOptOut e =
     (let keyword = orElse (inKeyword e) (map_option (\<lambda>b. toUpperCase (trim b)) (inBody e))
      in if \<not> truthy keyword then None
         else if the keyword \<in> set STOP_KEYWORDS then Some (Suppress (the keyword))
         else if the keyword \<in> set START_KEYWORDS then Some (Release (the keyword))
         else None)"

definition suppressedPair :: "string \<Rightarrow> string \<Rightarrow> suppression \<Rightarrow> bool" where
  "suppressedPair c l s \<longleftrightarrow> supContact s = c \<and> supLine s = l"

definition upsertSuppression :: "string \<Rightarrow> string \<Rightarrow> string \<Rightarrow> millis \<Rightarrow> suppression list \<Rightarrow> suppression list" where
  "upsertSuppression c l keyword now ss =
     (if list_ex (suppressedPair c l) ss
      then map (\<lambda>s. if suppressedPair c l s
                     then s\<lparr>supKeyword := keyword, supReason := ''Inbound STOP keyword'', supAt := now, supReleased := None\<rparr>
                     else s) ss
      else ss @ [\<lparr>supContact = c, supLine = l, supKeyword = keyword, supReason = ''Inbound STOP keyword'',
                   supAt = now, supReleased = None\<rparr>])"

definition releaseSuppressions :: "string \<Rightarrow> string \<Rightarrow> millis \<Rightarrow> suppression list \<Rightarrow> suppression list" where
  "releaseSuppressions c l now ss =
     map (\<lambda>s. if suppressedPair c l s \<and> supReleased s = None then s\<lparr>supReleased := Some now\<rparr> else s) ss"

definition applyOptOut :: "opt_out option \<Rightarrow> string \<Rightarrow> string \<Rightarrow> millis \<Rightarrow> message_db \<Rightarrow> message_db" where
  "applyOptOut wish c l now db =
     (case wish of
        None \<Rightarrow> db
      | Some (Suppress keyword) \<Rightarrow> db\<lparr>suppressions := upsertSuppression c l keyword now (suppressions db)\<rparr>
      | Some (Release keyword) \<Rightarrow> db\<lparr>suppressions := releaseSuppressions c l now (suppressions db)\<rparr>)"

definition quarantineInbound :: "string \<Rightarrow> string \<Rightarrow> message_db \<Rightarrow> message_db" where
  "quarantineInbound k reason = changeEvent k (\<lambda>e. e\<lparr>eventState := EventQuarantined, eventError := Some reason\<rparr>)"

definition linkEvent :: "string \<Rightarrow> string \<Rightarrow> string \<Rightarrow> message_db \<Rightarrow> message_db" where
  "linkEvent k m t = changeEvent k (\<lambda>e. e\<lparr>eventState := EventProcessed, eventText := Some m, eventThread := Some t\<rparr>)"

definition receivedText :: "string \<Rightarrow> string \<Rightarrow> millis \<Rightarrow> inbound_event \<Rightarrow> text_row" where
  "receivedText i t now e =
     \<lparr>textId = i, textThread = t, textInbound = True, textChannel = inChannel e, textStatus = RECEIVED,
      textBody = inBody e, textFrom = inFrom e, textTo = inTo e, textProviderId = Some (inSid e), textKey = None,
      textFailureCode = None, textFailureReason = None, textSentAt = None, textDeliveredAt = None,
      textFailedAt = None, textCreatedAt = now\<rparr>"

definition inboundKey :: "inbound_event \<Rightarrow> string" where
  "inboundKey e = ''inbound:'' @ inSid e"

text \<open>What the inbound transaction came to: set aside, or filed as a message in a thread.\<close>

datatype inbound_result = QuarantinedInbound | FiledInbound string thread "opt_out option"

definition fileInbound :: "fresh_ids \<Rightarrow> millis \<Rightarrow> inbound_event \<Rightarrow> number_row \<Rightarrow> message_db \<Rightarrow> json + (inbound_result \<times> message_db)" where
  "fileInbound ids now e line db =
     (case findOrCreateFor ids (inFrom e) line db of
        Inl err \<Rightarrow> Inl err
      | Inr (t, db1) \<Rightarrow>
          (case createText (receivedText (freshText ids) (threadId t) now e) db1 of
             Inl err \<Rightarrow> Inl err
           | Inr db2 \<Rightarrow>
               Inr (FiledInbound (freshText ids) t (resolveOptOut e),
                    linkEvent (inboundKey e) (freshText ids) (threadId t)
                      (applyOptOut (resolveOptOut e) (threadContact t) (threadLine t) now
                        (changeThread (threadId t)
                           (\<lambda>t. t\<lparr>threadUnread := threadUnread t + 1, threadMessageAt := Some now\<rparr>) db2)))))"

text \<open>The transaction of \<open>attemptInbound\<close>.\<close>

definition inboundTransaction :: "fresh_ids \<Rightarrow> millis \<Rightarrow> inbound_event \<Rightarrow> message_db \<Rightarrow> json + (inbound_result \<times> message_db)" where
  "inboundTransaction ids now e db =
     (case createEvent (inboundKey e) (inSid e) db of
        Inl err \<Rightarrow> Inl err
      | Inr db1 \<Rightarrow>
          (case find (\<lambda>n. numberPhone n = inTo e \<and> \<not> numberDeleted n \<and> numberStatus n = ''ACTIVE'' \<and>
                          textsOn db1 (numberId n) (inChannel e)) (numbers (directory db1)) of
             None \<Rightarrow> Inr (QuarantinedInbound,
                      quarantineInbound (inboundKey e) ''Unknown or inactive destination number'' db1)
           | Some line \<Rightarrow>
               if lineOwnerOf (numberUser line) (numberDepartment line) = None
               then Inr (QuarantinedInbound, quarantineInbound (inboundKey e) ''Destination number has no owner'' db1)
               else fileInbound ids now e line db1))"

section \<open>A status callback\<close>

datatype provider_status = Submitted | DeliveredStatus | RejectedStatus | Undeliverable

record status_event =
  stSid :: string
  stStatus :: provider_status
  stAt :: millis
  stErrorCode :: "string option"
  stErrorText :: "string option"

fun statusName :: "provider_status \<Rightarrow> string" where
  "statusName Submitted = ''submitted''"
| "statusName DeliveredStatus = ''delivered''"
| "statusName RejectedStatus = ''rejected''"
| "statusName Undeliverable = ''undeliverable''"

definition statusDedupeKey :: "status_event \<Rightarrow> string" where
  "statusDedupeKey e =
     (let base = ''status:'' @ stSid e @ '':'' @ statusName (stStatus e)
      in if truthy (stErrorCode e) then base @ '':'' @ the (stErrorCode e) else base)"

fun mapProviderStatusToMessageStatus :: "provider_status \<Rightarrow> text_status" where
  "mapProviderStatusToMessageStatus Submitted = ACCEPTED"
| "mapProviderStatusToMessageStatus DeliveredStatus = DELIVERED"
| "mapProviderStatusToMessageStatus RejectedStatus = REJECTED"
| "mapProviderStatusToMessageStatus Undeliverable = FAILED"

definition shouldApplyStatusTransition :: "text_status \<Rightarrow> text_status \<Rightarrow> bool" where
  "shouldApplyStatusTransition now to \<longleftrightarrow>
     (if now = DELIVERED then False
      else if to = DELIVERED then True
      else if now = FAILED \<or> now = REJECTED then False
      else \<not> (now = ACCEPTED \<and> to = ACCEPTED))"

definition applyStatus :: "status_event \<Rightarrow> text_row \<Rightarrow> text_row" where
  "applyStatus e m =
     (let to = mapProviderStatusToMessageStatus (stStatus e); failed = to = FAILED \<or> to = REJECTED
      in m\<lparr>textStatus := to,
           textDeliveredAt := if to = DELIVERED then Some (stAt e) else textDeliveredAt m,
           textFailedAt := if failed then Some (stAt e) else textFailedAt m,
           textFailureCode := if failed then stErrorCode e else None,
           textFailureReason := if failed then stErrorText e else None\<rparr>)"

datatype status_result = OrphanedStatus | AppliedStatus "string option"

definition textOfProvider :: "message_db \<Rightarrow> string \<Rightarrow> text_row option" where
  "textOfProvider db sid = find (\<lambda>m. textProviderId m = Some sid) (texts db)"

text \<open>
  The transaction of \<open>processStatusEvent\<close> runs at the database's default isolation: it reads the message
  once, decides on the status it read, and its update names the message by its id and nothing else. Another
  callback may commit in between. The two halves are the read and what is written when it commits;
  \<open>AppliedStatus\<close> carries the thread a change was made in.
\<close>

definition readStatus :: "status_event \<Rightarrow> message_db \<Rightarrow> json + text_row option" where
  "readStatus e db =
     (case createEvent (statusDedupeKey e) (stSid e) db of
        Inl err \<Rightarrow> Inl err
      | Inr db1 \<Rightarrow> Inr (textOfProvider db1 (stSid e)))"

definition writeStatus :: "status_event \<Rightarrow> text_row option \<Rightarrow> message_db \<Rightarrow> json + (status_result \<times> message_db)" where
  "writeStatus e found db =
     (case createEvent (statusDedupeKey e) (stSid e) db of
        Inl err \<Rightarrow> Inl err
      | Inr db1 \<Rightarrow>
          (case found of
             None \<Rightarrow> Inr (OrphanedStatus,
                      changeEvent (statusDedupeKey e)
                        (\<lambda>x. x\<lparr>eventState := EventOrphaned, eventError := Some ''No message found for provider message id''\<rparr>) db1)
           | Some m \<Rightarrow>
               let changes = shouldApplyStatusTransition (textStatus m) (mapProviderStatusToMessageStatus (stStatus e));
                   db2 = (if changes then changeText (textId m) (applyStatus e) db1 else db1)
               in Inr (AppliedStatus (if changes then Some (textThread m) else None),
                       linkEvent (statusDedupeKey e) (textId m) (textThread m) db2)))"

text \<open>The transaction when no other commits between its read and its update.\<close>

definition statusTransaction :: "status_event \<Rightarrow> message_db \<Rightarrow> json + (status_result \<times> message_db)" where
  "statusTransaction e db =
     (case readStatus e db of Inl err \<Rightarrow> Inl err | Inr found \<Rightarrow> writeStatus e found db)"

end
