(* ===== verification/Message_Sends.thy ===== *)
theory Message_Sends
  imports Messaging
begin

text \<open>
  Sending a text message (\<open>apps/api/src/messaging/send.service.ts\<close>) and the whole of messaging at work.
  What a send writes is prepared in one transaction; the methods of the send service, of the webhook
  service and of the conversation service are cut at their awaits, so that sends, inbound messages,
  status callbacks and the administration of lines interleave in any order. The text messages handed to
  the provider, the opt-outs and the notifications are kept in a trace.
\<close>

section \<open>Where a message can be sent to\<close>

text \<open>The length of a string in UTF-16 code units: every byte but the continuation bytes starts a
  character, and a character of four bytes takes two units.\<close>

primrec utf16Length :: "string \<Rightarrow> nat" where
  "utf16Length [] = 0"
| "utf16Length (c # s) =
     (let n = (of_char c :: nat) in (if 128 \<le> n \<and> n < 192 then 0 else if 240 \<le> n then 2 else 1) + utf16Length s)"

datatype message_address = PhoneAddress phone | ShortCode string | Alphanumeric string

definition toMessageAddress :: "string \<Rightarrow> message_address option" where
  "toMessageAddress value =
     (let trimmed = trim value in
      if trimmed = [] \<or> 64 < utf16Length trimmed then None
      else case toE164PhoneNumber trimmed of
             Some p \<Rightarrow> Some (PhoneAddress p)
           | None \<Rightarrow> if list_all isDigit trimmed \<and> 3 \<le> length trimmed \<and> length trimmed \<le> 7
                     then Some (ShortCode trimmed) else Some (Alphanumeric trimmed))"

definition canReceiveMessages :: "string \<Rightarrow> bool" where
  "canReceiveMessages value \<longleftrightarrow>
     (case toMessageAddress value of None \<Rightarrow> False | Some (Alphanumeric s) \<Rightarrow> False | Some _ \<Rightarrow> True)"

section \<open>Which thread a send goes to\<close>

record send_request =
  reqChannel :: text_channel
  reqSender :: string
  reqThread :: "string option"
  reqTo :: "string option"
  reqBody :: "string option"
  reqAttachments :: "string list"
  reqKey :: string

datatype refusal_reason =
  SenderNotFound | ConversationNotFound | SenderMismatch | LineReassigned | DraftAlreadySent
| InvalidDestination | UndeliverableDestination | AttachmentUnavailable

text \<open>One look of \<open>waitForSettledIdempotentMessage\<close>, the fifth being its last.\<close>

definition IDEMPOTENCY_SETTLE_ATTEMPTS :: nat where
  "IDEMPOTENCY_SETTLE_ATTEMPTS = 5"

datatype attempt_look = NoAttempt | StillSending | EarlierAttempt text_row

definition lookForAttempt :: "message_db \<Rightarrow> string \<Rightarrow> string \<Rightarrow> nat \<Rightarrow> attempt_look" where
  "lookForAttempt db t key attempt =
     (case find (\<lambda>m. textThread m = t \<and> textKey m = Some key) (texts db) of
        None \<Rightarrow> NoAttempt
      | Some m \<Rightarrow>
          if textStatus m \<noteq> PENDING \<or> attempt = IDEMPOTENCY_SETTLE_ATTEMPTS - 1 then EarlierAttempt m else StillSending)"

text \<open>What a send does if the message it waits for turns out not to be there: it goes on with the thread and
  the owner of the line it read, with the destination, or it fails with the collision it met.\<close>

datatype pending_wait =
  OnThread thread "message_owner option"
| OnNewMessage phone
| OnCollision json

text \<open>Where a send has got to: refused, answered by an earlier attempt, waiting for one to settle (in
  a thread), or with a thread to write into.\<close>

datatype resolution =
  RefusedFor refusal_reason
| AnsweredBy text_row
| WaitsFor pending_wait string
| ResolvedTo thread

definition contactPhoneOf :: "message_db \<Rightarrow> string \<Rightarrow> string" where
  "contactPhoneOf db c = (case find (\<lambda>x. contactId x = c) (contacts db) of None \<Rightarrow> [] | Some x \<Rightarrow> contactPhone x)"

definition lineOwnerNow :: "message_db \<Rightarrow> string \<Rightarrow> message_owner option" where
  "lineOwnerNow db i =
     (case find (\<lambda>n. numberId n = i) (numbers (directory db)) of
        None \<Rightarrow> None
      | Some n \<Rightarrow> lineOwnerOf (numberUser n) (numberDepartment n))"

definition judgeThread :: "message_db \<Rightarrow> thread \<Rightarrow> message_owner option \<Rightarrow> resolution" where
  "judgeThread db t holder =
     (if holder = None then RefusedFor LineReassigned
      else if \<not> isLineOwnersThread t holder then RefusedFor LineReassigned
      else if \<not> canReceiveMessages (contactPhoneOf db (threadContact t)) then RefusedFor UndeliverableDestination
      else ResolvedTo t)"

definition getAccessibleRecordForUser :: "message_db \<Rightarrow> user_id \<Rightarrow> string \<Rightarrow> thread option" where
  "getAccessibleRecordForUser db u i =
     (case threadAt db i of
        None \<Rightarrow> None
      | Some t \<Rightarrow> if canAccessConversation t u (loadDepartmentIds db u) then Some t else None)"

definition resolveThread :: "user_id \<Rightarrow> string \<Rightarrow> number_row \<Rightarrow> string \<Rightarrow> message_db \<Rightarrow> resolution" where
  "resolveThread u i sender key db =
     (case getAccessibleRecordForUser db u i of
        None \<Rightarrow> RefusedFor ConversationNotFound
      | Some t \<Rightarrow>
          if threadLine t \<noteq> numberId sender then RefusedFor SenderMismatch
          else case lookForAttempt db (threadId t) key 0 of
                 EarlierAttempt m \<Rightarrow> AnsweredBy m
               | StillSending \<Rightarrow> WaitsFor (OnThread t (lineOwnerNow db (threadLine t))) (threadId t)
               | NoAttempt \<Rightarrow> judgeThread db t (lineOwnerNow db (threadLine t)))"

text \<open>The threads of a pair of contact and line, and those with a message under a key.\<close>

definition onThePair :: "message_db \<Rightarrow> string \<Rightarrow> string \<Rightarrow> thread \<Rightarrow> bool" where
  "onThePair db p line t \<longleftrightarrow> threadLine t = line \<and> contactPhoneOf db (threadContact t) = p"

definition hasText :: "message_db \<Rightarrow> (text_row \<Rightarrow> bool) \<Rightarrow> thread \<Rightarrow> bool" where
  "hasText db P t \<longleftrightarrow> list_ex (\<lambda>m. textThread m = threadId t \<and> P m) (texts db)"

definition underKey :: "string \<Rightarrow> text_row \<Rightarrow> bool" where
  "underKey key m \<longleftrightarrow> textKey m = Some key"

definition notFailed :: "text_row \<Rightarrow> bool" where
  "notFailed m \<longleftrightarrow> textStatus m \<noteq> FAILED \<and> textStatus m \<noteq> REJECTED"

text \<open>\<open>answerEarlierNewMessage\<close>; nothing when no earlier attempt answers the message.\<close>

definition answerEarlierNewMessage :: "user_id \<Rightarrow> phone \<Rightarrow> string \<Rightarrow> string \<Rightarrow> message_db \<Rightarrow> resolution option" where
  "answerEarlierNewMessage u p line key db =
     (let holding = (\<lambda>t. onThePair db p line t \<and> hasText db (underKey key) t);
          readable = buildConversationScope u (loadDepartmentIds db u)
      in if \<not> list_ex holding (threads db) then None
         else case find (\<lambda>t. readable t \<and> holding t) (threads db) of
                None \<Rightarrow>
                  if list_ex (\<lambda>t. onThePair db p line t \<and> hasText db (\<lambda>m. underKey key m \<and> notFailed m) t) (threads db)
                  then Some (RefusedFor DraftAlreadySent) else None
              | Some t \<Rightarrow>
                  (case lookForAttempt db (threadId t) key 0 of
                     EarlierAttempt m \<Rightarrow> Some (AnsweredBy m)
                   | StillSending \<Rightarrow> Some (WaitsFor (OnNewMessage p) (threadId t))
                   | NoAttempt \<Rightarrow> None))"

text \<open>A new message is filed under the owner its sender was allowed to write as, if the line is still
  theirs; an error is one of finding or creating the thread.\<close>

definition resolveNewThread :: "fresh_ids \<Rightarrow> phone \<Rightarrow> number_row \<Rightarrow> message_db \<Rightarrow> json + (resolution \<times> message_db)" where
  "resolveNewThread ids p sender db =
     (case find (\<lambda>n. numberId n = numberId sender \<and> \<not> numberDeleted n \<and> numberStatus n = ''ACTIVE'')
             (numbers (directory db)) of
        None \<Rightarrow> Inr (RefusedFor LineReassigned, db)
      | Some line \<Rightarrow>
          let holder = lineOwnerOf (numberUser line) (numberDepartment line)
          in if holder = None then Inr (RefusedFor LineReassigned, db)
             else if \<not> isSameMessageOwner holder (lineOwnerOf (numberUser sender) (numberDepartment sender))
               then Inr (RefusedFor LineReassigned, db)
             else case findOrCreateFor ids p line db of
                    Inl err \<Rightarrow> Inl err
                  | Inr (t, db') \<Rightarrow> Inr (ResolvedTo t, db'))"

definition resolveConversation ::
    "fresh_ids \<Rightarrow> user_id \<Rightarrow> send_request \<Rightarrow> number_row \<Rightarrow> message_db \<Rightarrow> json + (resolution \<times> message_db)" where
  "resolveConversation ids u req sender db =
     (if truthy (reqThread req) then Inr (resolveThread u (the (reqThread req)) sender (reqKey req) db, db)
      else case normalizePhoneNumber (getOr (reqTo req) []) of
             None \<Rightarrow> Inr (RefusedFor InvalidDestination, db)
           | Some p \<Rightarrow>
               (case answerEarlierNewMessage u p (numberId sender) (reqKey req) db of
                  Some r \<Rightarrow> Inr (r, db)
                | None \<Rightarrow> resolveNewThread ids p sender db))"

section \<open>What a send writes\<close>

definition outboundText ::
    "fresh_ids \<Rightarrow> millis \<Rightarrow> send_request \<Rightarrow> number_row \<Rightarrow> thread \<Rightarrow> string \<Rightarrow> suppression option \<Rightarrow> text_row" where
  "outboundText ids now req sender t p blocked =
     \<lparr>textId = freshText ids, textThread = threadId t, textInbound = False, textChannel = reqChannel req,
      textStatus = (if blocked = None then PENDING else FAILED), textBody = reqBody req,
      textFrom = numberPhone sender, textTo = p, textProviderId = None, textKey = Some (reqKey req),
      textFailureCode = map_option (\<lambda>s. ''recipient_suppressed'') blocked,
      textFailureReason = map_option supReason blocked,
      textSentAt = None, textDeliveredAt = None,
      textFailedAt = (if blocked = None then None else Some now), textCreatedAt = now\<rparr>"

definition activeSuppression :: "message_db \<Rightarrow> string \<Rightarrow> string \<Rightarrow> suppression option" where
  "activeSuppression db c l = find (\<lambda>s. suppressedPair c l s \<and> supReleased s = None) (suppressions db)"

definition createOutboundMessage :: "text_row \<Rightarrow> message_db \<Rightarrow> json + message_db" where
  "createOutboundMessage m db =
     (case createText m db of
        Inl err \<Rightarrow> Inl err
      | Inr db' \<Rightarrow> Inr (changeThread (textThread m) (\<lambda>t. t\<lparr>threadMessageAt := Some (textCreatedAt m)\<rparr>) db'))"

text \<open>What the transaction of \<open>prepare\<close> came to.\<close>

datatype preparation =
  PrepRefused refusal_reason
| PrepDeduplicated text_row
| PrepWaits pending_wait string
| PrepSuppressed text_row
| PrepPending thread text_row
| PrepCollides json string
| PrepBroke json

text \<open>The rest of the transaction in a thread. A unique key it collides with sends \<open>prepare\<close> to the
  message of the attempt that won.\<close>

definition writeOutbound ::
    "fresh_ids \<Rightarrow> millis \<Rightarrow> send_request \<Rightarrow> number_row \<Rightarrow> thread \<Rightarrow> message_db \<Rightarrow> message_db \<Rightarrow> preparation \<times> message_db" where
  "writeOutbound ids now req sender t db before =
     (let blocked = activeSuppression db (threadContact t) (threadLine t);
          m = outboundText ids now req sender t (contactPhoneOf db (threadContact t)) blocked
      in case createOutboundMessage m db of
           Inl err \<Rightarrow> (if isUniqueConstraintError (Some err) then PrepCollides err (threadId t) else PrepBroke err, before)
         | Inr db' \<Rightarrow> (if blocked = None then PrepPending t m else PrepSuppressed m, db'))"

definition continueWith ::
    "fresh_ids \<Rightarrow> millis \<Rightarrow> send_request \<Rightarrow> number_row \<Rightarrow> json + (resolution \<times> message_db) \<Rightarrow> message_db
      \<Rightarrow> preparation \<times> message_db" where
  "continueWith ids now req sender resolved before =
     (case resolved of
        Inl err \<Rightarrow> (PrepBroke err, before)
      | Inr (RefusedFor why, db) \<Rightarrow> (PrepRefused why, before)
      | Inr (AnsweredBy m, db) \<Rightarrow> (PrepDeduplicated m, before)
      | Inr (WaitsFor w t, db) \<Rightarrow> (PrepWaits w t, before)
      | Inr (ResolvedTo t, db) \<Rightarrow> writeOutbound ids now req sender t db before)"

text \<open>The transaction of \<open>prepare\<close> from its start to its end or its first wait.\<close>

definition prepareSend ::
    "fresh_ids \<Rightarrow> millis \<Rightarrow> user_id \<Rightarrow> send_request \<Rightarrow> number_row \<Rightarrow> message_db \<Rightarrow> preparation \<times> message_db" where
  "prepareSend ids now u req sender db =
     continueWith ids now req sender (resolveConversation ids u req sender db) db"

text \<open>A look after a wait: at what the earlier attempt has become.\<close>

definition prepareAfterWait ::
    "fresh_ids \<Rightarrow> millis \<Rightarrow> send_request \<Rightarrow> number_row \<Rightarrow> pending_wait \<Rightarrow> string \<Rightarrow> nat \<Rightarrow> message_db
      \<Rightarrow> preparation \<times> message_db" where
  "prepareAfterWait ids now req sender w t attempt db =
     (case lookForAttempt db t (reqKey req) attempt of
        EarlierAttempt m \<Rightarrow> (PrepDeduplicated m, db)
      | StillSending \<Rightarrow> (PrepWaits w t, db)
      | NoAttempt \<Rightarrow>
          (case w of
             OnThread x holder \<Rightarrow> continueWith ids now req sender (Inr (judgeThread db x holder, db)) db
           | OnNewMessage p \<Rightarrow> continueWith ids now req sender (resolveNewThread ids p sender db) db
           | OnCollision err \<Rightarrow> (PrepBroke err, db)))"

definition recordProviderFailure :: "millis \<Rightarrow> text_status \<Rightarrow> string option \<Rightarrow> string \<Rightarrow> text_row \<Rightarrow> text_row" where
  "recordProviderFailure now s code why m =
     m\<lparr>textStatus := s, textFailedAt := Some now, textFailureCode := code, textFailureReason := Some why,
       textSentAt := None\<rparr>"

definition recordAcceptance :: "millis \<Rightarrow> string \<Rightarrow> text_row \<Rightarrow> text_row" where
  "recordAcceptance now sid m =
     m\<lparr>textStatus := ACCEPTED, textProviderId := Some sid, textSentAt := Some now, textFailedAt := None,
       textFailureCode := None, textFailureReason := None\<rparr>"

text \<open>The update that records an acceptance: the provider's id is unique.\<close>

definition acceptText :: "millis \<Rightarrow> string \<Rightarrow> string \<Rightarrow> message_db \<Rightarrow> json + message_db" where
  "acceptText now sid i db =
     (if \<exists>m \<in> set (texts db). textProviderId m = Some sid \<and> textId m \<noteq> i
      then Inl (violates ''messages_provider_message_id_key'')
      else Inr (changeText i (recordAcceptance now sid) db))"

section \<open>Calls under way\<close>

datatype provider_answer =
  AcceptedAs string
| ApiError bool "string option" string
| TransportError string
| OtherError

text \<open>What prepared media is: ready, refused with a \<open>MessagingMediaError\<close>, or an error of any other kind.\<close>

datatype media_answer = MediaReady | MediaRefused | MediaBroke

datatype activity_kind = ReceivedActivity | StatusActivity

datatype text_answer =
  SendRefused refusal_reason
| SendDeduplicated string
| SendSuppressed string
| SendRejected string
| SendFailed string
| SendAccepted string
| WebhookProcessed
| WebhookQuarantined
| WebhookOrphaned
| WebhookDeduplicated
| ReadMarked bool
| TextThrew

text \<open>The awaits of \<open>sendSms\<close>, \<open>sendMms\<close> and \<open>send\<close>, of \<open>processInboundEvent\<close>, \<open>processStatusEvent\<close> and
  \<open>notify\<close>, and of \<open>markRead\<close>. An inbound message says whether it is tried for the first time; the
  notification is the last thing a webhook does, and keeps the answer it will give. A status callback has
  read its message when it writes, and carries the row it read.\<close>

datatype text_run =
  ReadingSender user_id send_request
| ReadingMedia user_id send_request number_row
| Preparing user_id send_request number_row
| Settling send_request number_row pending_wait string nat
| HandingOver send_request string
| AwaitingProvider send_request string
| RecordingFailure text_status "string option" string string
| RecordingAcceptance send_request string string
| Attaching string
| RereadingText string
| ReceivingInbound inbound_event bool
| IngestingMedia string text_answer
| ReceivingStatus status_event
| WritingStatus status_event "text_row option"
| FindingAudience string activity_kind text_answer
| PublishingActivity string activity_kind "user_id list" text_answer
| ReadingDepartments user_id string
| CheckingReader user_id string "department_id list"
| MarkingRead string

text \<open>A message cleared to be sent (its id, thread, contact, line and key), and handed to the provider; an
  opt-out and an opt-in of a contact on a line; a notification and whom it is for.\<close>

datatype text_mark =
  Cleared string string string string string
| HandedOver string
| OptedOut string string
| OptedIn string string
| Announced string activity_kind "user_id list"

text \<open>
  What surrounds a step: the clock, the ids of new rows, whether the database reports a lost race or
  another failure for the transaction (and then whether \<open>prepare\<close> had its thread), and what the media
  service and the provider answer.
\<close>

record text_outside =
  textClock :: millis
  textIds :: fresh_ids
  rolledBack :: "(bool \<times> json) option"
  mediaAnswer :: media_answer
  providerAnswer :: provider_answer
  attaches :: bool

text \<open>What \<open>prepare\<close> makes of a transaction that was rolled back: a unique key it lost once it had its
  thread sends it to the message of the winner.\<close>

definition prepareRolledBack :: "bool \<Rightarrow> json \<Rightarrow> json + (resolution \<times> message_db) \<Rightarrow> preparation" where
  "prepareRolledBack resolved err tried =
     (case tried of
        Inr (ResolvedTo t, db) \<Rightarrow>
          if resolved \<and> isUniqueConstraintError (Some err) then PrepCollides err (threadId t) else PrepBroke err
      | _ \<Rightarrow> PrepBroke err)"

text \<open>After a transaction or a look of \<open>prepare\<close>; \<open>attempt\<close> counts the looks.\<close>

fun afterPreparation :: "send_request \<Rightarrow> number_row \<Rightarrow> nat \<Rightarrow> preparation \<Rightarrow> (text_run + text_answer) \<times> text_mark list" where
  "afterPreparation req sender attempt (PrepRefused why) = (Inr (SendRefused why), [])"
| "afterPreparation req sender attempt (PrepDeduplicated m) = (Inr (SendDeduplicated (textId m)), [])"
| "afterPreparation req sender attempt (PrepWaits w t) = (Inl (Settling req sender w t (attempt + 1)), [])"
| "afterPreparation req sender attempt (PrepSuppressed m) = (Inr (SendSuppressed (textId m)), [])"
| "afterPreparation req sender attempt (PrepPending t m) =
     (Inl (HandingOver req (textId m)),
      [Cleared (textId m) (threadId t) (threadContact t) (threadLine t) (reqKey req)])"
| "afterPreparation req sender attempt (PrepCollides err t) = (Inl (Settling req sender (OnCollision err) t 0), [])"
| "afterPreparation req sender attempt (PrepBroke err) = (Inr TextThrew, [])"

fun afterProvider :: "send_request \<Rightarrow> string \<Rightarrow> provider_answer \<Rightarrow> text_run + text_answer" where
  "afterProvider req i (AcceptedAs sid) = Inl (RecordingAcceptance req i sid)"
| "afterProvider req i (ApiError retriable code why) =
     Inl (RecordingFailure (if retriable then FAILED else REJECTED) code why i)"
| "afterProvider req i (TransportError why) =
     Inl (RecordingFailure FAILED (Some ''provider_transport_error'') why i)"
| "afterProvider req i OtherError = Inr TextThrew"

text \<open>After the inbound transaction: a delivery the provider already made is answered, a lost race is
  tried once more.\<close>

definition afterInboundError :: "inbound_event \<Rightarrow> bool \<Rightarrow> json \<Rightarrow> text_run + text_answer" where
  "afterInboundError e firstTime err =
     (case classifyWebhookWriteFailure (Some err) of
        DuplicateDelivery \<Rightarrow> Inr WebhookDeduplicated
      | LostRace names \<Rightarrow> if firstTime then Inl (ReceivingInbound e False) else Inr TextThrew
      | Unrelated \<Rightarrow> Inr TextThrew)"

fun afterInbound :: "inbound_event \<Rightarrow> inbound_result \<Rightarrow> (text_run + text_answer) \<times> text_mark list" where
  "afterInbound e QuarantinedInbound = (Inr WebhookQuarantined, [])"
| "afterInbound e (FiledInbound i t wish) =
     (Inl (if 0 < inMedia e then IngestingMedia (threadId t) WebhookProcessed
           else FindingAudience (threadId t) ReceivedActivity WebhookProcessed),
      (case wish of
         None \<Rightarrow> []
       | Some (Suppress k) \<Rightarrow> [OptedOut (threadContact t) (threadLine t)]
       | Some (Release k) \<Rightarrow> [OptedIn (threadContact t) (threadLine t)]))"

definition afterStatusError :: "json \<Rightarrow> text_run + text_answer" where
  "afterStatusError err =
     Inr (if classifyWebhookWriteFailure (Some err) = DuplicateDelivery then WebhookDeduplicated else TextThrew)"

fun afterStatus :: "status_result \<Rightarrow> text_run + text_answer" where
  "afterStatus OrphanedStatus = Inr WebhookOrphaned"
| "afterStatus (AppliedStatus None) = Inr WebhookProcessed"
| "afterStatus (AppliedStatus (Some t)) =
     (if t = [] then Inr WebhookProcessed else Inl (FindingAudience t StatusActivity WebhookProcessed))"

section \<open>A step\<close>

text \<open>One awaited call: what the method does after it, the tables with its effect, and its marks.\<close>

fun textStep :: "text_outside \<Rightarrow> text_run \<Rightarrow> message_db \<Rightarrow> (text_run + text_answer) \<times> message_db \<times> text_mark list" where
  "textStep out (ReadingSender u req) db =
     (case getAllowedSender db (reqChannel req) u (reqSender req) of
        None \<Rightarrow> (Inr (SendRefused SenderNotFound), db, [])
      | Some sender \<Rightarrow>
          (if reqChannel req = SMS then Inl (Preparing u req sender)
           else if reqAttachments req = [] \<or> hd (reqAttachments req) = [] then Inr (SendRefused AttachmentUnavailable)
           else Inl (ReadingMedia u req sender), db, []))"
| "textStep out (ReadingMedia u req sender) db =
     ((case mediaAnswer out of
         MediaReady \<Rightarrow> Inl (Preparing u req sender)
       | MediaRefused \<Rightarrow> Inr (SendRefused AttachmentUnavailable)
       | MediaBroke \<Rightarrow> Inr TextThrew), db, [])"
| "textStep out (Preparing u req sender) db =
     (let (prepared, db') = (case rolledBack out of
            None \<Rightarrow> prepareSend (textIds out) (textClock out) u req sender db
          | Some (resolved, err) \<Rightarrow>
              (prepareRolledBack resolved err (resolveConversation (textIds out) u req sender db), db));
          (next_run, marks) = afterPreparation req sender 0 prepared
      in (next_run, db', marks))"
| "textStep out (Settling req sender w t attempt) db =
     (let (prepared, db') = (case rolledBack out of
            None \<Rightarrow> prepareAfterWait (textIds out) (textClock out) req sender w t attempt db
          | Some (resolved, err) \<Rightarrow> (PrepBroke err, db));
          (next_run, marks) = afterPreparation req sender attempt prepared
      in (next_run, db', marks))"
| "textStep out (HandingOver req i) db = (Inl (AwaitingProvider req i), db, [HandedOver i])"
| "textStep out (AwaitingProvider req i) db = (afterProvider req i (providerAnswer out), db, [])"
| "textStep out (RecordingFailure s code why i) db =
     (Inr (if s = FAILED then SendFailed i else SendRejected i),
      changeText i (recordProviderFailure (textClock out) s code why) db, [])"
| "textStep out (RecordingAcceptance req i sid) db =
     (case acceptText (textClock out) sid i db of
        Inl err \<Rightarrow> (Inr TextThrew, db, [])
      | Inr db' \<Rightarrow> (if reqChannel req = MMS then Inl (Attaching i) else Inr (SendAccepted i), db', []))"
| "textStep out (Attaching i) db = (if attaches out then Inl (RereadingText i) else Inr TextThrew, db, [])"
| "textStep out (RereadingText i) db = (Inr (SendAccepted i), db, [])"
| "textStep out (ReceivingInbound e firstTime) db =
     (case (case rolledBack out of
              None \<Rightarrow> inboundTransaction (textIds out) (textClock out) e db
            | Some (resolved, err) \<Rightarrow> Inl err) of
        Inl err \<Rightarrow> (afterInboundError e firstTime err, db, [])
      | Inr (result, db') \<Rightarrow> (fst (afterInbound e result), db', snd (afterInbound e result)))"
| "textStep out (IngestingMedia t answer) db = (Inl (FindingAudience t ReceivedActivity answer), db, [])"
| "textStep out (ReceivingStatus e) db =
     (case (case rolledBack out of None \<Rightarrow> readStatus e db | Some (resolved, err) \<Rightarrow> Inl err) of
        Inl err \<Rightarrow> (afterStatusError err, db, [])
      | Inr found \<Rightarrow> (Inl (WritingStatus e found), db, []))"
| "textStep out (WritingStatus e found) db =
     (case (case rolledBack out of None \<Rightarrow> writeStatus e found db | Some (resolved, err) \<Rightarrow> Inl err) of
        Inl err \<Rightarrow> (afterStatusError err, db, [])
      | Inr (result, db') \<Rightarrow> (afterStatus result, db', []))"
| "textStep out (FindingAudience t kind answer) db =
     (let users = loadConversationAudience db t
      in (if users = [] then Inr answer else Inl (PublishingActivity t kind users answer), db, []))"
| "textStep out (PublishingActivity t kind users answer) db = (Inr answer, db, [Announced t kind users])"
| "textStep out (ReadingDepartments u t) db = (Inl (CheckingReader u t (loadDepartmentIds db u)), db, [])"
| "textStep out (CheckingReader u t ds) db =
     ((case threadAt db t of
         None \<Rightarrow> Inr (ReadMarked False)
       | Some x \<Rightarrow> if canAccessConversation x u ds then Inl (MarkingRead t) else Inr (ReadMarked False)), db, [])"
| "textStep out (MarkingRead t) db =
     (Inr (ReadMarked True),
      changeThread t (\<lambda>x. x\<lparr>threadUnread := 0, threadReadAt := Some (textClock out)\<rparr>) db, [])"

text \<open>An awaited call that throws: media that cannot be fetched and a notification that cannot be sent
  fail nothing, everything else ends the call.\<close>

fun textFails :: "text_run \<Rightarrow> text_run + text_answer" where
  "textFails (IngestingMedia t answer) = Inl (FindingAudience t ReceivedActivity answer)"
| "textFails (FindingAudience t kind answer) = Inr answer"
| "textFails (PublishingActivity t kind users answer) = Inr answer"
| "textFails run = Inr TextThrew"

section \<open>Calls that overlap\<close>

record messaging =
  messageDb :: message_db
  textRuns :: "text_run list"
  textAnswers :: "text_answer list"
  textTrace :: "text_mark list"

datatype text_input =
  TextSent user_id send_request
| InboundArrives inbound_event
| StatusArrives status_event
| ThreadOpened user_id string
| LinesChange line_db "string \<Rightarrow> text_channel \<Rightarrow> bool"
| TextContinues nat delivery

definition beginText :: "text_run \<Rightarrow> messaging \<Rightarrow> messaging" where
  "beginText run s = s\<lparr>textRuns := textRuns s @ [run]\<rparr>"

definition proceedText :: "text_run list \<Rightarrow> text_run + text_answer \<Rightarrow> messaging \<Rightarrow> messaging" where
  "proceedText rest next_run s =
     (case next_run of
        Inl run \<Rightarrow> s\<lparr>textRuns := rest @ [run]\<rparr>
      | Inr answer \<Rightarrow> s\<lparr>textRuns := rest, textAnswers := textAnswers s @ [answer]\<rparr>)"

fun messagingStep :: "text_outside \<Rightarrow> text_input \<Rightarrow> messaging \<Rightarrow> messaging" where
  "messagingStep out (TextSent u req) s = beginText (ReadingSender u req) s"
| "messagingStep out (InboundArrives e) s = beginText (ReceivingInbound e True) s"
| "messagingStep out (StatusArrives e) s = beginText (ReceivingStatus e) s"
| "messagingStep out (ThreadOpened u t) s = beginText (ReadingDepartments u t) s"
| "messagingStep out (LinesChange dir on) s =
     s\<lparr>messageDb := (messageDb s)\<lparr>directory := dir, textsOn := on\<rparr>\<rparr>"
| "messagingStep out (TextContinues i d) s =
     (if i < length (textRuns s)
      then let run = textRuns s ! i; rest = without i (textRuns s);
               (next_run, db', marks) = textStep out run (messageDb s)
           in case d of
                Lost \<Rightarrow> proceedText rest (textFails run) s
              | ReplyLost \<Rightarrow> proceedText rest (textFails run) (s\<lparr>messageDb := db', textTrace := textTrace s @ marks\<rparr>)
              | Delivered \<Rightarrow> proceedText rest next_run (s\<lparr>messageDb := db', textTrace := textTrace s @ marks\<rparr>)
      else s)"

primrec messagingRun :: "(text_outside \<times> text_input) list \<Rightarrow> messaging \<Rightarrow> messaging" where
  "messagingRun [] s = s"
| "messagingRun (x # xs) s = messagingRun xs (messagingStep (fst x) (snd x) s)"

end
