(* ===== verification/Messaging_Facts.thy ===== *)
theory Messaging_Facts
  imports Message_Sends Administration_Facts
begin

text \<open>
  What holds of messaging whatever interleaves: the tables keep their keys and every thread its one
  owner, a thread is announced to exactly those who can open it, the senders listed are those a send is
  allowed from, and what an inbound message leaves behind.
\<close>

section \<open>Tables that are kept\<close>

text \<open>The lines' owners exist (the foreign keys of a number).\<close>

definition lines_linked :: "line_db \<Rightarrow> bool" where
  "lines_linked dir \<longleftrightarrow> directory_kept dir \<and>
     (\<forall>n \<in> set (numbers dir).
        (case numberUser n of None \<Rightarrow> True | Some u \<Rightarrow> u \<noteq> [] \<and> userOf dir (Some u) \<noteq> None) \<and>
        (case numberDepartment n of None \<Rightarrow> True | Some d \<Rightarrow> d \<noteq> [] \<and> departmentOf dir (Some d) \<noteq> None))"

definition owner_ok :: "line_db \<Rightarrow> thread \<Rightarrow> bool" where
  "owner_ok dir t \<longleftrightarrow>
     (case (threadUser t, threadDepartment t) of
        (Some u, None) \<Rightarrow> u \<noteq> [] \<and> userOf dir (Some u) \<noteq> None
      | (None, Some d) \<Rightarrow> d \<noteq> []
      | _ \<Rightarrow> False)"

definition threadKey :: "thread \<Rightarrow> string \<times> string \<times> user_id option \<times> department_id option" where
  "threadKey t = (threadContact t, threadLine t, threadUser t, threadDepartment t)"

definition contacts_ok :: "contact list \<Rightarrow> bool" where
  "contacts_ok cs \<longleftrightarrow> distinct (map contactId cs) \<and> distinct (map contactPhone cs)"

definition threads_ok :: "line_db \<Rightarrow> contact list \<Rightarrow> thread list \<Rightarrow> bool" where
  "threads_ok dir cs ts \<longleftrightarrow> distinct (map threadId ts) \<and> distinct (map threadKey ts) \<and>
     (\<forall>t \<in> set ts. owner_ok dir t \<and> threadContact t \<in> contactId ` set cs)"

definition texts_ok :: "thread list \<Rightarrow> text_row list \<Rightarrow> bool" where
  "texts_ok ts ms \<longleftrightarrow> distinct (map textId ms) \<and>
     distinct (map (\<lambda>m. (textThread m, textKey m)) (filter (\<lambda>m. textKey m \<noteq> None) ms)) \<and>
     distinct (map textProviderId (filter (\<lambda>m. textProviderId m \<noteq> None) ms)) \<and>
     (\<forall>m \<in> set ms. textThread m \<in> threadId ` set ts)"

definition tables_ok :: "message_db \<Rightarrow> bool" where
  "tables_ok db \<longleftrightarrow> lines_linked (directory db) \<and> contacts_ok (contacts db) \<and>
     threads_ok (directory db) (contacts db) (threads db) \<and> texts_ok (threads db) (texts db) \<and>
     distinct (map (\<lambda>s. (supContact s, supLine s)) (suppressions db)) \<and>
     distinct (map eventKey (providerEvents db))"

lemma tables_okI:
  assumes "lines_linked (directory db)" and "contacts_ok (contacts db)"
    and "threads_ok (directory db) (contacts db) (threads db)" and "texts_ok (threads db) (texts db)"
    and "distinct (map (\<lambda>s. (supContact s, supLine s)) (suppressions db))"
    and "distinct (map eventKey (providerEvents db))"
  shows "tables_ok db"
  using assms by (simp add: tables_ok_def)

lemma map_changed: "(\<And>x. P x \<Longrightarrow> g (f x) = g x) \<Longrightarrow> map (g \<circ> (\<lambda>x. if P x then f x else x)) xs = map g xs"
  by (induction xs) auto

lemma distinct_changed: "(\<And>x. P x \<Longrightarrow> g (f x) = g x) \<Longrightarrow>
    distinct (map (g \<circ> (\<lambda>x. if P x then f x else x)) xs) = distinct (map g xs)"
  by (simp only: map_changed)

lemma changeEvent_ok:
  assumes "tables_ok db" and "\<And>e. eventKey (f e) = eventKey e"
  shows "tables_ok (changeEvent k f db)"
  using assms by (simp add: tables_ok_def changeEvent_def distinct_changed)

lemma changeThread_ok:
  assumes ok: "tables_ok db" and same: "\<And>t. threadId (f t) = threadId t \<and> threadKey (f t) = threadKey t"
  shows "tables_ok (changeThread i f db)"
proof -
  let ?ts = "threads db" and ?g = "\<lambda>t. if threadId t = i then f t else t"
  have "owner_ok (directory db) (f t) = owner_ok (directory db) t \<and> threadContact (f t) = threadContact t" for t
    using same [of t] by (simp add: owner_ok_def threadKey_def)
  then have "threads_ok (directory db) (contacts db) (map ?g ?ts)"
    using ok same by (auto simp: tables_ok_def threads_ok_def distinct_changed)
  moreover have "threadId ` set (map ?g ?ts) = threadId ` set ?ts"
    using arg_cong [OF map_changed [of "\<lambda>t. threadId t = i" threadId f ?ts], of set] same
    by (simp only: set_map map_map [symmetric])
  ultimately show ?thesis
    using ok by (simp add: tables_ok_def changeThread_def texts_ok_def)
qed

lemma filtered_changed:
  assumes "\<And>x. P x \<Longrightarrow> Q (f x) = Q x" and "\<And>x. P x \<Longrightarrow> g (f x) = g x"
  shows "map g (filter Q (map (\<lambda>x. if P x then f x else x) xs)) = map g (filter Q xs)"
  using assms by (induction xs) auto

lemma changeText_ok:
  assumes ok: "tables_ok db"
    and same: "\<And>m. textId (f m) = textId m \<and> textThread (f m) = textThread m \<and> textKey (f m) = textKey m \<and>
        textProviderId (f m) = textProviderId m"
  shows "tables_ok (changeText i f db)"
proof -
  let ?ms = "texts db" and ?g = "\<lambda>m. if textId m = i then f m else m"
  have "distinct (map textId (map ?g ?ms)) = distinct (map textId ?ms)"
    using same by (simp add: distinct_changed)
  moreover have "map (\<lambda>m. (textThread m, textKey m)) (filter (\<lambda>m. textKey m \<noteq> None) (map ?g ?ms)) =
      map (\<lambda>m. (textThread m, textKey m)) (filter (\<lambda>m. textKey m \<noteq> None) ?ms)"
    by (rule filtered_changed) (simp_all add: same)
  moreover have "map textProviderId (filter (\<lambda>m. textProviderId m \<noteq> None) (map ?g ?ms)) =
      map textProviderId (filter (\<lambda>m. textProviderId m \<noteq> None) ?ms)"
    by (rule filtered_changed) (simp_all add: same)
  ultimately have "texts_ok (threads db) (map ?g ?ms)"
    using ok same unfolding tables_ok_def texts_ok_def by auto
  then show ?thesis using ok by (simp add: tables_ok_def changeText_def)
qed

lemma createEvent_ok: "tables_ok db \<Longrightarrow> createEvent k sid db = Inr db' \<Longrightarrow> tables_ok db'"
  by (auto simp: createEvent_def tables_ok_def split: if_splits)

lemma createText_ok:
  assumes "tables_ok db" and "createText m db = Inr db'" and "textThread m \<in> threadId ` set (threads db)"
  shows "tables_ok db'"
proof -
  have db': "db' = db\<lparr>texts := texts db @ [m]\<rparr>"
    and new: "textId m \<notin> textId ` set (texts db)"
      "textProviderId m \<noteq> None \<Longrightarrow> textProviderId m \<notin> textProviderId ` set (texts db)"
      "textKey m \<noteq> None \<Longrightarrow> (textThread m, textKey m) \<notin> (\<lambda>x. (textThread x, textKey x)) ` set (texts db)"
    using assms(2) by (auto simp: createText_def split: if_splits)
  have "texts_ok (threads db) (texts db @ [m])"
    using assms(1,3) new unfolding tables_ok_def texts_ok_def by (auto simp: image_iff)
  then show ?thesis using assms(1) by (simp add: db' tables_ok_def)
qed

lemma findOrCreateByPhoneNumber_ok:
  assumes "tables_ok db" and "findOrCreateByPhoneNumber ids p db = Inr (c, db')"
  shows "tables_ok db' \<and> c \<in> set (contacts db') \<and> contactPhone c = p \<and> db' = db\<lparr>contacts := contacts db'\<rparr> \<and>
    set (contacts db) \<subseteq> set (contacts db')"
  using assms
  by (auto simp: findOrCreateByPhoneNumber_def tables_ok_def contacts_ok_def threads_ok_def Let_def find_None_iff
      dest: find_some split: option.splits if_splits)

lemma heldBy_iff:
  assumes "owner_ok dir t"
  shows "heldBy h t \<longleftrightarrow> threadUser t = ownerUser h \<and> threadDepartment t = ownerDepartment h"
  using assms by (cases h) (auto simp: owner_ok_def split: option.splits)

lemma lineOwnerOf_owner:
  assumes "lines_linked dir" and "n \<in> set (numbers dir)" and "lineOwnerOf (numberUser n) (numberDepartment n) = Some h"
    and "threadUser t = ownerUser h" and "threadDepartment t = ownerDepartment h"
  shows "owner_ok dir t"
  using assms
  by (cases h) (fastforce simp: lineOwnerOf_def owner_ok_def lines_linked_def truthy_iff split: if_splits option.splits)+

lemma findOrCreateFor_ok:
  assumes ok: "tables_ok db" and line: "line \<in> set (numbers (directory db))"
    and found: "findOrCreateFor ids p line db = Inr (t, db')"
  shows "tables_ok db' \<and> t \<in> set (threads db') \<and> threadLine t = numberId line \<and>
    contactPhoneOf db' (threadContact t) = p \<and>
    lineOwnerOf (numberUser line) (numberDepartment line) = lineOwnerOf (threadUser t) (threadDepartment t) \<and>
    db' = db\<lparr>contacts := contacts db', threads := threads db'\<rparr> \<and>
    (\<exists>new. threads db' = threads db @ new)"
proof -
  obtain h where h: "lineOwnerOf (numberUser line) (numberDepartment line) = Some h"
    using found by (auto simp: findOrCreateFor_def split: option.splits)
  then obtain c db1 where c: "findOrCreateByPhoneNumber ids p db = Inr (c, db1)"
    using found by (auto simp: findOrCreateFor_def split: option.splits sum.splits)
  note kept = findOrCreateByPhoneNumber_ok [OF ok c]
  have ok1: "tables_ok db1" and cin: "c \<in> set (contacts db1)" and phone: "contactPhone c = p"
    and db1: "db1 = db\<lparr>contacts := contacts db1\<rparr>" using kept by blast+
  have same: "threads db1 = threads db" "directory db1 = directory db" by (subst db1, simp)+
  have byId: "contactPhoneOf x (contactId c) = p" if "contacts x = contacts db1" for x
  proof -
    have "find (\<lambda>y. contactId y = contactId c) (contacts x) = Some c"
      using cin ok1 that by (intro find_unique) (auto simp: tables_ok_def contacts_ok_def distinct_map inj_on_def)
    then show ?thesis by (simp add: contactPhoneOf_def phone)
  qed
  have rebuilt: "lineOwnerOf (ownerUser h) (ownerDepartment h) = Some h"
    using h by (auto simp: lineOwnerOf_def truthy_iff split: if_splits)
  show ?thesis
  proof (cases "find (\<lambda>t. threadContact t = contactId c \<and> threadLine t = numberId line \<and> heldBy h t) (threads db1)")
    case (Some x)
    then have "t = x" "db' = db1" using found h c by (simp_all add: findOrCreateFor_def)
    moreover note find_some [OF Some]
    moreover have "owner_ok (directory db1) x"
      using ok1 find_some [OF Some] by (simp add: tables_ok_def threads_ok_def)
    ultimately show ?thesis
      using ok1 db1 same byId [of db1] h rebuilt heldBy_iff [of "directory db1" x h] by (metis append_Nil2 message_db.surjective message_db.update_convs(4))
  next
    case None
    let ?t = "\<lparr>threadId = freshThread ids, threadContact = contactId c, threadLine = numberId line,
      threadUser = ownerUser h, threadDepartment = ownerDepartment h,
      threadUnread = 0, threadReadAt = None, threadMessageAt = None\<rparr>"
    have t: "t = ?t" and db': "db' = db1\<lparr>threads := threads db1 @ [?t]\<rparr>"
      and new: "freshThread ids \<notin> threadId ` set (threads db1)"
      using found h c None by (auto simp: findOrCreateFor_def Let_def split: if_splits)
    have own: "owner_ok (directory db1) ?t"
      using lineOwnerOf_owner [OF _ line h, of ?t] ok same by (simp add: tables_ok_def)
    have "threadKey ?t \<notin> threadKey ` set (threads db1)"
    proof
      assume "threadKey ?t \<in> threadKey ` set (threads db1)"
      then obtain x where x: "x \<in> set (threads db1)" "threadKey x = threadKey ?t" by auto
      then have "owner_ok (directory db1) x" using ok1 by (simp add: tables_ok_def threads_ok_def)
      then show False using x None heldBy_iff [of "directory db1" x h] by (auto simp: threadKey_def find_None_iff)
    qed
    then have "threads_ok (directory db1) (contacts db1) (threads db1 @ [?t])"
      using ok1 new own cin by (auto simp: tables_ok_def threads_ok_def)
    moreover have "texts_ok (threads db1 @ [?t]) (texts db1)"
      using ok1 by (auto simp: tables_ok_def texts_ok_def)
    ultimately have "tables_ok db'" using ok1 by (simp add: db' tables_ok_def)
    moreover have "db' = db\<lparr>contacts := contacts db', threads := threads db'\<rparr>"
      by (simp add: db', subst (1 2) db1, simp)
    ultimately show ?thesis using byId [of db'] h rebuilt same by (simp add: t db')
  qed
qed

lemma applyOptOut_ok: "tables_ok db \<Longrightarrow> tables_ok (applyOptOut wish c l now db)"
proof -
  assume ok: "tables_ok db"
  have "distinct (map (\<lambda>s. (supContact s, supLine s)) (upsertSuppression c l k now (suppressions db)))" for k
    using ok by (auto simp: tables_ok_def upsertSuppression_def distinct_changed suppressedPair_def list_ex_iff)
  moreover have "distinct (map (\<lambda>s. (supContact s, supLine s)) (releaseSuppressions c l now (suppressions db)))"
    using ok by (simp add: tables_ok_def releaseSuppressions_def distinct_changed)
  ultimately show ?thesis
    using ok by (auto simp: applyOptOut_def tables_ok_def split: option.split opt_out.split)
qed

lemma applyOptOut_frame [simp]:
  "directory (applyOptOut w c l now db) = directory db" "contacts (applyOptOut w c l now db) = contacts db"
  "threads (applyOptOut w c l now db) = threads db" "texts (applyOptOut w c l now db) = texts db"
  "providerEvents (applyOptOut w c l now db) = providerEvents db" "textsOn (applyOptOut w c l now db) = textsOn db"
  by (simp_all add: applyOptOut_def split: option.split opt_out.split)

lemma change_frame [simp]:
  "directory (changeText i f db) = directory db" "contacts (changeText i f db) = contacts db"
  "threads (changeText i f db) = threads db" "suppressions (changeText i f db) = suppressions db"
  "directory (changeThread i g db) = directory db" "contacts (changeThread i g db) = contacts db"
  "texts (changeThread i g db) = texts db" "suppressions (changeThread i g db) = suppressions db"
  "directory (changeEvent k h db) = directory db" "contacts (changeEvent k h db) = contacts db"
  "threads (changeEvent k h db) = threads db" "suppressions (changeEvent k h db) = suppressions db"
  "texts (changeEvent k h db) = texts db"
  by (simp_all add: changeText_def changeThread_def changeEvent_def)

lemma createEvent_frame:
  "createEvent k sid db = Inr db' \<Longrightarrow> db' = db\<lparr>providerEvents := providerEvents db'\<rparr> \<and>
     eventKey ` set (providerEvents db') = insert k (eventKey ` set (providerEvents db))"
  by (auto simp: createEvent_def split: if_splits)

lemma createText_frame:
  "createText m db = Inr db' \<Longrightarrow> db' = db\<lparr>texts := texts db @ [m]\<rparr>"
  by (auto simp: createText_def split: if_splits)

lemma fileInbound_ok:
  assumes "tables_ok db" and "line \<in> set (numbers (directory db))" and filed: "fileInbound ids now e line db = Inr (r, db')"
  shows "tables_ok db'"
proof -
  obtain t db1 db2 where t: "findOrCreateFor ids (inFrom e) line db = Inr (t, db1)"
    and m: "createText (receivedText (freshText ids) (threadId t) now e) db1 = Inr db2"
    using filed by (auto simp: fileInbound_def split: sum.splits prod.splits)
  have "tables_ok db1 \<and> t \<in> set (threads db1)" using findOrCreateFor_ok [OF assms(1,2) t] by blast
  then have "tables_ok db2" using createText_ok [OF _ m] by (simp add: receivedText_def)
  then show ?thesis
    using filed t m
    by (auto simp: fileInbound_def linkEvent_def threadKey_def intro!: changeEvent_ok applyOptOut_ok changeThread_ok)
qed

lemma inboundTransaction_ok:
  assumes "tables_ok db" and finished: "inboundTransaction ids now e db = Inr (r, db')"
  shows "tables_ok db'"
proof -
  obtain db1 where e: "createEvent (inboundKey e) (inSid e) db = Inr db1"
    using finished by (auto simp: inboundTransaction_def split: sum.splits)
  then have "tables_ok db1" using createEvent_ok assms(1) by blast
  then show ?thesis
    using finished e
    by (auto simp: inboundTransaction_def quarantineInbound_def dest!: find_some
        intro!: changeEvent_ok intro: fileInbound_ok split: option.splits if_splits)
qed

lemma writeStatus_ok:
  assumes "tables_ok db" and finished: "writeStatus e found db = Inr (r, db')"
  shows "tables_ok db'"
proof -
  obtain db1 where e: "createEvent (statusDedupeKey e) (stSid e) db = Inr db1"
    using finished by (auto simp: writeStatus_def split: sum.splits)
  then have "tables_ok db1" using createEvent_ok assms(1) by blast
  then show ?thesis
    using finished e
    by (auto simp: writeStatus_def Let_def linkEvent_def applyStatus_def intro!: changeEvent_ok changeText_ok
        split: option.splits if_splits)
qed

lemma statusTransaction_alone:
  "statusTransaction e db =
     (case createEvent (statusDedupeKey e) (stSid e) db of
        Inl err \<Rightarrow> Inl err
      | Inr db1 \<Rightarrow> writeStatus e (textOfProvider db1 (stSid e)) db)"
  by (simp add: statusTransaction_def readStatus_def split: sum.split)

lemma createOutboundMessage_ok:
  assumes "tables_ok db" and "textThread m \<in> threadId ` set (threads db)" and "createOutboundMessage m db = Inr db'"
  shows "tables_ok db'"
  using assms createText_ok [OF assms(1)]
  by (auto simp: createOutboundMessage_def threadKey_def intro!: changeThread_ok split: sum.splits)

text \<open>The thread a call waits for, or has read, stays in the tables.\<close>

definition wait_ok :: "message_db \<Rightarrow> pending_wait \<Rightarrow> bool" where
  "wait_ok db w \<longleftrightarrow> (case w of OnThread t h \<Rightarrow> threadId t \<in> threadId ` set (threads db) | _ \<Rightarrow> True)"

text \<open>A thread a send resolved is in the tables.\<close>

definition resolved_ok :: "message_db \<Rightarrow> json + (resolution \<times> message_db) \<Rightarrow> bool" where
  "resolved_ok db r \<longleftrightarrow>
     (case r of
        Inl err \<Rightarrow> True
      | Inr (res, db') \<Rightarrow> tables_ok db' \<and> db' = db\<lparr>contacts := contacts db', threads := threads db'\<rparr> \<and>
          set (threads db) \<subseteq> set (threads db') \<and>
          (case res of ResolvedTo t \<Rightarrow> t \<in> set (threads db') | WaitsFor w i \<Rightarrow> wait_ok db w | _ \<Rightarrow> True))"

lemma threadAt_known: "threadAt db i = Some t \<Longrightarrow> t \<in> set (threads db) \<and> threadId t = i"
  by (auto simp: threadAt_def dest: find_some)

lemma judgeThread_ok: "tables_ok db \<Longrightarrow> t \<in> set (threads db) \<Longrightarrow> resolved_ok db (Inr (judgeThread db t h, db))"
  by (simp add: resolved_ok_def judgeThread_def)

lemma resolveThread_ok: "tables_ok db \<Longrightarrow> resolved_ok db (Inr (resolveThread u i sender key db, db))"
  by (auto simp: resolved_ok_def wait_ok_def resolveThread_def judgeThread_def getAccessibleRecordForUser_def
      dest!: threadAt_known split: option.splits attempt_look.splits if_splits)

lemma resolveNewThread_ok:
  assumes "tables_ok db"
  shows "resolved_ok db (resolveNewThread ids p sender db)"
proof -
  have "resolved_ok db (case findOrCreateFor ids p line db of Inl err \<Rightarrow> Inl err | Inr (t, db') \<Rightarrow> Inr (ResolvedTo t, db'))"
    if "line \<in> set (numbers (directory db))" for line
  proof (cases "findOrCreateFor ids p line db")
    case (Inr r)
    obtain t db' where r: "r = (t, db')" by (cases r)
    have found: "findOrCreateFor ids p line db = Inr (t, db')" using Inr r by simp
    show ?thesis
      using findOrCreateFor_ok [OF assms that found] by (auto simp: resolved_ok_def found)
  qed (simp add: resolved_ok_def)
  then show ?thesis
    using assms by (auto simp: resolveNewThread_def Let_def resolved_ok_def [of db "Inr (RefusedFor _, _)"] dest!: find_some
        split: option.split)
qed

lemma answerEarlier_shape:
  "answerEarlierNewMessage u p line key db = Some r \<Longrightarrow>
     (\<exists>why. r = RefusedFor why) \<or> (\<exists>m. r = AnsweredBy m) \<or> (\<exists>t. r = WaitsFor (OnNewMessage p) t)"
  by (auto simp: answerEarlierNewMessage_def Let_def split: option.splits if_splits attempt_look.splits)

lemma resolveConversation_ok:
  assumes "tables_ok db"
  shows "resolved_ok db (resolveConversation ids u req sender db)"
  using assms resolveThread_ok [OF assms] resolveNewThread_ok [OF assms]
  by (auto simp: resolveConversation_def wait_ok_def resolved_ok_def [of db "Inr (_, db)"] dest!: answerEarlier_shape split: option.split)

lemma resolved_same:
  assumes "resolved_ok db (Inr (r, db'))"
  shows "texts db' = texts db" "suppressions db' = suppressions db" "directory db' = directory db"
    "providerEvents db' = providerEvents db" "tables_ok db'"
  using assms by (auto simp: resolved_ok_def intro: arg_cong) (metis message_db.select_convs message_db.update_convs message_db.surjective)+

section \<open>Every step keeps the tables\<close>

lemma writeOutbound_ok:
  assumes "tables_ok db" and "threadId t \<in> threadId ` set (threads db)" and "tables_ok before"
  shows "tables_ok (snd (writeOutbound ids now req sender t db before))"
proof (cases "createOutboundMessage (outboundText ids now req sender t (contactPhoneOf db (threadContact t))
    (activeSuppression db (threadContact t) (threadLine t))) db")
  case (Inr db')
  have "tables_ok db'"
    by (rule createOutboundMessage_ok [OF assms(1) _ Inr]) (simp add: outboundText_def assms(2))
  then show ?thesis by (simp add: writeOutbound_def Let_def Inr)
qed (simp add: writeOutbound_def Let_def assms(3))

lemma continueWith_ok:
  assumes "resolved_ok before r" and "tables_ok before"
  shows "tables_ok (snd (continueWith ids now req sender r before))"
  using assms
  by (auto simp: continueWith_def resolved_ok_def intro!: writeOutbound_ok split: sum.split resolution.split)

lemma prepareSend_ok: "tables_ok db \<Longrightarrow> tables_ok (snd (prepareSend ids now u req sender db))"
  by (simp add: prepareSend_def continueWith_ok resolveConversation_ok)

lemma prepareAfterWait_ok:
  assumes "tables_ok db" and "wait_ok db w"
  shows "tables_ok (snd (prepareAfterWait ids now req sender w t attempt db))"
proof -
  have "tables_ok (snd (continueWith ids now req sender (Inr (judgeThread db x h, db)) db))"
    if "w = OnThread x h" for x h
    using assms that
    by (auto simp: continueWith_def judgeThread_def wait_ok_def intro: writeOutbound_ok split: resolution.split)
  then show ?thesis
    using assms by (auto simp: prepareAfterWait_def continueWith_ok resolveNewThread_ok
        split: attempt_look.split pending_wait.split)
qed

text \<open>A text a provider has accepted is recorded under an id no other text has.\<close>

lemma acceptText_ok:
  assumes ok: "tables_ok db" and accepted: "acceptText now sid i db = Inr db'"
  shows "tables_ok db'"
proof -
  let ?ms = "texts db" and ?g = "\<lambda>m. if textId m = i then recordAcceptance now sid m else m"
  have alone: "textProviderId m = Some sid \<Longrightarrow> textId m = i" if "m \<in> set ?ms" for m
    using accepted that by (auto simp: acceptText_def split: if_splits)
  have one: "m = m'" if "m \<in> set ?ms" "m' \<in> set ?ms" "textId m = i" "textId m' = i" for m m'
    using ok that by (auto simp: tables_ok_def texts_ok_def distinct_map inj_on_def)
  have inj: "inj_on textProviderId {m \<in> set ?ms. textProviderId m \<noteq> None}" and dist: "distinct ?ms"
    using ok by (auto simp: tables_ok_def texts_ok_def distinct_map)
  have "distinct (map textId (map ?g ?ms))"
    using ok by (simp add: tables_ok_def texts_ok_def distinct_changed recordAcceptance_def)
  moreover have "distinct (map (\<lambda>m. (textThread m, textKey m)) (filter (\<lambda>m. textKey m \<noteq> None) (map ?g ?ms)))"
    using ok by (subst filtered_changed) (simp_all add: recordAcceptance_def tables_ok_def texts_ok_def)
  moreover have "distinct (map textProviderId (filter (\<lambda>m. textProviderId m \<noteq> None) (map ?g ?ms)))"
  proof -
    have "distinct (map ?g ?ms)"
      using calculation(1) by (simp only: distinct_map)
    moreover have "inj_on textProviderId {m \<in> set (map ?g ?ms). textProviderId m \<noteq> None}"
      using alone one inj by (fastforce simp: inj_on_def recordAcceptance_def split: if_splits)
    ultimately show ?thesis by (simp add: distinct_map del: map_map set_map)
  qed
  ultimately have "texts_ok (threads db) (map ?g ?ms)"
    using ok unfolding tables_ok_def texts_ok_def by (auto simp: recordAcceptance_def)
  then show ?thesis
    using ok accepted by (auto simp: tables_ok_def acceptText_def changeText_def split: if_splits)
qed

section \<open>Rows are added, and keep what they are known by\<close>

definition threadIdentity :: "thread \<Rightarrow> string \<times> string \<times> string \<times> user_id option \<times> department_id option" where
  "threadIdentity t = (threadId t, threadKey t)"

definition textIdentity :: "text_row \<Rightarrow> string \<times> string \<times> string option" where
  "textIdentity m = (textId m, textThread m, textKey m)"

definition grown :: "message_db \<Rightarrow> message_db \<Rightarrow> bool" where
  "grown db db' \<longleftrightarrow> directory db' = directory db \<and> prefix (contacts db) (contacts db') \<and>
     prefix (map threadIdentity (threads db)) (map threadIdentity (threads db')) \<and>
     prefix (map textIdentity (texts db)) (map textIdentity (texts db'))"

lemma grown_refl [simp]: "grown db db"
  by (simp add: grown_def)

lemma grown_trans: "grown a b \<Longrightarrow> grown b c \<Longrightarrow> grown a c"
  by (auto simp: grown_def intro: prefix_order.trans)

lemma grown_changeText [simp]: "(\<And>m. textIdentity (f m) = textIdentity m) \<Longrightarrow> grown db (changeText i f db)"
  by (simp add: grown_def changeText_def map_changed)

lemma grown_changeThread [simp]: "(\<And>t. threadIdentity (f t) = threadIdentity t) \<Longrightarrow> grown db (changeThread i f db)"
  by (simp add: grown_def changeThread_def map_changed)

lemma grown_changeEvent [simp]: "grown db (changeEvent k f db)"
  by (simp add: grown_def changeEvent_def)

lemma grown_applyOptOut [simp]: "grown db (applyOptOut w c l now db)"
  by (simp add: grown_def)

lemma grown_createEvent: "createEvent k sid db = Inr db' \<Longrightarrow> grown db db'"
  by (auto simp: createEvent_def grown_def split: if_splits)

lemma grown_createText: "createText m db = Inr db' \<Longrightarrow> grown db db'"
  by (auto simp: createText_def grown_def split: if_splits)

lemma grown_findOrCreateFor:
  assumes "findOrCreateFor ids p line db = Inr (t, db')"
  shows "grown db db'"
  using assms by (auto simp: findOrCreateFor_def findOrCreateByPhoneNumber_def grown_def Let_def
      split: option.splits sum.splits if_splits)

lemma grown_fileInbound:
  assumes filed: "fileInbound ids now e line db = Inr (r, db')"
  shows "grown db db'"
proof -
  obtain t db1 db2 where t: "findOrCreateFor ids (inFrom e) line db = Inr (t, db1)"
    and m: "createText (receivedText (freshText ids) (threadId t) now e) db1 = Inr db2"
    using filed by (auto simp: fileInbound_def split: sum.splits prod.splits)
  have db': "db' = linkEvent (inboundKey e) (freshText ids) (threadId t)
      (applyOptOut (resolveOptOut e) (threadContact t) (threadLine t) now
        (changeThread (threadId t) (\<lambda>t. t\<lparr>threadUnread := threadUnread t + 1, threadMessageAt := Some now\<rparr>) db2))"
    using filed t m by (simp add: fileInbound_def)
  have "grown db1 db'"
    unfolding db' linkEvent_def
    by (rule grown_trans [OF grown_createText [OF m] grown_trans [OF _ grown_trans [OF grown_applyOptOut grown_changeEvent]]])
      (simp add: threadIdentity_def threadKey_def)
  then show ?thesis using grown_trans [OF grown_findOrCreateFor [OF t]] by blast
qed

lemma grown_inbound:
  assumes finished: "inboundTransaction ids now e db = Inr (r, db')"
  shows "grown db db'"
proof -
  obtain db1 where e: "createEvent (inboundKey e) (inSid e) db = Inr db1"
    using finished by (auto simp: inboundTransaction_def split: sum.splits)
  have "grown db1 db'"
    using finished e
    by (auto simp: inboundTransaction_def quarantineInbound_def intro: grown_fileInbound split: option.splits if_splits)
  then show ?thesis using grown_trans [OF grown_createEvent [OF e]] by blast
qed

lemma grown_status:
  assumes finished: "writeStatus e found db = Inr (r, db')"
  shows "grown db db'"
proof -
  obtain db1 where e: "createEvent (statusDedupeKey e) (stSid e) db = Inr db1"
    using finished by (auto simp: writeStatus_def split: sum.splits)
  have "grown db1 (changeText i (applyStatus e) db1)" for i
    by (rule grown_changeText) (simp add: textIdentity_def applyStatus_def Let_def)
  then have "grown db1 db'"
    using finished e
    by (auto simp: writeStatus_def Let_def linkEvent_def intro: grown_trans [OF _ grown_changeEvent]
        split: option.splits if_splits)
  then show ?thesis using grown_trans [OF grown_createEvent [OF e]] by blast
qed

lemma grown_writeOutbound:
  assumes "grown before db"
  shows "grown before (snd (writeOutbound ids now req sender t db before))"
proof -
  have "grown db db'" if "createOutboundMessage m db = Inr db'" for m db'
    using that
    by (auto simp: createOutboundMessage_def threadIdentity_def threadKey_def
        intro!: grown_trans [OF grown_createText grown_changeThread] split: sum.splits)
  then show ?thesis
    using assms by (auto simp: writeOutbound_def Let_def intro: grown_trans split: sum.split)
qed

lemma grown_resolveConversation:
  "resolveConversation ids u req sender db = Inr (r, db') \<Longrightarrow> grown db db'"
  by (auto simp: resolveConversation_def resolveNewThread_def Let_def intro: grown_findOrCreateFor
      split: option.splits if_splits sum.splits)

lemma grown_continueWith:
  assumes "\<And>x db. r = Inr (x, db) \<Longrightarrow> grown before db"
  shows "grown before (snd (continueWith ids now req sender r before))"
  using assms by (auto simp: continueWith_def intro!: grown_writeOutbound split: sum.split resolution.split)

lemma grown_prepareSend: "grown db (snd (prepareSend ids now u req sender db))"
  unfolding prepareSend_def by (rule grown_continueWith) (rule grown_resolveConversation)

lemma grown_prepareAfterWait: "grown db (snd (prepareAfterWait ids now req sender w t attempt db))"
proof -
  have "grown db (snd (continueWith ids now req sender (resolveNewThread ids p sender db) db))" for p
    by (rule grown_continueWith)
      (auto simp: resolveNewThread_def Let_def intro: grown_findOrCreateFor split: option.splits if_splits sum.splits)
  moreover have "grown db (snd (continueWith ids now req sender (Inr (x, db)) db))" for x
    by (rule grown_continueWith) simp
  ultimately show ?thesis
    by (auto simp: prepareAfterWait_def split: attempt_look.split pending_wait.split)
qed

lemma grown_acceptText: "acceptText now sid i db = Inr db' \<Longrightarrow> grown db db'"
  by (auto simp: acceptText_def textIdentity_def recordAcceptance_def split: if_splits)

lemma textStep_grown:
  assumes "textStep out run db = (next_run, db', marks)"
  shows "grown db db'"
  using assms
proof (cases run)
  case (Preparing u req sender)
  then show ?thesis
    using assms grown_prepareSend [of db "textIds out" "textClock out" u req sender]
    by (auto split: option.splits prod.splits)
next
  case (Settling req sender w t attempt)
  then show ?thesis
    using assms grown_prepareAfterWait [of db "textIds out" "textClock out" req sender w t attempt]
    by (auto split: option.splits prod.splits)
qed (auto simp: Let_def textIdentity_def threadIdentity_def threadKey_def recordProviderFailure_def
      intro: grown_acceptText grown_inbound grown_status split: option.splits sum.splits prod.splits if_splits)

lemma threadIds_identities: "threadId ` set ts = fst ` set (map threadIdentity ts)"
  by (simp add: threadIdentity_def image_image)

lemma grown_threads: "grown db db' \<Longrightarrow> threadId ` set (threads db) \<subseteq> threadId ` set (threads db')"
  unfolding grown_def threadIds_identities by (intro image_mono set_mono_prefix) simp

lemma wait_ok_grown: "wait_ok db w \<Longrightarrow> grown db db' \<Longrightarrow> wait_ok db' w"
  using grown_threads [of db db'] by (auto simp: wait_ok_def split: pending_wait.splits)

definition run_kept :: "message_db \<Rightarrow> text_run \<Rightarrow> bool" where
  "run_kept db run \<longleftrightarrow>
     (case run of
        Settling req sender w t n \<Rightarrow> wait_ok db w
      | RecordingFailure s code why i \<Rightarrow> s = FAILED \<or> s = REJECTED
      | _ \<Rightarrow> True)"

lemma kept_others:
  "(\<And>req sender w t n. run \<noteq> Settling req sender w t n) \<Longrightarrow> (\<And>s code why i. run \<noteq> RecordingFailure s code why i)
     \<Longrightarrow> run_kept db run"
  by (simp add: run_kept_def split: text_run.split)

lemma afterProvider_kept: "afterProvider req i answer = Inl run \<Longrightarrow> run_kept db run"
  by (cases answer) (auto simp: run_kept_def)

lemma afterInbound_kept: "fst (afterInbound e result) = Inl run \<Longrightarrow> run_kept db run"
  by (cases result) (auto simp: run_kept_def split: if_splits)

lemma afterStatus_kept: "afterStatus applied = Inl run \<Longrightarrow> run_kept db run"
  by (cases applied rule: afterStatus.cases) (auto simp: run_kept_def split: if_splits)

lemmas after_webhooks_kept = afterProvider_kept afterInbound_kept afterStatus_kept

lemma afterPreparation_kept:
  assumes "\<And>w t. prepared = PrepWaits w t \<Longrightarrow> wait_ok db w" and "afterPreparation req sender n prepared = (Inl run, marks)"
  shows "run_kept db run"
  using assms by (cases prepared) (auto simp: run_kept_def wait_ok_def)

lemma continueWith_waits:
  "resolved_ok db r \<Longrightarrow> fst (continueWith ids now req sender r before) = PrepWaits w t \<Longrightarrow> wait_ok db w"
  by (auto simp: continueWith_def resolved_ok_def writeOutbound_def Let_def split: sum.splits resolution.splits if_splits)

lemma prepareSend_waits: "tables_ok db \<Longrightarrow> fst (prepareSend ids now u req sender db) = PrepWaits w t \<Longrightarrow> wait_ok db w"
  unfolding prepareSend_def by (rule continueWith_waits [OF resolveConversation_ok])

lemma prepareAfterWait_waits:
  assumes "tables_ok db" and "wait_ok db w" and "fst (prepareAfterWait ids now req sender w t n db) = PrepWaits w' t'"
  shows "wait_ok db w'"
proof -
  have "threadId x \<in> threadId ` set (threads db) \<Longrightarrow> fst (continueWith ids now req sender (Inr (judgeThread db x h, db)) db) \<noteq> PrepWaits w' t'" for x h
    by (auto simp: continueWith_def judgeThread_def writeOutbound_def Let_def split: sum.splits)
  then show ?thesis
    using assms continueWith_waits [OF resolveNewThread_ok [OF assms(1)]]
    by (auto simp: prepareAfterWait_def wait_ok_def [of db "OnThread _ _"] split: attempt_look.splits pending_wait.splits)
qed

lemma textStep_tables:
  assumes ok: "tables_ok db" and kept: "run_kept db run" and step: "textStep out run db = (next_run, db', marks)"
  shows "tables_ok db' \<and> (\<forall>r. next_run = Inl r \<longrightarrow> run_kept db' r)"
proof -
  have grows: "grown db db'" by (rule textStep_grown [OF step])
  have waits: "run_kept db' r" if "wait_ok db w \<or> wait_ok db' w" "r = Settling req sender w t n" for r w req sender t n
    using that wait_ok_grown [OF _ grows] by (auto simp: run_kept_def)
  show ?thesis
  proof (cases run)
    case (Preparing u req sender)
    then show ?thesis
    proof (cases "rolledBack out")
      case None
      then have "db' = snd (prepareSend (textIds out) (textClock out) u req sender db)"
        and next_run: "next_run = fst (afterPreparation req sender 0 (fst (prepareSend (textIds out) (textClock out) u req sender db)))"
        using step Preparing by (auto split: prod.splits)
      moreover have "run_kept db' r" if "next_run = Inl r" for r
        using that next_run prepareSend_waits [OF ok]
        by (intro afterPreparation_kept [of "fst (prepareSend (textIds out) (textClock out) u req sender db)" db' req sender 0])
          (auto intro: wait_ok_grown [OF _ grows] prod_eqI)
      ultimately show ?thesis using prepareSend_ok [OF ok] by simp
    next
      case (Some x)
      then show ?thesis
        using step Preparing ok
        by (auto simp: prepareRolledBack_def run_kept_def wait_ok_def split: prod.splits sum.splits resolution.splits if_splits)
    qed
  next
    case (Settling req sender w t n)
    then have w: "wait_ok db w" using kept by (simp add: run_kept_def)
    show ?thesis
    proof (cases "rolledBack out")
      case None
      let ?p = "prepareAfterWait (textIds out) (textClock out) req sender w t n db"
      have "db' = snd ?p" and next_run: "next_run = fst (afterPreparation req sender n (fst ?p))"
        using step Settling None by (auto split: prod.splits)
      moreover have "run_kept db' r" if "next_run = Inl r" for r
        using that next_run prepareAfterWait_waits [OF ok w]
        by (intro afterPreparation_kept [of "fst ?p" db' req sender n]) (auto intro: wait_ok_grown [OF _ grows] prod_eqI)
      ultimately show ?thesis using prepareAfterWait_ok [OF ok w] by simp
    next
      case (Some x)
      then show ?thesis using step Settling ok by (auto split: prod.splits)
    qed
  qed (use step ok in \<open>auto simp: Let_def threadKey_def recordProviderFailure_def afterInboundError_def
        afterStatusError_def intro: acceptText_ok after_webhooks_kept kept_others inboundTransaction_ok writeStatus_ok intro!: changeText_ok changeThread_ok
      split: option.splits sum.splits prod.splits if_splits media_answer.splits provider_answer.splits write_failure.splits\<close>)
qed
end
