(* ===== verification/Messaging_Safety.thy ===== *)
theory Messaging_Safety
  imports Messaging_Facts
begin

text \<open>
  What no interleaving of sends, inbound messages, callbacks and changes of lines can do to messaging: a
  draft is handed to the provider at most once in a thread, a contact who opted out is not written to,
  and a message that was delivered or failed is not open again.
\<close>

section \<open>Invariants of messaging\<close>

definition starting :: "text_run \<Rightarrow> bool" where
  "starting run \<longleftrightarrow>
     (case run of
        ReadingSender u req \<Rightarrow> True
      | ReceivingInbound e firstTime \<Rightarrow> firstTime
      | ReceivingStatus e \<Rightarrow> True
      | ReadingDepartments u t \<Rightarrow> True
      | _ \<Rightarrow> False)"

text \<open>The lines change as the administration changes them: owners stay linked, and no user row goes.\<close>

fun input_ok :: "text_input \<Rightarrow> messaging \<Rightarrow> bool" where
  "input_ok (LinesChange dir on) s \<longleftrightarrow> lines_linked dir \<and>
     (\<forall>r \<in> set (userRows (directory (messageDb s))). userOf dir (Some (userRowId r)) \<noteq> None)"
| "input_ok x s \<longleftrightarrow> True"

primrec inputs_ok :: "(text_outside \<times> text_input) list \<Rightarrow> messaging \<Rightarrow> bool" where
  "inputs_ok [] s \<longleftrightarrow> True"
| "inputs_ok (x # xs) s \<longleftrightarrow> input_ok (snd x) s \<and> inputs_ok xs (messagingStep (fst x) (snd x) s)"

definition changedLines :: "line_db \<Rightarrow> (string \<Rightarrow> text_channel \<Rightarrow> bool) \<Rightarrow> messaging \<Rightarrow> messaging" where
  "changedLines dir on s = s\<lparr>messageDb := (messageDb s)\<lparr>directory := dir, textsOn := on\<rparr>\<rparr>"

text \<open>How an awaited call can go on: it fails and has done nothing, it fails and has been done, or its answer
  arrives.\<close>

definition committedText :: "message_db \<Rightarrow> text_mark list \<Rightarrow> messaging \<Rightarrow> messaging" where
  "committedText db' marks s = s\<lparr>messageDb := db', textTrace := textTrace s @ marks\<rparr>"

locale messaging_invariant =
  fixes holds :: "messaging \<Rightarrow> bool"
  assumes begins: "holds s \<Longrightarrow> starting run \<Longrightarrow> holds (beginText run s)"
    and changes: "holds s \<Longrightarrow> input_ok (LinesChange dir on) s \<Longrightarrow> holds (changedLines dir on s)"
    and fails: "holds s \<Longrightarrow> i < length (textRuns s) \<Longrightarrow>
      holds (proceedText (without i (textRuns s)) (textFails (textRuns s ! i)) s)"
    and fails_done: "holds s \<Longrightarrow> i < length (textRuns s) \<Longrightarrow>
      textStep out (textRuns s ! i) (messageDb s) = (next_run, db', marks) \<Longrightarrow>
      holds (proceedText (without i (textRuns s)) (textFails (textRuns s ! i)) (committedText db' marks s))"
    and proceeds: "holds s \<Longrightarrow> i < length (textRuns s) \<Longrightarrow>
      textStep out (textRuns s ! i) (messageDb s) = (next_run, db', marks) \<Longrightarrow>
      holds (proceedText (without i (textRuns s)) next_run (committedText db' marks s))"
begin

lemma step_holds:
  assumes "holds s" and "input_ok x s"
  shows "holds (messagingStep out x s)"
proof (cases x)
  case (LinesChange dir on)
  then show ?thesis using changes [of s dir on] assms by (simp add: changedLines_def)
next
  case (TextContinues i d)
  show ?thesis
  proof (cases "i < length (textRuns s)")
    case True
    obtain next_run db' marks where step: "textStep out (textRuns s ! i) (messageDb s) = (next_run, db', marks)"
      by (cases "textStep out (textRuns s ! i) (messageDb s)") auto
    show ?thesis
      using fails [OF assms(1) True] fails_done [OF assms(1) True step] proceeds [OF assms(1) True step] True step TextContinues
      by (cases d) (simp_all add: committedText_def Let_def)
  qed (simp add: TextContinues assms(1))
qed (use assms begins in \<open>auto simp: starting_def\<close>)

lemma run_holds: "holds s \<Longrightarrow> inputs_ok xs s \<Longrightarrow> holds (messagingRun xs s)"
  by (induction xs arbitrary: s) (auto intro: step_holds)

end

lemma textRuns_proceedText: "textRuns (proceedText rest next_run s) = rest @ (case next_run of Inl run \<Rightarrow> [run] | Inr answer \<Rightarrow> [])"
  by (simp add: proceedText_def split: sum.split)

lemma proceedText_frame [simp]:
  "messageDb (proceedText rest next_run s) = messageDb s" "textTrace (proceedText rest next_run s) = textTrace s"
  "messageDb (beginText run s) = messageDb s" "textTrace (beginText run s) = textTrace s"
  "textRuns (beginText run s) = textRuns s @ [run]"
  "messageDb (committedText db' marks s) = db'" "textTrace (committedText db' marks s) = textTrace s @ marks"
  "textRuns (committedText db' marks s) = textRuns s"
  "messageDb (changedLines dir on s) = (messageDb s)\<lparr>directory := dir, textsOn := on\<rparr>"
  "textTrace (changedLines dir on s) = textTrace s" "textRuns (changedLines dir on s) = textRuns s"
  by (simp_all add: proceedText_def beginText_def committedText_def changedLines_def split: sum.split)

section \<open>The tables stay well formed\<close>

definition messaging_kept :: "messaging \<Rightarrow> bool" where
  "messaging_kept s \<longleftrightarrow> tables_ok (messageDb s) \<and> (\<forall>run \<in> set (textRuns s). run_kept (messageDb s) run)"

lemma run_kept_grown: "run_kept db run \<Longrightarrow> grown db db' \<Longrightarrow> run_kept db' run"
  using wait_ok_grown by (auto simp: run_kept_def split: text_run.splits)

lemma run_kept_lines: "run_kept (db\<lparr>directory := dir, textsOn := on\<rparr>) run \<longleftrightarrow> run_kept db run"
  by (simp add: run_kept_def wait_ok_def split: text_run.split pending_wait.split)

lemma starting_kept: "starting run \<Longrightarrow> run_kept db run"
  by (simp add: starting_def run_kept_def split: text_run.splits)

lemma textFails_kept: "textFails run = Inl run' \<Longrightarrow> run_kept db run'"
  by (cases run) (auto simp: run_kept_def)

lemma tables_ok_lines:
  assumes "tables_ok (messageDb s)" and "input_ok (LinesChange dir on) s"
  shows "tables_ok ((messageDb s)\<lparr>directory := dir, textsOn := on\<rparr>)"
proof -
  let ?old = "directory (messageDb s)"
  have "owner_ok ?old t \<Longrightarrow> owner_ok dir t" for t
    using assms(2) userOf_known [of ?old] by (fastforce simp: owner_ok_def split: option.splits)
  then show ?thesis using assms by (auto simp: tables_ok_def threads_ok_def)
qed

lemma kept_proceeds:
  assumes kept: "messaging_kept s" and i: "i < length (textRuns s)"
    and step: "textStep out (textRuns s ! i) (messageDb s) = (next_run, db', marks)"
    and then_run: "\<And>run. goes = Inl run \<Longrightarrow> run_kept db' run"
  shows "messaging_kept (proceedText (without i (textRuns s)) goes (committedText db' marks s))"
proof -
  have run: "run_kept (messageDb s) (textRuns s ! i)" using kept i by (simp add: messaging_kept_def)
  have "tables_ok db'" using textStep_tables [OF _ run step] kept by (simp add: messaging_kept_def)
  moreover have "run_kept db' r" if "r \<in> set (without i (textRuns s))" for r
    using set_without [OF that] kept run_kept_grown [OF _ textStep_grown [OF step]] by (simp add: messaging_kept_def)
  ultimately show ?thesis
    using then_run by (auto simp: messaging_kept_def textRuns_proceedText split: sum.split)
qed

interpretation kept: messaging_invariant messaging_kept
proof
  show "messaging_kept s \<Longrightarrow> starting run \<Longrightarrow> messaging_kept (beginText run s)" for s run
    by (simp add: messaging_kept_def starting_kept)
  show "messaging_kept s \<Longrightarrow> input_ok (LinesChange dir on) s \<Longrightarrow> messaging_kept (changedLines dir on s)" for s dir on
    using tables_ok_lines by (simp add: messaging_kept_def run_kept_lines)
  show "messaging_kept s \<Longrightarrow> i < length (textRuns s) \<Longrightarrow>
      messaging_kept (proceedText (without i (textRuns s)) (textFails (textRuns s ! i)) s)" for s i
    by (auto simp: messaging_kept_def textRuns_proceedText textFails_kept dest: set_without split: sum.split)
next
  fix s i out next_run db' marks
  assume kept: "messaging_kept s" and i: "i < length (textRuns s)"
    and step: "textStep out (textRuns s ! i) (messageDb s) = (next_run, db', marks)"
  show "messaging_kept (proceedText (without i (textRuns s)) (textFails (textRuns s ! i)) (committedText db' marks s))"
    by (rule kept_proceeds [OF kept i step]) (rule textFails_kept)
  have "run_kept (messageDb s) (textRuns s ! i)" using kept i by (simp add: messaging_kept_def)
  then show "messaging_kept (proceedText (without i (textRuns s)) next_run (committedText db' marks s))"
    using textStep_tables [OF _ _ step] kept by (intro kept_proceeds [OF kept i step]) (simp add: messaging_kept_def)
qed

section \<open>What a step does to the texts\<close>

text \<open>The result of preparing a send: a text that was not there before, pending and not suppressed when it
  is cleared.\<close>

definition prepared_ok :: "send_request \<Rightarrow> message_db \<Rightarrow> preparation \<times> message_db \<Rightarrow> bool" where
  "prepared_ok req db r \<longleftrightarrow>
     (case fst r of
        PrepPending t m \<Rightarrow> texts (snd r) = texts db @ [m] \<and> textId m \<notin> textId ` set (texts db) \<and>
          textStatus m = PENDING \<and> textProviderId m = None \<and> textThread m = threadId t \<and>
          textKey m = Some (reqKey req) \<and> activeSuppression db (threadContact t) (threadLine t) = None \<and>
          suppressions (snd r) = suppressions db
      | PrepSuppressed m \<Rightarrow> texts (snd r) = texts db @ [m] \<and> textId m \<notin> textId ` set (texts db) \<and>
          textProviderId m = None \<and> suppressions (snd r) = suppressions db
      | _ \<Rightarrow> snd r = db)"

lemma createText_fresh: "createText m db = Inr db' \<Longrightarrow> textId m \<notin> textId ` set (texts db)"
  by (auto simp: createText_def split: if_splits)

lemma createOutboundMessage_facts:
  assumes "createOutboundMessage m db = Inr db'"
  shows "texts db' = texts db @ [m]" "textId m \<notin> textId ` set (texts db)" "suppressions db' = suppressions db"
proof -
  obtain db1 where made: "createText m db = Inr db1"
    and db': "db' = changeThread (textThread m) (\<lambda>t. t\<lparr>threadMessageAt := Some (textCreatedAt m)\<rparr>) db1"
    using assms by (auto simp: createOutboundMessage_def split: sum.splits)
  have db1: "db1 = db\<lparr>texts := texts db @ [m]\<rparr>" by (rule createText_frame [OF made])
  show "texts db' = texts db @ [m]" "suppressions db' = suppressions db" by (simp_all add: db' db1)
  show "textId m \<notin> textId ` set (texts db)" by (rule createText_fresh [OF made])
qed

lemma writeOutbound_prepared:
  assumes same: "texts db = texts before" "suppressions db = suppressions before"
  shows "prepared_ok req before (writeOutbound ids now req sender t db before)"
proof -
  let ?m = "outboundText ids now req sender t (contactPhoneOf db (threadContact t))
    (activeSuppression db (threadContact t) (threadLine t))"
  show ?thesis
  proof (cases "createOutboundMessage ?m db")
    case (Inr db')
    show ?thesis
      using createOutboundMessage_facts [OF Inr] same
      by (simp add: writeOutbound_def Let_def Inr prepared_ok_def)
        (simp add: outboundText_def activeSuppression_def)
  qed (simp add: writeOutbound_def Let_def prepared_ok_def)
qed

lemma continueWith_prepared:
  assumes "\<And>x db. r = Inr (x, db) \<Longrightarrow> texts db = texts before \<and> suppressions db = suppressions before"
  shows "prepared_ok req before (continueWith ids now req sender r before)"
  using assms
  by (auto simp: continueWith_def prepared_ok_def [of req before "(_, before)"] intro!: writeOutbound_prepared
      split: sum.split resolution.split)

lemma prepareSend_prepared: "tables_ok db \<Longrightarrow> prepared_ok req db (prepareSend ids now u req sender db)"
  unfolding prepareSend_def using resolved_same resolveConversation_ok
  by (intro continueWith_prepared) metis

lemma prepareAfterWait_prepared:
  assumes "tables_ok db"
  shows "prepared_ok req db (prepareAfterWait ids now req sender w t n db)"
proof -
  have "prepared_ok req db (continueWith ids now req sender (resolveNewThread ids p sender db) db)" for p
    using resolved_same resolveNewThread_ok [OF assms] by (intro continueWith_prepared) metis
  moreover have "prepared_ok req db (continueWith ids now req sender (Inr (x, db)) db)" for x
    by (rule continueWith_prepared) simp
  ultimately show ?thesis
    by (auto simp: prepareAfterWait_def prepared_ok_def [of req db "(_, db)"] split: attempt_look.split pending_wait.split)
qed

text \<open>The message a call is sending.\<close>

fun sendingId :: "text_run \<Rightarrow> string option" where
  "sendingId (HandingOver req i) = Some i"
| "sendingId (AwaitingProvider req i) = Some i"
| "sendingId (RecordingFailure s code why i) = Some i"
| "sendingId (RecordingAcceptance req i sid) = Some i"
| "sendingId run = None"

text \<open>Every change of a text: none, a new one, what a callback decided on the row it read, or the end of the
  call that is sending one.\<close>

inductive text_change :: "text_run \<Rightarrow> text_row list \<Rightarrow> text_row list \<Rightarrow> bool" for run where
  Unchanged: "text_change run ms ms"
| Added: "textId m \<notin> textId ` set ms \<Longrightarrow> textInbound m \<or> textProviderId m = None \<Longrightarrow> text_change run ms (ms @ [m])"
| ReportedOn: "run = WritingStatus e (Some m) \<Longrightarrow>
    shouldApplyStatusTransition (textStatus m) (mapProviderStatusToMessageStatus (stStatus e)) \<Longrightarrow>
    text_change run ms (map (\<lambda>x. if textId x = textId m then applyStatus e x else x) ms)"
| SendEnded: "sendingId run = Some i \<Longrightarrow> (\<And>x. textIdentity (f x) = textIdentity x \<and> textInbound (f x) = textInbound x) \<Longrightarrow>
    (\<And>x. textStatus (f x) \<in> {ACCEPTED, FAILED, REJECTED}) \<Longrightarrow>
    text_change run ms (map (\<lambda>x. if textId x = i then f x else x) ms)"

lemma prepared_change: "prepared_ok req db r \<Longrightarrow> text_change run (texts db) (texts (snd r))"
  by (auto simp: prepared_ok_def intro: text_change.intros split: preparation.splits)

lemma inbound_change:
  assumes "tables_ok db" and "inboundTransaction ids now e db = Inr (r, db')"
  shows "text_change run (texts db) (texts db')"
proof -
  obtain db1 where e: "createEvent (inboundKey e) (inSid e) db = Inr db1"
    using assms(2) by (auto simp: inboundTransaction_def split: sum.splits)
  have same: "texts db1 = texts db" "directory db1 = directory db"
    using e by (auto simp: createEvent_def split: if_splits)
  show ?thesis
  proof (cases r)
    case QuarantinedInbound
    then have "texts db' = texts db1"
      using assms(2) e by (auto simp: inboundTransaction_def quarantineInbound_def fileInbound_def
          split: option.splits if_splits sum.splits)
    then show ?thesis by (simp add: same text_change.Unchanged)
  next
    case (FiledInbound i t w)
    then obtain line where line: "line \<in> set (numbers (directory db1))" and filed: "fileInbound ids now e line db1 = Inr (r, db')"
      using assms(2) e by (auto simp: inboundTransaction_def dest!: find_some split: option.splits if_splits)
    obtain t' db2 db3 where t: "findOrCreateFor ids (inFrom e) line db1 = Inr (t', db2)"
      and m: "createText (receivedText (freshText ids) (threadId t') now e) db2 = Inr db3"
      using filed by (auto simp: fileInbound_def split: sum.splits prod.splits)
    have "texts db2 = texts db1"
      using findOrCreateFor_ok [OF createEvent_ok [OF assms(1) e] line t] by (metis message_db.select_convs(5) message_db.surjective message_db.update_convs(3,4))
    moreover have "texts db' = texts db3"
      using filed t m by (auto simp: fileInbound_def linkEvent_def)
    ultimately show ?thesis
      using createText_frame [OF m] createText_fresh [OF m] by (auto simp: same receivedText_def intro!: text_change.Added)
  qed
qed

lemma textOfProvider_known: "textOfProvider db sid = Some m \<Longrightarrow> m \<in> set (texts db) \<and> textProviderId m = Some sid"
  by (auto simp: textOfProvider_def dest: find_some)

lemma status_change:
  assumes "writeStatus e found db = Inr (r, db')" and run: "run = WritingStatus e found"
  shows "text_change run (texts db) (texts db')"
proof -
  obtain db1 where e: "createEvent (statusDedupeKey e) (stSid e) db = Inr db1"
    using assms by (auto simp: writeStatus_def split: sum.splits)
  have same: "texts db1 = texts db" using e by (auto simp: createEvent_def split: if_splits)
  show ?thesis
  proof (cases found)
    case None
    then show ?thesis using assms e same by (auto simp: writeStatus_def intro: text_change.Unchanged)
  next
    case (Some m)
    have "texts db' = texts db \<or>
        (shouldApplyStatusTransition (textStatus m) (mapProviderStatusToMessageStatus (stStatus e)) \<and>
         texts db' = map (\<lambda>x. if textId x = textId m then applyStatus e x else x) (texts db))"
      using assms e Some same by (auto simp: writeStatus_def Let_def linkEvent_def changeText_def split: if_splits)
    then show ?thesis
      using text_change.ReportedOn [of run e m "texts db"] run Some by (auto simp: text_change.Unchanged)
  qed
qed

lemma textStep_change:
  assumes ok: "tables_ok db" and kept: "run_kept db run" and step: "textStep out run db = (next_run, db', marks)"
  shows "text_change run (texts db) (texts db')"
proof (cases run)
  case (Preparing u req sender)
  then have "db' = db \<or> db' = snd (prepareSend (textIds out) (textClock out) u req sender db)"
    using step by (auto split: option.splits prod.splits)
  then show ?thesis
    using prepared_change [OF prepareSend_prepared [OF ok]] text_change.Unchanged by metis
next
  case (Settling req sender w t n)
  then have "db' = db \<or> db' = snd (prepareAfterWait (textIds out) (textClock out) req sender w t n db)"
    using step by (auto split: option.splits prod.splits)
  then show ?thesis
    using prepared_change [OF prepareAfterWait_prepared [OF ok]] text_change.Unchanged by metis
next
  case (RecordingFailure s code why i)
  then show ?thesis
    using step kept
    by (auto simp: changeText_def run_kept_def recordProviderFailure_def textIdentity_def intro!: text_change.SendEnded)
next
  case (RecordingAcceptance req i sid)
  then show ?thesis
    using step
    by (auto simp: acceptText_def changeText_def recordAcceptance_def textIdentity_def intro: text_change.Unchanged
        intro!: text_change.SendEnded split: sum.splits if_splits)
qed (use step in \<open>auto simp: Let_def intro: text_change.Unchanged inbound_change [OF ok] status_change
      split: option.splits sum.splits prod.splits if_splits\<close>)

section \<open>Drafts that are sent\<close>

definition clearedIds :: "text_mark list \<Rightarrow> string list" where
  "clearedIds tr = List.map_filter (\<lambda>k. case k of Cleared i t c l key \<Rightarrow> Some i | _ \<Rightarrow> None) tr"

definition handedIds :: "text_mark list \<Rightarrow> string list" where
  "handedIds tr = List.map_filter (\<lambda>k. case k of HandedOver i \<Rightarrow> Some i | _ \<Rightarrow> None) tr"

definition sendingIds :: "text_run list \<Rightarrow> string list" where
  "sendingIds runs = List.map_filter sendingId runs"

lemma trace_ids [simp]:
  "clearedIds [] = []" "clearedIds (a @ b) = clearedIds a @ clearedIds b" "clearedIds [Cleared i t c l key] = [i]"
  "clearedIds [HandedOver i] = []" "handedIds [] = []" "handedIds (a @ b) = handedIds a @ handedIds b"
  "handedIds [HandedOver i] = [i]" "handedIds [Cleared i t c l key] = []"
  by (simp_all add: clearedIds_def handedIds_def map_filter_def)

lemma sendingIds_simps [simp]:
  "sendingIds [] = []" "sendingIds (a @ b) = sendingIds a @ sendingIds b"
  "sendingIds [run] = (case sendingId run of None \<Rightarrow> [] | Some i \<Rightarrow> [i])"
  "sendingIds (run # runs) = (case sendingId run of None \<Rightarrow> [] | Some i \<Rightarrow> [i]) @ sendingIds runs"
  by (simp_all add: sendingIds_def map_filter_def split: option.split)

lemma in_sendingIds: "i \<in> set (sendingIds runs) \<longleftrightarrow> (\<exists>run \<in> set runs. sendingId run = Some i)"
  by (induction runs) (auto split: option.splits)

lemma in_clearedIds: "i \<in> set (clearedIds tr) \<longleftrightarrow> (\<exists>t c l key. Cleared i t c l key \<in> set tr)"
proof (induction tr)
  case (Cons k tr)
  then show ?case by (cases k) (auto simp: clearedIds_def map_filter_def)
qed (simp add: clearedIds_def map_filter_def)

lemma in_handedIds: "i \<in> set (handedIds tr) \<longleftrightarrow> HandedOver i \<in> set tr"
proof (induction tr)
  case (Cons k tr)
  then show ?case by (cases k) (auto simp: handedIds_def map_filter_def)
qed (simp add: handedIds_def map_filter_def)

text \<open>The text of a call that is sending is still pending, and no provider knows it.\<close>

definition pendingText :: "message_db \<Rightarrow> string \<Rightarrow> bool" where
  "pendingText db i \<longleftrightarrow> (\<exists>m \<in> set (texts db). textId m = i \<and> textStatus m = PENDING \<and> textProviderId m = None)"

definition cleared_ok :: "message_db \<Rightarrow> text_mark list \<Rightarrow> bool" where
  "cleared_ok db tr \<longleftrightarrow> distinct (clearedIds tr) \<and>
     (\<forall>i t c l key. Cleared i t c l key \<in> set tr \<longrightarrow> (i, t, Some key) \<in> textIdentity ` set (texts db))"

definition handed_ok :: "text_run list \<Rightarrow> text_mark list \<Rightarrow> bool" where
  "handed_ok runs tr \<longleftrightarrow> distinct (handedIds tr) \<and> set (handedIds tr) \<subseteq> set (clearedIds tr) \<and>
     (\<forall>req i. HandingOver req i \<in> set runs \<longrightarrow> i \<notin> set (handedIds tr))"

definition sending_ok :: "message_db \<Rightarrow> text_run list \<Rightarrow> text_mark list \<Rightarrow> bool" where
  "sending_ok db runs tr \<longleftrightarrow> distinct (sendingIds runs) \<and>
     (\<forall>i \<in> set (sendingIds runs). pendingText db i \<and> i \<in> set (clearedIds tr))"

text \<open>The row a callback read is about a message the provider has accepted, whatever became of it since.\<close>

definition read_ok :: "message_db \<Rightarrow> text_run \<Rightarrow> bool" where
  "read_ok db run \<longleftrightarrow> (\<forall>e m. run = WritingStatus e (Some m) \<longrightarrow>
     (\<exists>x \<in> set (texts db). textId x = textId m \<and> textProviderId x = Some (stSid e) \<and> textInbound x = textInbound m))"

definition sends_ok :: "messaging \<Rightarrow> bool" where
  "sends_ok s \<longleftrightarrow> messaging_kept s \<and> cleared_ok (messageDb s) (textTrace s) \<and>
     handed_ok (textRuns s) (textTrace s) \<and> sending_ok (messageDb s) (textRuns s) (textTrace s) \<and>
     (\<forall>run \<in> set (textRuns s). read_ok (messageDb s) run)"

text \<open>What a step marks, and what it leads to: the call goes on sending what it was sending, hands it over,
  or starts to send a text it has just written.\<close>

datatype sending_step = GoesOn | HandsOver send_request string | StartsSending send_request thread text_row

definition cleared_by :: "send_request \<Rightarrow> thread \<Rightarrow> text_row \<Rightarrow> message_db \<Rightarrow> message_db \<Rightarrow> bool" where
  "cleared_by req t m db db' \<longleftrightarrow> texts db' = texts db @ [m] \<and> textId m \<notin> textId ` set (texts db) \<and>
     textStatus m = PENDING \<and> textProviderId m = None \<and> textThread m = threadId t \<and> textKey m = Some (reqKey req) \<and>
     activeSuppression db (threadContact t) (threadLine t) = None \<and> suppressions db' = suppressions db"

fun step_marks :: "text_run \<Rightarrow> message_db \<Rightarrow> text_run + text_answer \<Rightarrow> message_db \<Rightarrow> text_mark list \<Rightarrow> sending_step \<Rightarrow> bool" where
  "step_marks run db next_run db' marks GoesOn \<longleftrightarrow> clearedIds marks = [] \<and> handedIds marks = [] \<and>
     (\<forall>r. next_run = Inl r \<longrightarrow> sendingId r \<noteq> None \<longrightarrow>
        sendingId r = sendingId run \<and> texts db' = texts db \<and> (\<forall>req i. r \<noteq> HandingOver req i))"
| "step_marks run db next_run db' marks (HandsOver req i) \<longleftrightarrow> run = HandingOver req i \<and> marks = [HandedOver i] \<and>
     next_run = Inl (AwaitingProvider req i) \<and> db' = db"
| "step_marks run db next_run db' marks (StartsSending req t m) \<longleftrightarrow> sendingId run = None \<and>
     marks = [Cleared (textId m) (threadId t) (threadContact t) (threadLine t) (reqKey req)] \<and>
     next_run = Inl (HandingOver req (textId m)) \<and> cleared_by req t m db db'"

lemma preparation_marks:
  assumes "prepared_ok req db (prepared, db')" and "afterPreparation req sender n prepared = (next_run, marks)" and "sendingId run = None"
  shows "\<exists>kind. step_marks run db next_run db' marks kind"
proof (cases prepared)
  case (PrepPending t m)
  then have "step_marks run db next_run db' marks (StartsSending req t m)"
    using assms by (auto simp: prepared_ok_def cleared_by_def)
  then show ?thesis ..
qed (use assms in \<open>auto intro!: exI [of _ GoesOn]\<close>)

lemma afterInbound_marks:
  "clearedIds (snd (afterInbound e r)) = []" "handedIds (snd (afterInbound e r)) = []"
  "fst (afterInbound e r) = Inl run \<Longrightarrow> sendingId run = None"
  by (cases r; auto simp: clearedIds_def handedIds_def map_filter_def split: option.split opt_out.split if_splits)+

lemma afterStatus_idle: "afterStatus r = Inl run \<Longrightarrow> sendingId run = None"
  by (cases r rule: afterStatus.cases) (auto split: if_splits)

lemma afterProvider_sends: "afterProvider req i a = Inl run \<Longrightarrow> sendingId run = Some i \<and> (\<forall>req i. run \<noteq> HandingOver req i)"
  by (cases a) auto

lemma textStep_marks:
  assumes ok: "tables_ok db" and step: "textStep out run db = (next_run, db', marks)"
  shows "\<exists>kind. step_marks run db next_run db' marks kind"
proof (cases run)
  case (Preparing u req sender)
  show ?thesis
  proof (cases "rolledBack out")
    case None
    let ?p = "prepareSend (textIds out) (textClock out) u req sender db"
    have "prepared_ok req db (fst ?p, db')" and "afterPreparation req sender 0 (fst ?p) = (next_run, marks)"
      using step Preparing None prepareSend_prepared [OF ok, of req "textIds out" "textClock out" u sender]
      by (auto split: prod.splits)
    then show ?thesis by (rule preparation_marks) (simp add: Preparing)
  next
    case (Some x)
    let ?p = "prepareRolledBack (fst x) (snd x) (resolveConversation (textIds out) u req sender db)"
    have "prepared_ok req db (?p, db)"
      by (auto simp: prepareRolledBack_def prepared_ok_def split: sum.split resolution.split)
    moreover have "db' = db" and "afterPreparation req sender 0 ?p = (next_run, marks)"
      using step Preparing Some by (auto split: prod.splits)
    ultimately show ?thesis using preparation_marks [of req db ?p db' sender 0 next_run marks run] by (simp add: Preparing)
  qed
next
  case (Settling req sender w t n)
  show ?thesis
  proof (cases "rolledBack out")
    case None
    let ?p = "prepareAfterWait (textIds out) (textClock out) req sender w t n db"
    have "prepared_ok req db (fst ?p, db')" and "afterPreparation req sender n (fst ?p) = (next_run, marks)"
      using step Settling None prepareAfterWait_prepared [OF ok, of req "textIds out" "textClock out" sender w t n]
      by (auto split: prod.splits)
    then show ?thesis by (rule preparation_marks) (simp add: Settling)
  next
    case (Some x)
    then show ?thesis using step Settling by (intro exI [of _ GoesOn]) (auto split: prod.splits)
  qed
next
  case (HandingOver req i)
  then show ?thesis using step by (intro exI [of _ "HandsOver req i"]) auto
next
  case (AwaitingProvider req i)
  then show ?thesis
    using step by (intro exI [of _ GoesOn]) (auto dest: afterProvider_sends)
next
  case (ReceivingInbound e firstTime)
  then show ?thesis
    using step
    by (intro exI [of _ GoesOn])
      (auto simp: afterInbound_marks afterInboundError_def dest: afterInbound_marks(3)
        split: option.splits sum.splits prod.splits if_splits write_failure.splits)
next
  case (WritingStatus e found)
  then show ?thesis
    using step
    by (intro exI [of _ GoesOn])
      (auto simp: afterStatusError_def dest: afterStatus_idle split: option.splits sum.splits prod.splits if_splits)
next
  case (PublishingActivity t kind users answer)
  then show ?thesis using step by (intro exI [of _ GoesOn]) (auto simp: clearedIds_def handedIds_def map_filter_def)
qed (use step in \<open>auto simp: Let_def afterStatusError_def intro!: exI [of _ GoesOn]
      split: option.splits sum.splits prod.splits if_splits media_answer.splits\<close>)

section \<open>The invariant of the sends\<close>

lemma same_text:
  assumes "tables_ok db" and "m \<in> set (texts db)" and "m' \<in> set (texts db)" and "textId m = textId m'"
  shows "m = m'"
  using assms by (auto simp: tables_ok_def texts_ok_def distinct_map inj_on_def)

lemma pending_changed:
  assumes ok: "tables_ok db" and change: "text_change run (texts db) (texts db')" and read: "read_ok db run"
    and pending: "pendingText db i" and other: "sendingId run \<noteq> Some i"
  shows "pendingText db' i"
proof -
  obtain m where m: "m \<in> set (texts db)" "textId m = i" "textStatus m = PENDING" "textProviderId m = None"
    using pending by (auto simp: pendingText_def)
  have "m \<in> set (texts db')"
    using change
  proof cases
    case (ReportedOn e x)
    then obtain y where "y \<in> set (texts db)" "textId y = textId x" "textProviderId y \<noteq> None"
      using read by (auto simp: read_ok_def)
    then have "textId x \<noteq> i" using same_text [OF ok m(1)] m by metis
    then show ?thesis using ReportedOn m by (auto simp: image_iff)
  next
    case (SendEnded j f)
    then show ?thesis using other m by (auto simp: image_iff)
  qed (use m in auto)
  then show ?thesis using m by (auto simp: pendingText_def)
qed

text \<open>Another call's read stays about the same message: an accepted message keeps its provider id.\<close>

lemma accepted_changed:
  assumes ok: "tables_ok db" and change: "text_change run (texts db) (texts db')"
    and sending: "\<And>i. sendingId run = Some i \<Longrightarrow> pendingText db i"
    and x: "x \<in> set (texts db)" "textProviderId x \<noteq> None"
  shows "\<exists>y \<in> set (texts db'). textId y = textId x \<and> textProviderId y = textProviderId x \<and> textInbound y = textInbound x \<and>
    (y = x \<or> (\<exists>e m. run = WritingStatus e (Some m) \<and> textId m = textId x))"
  using change
proof cases
  case (ReportedOn e m)
  let ?y = "if textId x = textId m then applyStatus e x else x"
  have "?y \<in> set (texts db')" using x(1) ReportedOn(2) by (simp only: ReportedOn(1) set_map) blast
  then show ?thesis using ReportedOn by (intro bexI [of _ ?y]) (auto simp: applyStatus_def Let_def)
next
  case (SendEnded j f)
  then have "pendingText db j" using sending by blast
  then have "textId x \<noteq> j" using same_text [OF ok x(1)] x(2) by (auto simp: pendingText_def)
  then have "x \<in> set (texts db')" using SendEnded(1) x(1) by (force simp: image_iff)
  then show ?thesis by blast
qed (use x in auto)

lemma textFails_idle: "textFails run = Inl r \<Longrightarrow> sendingId r = None"
  by (cases run) auto

lemma textFails_not_handing: "HandingOver req j \<notin> set (case textFails run of Inl r \<Rightarrow> [r] | Inr answer \<Rightarrow> [])"
  by (cases run) auto

lemma textFails_no_sending: "sendingIds (case textFails run of Inl r \<Rightarrow> [r] | Inr answer \<Rightarrow> []) = []"
  using textFails_idle [of run] by (auto split: sum.split option.split)

lemma afterInbound_reads: "fst (afterInbound x r) \<noteq> Inl (WritingStatus e found)"
  by (cases r) auto

lemma textStep_reads:
  assumes "textStep out run db = (Inl (WritingStatus e found), db', marks)"
  shows "run = ReceivingStatus e \<and> db' = db \<and> found = textOfProvider db (stSid e)"
  using assms
proof (cases run)
  case (ReceivingStatus x)
  then show ?thesis
    using assms
    by (auto simp: readStatus_def createEvent_def textOfProvider_def afterStatusError_def
        split: option.splits sum.splits prod.splits if_splits)
next
  case (Preparing u req sender)
  then show ?thesis using assms by (auto split: prod.splits option.splits elim!: afterPreparation.elims)
next
  case (Settling req sender w t n)
  then show ?thesis using assms by (auto split: prod.splits option.splits elim!: afterPreparation.elims)
next
  case (AwaitingProvider req i)
  then show ?thesis using assms by (auto elim!: afterProvider.elims)
next
  case (ReceivingInbound x firstTime)
  then show ?thesis
    using assms afterInbound_reads
    by (auto simp: afterInboundError_def split: option.splits sum.splits prod.splits write_failure.splits if_splits)
next
  case (WritingStatus x found)
  then show ?thesis
    using assms by (auto simp: afterStatusError_def elim!: afterStatus.elims
        split: option.splits sum.splits prod.splits if_splits)
qed (auto simp: Let_def split: option.splits sum.splits prod.splits if_splits media_answer.splits)

lemma textFails_not_writing: "textFails run \<noteq> Inl (WritingStatus e found)"
  by (cases run) auto

text \<open>The reads of a call's next step, and of the calls that wait meanwhile.\<close>

lemma read_goes:
  assumes step: "textStep out run db = (next_run, db', marks)" and goes: "goes = next_run \<or> goes = textFails run"
    and r: "goes = Inl r"
  shows "read_ok db' r"
  unfolding read_ok_def
proof (intro allI impI)
  fix e m
  assume w: "r = WritingStatus e (Some m)"
  then have "next_run = Inl r" using goes r textFails_not_writing [of run e "Some m"] by auto
  then have "db' = db \<and> textOfProvider db (stSid e) = Some m"
    using textStep_reads [of out run db e "Some m" db' marks] step w by auto
  then show "\<exists>x \<in> set (texts db'). textId x = textId m \<and> textProviderId x = Some (stSid e) \<and> textInbound x = textInbound m"
    using textOfProvider_known [of db "stSid e" m] by auto
qed

lemma read_waits:
  assumes ok: "tables_ok db" and change: "text_change run (texts db) (texts db')"
    and sending: "\<And>i. sendingId run = Some i \<Longrightarrow> pendingText db i" and r: "read_ok db r"
  shows "read_ok db' r"
  unfolding read_ok_def
proof (intro allI impI)
  fix e m
  assume "r = WritingStatus e (Some m)"
  then obtain x where x: "x \<in> set (texts db)" "textId x = textId m" "textProviderId x = Some (stSid e)" "textInbound x = textInbound m"
    using r by (auto simp: read_ok_def)
  then show "\<exists>x \<in> set (texts db'). textId x = textId m \<and> textProviderId x = Some (stSid e) \<and> textInbound x = textInbound m"
    using accepted_changed [OF ok change sending x(1)] by auto
qed

lemma handing_sends: "HandingOver req i \<in> set runs \<Longrightarrow> i \<in> set (sendingIds runs)"
  unfolding in_sendingIds by (rule bexI [of _ "HandingOver req i"]) simp_all

lemma grown_identities: "grown db db' \<Longrightarrow> textIdentity ` set (texts db) \<subseteq> textIdentity ` set (texts db')"
  unfolding grown_def set_map [symmetric] by (intro set_mono_prefix) simp

lemma cleared_known: "cleared_ok db tr \<Longrightarrow> i \<in> set (clearedIds tr) \<Longrightarrow> i \<in> textId ` set (texts db)"
  unfolding in_clearedIds cleared_ok_def textIdentity_def by fastforce

lemma cleared_proceeds:
  assumes tr: "cleared_ok db tr" and grows: "grown db db'" and kind: "step_marks run db next_run db' marks kind"
  shows "cleared_ok db' (tr @ marks)"
proof -
  have old: "(i, t, Some key) \<in> textIdentity ` set (texts db')" if "Cleared i t c l key \<in> set tr" for i t c l key
    using that tr grown_identities [OF grows] by (auto simp: cleared_ok_def)
  note known = cleared_known [OF tr]
  show ?thesis
  proof (cases kind)
    case GoesOn
    then have none: "clearedIds marks = []" using kind by simp
    then have "Cleared i t c l key \<notin> set marks" for i t c l key using in_clearedIds [of i marks] by auto
    then show ?thesis using tr old none by (auto simp: cleared_ok_def)
  next
    case (HandsOver req i)
    then show ?thesis using kind tr old by (auto simp: cleared_ok_def)
  next
    case (StartsSending req t m)
    then have new: "cleared_by req t m db db'"
      and marks: "marks = [Cleared (textId m) (threadId t) (threadContact t) (threadLine t) (reqKey req)]" using kind by auto
    have "textId m \<notin> set (clearedIds tr)" using new known by (auto simp: cleared_by_def)
    moreover have "(textId m, threadId t, Some (reqKey req)) \<in> textIdentity ` set (texts db')"
      using new by (auto simp: cleared_by_def textIdentity_def)
    ultimately show ?thesis using tr old marks by (auto simp: cleared_ok_def)
  qed
qed

lemma split_runs: "i < length xs \<Longrightarrow> \<exists>A B. xs = A @ xs ! i # B \<and> without i xs = A @ B"
  using split_without [of i xs] by (auto simp: without_def)

lemma sends_proceeds:
  assumes s: "sends_ok s" and i: "i < length (textRuns s)"
    and step: "textStep out (textRuns s ! i) (messageDb s) = (next_run, db', marks)"
    and goes: "goes = next_run \<or> goes = textFails (textRuns s ! i)"
    and kept': "messaging_kept (proceedText (without i (textRuns s)) goes (committedText db' marks s))"
  shows "sends_ok (proceedText (without i (textRuns s)) goes (committedText db' marks s))"
proof -
  define run where "run = textRuns s ! i"
  let ?run = run and ?tr = "textTrace s" and ?db = "messageDb s" and ?runs = "textRuns s"
  let ?after = "without i ?runs @ (case goes of Inl run \<Rightarrow> [run] | Inr answer \<Rightarrow> [])"
  obtain A B where runs: "?runs = A @ ?run # B" and rest: "without i ?runs = A @ B"
    using split_runs [OF i] run_def by blast
  note step = step [folded run_def] and goes = goes [folded run_def]
  have kept: "messaging_kept s" and cleared: "cleared_ok ?db ?tr" and handed: "handed_ok ?runs ?tr"
    and sending: "sending_ok ?db ?runs ?tr" using s by (simp_all add: sends_ok_def)
  have ok: "tables_ok ?db" and run: "run_kept ?db ?run" using kept i by (simp_all add: messaging_kept_def run_def)
  have grows: "grown ?db db'" by (rule textStep_grown [OF step])
  have change: "text_change ?run (texts ?db) (texts db')" by (rule textStep_change [OF ok run step])
  obtain kind where kind: "step_marks ?run ?db next_run db' marks kind" using textStep_marks [OF ok step] by blast
  have reads: "read_ok ?db r" if "r \<in> set ?runs" for r using that s by (simp add: sends_ok_def)
  have own_read: "read_ok ?db ?run" using reads runs by simp
  have own_pending: "pendingText ?db j" if "sendingId ?run = Some j" for j
    using that sending runs by (auto simp: sending_ok_def)
  have others: "sendingId ?run \<noteq> Some j" if "j \<in> set (sendingIds (A @ B))" for j
    using sending that by (auto simp: sending_ok_def runs)
  have pending: "pendingText db' j \<and> j \<in> set (clearedIds ?tr)" if "j \<in> set (sendingIds (A @ B))" for j
  proof -
    have "j \<in> set (sendingIds ?runs)" using that runs by auto
    then show ?thesis using sending pending_changed [OF ok change own_read _ others [OF that]] by (auto simp: sending_ok_def)
  qed
  note idle = textFails_no_sending [of ?run]
  have dist: "distinct (sendingIds (A @ B))"
    using sending by (auto simp: sending_ok_def runs)
  have own: "j \<in> set (sendingIds ?runs)" if "sendingId ?run = Some j" for j
    using that runs by simp
  note clearedKnown = cleared_known [OF cleared]
  have sendingAfter: "sending_ok db' ?after (?tr @ marks)"
  proof (cases "goes = next_run")
    case False
    then show ?thesis using goes idle dist pending by (auto simp: sending_ok_def rest)
  next
    case True
    show ?thesis
    proof (cases kind)
      case GoesOn
      have "pendingText db' j \<and> j \<in> set (clearedIds ?tr) \<and> j \<notin> set (sendingIds (A @ B))"
        if "next_run = Inl r" "sendingId r = Some j" for r j
      proof -
        have "sendingId ?run = Some j" "texts db' = texts ?db" using kind GoesOn that by auto
        then show ?thesis using own sending others by (auto simp: sending_ok_def pendingText_def)
      qed
      then show ?thesis using True dist pending by (auto simp: sending_ok_def rest split: sum.split option.split)
    next
      case (HandsOver req j)
      then have "sendingId ?run = Some j" "db' = ?db" "next_run = Inl (AwaitingProvider req j)" using kind by auto
      then show ?thesis using True dist pending own sending others by (auto simp: sending_ok_def rest)
    next
      case (StartsSending req t m)
      then have new: "cleared_by req t m ?db db'" and next_run: "next_run = Inl (HandingOver req (textId m))"
        and marks: "clearedIds marks = [textId m]" using kind by auto
      have "pendingText db' (textId m)" using new by (auto simp: cleared_by_def pendingText_def)
      moreover have "textId m \<notin> set (sendingIds (A @ B))" using new pending clearedKnown by (auto simp: cleared_by_def)
      ultimately show ?thesis using True dist pending next_run marks by (auto simp: sending_ok_def rest)
    qed
  qed
  have handedAfter: "handed_ok ?after (?tr @ marks)"
  proof -
    have old: "HandingOver req j \<in> set (A @ B) \<Longrightarrow> j \<notin> set (handedIds ?tr)" for req j
      using handed by (auto simp: handed_ok_def runs)
    note failing = textFails_not_handing [of _ _ ?run]
    show ?thesis
    proof (cases kind)
      case GoesOn
      have "HandingOver req j \<notin> set (case next_run of Inl run \<Rightarrow> [run] | Inr answer \<Rightarrow> [])" for req j
        using kind GoesOn by (auto split: sum.split)
      then show ?thesis using handed goes old failing kind GoesOn by (auto simp: handed_ok_def rest)
    next
      case (HandsOver req j)
      have j: "sendingId ?run = Some j" "j \<notin> set (handedIds ?tr)" "j \<in> set (clearedIds ?tr)"
        using kind HandsOver handed own sending runs by (auto simp: handed_ok_def sending_ok_def)
      moreover have "HandingOver req' k \<in> set (A @ B) \<Longrightarrow> k \<noteq> j" for req' k
        using others [OF handing_sends] j by blast
      ultimately show ?thesis using handed goes old failing kind HandsOver by (auto simp: handed_ok_def rest)
    next
      case (StartsSending req t m)
      then have new: "cleared_by req t m ?db db'" and next_run: "next_run = Inl (HandingOver req (textId m))"
        and marks: "clearedIds marks = [textId m]" "handedIds marks = []" using kind by auto
      have "textId m \<notin> set (handedIds ?tr)" using handed clearedKnown new by (auto simp: handed_ok_def cleared_by_def)
      then show ?thesis using handed goes old failing next_run marks by (auto simp: handed_ok_def rest)
    qed
  qed
  have readAfter: "read_ok db' r" if "r \<in> set ?after" for r
  proof -
    have "r \<in> set ?runs \<or> goes = Inl r" using that runs rest by (auto split: sum.splits)
    then show ?thesis using reads read_waits [OF ok change own_pending] read_goes [OF step goes] by blast
  qed
  show ?thesis
    using kept' sendingAfter handedAfter cleared_proceeds [OF cleared grows kind] readAfter
    by (simp add: sends_ok_def textRuns_proceedText)
qed

lemma sends_idle:
  assumes "sends_ok s" and "messaging_kept s'" and same: "messageDb s' = messageDb s" "textTrace s' = textTrace s"
    and runs: "textRuns s = A @ mid @ B" "textRuns s' = A @ B @ new" and idle: "sendingIds new = []"
    and unread: "\<And>e found. WritingStatus e found \<notin> set new"
  shows "sends_ok s'"
proof -
  have "HandingOver req j \<notin> set new" for req j
    using idle handing_sends [of req j new] by auto
  moreover have "read_ok db r" if "r \<in> set new" for db r
    using that unread by (auto simp: read_ok_def)
  ultimately show ?thesis
    using assms(1,2) by (auto simp: sends_ok_def sending_ok_def handed_ok_def same runs idle)
qed

lemma starting_not_writing: "starting run \<Longrightarrow> run \<noteq> WritingStatus e found"
  by (auto simp: starting_def)

lemma starting_idle: "starting run \<Longrightarrow> sendingId run = None"
  by (simp add: starting_def split: text_run.splits)

interpretation sends: messaging_invariant sends_ok
proof
  show "sends_ok s \<Longrightarrow> starting run \<Longrightarrow> sends_ok (beginText run s)" for s run
    by (rule sends_idle [where A = "textRuns s" and mid = "[]" and B = "[]" and new = "[run]"])
      (use starting_not_writing [of run] in \<open>auto simp: starting_idle kept.begins sends_ok_def\<close>)
  show "sends_ok s \<Longrightarrow> input_ok (LinesChange dir on) s \<Longrightarrow> sends_ok (changedLines dir on s)" for s dir on
    using kept.changes [of s dir on]
    by (simp add: sends_ok_def cleared_ok_def sending_ok_def pendingText_def read_ok_def)
  show "sends_ok (proceedText (without i (textRuns s)) (textFails (textRuns s ! i)) s)"
    if s: "sends_ok s" and i: "i < length (textRuns s)" for s i
  proof -
    obtain A B where "textRuns s = A @ [textRuns s ! i] @ B" "without i (textRuns s) = A @ B"
      using split_runs [OF i] by auto
    then show ?thesis
      using s kept.fails [of s i] i textFails_no_sending [of "textRuns s ! i"]
      by (intro sends_idle [OF s, where A = A and mid = "[textRuns s ! i]" and B = B])
        (auto simp: sends_ok_def textRuns_proceedText textFails_not_writing split: sum.splits)
  qed
next
  fix s i out next_run db' marks
  assume s: "sends_ok s" and i: "i < length (textRuns s)"
    and step: "textStep out (textRuns s ! i) (messageDb s) = (next_run, db', marks)"
  have kept: "messaging_kept s" using s by (simp add: sends_ok_def)
  show "sends_ok (proceedText (without i (textRuns s)) (textFails (textRuns s ! i)) (committedText db' marks s))"
    by (rule sends_proceeds [OF s i step _ kept.fails_done [OF kept i step]]) simp
  show "sends_ok (proceedText (without i (textRuns s)) next_run (committedText db' marks s))"
    by (rule sends_proceeds [OF s i step _ kept.proceeds [OF kept i step]]) simp
qed

definition atRest :: "messaging \<Rightarrow> bool" where
  "atRest s \<longleftrightarrow> tables_ok (messageDb s) \<and> textRuns s = [] \<and> textTrace s = []"

lemma atRest_sends: "atRest s \<Longrightarrow> sends_ok s"
  by (simp add: atRest_def sends_ok_def messaging_kept_def cleared_ok_def handed_ok_def sending_ok_def)


lemma cleared_drafts:
  assumes tables: "tables_ok db" and cleared: "cleared_ok db tr"
    and marks: "Cleared i t c l key \<in> set tr" "Cleared j t c' l' key \<in> set tr"
  shows "i = j"
proof -
  obtain m where m: "m \<in> set (texts db)" "textId m = i" "textThread m = t" "textKey m = Some key"
    using marks(1) cleared unfolding cleared_ok_def textIdentity_def by fastforce
  obtain m' where m': "m' \<in> set (texts db)" "textId m' = j" "textThread m' = t" "textKey m' = Some key"
    using marks(2) cleared unfolding cleared_ok_def textIdentity_def by fastforce
  have "inj_on (\<lambda>m. (textThread m, textKey m)) (set (filter (\<lambda>m. textKey m \<noteq> None) (texts db)))"
    using tables by (simp add: tables_ok_def texts_ok_def distinct_map)
  then have "m = m'" using m m' by (auto simp: inj_on_def)
  then show ?thesis using m m' by simp
qed

text \<open>C17. However sends, retries, inbound messages, callbacks and changes of lines interleave, a draft is
  handed to the provider at most once in a thread: no two messages handed over share a thread and a key,
  and none is handed over twice.\<close>

theorem drafts_are_sent_once:
  assumes "atRest s" and "inputs_ok xs s"
    and "textTrace (messagingRun xs s) = before @ HandedOver i # between @ HandedOver j # after"
    and "Cleared i t c l key \<in> set (textTrace (messagingRun xs s))"
  shows "Cleared j t c' l' key \<notin> set (textTrace (messagingRun xs s))"
proof
  assume other: "Cleared j t c' l' key \<in> set (textTrace (messagingRun xs s))"
  have ok: "sends_ok (messagingRun xs s)" by (rule sends.run_holds [OF atRest_sends [OF assms(1)] assms(2)])
  then have "tables_ok (messageDb (messagingRun xs s))" by (simp add: sends_ok_def messaging_kept_def)
  then have "i = j" using ok cleared_drafts [OF _ _ assms(4) other] by (simp add: sends_ok_def)
  moreover have "distinct (handedIds (textTrace (messagingRun xs s)))" using ok by (simp add: sends_ok_def handed_ok_def)
  ultimately show False by (simp add: assms(3) handedIds_def map_filter_def)
qed

section \<open>Opt-outs\<close>

























section \<open>The status of a text\<close>

text \<open>How far a message has come: not accepted by the provider, accepted, or settled.\<close>

fun progressOf :: "text_status \<Rightarrow> nat" where
  "progressOf ACCEPTED = 1"
| "progressOf DELIVERED = 2"
| "progressOf FAILED = 2"
| "progressOf REJECTED = 2"
| "progressOf x = 0"

text \<open>Where a status can go when callbacks come one by one: an accepted message can be delivered or fail, a
  failed one can only turn out to be delivered after all, and delivery is the end.\<close>

fun forwardStatus :: "text_status \<Rightarrow> text_status \<Rightarrow> bool" where
  "forwardStatus DELIVERED b \<longleftrightarrow> b = DELIVERED"
| "forwardStatus FAILED b \<longleftrightarrow> b \<in> {FAILED, DELIVERED}"
| "forwardStatus REJECTED b \<longleftrightarrow> b \<in> {REJECTED, DELIVERED}"
| "forwardStatus ACCEPTED b \<longleftrightarrow> b \<in> {ACCEPTED, DELIVERED, FAILED, REJECTED}"
| "forwardStatus a b \<longleftrightarrow> b = a \<or> b \<in> {ACCEPTED, DELIVERED, FAILED, REJECTED}"

lemma forwardStatus_refl [simp]: "forwardStatus a a"
  by (cases a) auto

lemma forwardStatus_trans: "forwardStatus a b \<Longrightarrow> forwardStatus b c \<Longrightarrow> forwardStatus a c"
  by (cases a; cases b) auto

lemma transition_forward: "shouldApplyStatusTransition a (mapProviderStatusToMessageStatus x) \<Longrightarrow>
    forwardStatus a (mapProviderStatusToMessageStatus x)"
  by (cases x; cases a) (auto simp: shouldApplyStatusTransition_def)

text \<open>Decided on a message the provider had accepted, a callback settles it, even if it decided long ago.\<close>

lemma transition_settles: "shouldApplyStatusTransition a (mapProviderStatusToMessageStatus x) \<Longrightarrow> 0 < progressOf a \<Longrightarrow>
    progressOf (mapProviderStatusToMessageStatus x) = 2"
  by (cases x; cases a) (auto simp: shouldApplyStatusTransition_def)

lemma progressOf_max: "progressOf a \<le> 2"
  by (cases a) auto

lemma mapped_accepted: "0 < progressOf (mapProviderStatusToMessageStatus x)"
  by (cases x) auto

text \<open>What a step makes of a text.\<close>

definition changed_as :: "text_run \<Rightarrow> text_row \<Rightarrow> text_row \<Rightarrow> bool" where
  "changed_as run x y \<longleftrightarrow> y = x \<or>
     (\<exists>e m. run = WritingStatus e (Some m) \<and> textId m = textId x \<and> y = applyStatus e x \<and>
        shouldApplyStatusTransition (textStatus m) (mapProviderStatusToMessageStatus (stStatus e))) \<or>
     (sendingId run = Some (textId x) \<and> textIdentity y = textIdentity x \<and> textInbound y = textInbound x \<and>
        textStatus y \<in> {ACCEPTED, FAILED, REJECTED})"

lemma changed_mapped:
  assumes "ms' = map f ms" and "\<And>x. changed_as run x (f x)"
  shows "x \<in> set ms \<Longrightarrow> \<exists>y \<in> set ms'. changed_as run x y" and "y \<in> set ms' \<Longrightarrow> \<exists>x \<in> set ms. changed_as run x y"
  unfolding assms(1) using assms(2) by auto

lemma changed_rows:
  assumes change: "text_change run ms ms'"
  shows "(\<forall>x \<in> set ms. \<exists>y \<in> set ms'. changed_as run x y) \<and>
    (\<forall>y \<in> set ms'. (\<exists>x \<in> set ms. changed_as run x y) \<or> textInbound y \<or> textProviderId y = None)"
  using change
proof cases
  case Unchanged
  then show ?thesis by (auto simp: changed_as_def)
next
  case (Added m)
  then show ?thesis by (auto simp: changed_as_def)
next
  case (ReportedOn e m)
  let ?f = "\<lambda>x. if textId x = textId m then applyStatus e x else x"
  have "changed_as run x (?f x)" for x using ReportedOn(2,3) by (auto simp: changed_as_def)
  then show ?thesis using changed_mapped [OF ReportedOn(1), of run] by blast
next
  case (SendEnded i f)
  let ?f = "\<lambda>x. if textId x = i then f x else x"
  have "changed_as run x (?f x)" for x using SendEnded(2-4) by (simp add: changed_as_def)
  then show ?thesis using changed_mapped [OF SendEnded(1), of run] by blast
qed

lemma changed_same: "changed_as run x y \<Longrightarrow> textIdentity y = textIdentity x \<and> textInbound y = textInbound x"
  by (auto simp: changed_as_def applyStatus_def Let_def textIdentity_def)

lemma textStatus_applied [simp]: "textStatus (applyStatus e x) = mapProviderStatusToMessageStatus (stStatus e)"
  by (simp add: applyStatus_def Let_def)

section \<open>A settled message stays settled\<close>

text \<open>A provider id comes with an acceptance: a message we sent that has one was accepted.\<close>

definition known_accepted :: "message_db \<Rightarrow> bool" where
  "known_accepted db \<longleftrightarrow>
     (\<forall>m \<in> set (texts db). \<not> textInbound m \<longrightarrow> textProviderId m \<noteq> None \<longrightarrow> 0 < progressOf (textStatus m))"

definition readAccepted :: "text_run \<Rightarrow> bool" where
  "readAccepted run \<longleftrightarrow>
     (case run of WritingStatus e (Some m) \<Rightarrow> \<not> textInbound m \<longrightarrow> 0 < progressOf (textStatus m) | _ \<Rightarrow> True)"

definition progressed :: "message_db \<Rightarrow> message_db \<Rightarrow> bool" where
  "progressed db db' \<longleftrightarrow> (\<forall>m \<in> set (texts db). \<exists>m' \<in> set (texts db'). textIdentity m' = textIdentity m \<and>
     textInbound m' = textInbound m \<and> (\<not> textInbound m \<longrightarrow> progressOf (textStatus m) \<le> progressOf (textStatus m')))"

lemma progressed_refl [simp]: "progressed db db"
  by (auto simp: progressed_def)

lemma progressed_trans: "progressed a b \<Longrightarrow> progressed b c \<Longrightarrow> progressed a c"
  unfolding progressed_def by (metis order_trans)

lemma row_of_read:
  assumes "sends_ok s" and "WritingStatus e (Some m) \<in> set (textRuns s)" and "x \<in> set (texts (messageDb s))" and "textId m = textId x"
  shows "textProviderId x = Some (stSid e) \<and> textInbound x = textInbound m"
proof -
  have "read_ok (messageDb s) (WritingStatus e (Some m))" using assms(1,2) by (simp add: sends_ok_def)
  then obtain y where "y \<in> set (texts (messageDb s))" "textId y = textId m" "textProviderId y = Some (stSid e)" "textInbound y = textInbound m"
    by (auto simp: read_ok_def)
  moreover have "tables_ok (messageDb s)" using assms(1) by (simp add: sends_ok_def messaging_kept_def)
  ultimately show ?thesis using same_text [of "messageDb s" y x] assms(3,4) by metis
qed

lemma row_of_send:
  assumes "sends_ok s" and "run \<in> set (textRuns s)" and "sendingId run = Some (textId x)" and "x \<in> set (texts (messageDb s))"
  shows "textStatus x = PENDING \<and> textProviderId x = None"
proof -
  have "textId x \<in> set (sendingIds (textRuns s))" using assms(2,3) in_sendingIds by metis
  then obtain y where "y \<in> set (texts (messageDb s))" "textId y = textId x" "textStatus y = PENDING" "textProviderId y = None"
    using assms(1) by (auto simp: sends_ok_def sending_ok_def pendingText_def)
  moreover have "tables_ok (messageDb s)" using assms(1) by (simp add: sends_ok_def messaging_kept_def)
  ultimately show ?thesis using same_text [of "messageDb s" y x] assms(4) by metis
qed

lemma changed_progress:
  assumes s: "sends_ok s" and run: "run \<in> set (textRuns s)" and accepted: "readAccepted run"
    and x: "x \<in> set (texts (messageDb s))" and changed: "changed_as run x y" and sent: "\<not> textInbound x"
  shows "progressOf (textStatus x) \<le> progressOf (textStatus y) \<and> (y = x \<or> 0 < progressOf (textStatus y))"
  using changed unfolding changed_as_def
proof (elim disjE exE conjE)
  fix e m
  assume w: "run = WritingStatus e (Some m)" "textId m = textId x" and y: "y = applyStatus e x"
    and goes: "shouldApplyStatusTransition (textStatus m) (mapProviderStatusToMessageStatus (stStatus e))"
  have "\<not> textInbound m" using row_of_read [OF s _ x w(2), of e] run w(1) sent by simp
  then have "progressOf (textStatus y) = 2"
    using transition_settles [OF goes] accepted by (simp add: y w readAccepted_def)
  then show ?thesis using progressOf_max [of "textStatus x"] by simp
next
  assume "sendingId run = Some (textId x)" "textStatus y \<in> {ACCEPTED, FAILED, REJECTED}"
  then show ?thesis using row_of_send [OF s run _ x] by auto
qed simp

lemma textStep_change_at:
  assumes s: "sends_ok s" and i: "i < length (textRuns s)"
    and step: "textStep out (textRuns s ! i) (messageDb s) = (next_run, db', marks)"
  shows "text_change (textRuns s ! i) (texts (messageDb s)) (texts db')"
  using s i by (intro textStep_change [OF _ _ step]) (simp_all add: sends_ok_def messaging_kept_def)

lemma textStep_progress:
  assumes s: "sends_ok s" and i: "i < length (textRuns s)"
    and step: "textStep out (textRuns s ! i) (messageDb s) = (next_run, db', marks)"
    and known: "known_accepted (messageDb s)" and reads: "\<forall>run \<in> set (textRuns s). readAccepted run"
  shows "known_accepted db' \<and> progressed (messageDb s) db'"
proof
  have run: "textRuns s ! i \<in> set (textRuns s)" using i by simp
  note rows = changed_rows [OF textStep_change_at [OF s i step]]
  note progress = changed_progress [OF s run bspec [OF reads run]]
  show "known_accepted db'"
    unfolding known_accepted_def
  proof (intro ballI impI)
    fix y
    assume y: "y \<in> set (texts db')" "\<not> textInbound y" "textProviderId y \<noteq> None"
    then obtain x where x: "x \<in> set (texts (messageDb s))" "changed_as (textRuns s ! i) x y"
      using bspec [OF conjunct2 [OF rows] y(1)] by auto
    then have "\<not> textInbound x" using changed_same y(2) by metis
    then show "0 < progressOf (textStatus y)"
      using progress [OF x] known x(1) y by (auto simp: known_accepted_def)
  qed
  show "progressed (messageDb s) db'"
    unfolding progressed_def
  proof
    fix x
    assume x: "x \<in> set (texts (messageDb s))"
    then obtain y where y: "y \<in> set (texts db')" "changed_as (textRuns s ! i) x y"
      using bspec [OF conjunct1 [OF rows]] by auto
    then show "\<exists>m' \<in> set (texts db'). textIdentity m' = textIdentity x \<and> textInbound m' = textInbound x \<and>
        (\<not> textInbound x \<longrightarrow> progressOf (textStatus x) \<le> progressOf (textStatus m'))"
      using changed_same [OF y(2)] progress [OF x y(2)] by blast
  qed
qed

definition progress_ok :: "message_db \<Rightarrow> messaging \<Rightarrow> bool" where
  "progress_ok db s \<longleftrightarrow> sends_ok s \<and> known_accepted (messageDb s) \<and> (\<forall>run \<in> set (textRuns s). readAccepted run) \<and>
     progressed db (messageDb s)"

lemma starting_accepted: "starting run \<Longrightarrow> readAccepted run"
  by (auto simp: starting_def readAccepted_def split: text_run.splits)

lemma textFails_accepted: "textFails run = Inl r \<Longrightarrow> readAccepted r"
  by (cases run) (auto simp: readAccepted_def)

lemma textStep_accepted:
  assumes "textStep out run db = (Inl r, db', marks)" and "known_accepted db"
  shows "readAccepted r"
proof (cases "\<exists>e m. r = WritingStatus e (Some m)")
  case True
  then obtain e m where r: "r = WritingStatus e (Some m)" by blast
  then have "textOfProvider db (stSid e) = Some m" using textStep_reads [OF assms(1) [unfolded r]] by simp
  then show ?thesis
    using assms(2) textOfProvider_known [of db "stSid e" m] by (auto simp: r readAccepted_def known_accepted_def)
qed (auto simp: readAccepted_def split: text_run.split option.split)

interpretation progress: messaging_invariant "progress_ok db" for db
proof
  show "progress_ok db s \<Longrightarrow> starting run \<Longrightarrow> progress_ok db (beginText run s)" for s run
    using sends.begins starting_accepted by (simp add: progress_ok_def)
  show "progress_ok db s \<Longrightarrow> input_ok (LinesChange dir on) s \<Longrightarrow> progress_ok db (changedLines dir on s)" for s dir on
    using sends.changes [of s dir on] by (simp add: progress_ok_def known_accepted_def progressed_def)
  show "progress_ok db s \<Longrightarrow> i < length (textRuns s) \<Longrightarrow>
      progress_ok db (proceedText (without i (textRuns s)) (textFails (textRuns s ! i)) s)" for s i
    using sends.fails textFails_accepted
    by (auto simp: progress_ok_def textRuns_proceedText dest: set_without split: sum.split)
next
  fix s i out next_run db' marks
  assume s: "progress_ok db s" and i: "i < length (textRuns s)"
    and step: "textStep out (textRuns s ! i) (messageDb s) = (next_run, db', marks)"
  have sends: "sends_ok s" and known: "known_accepted (messageDb s)" using s by (simp_all add: progress_ok_def)
  have after: "known_accepted db' \<and> progressed db db'"
    using textStep_progress [OF sends i step known] s progressed_trans by (auto simp: progress_ok_def)
  have old: "readAccepted r" if "r \<in> set (without i (textRuns s))" for r
    using set_without [OF that] s by (simp add: progress_ok_def)
  show "progress_ok db (proceedText (without i (textRuns s)) (textFails (textRuns s ! i)) (committedText db' marks s))"
    using after old sends.fails_done [OF sends i step] textFails_accepted
    by (auto simp: progress_ok_def textRuns_proceedText split: sum.split)
  show "progress_ok db (proceedText (without i (textRuns s)) next_run (committedText db' marks s))"
    using after old sends.proceeds [OF sends i step] textStep_accepted [of out "textRuns s ! i" "messageDb s" _ db' marks] step known
    by (auto simp: progress_ok_def textRuns_proceedText split: sum.split)
qed

section \<open>Callbacks one by one\<close>

text \<open>The messages callbacks are being applied to, by the provider's id.\<close>

definition writingSids :: "text_run list \<Rightarrow> string list" where
  "writingSids runs = List.map_filter (\<lambda>run. case run of WritingStatus e found \<Rightarrow> Some (stSid e) | _ \<Rightarrow> None) runs"

lemma writingSids_simps [simp]:
  "writingSids [] = []" "writingSids (xs @ ys) = writingSids xs @ writingSids ys"
  "writingSids (run # runs) = (case run of WritingStatus e found \<Rightarrow> [stSid e] | _ \<Rightarrow> []) @ writingSids runs"
  by (simp_all add: writingSids_def map_filter_def split: text_run.split)

text \<open>No callback of a message begins to be handled while another of the same message is.\<close>

definition input_apart :: "text_input \<Rightarrow> messaging \<Rightarrow> bool" where
  "input_apart x s \<longleftrightarrow>
     (case x of
        TextContinues i d \<Rightarrow>
          (if i < length (textRuns s)
           then case textRuns s ! i of ReceivingStatus e \<Rightarrow> stSid e \<notin> set (writingSids (textRuns s)) | _ \<Rightarrow> True
           else True)
      | _ \<Rightarrow> True)"

primrec callbacks_apart :: "(text_outside \<times> text_input) list \<Rightarrow> messaging \<Rightarrow> bool" where
  "callbacks_apart [] s \<longleftrightarrow> True"
| "callbacks_apart (x # xs) s \<longleftrightarrow> input_apart (snd x) s \<and> callbacks_apart xs (messagingStep (fst x) (snd x) s)"

definition movedOn :: "message_db \<Rightarrow> message_db \<Rightarrow> bool" where
  "movedOn db db' \<longleftrightarrow>
     (\<forall>m \<in> set (texts db). \<exists>m' \<in> set (texts db'). textIdentity m' = textIdentity m \<and> forwardStatus (textStatus m) (textStatus m'))"

lemma movedOn_refl [simp]: "movedOn db db"
  by (auto simp: movedOn_def)

lemma movedOn_trans: "movedOn a b \<Longrightarrow> movedOn b c \<Longrightarrow> movedOn a c"
  unfolding movedOn_def by (metis forwardStatus_trans)

text \<open>What a waiting callback read is then still the status of the message.\<close>

definition read_current :: "message_db \<Rightarrow> text_run \<Rightarrow> bool" where
  "read_current db run \<longleftrightarrow> (\<forall>e m. run = WritingStatus e (Some m) \<longrightarrow>
     (\<exists>x \<in> set (texts db). textId x = textId m \<and> textStatus x = textStatus m))"

definition apart_ok :: "messaging \<Rightarrow> bool" where
  "apart_ok s \<longleftrightarrow> sends_ok s \<and> distinct (writingSids (textRuns s)) \<and> (\<forall>run \<in> set (textRuns s). read_current (messageDb s) run)"

lemma writing_sid: "WritingStatus e found \<in> set runs \<Longrightarrow> stSid e \<in> set (writingSids runs)"
  by (force simp: writingSids_def map_filter_def)

lemma apart_reads:
  assumes "apart_ok s" and "WritingStatus e (Some m) \<in> set (textRuns s)"
  shows "\<exists>x \<in> set (texts (messageDb s)). textId x = textId m \<and> textStatus x = textStatus m"
proof -
  have "read_current (messageDb s) (WritingStatus e (Some m))" using assms by (simp add: apart_ok_def)
  then show ?thesis by (simp add: read_current_def)
qed

lemma apart_moved:
  assumes s: "apart_ok s" and i: "i < length (textRuns s)"
    and step: "textStep out (textRuns s ! i) (messageDb s) = (next_run, db', marks)"
  shows "movedOn (messageDb s) db'"
  unfolding movedOn_def
proof
  fix x
  assume x: "x \<in> set (texts (messageDb s))"
  let ?run = "textRuns s ! i"
  have sends: "sends_ok s" and run: "?run \<in> set (textRuns s)" using s i by (simp_all add: apart_ok_def)
  have ok: "tables_ok (messageDb s)" using sends by (simp add: sends_ok_def messaging_kept_def)
  obtain y where y: "y \<in> set (texts db')" "changed_as ?run x y"
    using bspec [OF conjunct1 [OF changed_rows [OF textStep_change_at [OF sends i step]]] x] by auto
  have "forwardStatus (textStatus x) (textStatus y)"
    using y(2) unfolding changed_as_def
  proof (elim disjE exE conjE)
    fix e m
    assume w: "?run = WritingStatus e (Some m)" "textId m = textId x" and y': "y = applyStatus e x"
      and goes: "shouldApplyStatusTransition (textStatus m) (mapProviderStatusToMessageStatus (stStatus e))"
    obtain z where "z \<in> set (texts (messageDb s))" "textId z = textId m" "textStatus z = textStatus m"
      using apart_reads [OF s, of e m] run w(1) by auto
    then have "textStatus x = textStatus m" using same_text [OF ok _ x] w(2) by metis
    then show ?thesis using transition_forward [OF goes] by (simp add: y')
  next
    assume "sendingId ?run = Some (textId x)" "textStatus y \<in> {ACCEPTED, FAILED, REJECTED}"
    then show ?thesis using row_of_send [OF sends run _ x] by auto
  qed simp
  then show "\<exists>m' \<in> set (texts db'). textIdentity m' = textIdentity x \<and> forwardStatus (textStatus x) (textStatus m')"
    using y changed_same by blast
qed

lemma apart_waits:
  assumes s: "apart_ok s" and runs: "textRuns s = A @ run # B" and r: "r \<in> set (A @ B)"
    and rows: "\<forall>x \<in> set (texts (messageDb s)). \<exists>y \<in> set (texts db'). changed_as run x y"
  shows "read_current db' r"
  unfolding read_current_def
proof (intro allI impI)
  fix e m
  assume w: "r = WritingStatus e (Some m)"
  have sends: "sends_ok s" and reads: "r \<in> set (textRuns s)" "run \<in> set (textRuns s)" using s r runs by (auto simp: apart_ok_def)
  then obtain x where x: "x \<in> set (texts (messageDb s))" "textId x = textId m" "textStatus x = textStatus m"
    using apart_reads [OF s, of e m] w by auto
  have sid: "textProviderId x = Some (stSid e)" using row_of_read [OF sends _ x(1), of e m] reads(1) w x(2) by simp
  obtain y where y: "y \<in> set (texts db')" "changed_as run x y" using rows x(1) by blast
  have "stSid e \<in> set (writingSids A) \<union> set (writingSids B)" using r w by (auto dest: writing_sid)
  then have other: "run = WritingStatus e' found \<Longrightarrow> stSid e' \<noteq> stSid e" for e' found
    using s runs by (auto simp: apart_ok_def)
  have "y = x"
    using y(2) unfolding changed_as_def
  proof (elim disjE exE conjE)
    fix e' m'
    assume "run = WritingStatus e' (Some m')" "textId m' = textId x"
    then show ?thesis using row_of_read [OF sends _ x(1), of e' m'] reads(2) other sid by auto
  next
    assume "sendingId run = Some (textId x)"
    then show ?thesis using row_of_send [OF sends reads(2) _ x(1)] sid by simp
  qed
  then show "\<exists>x \<in> set (texts db'). textId x = textId m \<and> textStatus x = textStatus m" using y(1) x by blast
qed

lemma apart_goes:
  assumes s: "apart_ok s" and runs: "textRuns s = A @ run # B" and step: "textStep out run (messageDb s) = (next_run, db', marks)"
    and apart: "\<And>e. run = ReceivingStatus e \<Longrightarrow> stSid e \<notin> set (writingSids (textRuns s))"
    and goes: "goes = next_run \<or> goes = textFails run"
    and rows: "\<forall>x \<in> set (texts (messageDb s)). \<exists>y \<in> set (texts db'). changed_as run x y"
    and after: "sends_ok (proceedText (A @ B) goes (committedText db' marks s))"
  shows "apart_ok (proceedText (A @ B) goes (committedText db' marks s))"
proof -
  let ?new = "case goes of Inl r \<Rightarrow> [r] | Inr answer \<Rightarrow> []"
  have read: "run = ReceivingStatus e \<and> db' = messageDb s \<and> found = textOfProvider (messageDb s) (stSid e)"
    if "goes = Inl (WritingStatus e found)" for e found
    using that goes textStep_reads [of out run "messageDb s" e found db' marks] step textFails_not_writing [of run e found] by auto
  have "read_current db' r" if "goes = Inl r" for r
    using that read textOfProvider_known by (fastforce simp: read_current_def)
  moreover have "distinct (writingSids (A @ B @ ?new))"
    using s apart read
    by (auto simp: apart_ok_def runs split: sum.split text_run.split)
  ultimately show ?thesis
    using after apart_waits [OF s runs _ rows]
    by (auto simp: apart_ok_def textRuns_proceedText split: sum.split)
qed

lemma apart_step:
  assumes s: "apart_ok s" and x: "input_ok x s" "input_apart x s"
  shows "apart_ok (messagingStep out x s) \<and> movedOn (messageDb s) (messageDb (messagingStep out x s))"
proof (cases "\<exists>i d. x = TextContinues i d \<and> i < length (textRuns s)")
  case True
  then obtain i d where at: "x = TextContinues i d" "i < length (textRuns s)" by blast
  obtain next_run db' marks where step: "textStep out (textRuns s ! i) (messageDb s) = (next_run, db', marks)"
    by (cases "textStep out (textRuns s ! i) (messageDb s)") auto
  obtain A B where runs: "textRuns s = A @ textRuns s ! i # B" and rest: "without i (textRuns s) = A @ B"
    using split_runs [OF at(2)] by blast
  have sends: "sends_ok s" using s by (simp add: apart_ok_def)
  have apart: "stSid e \<notin> set (writingSids (textRuns s))" if "textRuns s ! i = ReceivingStatus e" for e
    using x(2) at that by (simp add: input_apart_def)
  note rows = conjunct1 [OF changed_rows [OF textStep_change_at [OF sends at(2) step]]]
  have moved: "movedOn (messageDb s) db'" by (rule apart_moved [OF s at(2) step])
  have failed: "apart_ok (proceedText (A @ B) (textFails (textRuns s ! i)) s)"
  proof -
    have "read_current db r" if "textFails (textRuns s ! i) = Inl r" for r db
      using that textFails_not_writing by (auto simp: read_current_def)
    moreover have "distinct (writingSids (A @ B @ (case textFails (textRuns s ! i) of Inl r \<Rightarrow> [r] | Inr answer \<Rightarrow> [])))"
    proof -
      have "distinct (writingSids (A @ textRuns s ! i # B))" using s runs by (simp add: apart_ok_def)
      then show ?thesis using textFails_not_writing [of "textRuns s ! i"] by (auto split: sum.split text_run.split)
    qed
    moreover have "set (A @ B) \<subseteq> set (textRuns s)" by (subst runs) auto
    ultimately show ?thesis
      using s sends.fails [OF sends at(2)] by (auto simp: apart_ok_def textRuns_proceedText rest split: sum.split)
  qed
  have goes: "apart_ok (proceedText (A @ B) goes (committedText db' marks s))"
    if "goes = next_run \<or> goes = textFails (textRuns s ! i)" for goes
    using apart_goes [OF s runs step apart that rows] sends.fails_done [OF sends at(2) step] sends.proceeds [OF sends at(2) step] that
    by (auto simp: rest)
  show ?thesis
    using failed goes moved step at by (cases d) (simp_all add: committedText_def [symmetric] Let_def rest)
next
  case False
  then consider (same) "messagingStep out x s = s" | (begins) run where "messagingStep out x s = beginText run s" "starting run"
    | (lines) dir on where "x = LinesChange dir on"
    by (cases x) (auto simp: starting_def)
  then show ?thesis
  proof cases
    case (begins run)
    then have "sends_ok (messagingStep out x s)" using sends.begins [of s run] s by (simp add: apart_ok_def)
    then show ?thesis
      using begins s starting_not_writing [OF begins(2)]
      by (auto simp: apart_ok_def read_current_def split: text_run.split)
  next
    case (lines dir on)
    moreover have "movedOn db (db\<lparr>directory := dir, textsOn := on\<rparr>)" for db
      by (auto simp: movedOn_def)
    ultimately show ?thesis
      using sends.changes [of s dir on] s x(1) by (simp add: apart_ok_def changedLines_def read_current_def)
  qed (simp add: s)
qed

lemma inputs_ok_append: "inputs_ok (xs @ ys) s \<longleftrightarrow> inputs_ok xs s \<and> inputs_ok ys (messagingRun xs s)"
  by (induction xs arbitrary: s) auto

lemma callbacks_apart_append: "callbacks_apart (xs @ ys) s \<longleftrightarrow> callbacks_apart xs s \<and> callbacks_apart ys (messagingRun xs s)"
  by (induction xs arbitrary: s) auto

lemma messagingRun_append: "messagingRun (xs @ ys) s = messagingRun ys (messagingRun xs s)"
  by (induction xs arbitrary: s) auto

lemma apart_run:
  "apart_ok s \<Longrightarrow> inputs_ok xs s \<Longrightarrow> callbacks_apart xs s \<Longrightarrow>
     apart_ok (messagingRun xs s) \<and> movedOn (messageDb s) (messageDb (messagingRun xs s))"
proof (induction xs arbitrary: s)
  case (Cons x xs)
  then show ?case using apart_step [of s "snd x" "fst x"] movedOn_trans by fastforce
qed simp

text \<open>C19. However things interleave, a message we sent that the provider settled (delivered, failed or
  rejected) stays settled, and one it accepted is never open again: a callback decided on a row that is
  out of date can still only settle it. When no callback of a message begins to be handled while another of
  the same message is being applied, its status only moves forward: delivered stays delivered, and failed
  can only turn out to be delivered. (Callbacks of a message that do overlap can overwrite a delivery:
  \<open>overlapping_callbacks_lose_a_delivery\<close>.) At rest, a message we sent has a provider id only once it was
  accepted.\<close>

theorem statuses_move_forward:
  assumes "atRest s" and "known_accepted (messageDb s)" and "inputs_ok (xs @ ys) s"
    and "m \<in> set (texts (messageDb (messagingRun xs s)))"
  shows "\<exists>m' \<in> set (texts (messageDb (messagingRun (xs @ ys) s))). textIdentity m' = textIdentity m \<and>
    (\<not> textInbound m \<longrightarrow> progressOf (textStatus m) \<le> progressOf (textStatus m')) \<and>
    (callbacks_apart (xs @ ys) s \<longrightarrow> forwardStatus (textStatus m) (textStatus m'))"
proof -
  let ?s = "messagingRun xs s" and ?s' = "messagingRun (xs @ ys) s"
  have rest: "textRuns s = []" "sends_ok s" using assms(1) by (simp_all add: atRest_def atRest_sends)
  have inputs: "inputs_ok xs s" "inputs_ok ys ?s" using assms(3) by (simp_all add: inputs_ok_append)
  have "progress_ok (messageDb s) ?s"
    by (rule progress.run_holds [OF _ inputs(1)]) (simp add: progress_ok_def rest assms(2))
  then have "progress_ok (messageDb ?s) ?s" by (simp add: progress_ok_def)
  then have after: "progress_ok (messageDb ?s) ?s'"
    using progress.run_holds [OF _ inputs(2)] by (simp add: messagingRun_append)
  then obtain m1 where m1: "m1 \<in> set (texts (messageDb ?s'))" "textIdentity m1 = textIdentity m"
    "\<not> textInbound m \<longrightarrow> progressOf (textStatus m) \<le> progressOf (textStatus m1)"
    using assms(4) unfolding progress_ok_def progressed_def by blast
  have "forwardStatus (textStatus m) (textStatus m1)" if apart: "callbacks_apart (xs @ ys) s"
  proof -
    have "apart_ok s" by (simp add: apart_ok_def rest)
    then have "apart_ok ?s" using apart_run [OF _ inputs(1)] apart by (simp add: callbacks_apart_append)
    then have "movedOn (messageDb ?s) (messageDb ?s')"
      using apart_run [OF _ inputs(2)] apart by (simp add: callbacks_apart_append messagingRun_append)
    then obtain m2 where m2: "m2 \<in> set (texts (messageDb ?s'))" "textIdentity m2 = textIdentity m"
      "forwardStatus (textStatus m) (textStatus m2)"
      using assms(4) unfolding movedOn_def by blast
    have "tables_ok (messageDb ?s')" using after by (simp add: progress_ok_def sends_ok_def messaging_kept_def)
    moreover have "textId m2 = textId m1" using m1(2) m2(2) by (simp add: textIdentity_def)
    ultimately have "m2 = m1" using same_text m1(1) m2(1) by metis
    then show ?thesis using m2 by simp
  qed
  then show ?thesis using m1 by blast
qed

end
