(* ===== verification/Messaging_Claims.thy ===== *)
theory Messaging_Claims
  imports Messaging_Safety
begin

text \<open>
  Who hears of a thread and who may write from a line, what an acknowledged message leaves behind, when a
  draft is sent again, and what a message's callbacks come to in whatever order they arrive; then the
  claims about messaging at concrete inputs.
\<close>

section \<open>The tables\<close>

text \<open>C22. However things interleave, the tables of messaging stay well formed: contacts, threads, messages,
  suppressions and events keep their unique keys, so a contact has at most one thread per line and owner
  and a provider's message is stored at most once; every thread has exactly one owner, who exists when it
  is a user; and every message lies in a thread.\<close>

theorem message_tables_stay_well_formed:
  assumes "atRest s" and "inputs_ok xs s"
  shows "tables_ok (messageDb (messagingRun xs s))"
  using sends.run_holds [OF atRest_sends [OF assms(1)] assms(2)] by (simp add: sends_ok_def messaging_kept_def)

section \<open>Readers and senders\<close>

lemma lines_linked_ok: "lines_linked dir \<Longrightarrow> directory_ok dir"
  by (simp add: lines_linked_def kept_is_ok)

lemma threadAt_unique: "tables_ok db \<Longrightarrow> t \<in> set (threads db) \<Longrightarrow> threadAt db (threadId t) = Some t"
  unfolding threadAt_def by (rule find_unique) (auto simp: tables_ok_def threads_ok_def distinct_map inj_on_def)

lemma in_departments:
  assumes "directory_ok (directory db)"
  shows "d \<in> set (loadDepartmentIds db u) \<longleftrightarrow>
    (\<exists>x. departmentOf (directory db) (Some d) = Some x \<and> \<not> deptDeleted x \<and> u \<in> set (map ouUserId (deptMembers x)))"
  using departmentOf_id [OF assms] departmentOf_known [of "directory db" "Some d"]
  by (fastforce simp: loadDepartmentIds_def)

lemma audience_iff:
  assumes ok: "tables_ok db" and t: "t \<in> set (threads db)"
  shows "u \<in> set (loadConversationAudience db (threadId t)) \<longleftrightarrow>
    isLiveUser (directory db) u \<and> buildConversationScope u (loadDepartmentIds db u) t"
proof -
  let ?dir = "directory db"
  have dir: "directory_ok ?dir" using ok by (simp add: tables_ok_def lines_linked_ok)
  have "owner_ok ?dir t" using ok t by (simp add: tables_ok_def threads_ok_def)
  then consider v where "threadUser t = Some v" "threadDepartment t = None" "v \<noteq> []" "userOf ?dir (Some v) \<noteq> None"
    | d where "threadUser t = None" "threadDepartment t = Some d" "d \<noteq> []"
    by (auto simp: owner_ok_def split: option.splits)
  then show ?thesis
  proof cases
    case 1
    then show ?thesis
      by (auto simp: loadConversationAudience_def threadAt_unique [OF ok t] buildConversationScope_def isLiveUser_def
          departmentOf_def Let_def split: option.splits)
  next
    case 2
    have "isLiveUser ?dir u \<and> d \<in> set (loadDepartmentIds db u) \<longleftrightarrow>
        u \<in> set (loadConversationAudience db (threadId t))"
      using 2
      by (cases "departmentOf ?dir (Some d)")
        (auto simp: loadConversationAudience_def threadAt_unique [OF ok t] in_departments [OF dir] Let_def userOf_def)
    then show ?thesis using 2 by (auto simp: buildConversationScope_def)
  qed
qed

text \<open>C23. Whatever has happened, a thread is announced to exactly the users who are not deleted and whose
  list of conversations shows it.\<close>

theorem announced_to_those_who_can_open:
  assumes "atRest s" and "inputs_ok xs s" and "messagingRun xs s = s'"
  shows "u \<in> set (loadConversationAudience (messageDb s') i) \<longleftrightarrow>
    isLiveUser (directory (messageDb s')) u \<and> i \<in> set (map threadId (threadsForUser (messageDb s') u))"
proof -
  define db where "db = messageDb s'"
  have ok: "tables_ok db"
    using sends.run_holds [OF atRest_sends [OF assms(1)] assms(2)] assms(3)
    by (simp add: db_def sends_ok_def messaging_kept_def)
  have "u \<in> set (loadConversationAudience db i) \<longleftrightarrow>
    isLiveUser (directory db) u \<and> i \<in> set (map threadId (threadsForUser db u))"
  proof (cases "threadAt db i")
    case None
    then have "i \<notin> threadId ` set (threads db)" by (auto simp: threadAt_def find_None_iff)
    then show ?thesis using None by (auto simp: loadConversationAudience_def threadsForUser_def)
  next
    case (Some t)
    then have t: "t \<in> set (threads db)" "threadId t = i" by (auto dest: threadAt_known)
    have "i \<in> set (map threadId (threadsForUser db u)) \<longleftrightarrow> buildConversationScope u (loadDepartmentIds db u) t"
      using t ok by (auto simp: threadsForUser_def tables_ok_def threads_ok_def distinct_map inj_on_def)
    then show ?thesis using audience_iff [OF ok t(1)] t(2) by simp
  qed
  then show ?thesis by (simp only: db_def)
qed

lemma mapSender_some:
  assumes "lines_linked (directory db)" and n: "n \<in> set (numbers (directory db))"
    and may: "numberUser n = Some u \<or> worksForDepartment (directory db) u n"
  shows "mapSender db n \<noteq> None"
proof (cases "numberUser n")
  case (Some v)
  then have "v \<noteq> []" "userOf (directory db) (Some v) \<noteq> None" using assms(1) n by (auto simp: lines_linked_def)
  then show ?thesis using Some by (auto simp: mapSender_def toMessageOwner_def lineOwnerOf_def)
next
  case None
  then obtain d where d: "numberDepartment n = Some d" "departmentOf (directory db) (Some d) \<noteq> None"
    using may by (cases "numberDepartment n") (auto simp: worksForDepartment_def departmentOf_def split: option.splits)
  then have "d \<noteq> []" using assms(1) n by (auto simp: lines_linked_def)
  then show ?thesis using None d by (auto simp: mapSender_def toMessageOwner_def lineOwnerOf_def)
qed

definition sendsOn :: "text_channel \<Rightarrow> message_sender \<Rightarrow> bool" where
  "sendsOn c x = (case c of SMS \<Rightarrow> senderSms x | MMS \<Rightarrow> senderMms x)"

lemma mapSender_fields:
  "mapSender db n = Some x \<Longrightarrow> senderId x = numberId n \<and> sendsOn c x = textsOn db (numberId n) c"
  by (auto simp: mapSender_def sendsOn_def split: option.splits text_channel.split)

text \<open>Where the owners of the lines exist, the senders a user is offered can always be listed, and they
  are, channel by channel, exactly the lines a send is allowed from.\<close>

theorem offered_senders_are_allowed:
  assumes "lines_linked (directory db)"
  shows "\<exists>xs. listAllowedSenders collate db u = Some xs \<and>
    (\<forall>i c. (\<exists>x \<in> set xs. senderId x = i \<and> sendsOn c x) \<longleftrightarrow> getAllowedSender db c u i \<noteq> None)"
proof -
  let ?dir = "directory db"
  let ?textable = "filter (\<lambda>n. \<not> numberDeleted n \<and> numberStatus n = ''ACTIVE'' \<and>
    (textsOn db (numberId n) SMS \<or> textsOn db (numberId n) MMS)) (numbers ?dir)"
  let ?mine = "filter (\<lambda>n. numberUser n = Some u) ?textable @ filter (worksForDepartment ?dir u) ?textable"
  have all: "mapSender db n \<noteq> None" if "n \<in> set ?mine" for n
    using that mapSender_some [OF assms, of n u] by auto
  then have listed: "listAllowedSenders collate db u = Some (sortLines (senderNotAfter collate) (map (the \<circ> mapSender db) ?mine))"
    by (force simp: listAllowedSenders_def Let_def)
  have main: "(\<exists>x \<in> (the \<circ> mapSender db) ` set ?mine. senderId x = i \<and> sendsOn c x) \<longleftrightarrow> getAllowedSender db c u i \<noteq> None" for i c
  proof -
    have fields: "senderId (the (mapSender db n)) = numberId n \<and> sendsOn c (the (mapSender db n)) = textsOn db (numberId n) c"
      if "n \<in> set ?mine" for n
      using all [OF that] mapSender_fields by fastforce
    have "(\<exists>x \<in> (the \<circ> mapSender db) ` set ?mine. senderId x = i \<and> sendsOn c x) \<longleftrightarrow>
        (\<exists>n \<in> set ?mine. numberId n = i \<and> textsOn db i c)"
      using fields by auto
    also have "\<dots> \<longleftrightarrow> (\<exists>n \<in> set (numbers ?dir). numberId n = i \<and> \<not> numberDeleted n \<and> numberStatus n = ''ACTIVE'' \<and>
        textsOn db i c \<and> (numberUser n = Some u \<or> worksForDepartment ?dir u n))"
      by (cases c) auto
    also have "\<dots> \<longleftrightarrow> getAllowedSender db c u i \<noteq> None"
      by (auto simp: getAllowedSender_def find_None_iff)
    finally show ?thesis .
  qed
  show ?thesis
    by (rule exI, rule conjI, rule listed) (simp only: set_sortLines set_map main simp_thms)
qed

section \<open>A draft sent again\<close>

lemma writeOutbound_pending:
  "fst (writeOutbound ids now req sender t db before) = PrepPending x m \<Longrightarrow>
     x = t \<and> textTo m = contactPhoneOf db (threadContact t)"
  by (auto simp: writeOutbound_def Let_def outboundText_def split: sum.splits if_splits)

text \<open>A new message that is cleared to be sent although its key was used before, with this contact on this
  line, is one whose every earlier attempt has failed or was rejected.\<close>

theorem drafts_are_sent_again_only_after_failing:
  assumes "tables_ok db" and "\<not> truthy (reqThread req)"
    and pending: "fst (prepareSend ids now u req sender db) = PrepPending t m"
    and x: "x \<in> set (texts db)" "textKey x = Some (reqKey req)"
    and y: "y \<in> set (threads db)" "threadId y = textThread x" "threadLine y = numberId sender"
      "contactPhoneOf db (threadContact y) = textTo m"
  shows "textStatus x = FAILED \<or> textStatus x = REJECTED"
proof (rule ccontr)
  assume not: "\<not> (textStatus x = FAILED \<or> textStatus x = REJECTED)"
  obtain p db1 where p: "normalizePhoneNumber (getOr (reqTo req) []) = Some p"
    and none: "answerEarlierNewMessage u p (numberId sender) (reqKey req) db = None"
    and new: "resolveNewThread ids p sender db = Inr (ResolvedTo t, db1)"
    and to: "textTo m = contactPhoneOf db1 (threadContact t)"
    using pending assms(2) answerEarlier_shape [of u _ "numberId sender" "reqKey req" db] writeOutbound_pending
    by (fastforce simp: prepareSend_def continueWith_def resolveConversation_def split: option.splits sum.splits prod.splits resolution.splits)
  obtain line where "line \<in> set (numbers (directory db))" "findOrCreateFor ids p line db = Inr (t, db1)"
    using new by (auto simp: resolveNewThread_def Let_def dest!: find_some split: option.splits if_splits sum.splits)
  then have "textTo m = p" using findOrCreateFor_ok [OF assms(1)] to by metis
  then have pair: "onThePair db p (numberId sender) y" using y by (simp add: onThePair_def)
  have held: "hasText db (underKey (reqKey req)) y"
    "hasText db (\<lambda>m. underKey (reqKey req) m \<and> notFailed m) y"
    using x y(2) not by (auto simp: hasText_def underKey_def notFailed_def list_ex_iff intro!: bexI [of _ x])
  have some: "list_ex (\<lambda>t. onThePair db p (numberId sender) t \<and> hasText db (underKey (reqKey req)) t) (threads db)"
    "list_ex (\<lambda>t. onThePair db p (numberId sender) t \<and> hasText db (\<lambda>m. underKey (reqKey req) m \<and> notFailed m) t) (threads db)"
    using y(1) pair held by (auto simp: list_ex_iff)
  let ?found = "find (\<lambda>t. buildConversationScope u (loadDepartmentIds db u) t \<and> onThePair db p (numberId sender) t \<and>
    hasText db (underKey (reqKey req)) t) (threads db)"
  obtain z where "?found = Some z" using none some by (auto simp: answerEarlierNewMessage_def Let_def split: option.splits)
  moreover from this have "lookForAttempt db (threadId z) (reqKey req) 0 \<noteq> NoAttempt"
    by (auto simp: lookForAttempt_def hasText_def underKey_def list_ex_iff find_None_iff dest!: find_some split: option.split)
  ultimately show False using none some by (auto simp: answerEarlierNewMessage_def Let_def split: attempt_look.splits)
qed

section \<open>What an acknowledged message leaves behind\<close>

text \<open>A line an inbound message can be filed on: active, on its channel, and held by somebody.\<close>

definition receives :: "message_db \<Rightarrow> inbound_event \<Rightarrow> number_row \<Rightarrow> bool" where
  "receives db e n \<longleftrightarrow> numberPhone n = inTo e \<and> \<not> numberDeleted n \<and> numberStatus n = ''ACTIVE'' \<and>
     textsOn db (numberId n) (inChannel e) \<and> lineOwnerOf (numberUser n) (numberDepartment n) \<noteq> None"

text \<open>The message as it is filed: in the thread its sender has with the owner of the line.\<close>

definition filed_under :: "message_db \<Rightarrow> inbound_event \<Rightarrow> number_row \<Rightarrow> text_row \<Rightarrow> bool" where
  "filed_under db e n m \<longleftrightarrow> textInbound m \<and> textStatus m = RECEIVED \<and> textProviderId m = Some (inSid e) \<and>
     textBody m = inBody e \<and>
     (\<exists>t \<in> set (threads db). threadId t = textThread m \<and> threadLine t = numberId n \<and>
        contactPhoneOf db (threadContact t) = inFrom e \<and>
        lineOwnerOf (threadUser t) (threadDepartment t) = lineOwnerOf (numberUser n) (numberDepartment n))"

lemma contactPhoneOf_frame [simp]:
  "contactPhoneOf (changeEvent k f db) c = contactPhoneOf db c" "contactPhoneOf (changeThread i g db) c = contactPhoneOf db c"
  "contactPhoneOf (applyOptOut w c' l now db) c = contactPhoneOf db c" "contactPhoneOf (db\<lparr>texts := ms\<rparr>) c = contactPhoneOf db c"
  by (simp_all add: contactPhoneOf_def)

lemma changeEvent_keys:
  assumes "\<And>x. eventKey (f x) = eventKey x"
  shows "eventKey ` set (providerEvents (changeEvent k f db)) = eventKey ` set (providerEvents db)"
proof -
  have "providerEvents (changeEvent k f db) = map (\<lambda>x. if eventKey x = k then f x else x) (providerEvents db)"
    by (simp add: changeEvent_def)
  then have "map eventKey (providerEvents (changeEvent k f db)) = map eventKey (providerEvents db)"
    by (simp only: map_map) (rule map_changed, rule assms)
  then show ?thesis by (metis set_map)
qed

lemma fileInbound_files:
  assumes ok: "tables_ok db" and line: "line \<in> set (numbers (directory db))" and filed: "fileInbound ids now e line db = Inr (r, db')"
  shows "\<exists>m. texts db' = texts db @ [m] \<and> filed_under db' e line m \<and> (\<exists>i t w. r = FiledInbound i t w) \<and>
    eventKey ` set (providerEvents db') = eventKey ` set (providerEvents db)"
proof -
  obtain t db1 db2 where t: "findOrCreateFor ids (inFrom e) line db = Inr (t, db1)"
    and made: "createText (receivedText (freshText ids) (threadId t) now e) db1 = Inr db2"
    using filed by (auto simp: fileInbound_def split: sum.splits prod.splits)
  let ?m = "receivedText (freshText ids) (threadId t) now e"
  let ?read = "\<lambda>t. t\<lparr>threadUnread := threadUnread t + 1, threadMessageAt := Some now\<rparr>"
  note found = findOrCreateFor_ok [OF ok line t]
  have frame: "db1 = db\<lparr>contacts := contacts db1, threads := threads db1\<rparr>" and db2: "db2 = db1\<lparr>texts := texts db1 @ [?m]\<rparr>"
    using found createText_frame [OF made] by blast+
  have same: "texts db1 = texts db" "providerEvents db1 = providerEvents db" by (subst frame, simp)+
  have db': "db' = linkEvent (inboundKey e) (freshText ids) (threadId t)
      (applyOptOut (resolveOptOut e) (threadContact t) (threadLine t) now (changeThread (threadId t) ?read db2))"
    and r: "r = FiledInbound (freshText ids) t (resolveOptOut e)"
    using filed t made by (simp_all add: fileInbound_def)
  have "?read t \<in> set (threads db')"
    using found by (auto simp: db' db2 linkEvent_def changeThread_def)
  moreover have "contactPhoneOf db' (threadContact t) = inFrom e"
    using found by (simp add: db' db2 linkEvent_def)
  ultimately have "filed_under db' e line ?m"
    using found unfolding filed_under_def by (intro conjI bexI [of _ "?read t"]) (simp_all add: receivedText_def)
  moreover have "eventKey ` set (providerEvents db') = eventKey ` set (providerEvents db)"
    by (simp add: db' db2 same linkEvent_def changeEvent_keys changeThread_def)
  moreover have "texts db' = texts db @ [?m]" by (simp add: db' db2 same linkEvent_def)
  ultimately show ?thesis using r by blast
qed

lemma inboundTransaction_files:
  assumes ok: "tables_ok db" and finished: "inboundTransaction ids now e db = Inr (r, db')"
  shows "inboundKey e \<in> eventKey ` set (providerEvents db') \<and>
    (if \<exists>n \<in> set (numbers (directory db)). receives db e n
     then \<exists>m n i t w. n \<in> set (numbers (directory db)) \<and> receives db e n \<and> texts db' = texts db @ [m] \<and>
            filed_under db' e n m \<and> r = FiledInbound i t w
     else texts db' = texts db \<and> r = QuarantinedInbound)"
proof -
  obtain db1 where e: "createEvent (inboundKey e) (inSid e) db = Inr db1"
    using finished by (auto simp: inboundTransaction_def split: sum.splits)
  have db1: "db1 = db\<lparr>providerEvents := providerEvents db1\<rparr>" and key: "inboundKey e \<in> eventKey ` set (providerEvents db1)"
    using createEvent_frame [OF e] by blast+
  have same: "directory db1 = directory db" "texts db1 = texts db" "textsOn db1 = textsOn db" by (subst db1, simp)+
  have ok1: "tables_ok db1" by (rule createEvent_ok [OF ok e])
  have unique: "n = n'" if "n \<in> set (numbers (directory db))" "n' \<in> set (numbers (directory db))" "numberPhone n = numberPhone n'" for n n'
    using that ok by (auto simp: tables_ok_def lines_linked_def directory_kept_def distinct_map inj_on_def)
  let ?P = "\<lambda>n. numberPhone n = inTo e \<and> \<not> numberDeleted n \<and> numberStatus n = ''ACTIVE'' \<and> textsOn db (numberId n) (inChannel e)"
  have kept: "inboundKey e \<in> eventKey ` set (providerEvents (quarantineInbound (inboundKey e) why db1))" for why
    using key by (simp add: quarantineInbound_def changeEvent_keys)
  show ?thesis
  proof (cases "find ?P (numbers (directory db))")
    case None
    then have "\<not> (\<exists>n \<in> set (numbers (directory db)). receives db e n)" by (auto simp: find_None_iff receives_def)
    then show ?thesis
      using finished e same None kept by (auto simp: inboundTransaction_def quarantineInbound_def)
  next
    case (Some line)
    then have line: "line \<in> set (numbers (directory db))" "?P line" by (auto dest: find_some)
    show ?thesis
    proof (cases "lineOwnerOf (numberUser line) (numberDepartment line) = None")
      case True
      have "n = line" if "n \<in> set (numbers (directory db))" "receives db e n" for n
        using that line(2) by (intro unique [OF that(1) line(1)]) (simp add: receives_def)
      then have "\<not> (\<exists>n \<in> set (numbers (directory db)). receives db e n)" using True receives_def by metis
      then show ?thesis
        using finished e same Some kept True by (auto simp: inboundTransaction_def quarantineInbound_def)
    next
      case False
      then have takes: "receives db e line" using line by (simp add: receives_def)
      have "fileInbound ids now e line db1 = Inr (r, db')"
        using finished e same Some False by (simp add: inboundTransaction_def)
      then obtain m i t w where stored: "texts db' = texts db @ [m]" "filed_under db' e line m" "r = FiledInbound i t w"
        and keys: "eventKey ` set (providerEvents db') = eventKey ` set (providerEvents db1)"
        using fileInbound_files [OF ok1, of line] line(1) same by metis
      have "\<exists>m n i t w. n \<in> set (numbers (directory db)) \<and> receives db e n \<and> texts db' = texts db @ [m] \<and>
          filed_under db' e n m \<and> r = FiledInbound i t w"
        by (intro exI conjI) (fact line(1) takes stored)+
      moreover have "inboundKey e \<in> eventKey ` set (providerEvents db')" unfolding keys by (fact key)
      moreover have "\<exists>n \<in> set (numbers (directory db)). receives db e n" using takes line(1) by blast
      ultimately show ?thesis by (simp only: if_True)
    qed
  qed
qed

text \<open>
  How the database can report that a transaction was rolled back: a unique key it violated, named by its
  index, by its fields or by its target (one name or several), or not named; or an error with some other
  code, or none. What it says of the dedupe key is stated here in the database's own names.
\<close>

datatype db_failure =
  UniqueIndex string
| UniqueFields "string list"
| UniqueTarget "string list"
| UniqueTargetName string
| UniqueUnnamed
| ErrorCode string
| NoErrorCode

definition uniqueViolation :: "(string \<times> json) list \<Rightarrow> json" where
  "uniqueViolation meta = JObject [(''code'', JString ''P2002''), (''meta'', JObject meta)]"

definition violatedConstraint :: "(string \<times> json) list \<Rightarrow> json" where
  "violatedConstraint names = uniqueViolation
     [(''driverAdapterError'', JObject [(''cause'', JObject [(''constraint'', JObject names)])])]"

fun reported_as :: "db_failure \<Rightarrow> json" where
  "reported_as (UniqueIndex n) = violatedConstraint [(''index'', JString n)]"
| "reported_as (UniqueFields ns) = violatedConstraint [(''fields'', JArray (map JString ns))]"
| "reported_as (UniqueTarget ns) = uniqueViolation [(''target'', JArray (map JString ns))]"
| "reported_as (UniqueTargetName n) = uniqueViolation [(''target'', JString n)]"
| "reported_as UniqueUnnamed = uniqueViolation []"
| "reported_as (ErrorCode c) = JObject [(''code'', JString c)]"
| "reported_as NoErrorCode = JObject []"

definition nameOfDedupeKey :: "string \<Rightarrow> bool" where
  "nameOfDedupeKey n \<longleftrightarrow> n = ''message_provider_events_dedupe_key_key'' \<or> n = ''dedupe_key'' \<or> n = ''dedupeKey''"

fun ofDedupeKey :: "db_failure \<Rightarrow> bool" where
  "ofDedupeKey (UniqueIndex n) \<longleftrightarrow> nameOfDedupeKey n"
| "ofDedupeKey (UniqueFields ns) \<longleftrightarrow> ns \<noteq> [] \<and> list_all nameOfDedupeKey ns"
| "ofDedupeKey (UniqueTarget ns) \<longleftrightarrow> ns \<noteq> [] \<and> list_all nameOfDedupeKey ns"
| "ofDedupeKey (UniqueTargetName n) \<longleftrightarrow> nameOfDedupeKey n"
| "ofDedupeKey f \<longleftrightarrow> False"

lemma stringArray_strings [simp]: "isStringArray (Some (JArray (map JString ns))) = (if ns = [] then None else Some ns)"
  by (auto simp: comp_def)

text \<open>The classification tells the dedupe key from everything else.\<close>

lemma classified_duplicates: "classifyWebhookWriteFailure (Some (reported_as f)) = DuplicateDelivery \<longleftrightarrow> ofDedupeKey f"
proof -
  have names: "n \<in> set DEDUPE_KEY_NAMES \<longleftrightarrow> nameOfDedupeKey n" for n
    by (auto simp: DEDUPE_KEY_NAMES_def nameOfDedupeKey_def)
  show ?thesis
    by (cases f) (simp_all add: classifyWebhookWriteFailure_def uniqueKeyNames_def uniqueViolation_def violatedConstraint_def
        names Let_def del: isStringArray.simps(1))
qed

text \<open>C21. An inbound message that is answered without an error, and not tried again, has left its event
  behind: delivered before, it changes nothing; otherwise it is stored, in the thread its sender has with
  the owner of the line it arrived on, or set aside because no active line with an owner takes it. When the
  transaction was rolled back, the database reported one of \<open>db_failure\<close>, and it reports a violation of the
  dedupe key only when it has that event; whatever else it reports is not taken for a delivery.\<close>

theorem acknowledged_messages_are_stored:
  assumes "tables_ok db"
    and reports: "\<And>r err. rolledBack out = Some (r, err) \<Longrightarrow>
      \<exists>f. err = reported_as f \<and> (ofDedupeKey f \<longrightarrow> inboundKey e \<in> eventKey ` set (providerEvents db))"
    and step: "textStep out (ReceivingInbound e firstTime) db = (next_run, db', marks)"
    and answered: "next_run \<noteq> Inr TextThrew" "next_run \<noteq> Inl (ReceivingInbound e False)"
  shows "inboundKey e \<in> eventKey ` set (providerEvents db') \<and>
    (if inboundKey e \<in> eventKey ` set (providerEvents db) then db' = db \<and> next_run = Inr WebhookDeduplicated
     else if \<exists>n \<in> set (numbers (directory db)). receives db e n
     then \<exists>m n. n \<in> set (numbers (directory db)) \<and> receives db e n \<and> texts db' = texts db @ [m] \<and> filed_under db' e n m
     else texts db' = texts db \<and> next_run = Inr WebhookQuarantined)"
proof -
  let ?tx = "case rolledBack out of None \<Rightarrow> inboundTransaction (textIds out) (textClock out) e db | Some (resolved, err) \<Rightarrow> Inl err"
  show ?thesis
  proof (cases ?tx)
    case (Inl err)
    then have same: "db' = db" and next_run: "next_run = afterInboundError e firstTime err" using step by auto
    then have "classifyWebhookWriteFailure (Some err) = DuplicateDelivery"
      using answered by (auto simp: afterInboundError_def split: write_failure.splits if_splits)
    moreover from this have "inboundKey e \<in> eventKey ` set (providerEvents db)"
    proof (cases "rolledBack out")
      case (Some x)
      then have "snd x = err" using Inl by (cases x) simp
      then obtain f where "err = reported_as f" "ofDedupeKey f \<longrightarrow> inboundKey e \<in> eventKey ` set (providerEvents db)"
        using reports [of "fst x" "snd x"] Some by auto
      then show ?thesis using calculation classified_duplicates by simp
    next
      case None
      have "classifyWebhookWriteFailure (Some plainError) \<noteq> DuplicateDelivery"
        "classifyWebhookWriteFailure (Some (violates ''contacts_pkey'')) \<noteq> DuplicateDelivery"
        "classifyWebhookWriteFailure (Some (violates ''message_conversations_pkey'')) \<noteq> DuplicateDelivery"
        "classifyWebhookWriteFailure (Some (violates ''messages_pkey'')) \<noteq> DuplicateDelivery"
        "classifyWebhookWriteFailure (Some (violates ''messages_provider_message_id_key'')) \<noteq> DuplicateDelivery"
        "classifyWebhookWriteFailure (Some (violates ''messages_conversation_id_client_reference_key'')) \<noteq> DuplicateDelivery"
        by code_simp+
      moreover have "err \<in> {plainError, violates ''contacts_pkey'', violates ''message_conversations_pkey'', violates ''messages_pkey'',
          violates ''messages_provider_message_id_key'', violates ''messages_conversation_id_client_reference_key''}"
        if "inboundKey e \<notin> eventKey ` set (providerEvents db)"
        using that Inl None
        by (auto simp: inboundTransaction_def createEvent_def fileInbound_def findOrCreateFor_def findOrCreateByPhoneNumber_def
            createText_def Let_def split: option.splits sum.splits if_splits)
      ultimately show ?thesis using \<open>classifyWebhookWriteFailure (Some err) = DuplicateDelivery\<close> by blast
    qed
    ultimately show ?thesis using same next_run by (auto simp: afterInboundError_def)
  next
    case (Inr x)
    obtain r where r: "x = (r, db')" and next_run: "next_run = fst (afterInbound e r)"
      using step Inr by (cases x) auto
    have done_tx: "inboundTransaction (textIds out) (textClock out) e db = Inr (r, db')"
      using Inr r by (auto split: option.splits prod.splits)
    then have "inboundKey e \<notin> eventKey ` set (providerEvents db)"
      by (auto simp: inboundTransaction_def createEvent_def split: sum.splits if_splits)
    then show ?thesis
      using inboundTransaction_files [OF assms(1) done_tx] next_run by (auto split: if_splits)
  qed
qed

section \<open>Callbacks in any order\<close>

text \<open>All the callbacks of a list, one transaction after the other; one that fails changes nothing.\<close>

definition reported :: "message_db \<Rightarrow> status_event \<Rightarrow> message_db" where
  "reported db e = (case statusTransaction e db of Inl err \<Rightarrow> db | Inr (r, db') \<Rightarrow> db')"

definition reportAll :: "status_event list \<Rightarrow> message_db \<Rightarrow> message_db" where
  "reportAll es db = foldl reported db es"

text \<open>What a message has come to: open, failed, or delivered.\<close>

fun fateOf :: "text_status \<Rightarrow> nat" where
  "fateOf DELIVERED = 2"
| "fateOf FAILED = 1"
| "fateOf REJECTED = 1"
| "fateOf x = 0"

definition fateAfter :: "status_event list \<Rightarrow> message_db \<Rightarrow> string \<Rightarrow> nat option" where
  "fateAfter es db sid = map_option (fateOf \<circ> textStatus) (textOfProvider (reportAll es db) sid)"

lemma same_key_same_status:
  assumes "statusDedupeKey e = statusDedupeKey e'" and "stSid e = stSid e'"
  shows "stStatus e = stStatus e'"
  using assms by (cases "stStatus e"; cases "stStatus e'") (auto simp: statusDedupeKey_def Let_def split: if_splits)

lemma fate_applied:
  "shouldApplyStatusTransition a (mapProviderStatusToMessageStatus x) \<Longrightarrow>
     fateOf (mapProviderStatusToMessageStatus x) = max (fateOf a) (fateOf (mapProviderStatusToMessageStatus x))"
  "\<not> shouldApplyStatusTransition a (mapProviderStatusToMessageStatus x) \<Longrightarrow>
     fateOf a = max (fateOf a) (fateOf (mapProviderStatusToMessageStatus x))"
  by (cases x; cases a; simp add: shouldApplyStatusTransition_def)+

abbreviation eventFate :: "status_event \<Rightarrow> nat" where
  "eventFate e \<equiv> fateOf (mapProviderStatusToMessageStatus (stStatus e))"

lemma find_changed:
  assumes "\<And>x. P (f x) = P x"
  shows "find P (map (\<lambda>x. if Q x then f x else x) xs) = map_option (\<lambda>x. if Q x then f x else x) (find P xs)"
  by (induction xs) (auto simp: assms)

lemma textOfProvider_frame [simp]:
  "textOfProvider (changeEvent k f db) sid = textOfProvider db sid"
  "textOfProvider (db\<lparr>providerEvents := es\<rparr>) sid = textOfProvider db sid"
  by (simp_all add: textOfProvider_def changeEvent_def)

lemma textOfProvider_changed:
  "textOfProvider (changeText i (applyStatus e) db) sid =
     map_option (\<lambda>m. if textId m = i then applyStatus e m else m) (textOfProvider db sid)"
  unfolding textOfProvider_def changeText_def
  by (simp, rule find_changed) (simp add: applyStatus_def Let_def)

lemma reported_keys:
  "eventKey ` set (providerEvents (reported db e)) = insert (statusDedupeKey e) (eventKey ` set (providerEvents db))"
proof (cases "statusDedupeKey e \<in> eventKey ` set (providerEvents db)")
  case True
  then show ?thesis by (auto simp: reported_def statusTransaction_alone writeStatus_def createEvent_def)
next
  case False
  obtain db1 where e: "createEvent (statusDedupeKey e) (stSid e) db = Inr db1"
    using False by (auto simp: createEvent_def)
  have "providerEvents (changeText i f db1) = providerEvents db1" for i f by (simp add: changeText_def)
  then show ?thesis
    using createEvent_frame [OF e]
    by (auto simp: reported_def statusTransaction_alone writeStatus_def e linkEvent_def changeEvent_keys Let_def split: option.split)
qed

lemma reported_fate:
  assumes "stSid e = sid"
  shows "map_option (fateOf \<circ> textStatus) (textOfProvider (reported db e) sid) =
    map_option (\<lambda>m. if statusDedupeKey e \<in> eventKey ` set (providerEvents db) then fateOf (textStatus m)
                    else max (fateOf (textStatus m)) (eventFate e)) (textOfProvider db sid)"
proof (cases "statusDedupeKey e \<in> eventKey ` set (providerEvents db)")
  case True
  then show ?thesis by (simp add: reported_def statusTransaction_alone writeStatus_def createEvent_def comp_def)
next
  case False
  then obtain db1 where e: "createEvent (statusDedupeKey e) (stSid e) db = Inr db1"
    and same: "textOfProvider db1 sid = textOfProvider db sid" by (auto simp: createEvent_def)
  show ?thesis
  proof (cases "textOfProvider db sid")
    case None
    then show ?thesis using e same assms by (simp add: reported_def statusTransaction_alone writeStatus_def)
  next
    case (Some m)
    show ?thesis
      using e same assms Some False fate_applied [of "textStatus m" "stStatus e"]
      by (auto simp: reported_def statusTransaction_alone writeStatus_def Let_def linkEvent_def textOfProvider_changed applyStatus_def)
  qed
qed

text \<open>The fate after a list of callbacks, read off the set of them.\<close>

lemma fate_at_least:
  assumes "\<forall>e \<in> set es. stSid e = sid" and "textOfProvider db sid = Some m"
  shows "\<exists>f. fateAfter es db sid = Some f \<and>
    (\<forall>n. n \<le> f \<longleftrightarrow> n \<le> fateOf (textStatus m) \<or>
       (\<exists>e \<in> set es. statusDedupeKey e \<notin> eventKey ` set (providerEvents db) \<and> n \<le> eventFate e))"
  using assms
proof (induction es arbitrary: db m)
  case Nil
  then show ?case by (simp add: fateAfter_def reportAll_def)
next
  case (Cons e es)
  let ?keys = "eventKey ` set (providerEvents db)"
  obtain m' where m': "textOfProvider (reported db e) sid = Some m'"
    and fate: "fateOf (textStatus m') = (if statusDedupeKey e \<in> ?keys then fateOf (textStatus m)
        else max (fateOf (textStatus m)) (eventFate e))"
    using reported_fate [of e sid db] Cons.prems by auto
  obtain f where f: "fateAfter es (reported db e) sid = Some f"
    and le: "\<And>n. n \<le> f \<longleftrightarrow> n \<le> fateOf (textStatus m') \<or>
      (\<exists>e' \<in> set es. statusDedupeKey e' \<notin> insert (statusDedupeKey e) ?keys \<and> n \<le> eventFate e')"
    using Cons.IH [OF _ m'] Cons.prems(1) unfolding reported_keys by auto
  have again: "eventFate e' = eventFate e" if "e' \<in> set es" "statusDedupeKey e' = statusDedupeKey e" for e'
    using same_key_same_status [OF that(2)] Cons.prems(1) that(1) by simp
  have "n \<le> f \<longleftrightarrow> n \<le> fateOf (textStatus m) \<or> (\<exists>x \<in> set (e # es). statusDedupeKey x \<notin> ?keys \<and> n \<le> eventFate x)" for n
  proof (cases "statusDedupeKey e \<in> ?keys")
    case True
    then show ?thesis unfolding le fate by (auto simp: insert_absorb)
  next
    case False
    have "(\<exists>x \<in> set es. statusDedupeKey x \<notin> ?keys \<and> n \<le> eventFate x) \<longrightarrow>
        n \<le> eventFate e \<or> (\<exists>x \<in> set es. statusDedupeKey x \<notin> insert (statusDedupeKey e) ?keys \<and> n \<le> eventFate x)"
      using again by (metis insert_iff)
    then show ?thesis unfolding le fate using False by (simp add: le_max_iff_disj) blast
  qed
  moreover have "fateAfter (e # es) db sid = Some f" using f by (simp add: fateAfter_def reportAll_def)
  ultimately show ?case by blast
qed

text \<open>C20. What a message comes to does not depend on the order in which the callbacks about it arrive, nor on
  how often each of them does.\<close>

theorem callbacks_count_in_any_order:
  assumes "\<forall>e \<in> set es. stSid e = sid" and "set es = set es'"
  shows "fateAfter es db sid = fateAfter es' db sid"
proof (cases "textOfProvider db sid")
  case None
  have "textOfProvider (reportAll xs db) sid = None" if "\<forall>e \<in> set xs. stSid e = sid" for xs
    using that None
  proof (induction xs arbitrary: db)
    case (Cons e xs)
    then have "textOfProvider (reported db e) sid = None" using reported_fate [of e sid db] by simp
    then show ?case using Cons by (simp add: reportAll_def)
  qed (simp add: reportAll_def)
  then show ?thesis using assms by (simp add: fateAfter_def)
next
  case (Some m)
  obtain f where f: "fateAfter es db sid = Some f"
    "\<And>n. n \<le> f \<longleftrightarrow> n \<le> fateOf (textStatus m) \<or>
       (\<exists>e \<in> set es. statusDedupeKey e \<notin> eventKey ` set (providerEvents db) \<and> n \<le> eventFate e)"
    using fate_at_least [OF assms(1) Some] by blast
  obtain f' where f': "fateAfter es' db sid = Some f'"
    "\<And>n. n \<le> f' \<longleftrightarrow> n \<le> fateOf (textStatus m) \<or>
       (\<exists>e \<in> set es'. statusDedupeKey e \<notin> eventKey ` set (providerEvents db) \<and> n \<le> eventFate e)"
    using fate_at_least [OF assms(1) [unfolded assms(2)] Some] by blast
  have "n \<le> f \<longleftrightarrow> n \<le> f'" for n unfolding f(2) f'(2) assms(2) ..
  then have "f = f'" by (meson order_antisym order_refl)
  then show ?thesis using f(1) f'(1) by simp
qed
end
