(* ===== verification/Messaging_Witnesses.thy ===== *)
theory Messaging_Witnesses
  imports Messaging_Claims
begin

text \<open>
  The claims about messaging at concrete inputs: a department's line, a customer, drafts sent from it,
  opt-outs and callbacks; and a callback that overtakes the send it is about.
\<close>

section \<open>A line at rest\<close>

definition sampleMessages :: message_db where
  "sampleMessages =
     \<lparr>directory = sampleDirectory, textsOn = (\<lambda>i c. True), contacts = [], threads = [], texts = [],
      suppressions = [], providerEvents = []\<rparr>"

definition quietMessaging :: messaging where
  "quietMessaging = \<lparr>messageDb = sampleMessages, textRuns = [], textAnswers = [], textTrace = []\<rparr>"

definition outsideText :: "string \<Rightarrow> text_outside" where
  "outsideText k =
     \<lparr>textClock = 100, textIds = \<lparr>freshContact = ''c'' @ k, freshThread = ''t'' @ k, freshText = ''m'' @ k\<rparr>,
      rolledBack = None, mediaAnswer = MediaReady, providerAnswer = AcceptedAs (''SM'' @ k), attaches = True\<rparr>"

definition sampleRequest :: "string \<Rightarrow> send_request" where
  "sampleRequest key =
     \<lparr>reqChannel = SMS, reqSender = ''n1'', reqThread = None, reqTo = Some ''+15551230009'', reqBody = Some ''hi'',
      reqAttachments = [], reqKey = key\<rparr>"

definition arrivingText :: "string \<Rightarrow> string \<Rightarrow> inbound_event" where
  "arrivingText sid body =
     \<lparr>inSid = sid, inChannel = SMS, inFrom = ''+15551230009'', inTo = ''+15551230002'', inBody = Some body,
      inKeyword = None, inMedia = 0\<rparr>"

definition sampleStatus :: "provider_status \<Rightarrow> status_event" where
  "sampleStatus x = \<lparr>stSid = ''SMa'', stStatus = x, stAt = 7, stErrorCode = None, stErrorText = None\<rparr>"

lemma sample_linked: "lines_linked sampleDirectory"
  by (simp add: lines_linked_def directory_kept_def sampleDirectory_def number_ok_def unheld_def departmentOf_def)

lemma sample_at_rest: "atRest quietMessaging"
  by (simp add: atRest_def quietMessaging_def sampleMessages_def tables_ok_def sample_linked contacts_ok_def threads_ok_def
      texts_ok_def)

lemma inputs_ok_quiet: "list_all (\<lambda>x. case snd x of LinesChange dir on \<Rightarrow> False | _ \<Rightarrow> True) xs \<Longrightarrow> inputs_ok xs s"
  by (induction xs arbitrary: s) (auto split: text_input.splits)

section \<open>Two drafts\<close>

definition twoDrafts :: "(text_outside \<times> text_input) list" where
  "twoDrafts =
     (outsideText ''a'', TextSent ''u1'' (sampleRequest ''k1'')) # replicate 3 (outsideText ''a'', TextContinues 0 Delivered) @
     (outsideText ''b'', TextSent ''u1'' (sampleRequest ''k2'')) # replicate 3 (outsideText ''b'', TextContinues 1 Delivered)"

lemma twoDrafts_ok: "inputs_ok twoDrafts quietMessaging"
  by (rule inputs_ok_quiet) code_simp

lemma twoDrafts_trace:
  "textTrace (messagingRun twoDrafts quietMessaging) =
     [Cleared ''ma'' ''ta'' ''ca'' ''n1'' ''k1'', HandedOver ''ma'', Cleared ''mb'' ''ta'' ''ca'' ''n1'' ''k2'', HandedOver ''mb'']"
  by code_simp

theorem drafts_are_sent_once_witness:
  "Cleared ''mb'' ''ta'' ''ca'' ''n1'' ''k1'' \<notin> set (textTrace (messagingRun twoDrafts quietMessaging))"
  using drafts_are_sent_once [OF sample_at_rest twoDrafts_ok, of "[Cleared ''ma'' ''ta'' ''ca'' ''n1'' ''k1'']" "''ma''"
      "[Cleared ''mb'' ''ta'' ''ca'' ''n1'' ''k2'']" "''mb''" "[]" "''ta''" "''ca''" "''n1''" "''k1''" "''ca''" "''n1''"]
  by (simp add: twoDrafts_trace)

section \<open>An opt-out taken back\<close>





section \<open>Callbacks\<close>

definition oneDraft :: "(text_outside \<times> text_input) list" where
  "oneDraft = (outsideText ''a'', TextSent ''u1'' (sampleRequest ''k1'')) # replicate 5 (outsideText ''a'', TextContinues 0 Delivered)"

definition thenDelivered :: "(text_outside \<times> text_input) list" where
  "thenDelivered =
     (outsideText ''b'', StatusArrives (sampleStatus DeliveredStatus)) # replicate 2 (outsideText ''b'', TextContinues 0 Delivered)"

lemma oneDraft_statuses:
  "map textStatus (texts (messageDb (messagingRun oneDraft quietMessaging))) = [ACCEPTED]"
  "map textStatus (texts (messageDb (messagingRun (oneDraft @ thenDelivered) quietMessaging))) = [DELIVERED]"
  by code_simp+

lemma oneDraft_inputs:
  "inputs_ok (oneDraft @ thenDelivered) quietMessaging" "callbacks_apart (oneDraft @ thenDelivered) quietMessaging"
  "known_accepted (messageDb quietMessaging)"
  by (rule inputs_ok_quiet, code_simp, code_simp, simp add: known_accepted_def quietMessaging_def sampleMessages_def)

theorem statuses_move_forward_witness:
  "\<exists>m' \<in> set (texts (messageDb (messagingRun (oneDraft @ thenDelivered) quietMessaging))).
     textIdentity m' = textIdentity (hd (texts (messageDb (messagingRun oneDraft quietMessaging)))) \<and>
     progressOf (textStatus (hd (texts (messageDb (messagingRun oneDraft quietMessaging))))) \<le> progressOf (textStatus m') \<and>
     forwardStatus (textStatus (hd (texts (messageDb (messagingRun oneDraft quietMessaging))))) (textStatus m')"
proof -
  let ?ms = "texts (messageDb (messagingRun oneDraft quietMessaging))"
  have "?ms \<noteq> []" using oneDraft_statuses(1) by auto
  moreover have "\<not> textInbound (hd ?ms)" by code_simp
  ultimately show ?thesis
    using statuses_move_forward [OF sample_at_rest oneDraft_inputs(3,1), of "hd ?ms"] oneDraft_inputs(2) by auto
qed

text \<open>
  Two callbacks of a message that overlap: the delivery and a failure are both decided on the accepted
  message, and the failure, which would have been refused after the delivery, overwrites it.
\<close>

definition overlapping :: "(text_outside \<times> text_input) list" where
  "overlapping =
     (outsideText ''b'', StatusArrives (sampleStatus DeliveredStatus)) #
     (outsideText ''c'', StatusArrives (sampleStatus Undeliverable)) # replicate 3 (outsideText ''b'', TextContinues 0 Delivered)"

lemma overlapping_callbacks_lose_a_delivery:
  "map textStatus (texts (messageDb (messagingRun (oneDraft @ overlapping) quietMessaging))) = [DELIVERED]"
  "map textStatus (texts (messageDb (messagingRun (oneDraft @ overlapping @ [(outsideText ''c'', TextContinues 0 Delivered)])
     quietMessaging))) = [FAILED]"
  "\<not> callbacks_apart (oneDraft @ overlapping) quietMessaging"
  by code_simp+

text \<open>A message that was delivered stays so, whatever is reported later and however often.\<close>

definition sampleReports :: "status_event list" where
  "sampleReports = map sampleStatus [Undeliverable, Submitted, DeliveredStatus]"

theorem callbacks_count_in_any_order_witness:
  "fateAfter sampleReports (messageDb (messagingRun oneDraft quietMessaging)) ''SMa'' =
     fateAfter (rev sampleReports @ sampleReports) (messageDb (messagingRun oneDraft quietMessaging)) ''SMa'' \<and>
   fateAfter sampleReports (messageDb (messagingRun oneDraft quietMessaging)) ''SMa'' = Some 2"
proof
  show "fateAfter sampleReports (messageDb (messagingRun oneDraft quietMessaging)) ''SMa'' =
     fateAfter (rev sampleReports @ sampleReports) (messageDb (messagingRun oneDraft quietMessaging)) ''SMa''"
    by (rule callbacks_count_in_any_order) (auto simp: sampleReports_def sampleStatus_def)
  show "fateAfter sampleReports (messageDb (messagingRun oneDraft quietMessaging)) ''SMa'' = Some 2"
    by code_simp
qed

text \<open>
  A callback that arrives before the send has recorded the provider's id finds no message: it is set aside
  as orphaned, and since its key is taken, the provider's next delivery of it is answered as a duplicate.
  The delivered message stays accepted.
\<close>

definition overtaken :: "(text_outside \<times> text_input) list" where
  "overtaken =
     (outsideText ''a'', TextSent ''u1'' (sampleRequest ''k1'')) # replicate 4 (outsideText ''a'', TextContinues 0 Delivered) @
     [(outsideText ''b'', StatusArrives (sampleStatus DeliveredStatus)), (outsideText ''b'', TextContinues 1 Delivered),
      (outsideText ''b'', TextContinues 1 Delivered), (outsideText ''a'', TextContinues 0 Delivered),
      (outsideText ''c'', StatusArrives (sampleStatus DeliveredStatus)), (outsideText ''c'', TextContinues 0 Delivered)]"

lemma overtaken_callback_is_lost:
  "textAnswers (messagingRun overtaken quietMessaging) = [WebhookOrphaned, SendAccepted ''ma'', WebhookDeduplicated]"
  "map textStatus (texts (messageDb (messagingRun overtaken quietMessaging))) = [ACCEPTED]"
  "textRuns (messagingRun overtaken quietMessaging) = []"
  by code_simp+

section \<open>A message that arrives\<close>

definition oneArrival :: "(text_outside \<times> text_input) list" where
  "oneArrival =
     [(outsideText ''a'', InboundArrives (arrivingText ''SM1'' ''hello'')), (outsideText ''a'', TextContinues 0 Delivered),
      (outsideText ''a'', LinesChange (sampleDirectory\<lparr>userRows := \<lparr>userRowId = ''u2'', userName = None, userEmail = ''u2@x'',
         userDeleted = False\<rparr> # userRows sampleDirectory\<rparr>) (\<lambda>i c. True))]"

lemma oneArrival_ok: "inputs_ok oneArrival quietMessaging"
proof -
  let ?dir = "sampleDirectory\<lparr>userRows := \<lparr>userRowId = ''u2'', userName = None, userEmail = ''u2@x'',
    userDeleted = False\<rparr> # userRows sampleDirectory\<rparr>"
  have "lines_linked ?dir"
    by (simp add: lines_linked_def directory_kept_def sampleDirectory_def number_ok_def unheld_def departmentOf_def)
  moreover have "directory (messageDb (messagingRun (take 2 oneArrival) quietMessaging)) = sampleDirectory"
    by code_simp
  ultimately show ?thesis
    by (simp add: oneArrival_def userOf_def sampleDirectory_def)
qed

theorem message_tables_stay_well_formed_witness:
  "tables_ok (messageDb (messagingRun oneArrival quietMessaging)) \<and>
   map threadId (threads (messageDb (messagingRun oneArrival quietMessaging))) = [''ta'']"
proof
  show "tables_ok (messageDb (messagingRun oneArrival quietMessaging))"
    by (rule message_tables_stay_well_formed [OF sample_at_rest oneArrival_ok])
  show "map threadId (threads (messageDb (messagingRun oneArrival quietMessaging))) = [''ta'']"
    by code_simp
qed

theorem announced_to_those_who_can_open_witness:
  "loadConversationAudience (messageDb (messagingRun oneArrival quietMessaging)) ''ta'' = [''u1''] \<and>
   ''ta'' \<in> set (map threadId (threadsForUser (messageDb (messagingRun oneArrival quietMessaging)) ''u1''))"
proof -
  have told: "loadConversationAudience (messageDb (messagingRun oneArrival quietMessaging)) ''ta'' = [''u1'']"
    by code_simp
  show ?thesis
    using announced_to_those_who_can_open [OF sample_at_rest oneArrival_ok refl, of "''u1''" "''ta''"] told by simp
qed

text \<open>An arrival that is stored, and one whose transaction the database rolls back because it has the event.\<close>

definition rolledBackText :: text_outside where
  "rolledBackText = (outsideText ''b'')\<lparr>rolledBack := Some (False, reported_as (UniqueFields [''dedupe_key'']))\<rparr>"

theorem acknowledged_messages_are_stored_witness:
  "(\<exists>m n. n \<in> set (numbers (directory sampleMessages)) \<and> receives sampleMessages (arrivingText ''SM1'' ''hello'') n \<and>
     texts (fst (snd (textStep (outsideText ''a'') (ReceivingInbound (arrivingText ''SM1'' ''hello'') True) sampleMessages))) =
       texts sampleMessages @ [m] \<and>
     filed_under (fst (snd (textStep (outsideText ''a'') (ReceivingInbound (arrivingText ''SM1'' ''hello'') True) sampleMessages)))
       (arrivingText ''SM1'' ''hello'') n m) \<and>
   textStep rolledBackText (ReceivingInbound (arrivingText ''SM1'' ''hello'') True) (messageDb (messagingRun oneArrival quietMessaging)) =
     (Inr WebhookDeduplicated, messageDb (messagingRun oneArrival quietMessaging), [])"
proof -
  let ?e = "arrivingText ''SM1'' ''hello''"
  let ?step = "textStep (outsideText ''a'') (ReceivingInbound ?e True) sampleMessages"
  have step: "?step = (fst ?step, fst (snd ?step), snd (snd ?step))" by simp
  have next_run: "fst ?step = Inl (FindingAudience ''ta'' ReceivedActivity WebhookProcessed)" by code_simp
  have "tables_ok sampleMessages" using sample_at_rest by (simp add: atRest_def quietMessaging_def)
  moreover have "inboundKey ?e \<notin> eventKey ` set (providerEvents sampleMessages)" by (simp add: sampleMessages_def)
  moreover have "\<exists>n \<in> set (numbers (directory sampleMessages)). receives sampleMessages ?e n"
    by (simp add: receives_def sampleMessages_def sampleDirectory_def arrivingText_def lineOwnerOf_def)
  ultimately have stored: "\<exists>m n. n \<in> set (numbers (directory sampleMessages)) \<and> receives sampleMessages ?e n \<and>
     texts (fst (snd ?step)) = texts sampleMessages @ [m] \<and> filed_under (fst (snd ?step)) ?e n m"
    using acknowledged_messages_are_stored [OF _ _ step] next_run by (simp add: outsideText_def)
  let ?db = "messageDb (messagingRun oneArrival quietMessaging)"
  let ?again = "textStep rolledBackText (ReceivingInbound ?e True) ?db"
  have again: "?again = (fst ?again, fst (snd ?again), snd (snd ?again))" by simp
  have "classifyWebhookWriteFailure (Some (reported_as (UniqueFields [''dedupe_key'']))) = DuplicateDelivery"
    by (subst classified_duplicates) (simp add: nameOfDedupeKey_def)
  then have answer: "fst ?again = Inr WebhookDeduplicated" "snd (snd ?again) = []"
    by (simp_all add: rolledBackText_def afterInboundError_def del: reported_as.simps)
  have tables: "tables_ok ?db"
    using kept.run_holds [OF _ oneArrival_ok] sample_at_rest by (simp add: atRest_def messaging_kept_def)
  have known: "inboundKey ?e \<in> eventKey ` set (providerEvents ?db)" by code_simp
  then have "\<exists>f. err = reported_as f \<and> (ofDedupeKey f \<longrightarrow> inboundKey ?e \<in> eventKey ` set (providerEvents ?db))"
    if "rolledBack rolledBackText = Some (r, err)" for r err
    using that by (intro exI [of _ "UniqueFields [''dedupe_key'']"]) (simp add: rolledBackText_def)
  then have "fst (snd ?again) = ?db"
    using acknowledged_messages_are_stored [OF tables _ again] known answer
    by (simp del: textStep.simps)
  then show ?thesis using stored answer by (simp add: prod_eq_iff del: textStep.simps)
qed

section \<open>Senders, and a draft sent again\<close>

theorem offered_senders_are_allowed_witness:
  "\<exists>xs. listAllowedSenders (\<lambda>a b. 0) sampleMessages ''u1'' = Some xs \<and>
    (\<forall>i c. (\<exists>x \<in> set xs. senderId x = i \<and> sendsOn c x) \<longleftrightarrow> getAllowedSender sampleMessages c ''u1'' i \<noteq> None)"
  by (rule offered_senders_are_allowed) (simp add: sampleMessages_def sample_linked)

text \<open>A draft that failed in the thread of somebody who held the line before.\<close>

definition failedBefore :: message_db where
  "failedBefore =
     sampleMessages\<lparr>
       directory := sampleDirectory\<lparr>userRows := \<lparr>userRowId = ''u2'', userName = None, userEmail = ''u2@x'',
         userDeleted = True\<rparr> # userRows sampleDirectory\<rparr>,
       contacts := [\<lparr>contactId = ''c0'', contactPhone = ''+15551230009'', contactName = None\<rparr>],
       threads := [\<lparr>threadId = ''t0'', threadContact = ''c0'', threadLine = ''n1'', threadUser = Some ''u2'',
         threadDepartment = None, threadUnread = 0, threadReadAt = None, threadMessageAt = None\<rparr>],
       texts := [\<lparr>textId = ''m0'', textThread = ''t0'', textInbound = False, textChannel = SMS, textStatus = FAILED,
         textBody = Some ''hi'', textFrom = ''+15551230002'', textTo = ''+15551230009'', textProviderId = None,
         textKey = Some ''k1'', textFailureCode = None, textFailureReason = None, textSentAt = None,
         textDeliveredAt = None, textFailedAt = Some 1, textCreatedAt = 1\<rparr>]\<rparr>"

theorem drafts_are_sent_again_only_after_failing_witness:
  "textStatus (hd (texts failedBefore)) = FAILED \<or> textStatus (hd (texts failedBefore)) = REJECTED"
proof -
  let ?sender = "hd (numbers sampleDirectory)"
  let ?prepared = "fst (prepareSend (textIds (outsideText ''a'')) 100 ''u1'' (sampleRequest ''k1'') ?sender failedBefore)"
  have tables: "tables_ok failedBefore"
    using sample_linked
    by (simp add: tables_ok_def failedBefore_def sampleMessages_def contacts_ok_def threads_ok_def texts_ok_def owner_ok_def
        userOf_def lines_linked_def directory_kept_def sampleDirectory_def number_ok_def unheld_def departmentOf_def)
  have pending: "(case ?prepared of PrepPending t m \<Rightarrow> threadId t = ''ta'' \<and> textTo m = ''+15551230009'' | _ \<Rightarrow> False)"
    by code_simp
  obtain t m where prepared: "?prepared = PrepPending t m" and to: "textTo m = ''+15551230009''"
    using pending by (cases ?prepared) simp_all
  show ?thesis
    by (rule drafts_are_sent_again_only_after_failing [OF tables _ prepared, of _ "hd (threads failedBefore)"])
      (simp_all add: sampleRequest_def failedBefore_def sampleDirectory_def contactPhoneOf_def to)
qed
end
