(* ===== verification/Claim_Renewal.thy ===== *)
theory Claim_Renewal
  imports Prelude
begin

text \<open>
  \<open>apps/call-controller/src/calls/claim-renewal.ts\<close>: the heartbeat of one controller instance. The
  variables \<open>startClaimRenewal\<close> closes over are a record, each piece of \<open>renew\<close>, \<open>reconcile\<close> and
  \<open>stop\<close> between two awaits is a step, and what was awaited answers through the event. Runs of the two
  functions that are waiting for an answer are kept in lists, so that whether there can be more than
  one at a time is a theorem and not an assumption.
\<close>

section \<open>The state\<close>

definition RECONCILE_EVERY_ROUNDS :: nat where
  "RECONCILE_EVERY_ROUNDS = 10"

text \<open>What a run of \<open>renew\<close> and one of \<open>reconcile\<close> are waiting for.\<close>

datatype renew_wait = AwaitRestore | AwaitRenewal

datatype reconcile_wait = AwaitLock | AwaitTwilio

record claim_renewal =
  round :: nat
  renewing :: bool
  reconciling :: bool
  reconcileDue :: bool
  liveCallsRestored :: bool
  stoppingAborted :: bool
  lockGivenUp :: bool
  renewRuns :: "renew_wait list"
  reconcileRuns :: "reconcile_wait list"

section \<open>The steps\<close>

definition beginReconcile :: "claim_renewal \<Rightarrow> claim_renewal" where
  "beginReconcile s = s\<lparr>reconciling := True, reconcileRuns := AwaitLock # reconcileRuns s\<rparr>"

text \<open>\<open>renew\<close>, up to its first await.\<close>

definition beginRenew :: "claim_renewal \<Rightarrow> claim_renewal" where
  "beginRenew s =
     (if renewing s then s
      else s\<lparr>renewing := True,
             reconcileDue := (if round s mod RECONCILE_EVERY_ROUNDS = 0 then True
                              else reconcileDue s),
             round := round s + 1,
             renewRuns := (if liveCallsRestored s then AwaitRenewal else AwaitRestore)
               # renewRuns s\<rparr>)"

text \<open>
  What happens. \<open>Restored i ok\<close> and \<open>Renewed i\<close> answer the \<open>i\<close>-th waiting run of \<open>renew\<close>; an error of
  \<open>renewClaims\<close> is caught and leads to the same \<open>finally\<close>. \<open>LockAnswered i taken\<close> and \<open>Reconciled i\<close>
  answer the \<open>i\<close>-th waiting run of \<open>reconcile\<close>; a failed request for the lock is caught like a refusal.
  \<open>StopWaited deadline\<close> ends the race in \<open>stop\<close>, by the reconciliation's end or by the deadline, after
  which the lock is given up.
\<close>

datatype renewal_event =
  TimerFires
| Restored nat bool
| Renewed nat
| LockAnswered nat bool
| Reconciled nat
| StopAsked
| StopWaited bool

definition waits :: "nat \<Rightarrow> 'a \<Rightarrow> 'a list \<Rightarrow> bool" where
  "waits i x xs \<longleftrightarrow> i < length xs \<and> xs ! i = x"

definition endRenew :: "nat \<Rightarrow> claim_renewal \<Rightarrow> claim_renewal" where
  "endRenew i s =
     (let idle = s\<lparr>renewing := False, renewRuns := without i (renewRuns s)\<rparr>
      in if reconcileDue idle \<and> \<not> reconciling idle \<and> \<not> stoppingAborted idle
         then beginReconcile idle else idle)"

definition endReconcile :: "nat \<Rightarrow> claim_renewal \<Rightarrow> claim_renewal" where
  "endReconcile i s = s\<lparr>reconciling := False, reconcileRuns := without i (reconcileRuns s)\<rparr>"

fun renewalStep :: "renewal_event \<Rightarrow> claim_renewal \<Rightarrow> claim_renewal" where
  "renewalStep TimerFires s = (if stoppingAborted s then s else beginRenew s)"
| "renewalStep (Restored i ok) s =
     (if waits i AwaitRestore (renewRuns s)
      then s\<lparr>liveCallsRestored := (liveCallsRestored s \<or> ok),
             renewRuns := (renewRuns s)[i := AwaitRenewal]\<rparr>
      else s)"
| "renewalStep (Renewed i) s = (if waits i AwaitRenewal (renewRuns s) then endRenew i s else s)"
| "renewalStep (LockAnswered i taken) s =
     (if waits i AwaitLock (reconcileRuns s)
      then if taken
           then s\<lparr>reconcileDue := False, reconcileRuns := (reconcileRuns s)[i := AwaitTwilio]\<rparr>
           else endReconcile i s
      else s)"
| "renewalStep (Reconciled i) s =
     (if waits i AwaitTwilio (reconcileRuns s) then endReconcile i s else s)"
| "renewalStep StopAsked s = s\<lparr>stoppingAborted := True\<rparr>"
| "renewalStep (StopWaited deadline) s =
     (if stoppingAborted s \<and> (deadline \<or> \<not> reconciling s) then s\<lparr>lockGivenUp := True\<rparr> else s)"

text \<open>\<open>startClaimRenewal\<close> renews at once.\<close>

definition startClaimRenewal :: claim_renewal where
  "startClaimRenewal = beginRenew \<lparr>round = 0, renewing = False, reconciling = False,
     reconcileDue = False, liveCallsRestored = False, stoppingAborted = False,
     lockGivenUp = False, renewRuns = [], reconcileRuns = []\<rparr>"

fun renewal :: "renewal_event list \<Rightarrow> claim_renewal \<Rightarrow> claim_renewal" where
  "renewal [] s = s"
| "renewal (e # es) s = renewal es (renewalStep e s)"

section \<open>What the flags say is so\<close>

definition flags_true :: "claim_renewal \<Rightarrow> bool" where
  "flags_true s \<longleftrightarrow> length (renewRuns s) = (if renewing s then 1 else 0) \<and>
     length (reconcileRuns s) = (if reconciling s then 1 else 0) \<and>
     (AwaitLock \<in> set (reconcileRuns s) \<longrightarrow> reconcileDue s)"

lemma waits_single: "waits i x xs \<Longrightarrow> length xs = (if b then 1 else 0) \<Longrightarrow> xs = [x] \<and> i = 0 \<and> b"
  by (cases xs) (auto simp: waits_def split: if_splits)

lemma flags_true_begin: "flags_true s \<Longrightarrow> flags_true (beginRenew s)"
  by (auto simp: flags_true_def beginRenew_def)

lemma flags_true_endRenew:
  assumes "flags_true s" and "waits i x (renewRuns s)" shows "flags_true (endRenew i s)"
proof -
  have "renewRuns s = [x] \<and> i = 0 \<and> renewing s"
    using waits_single [OF assms(2), of "renewing s"] assms(1) by (simp add: flags_true_def)
  then show ?thesis
    using assms(1) by (simp add: flags_true_def endRenew_def beginReconcile_def without_def Let_def)
qed

lemma flags_true_endReconcile:
  assumes "flags_true s" and "waits i x (reconcileRuns s)" shows "flags_true (endReconcile i s)"
proof -
  have "reconcileRuns s = [x] \<and> i = 0 \<and> reconciling s"
    using waits_single [OF assms(2), of "reconciling s"] assms(1) by (simp add: flags_true_def)
  then show ?thesis
    using assms(1) by (simp add: flags_true_def endReconcile_def without_def)
qed

lemma flags_true_locked:
  assumes "flags_true s" and "waits i AwaitLock (reconcileRuns s)"
  shows "flags_true (s\<lparr>reconcileDue := False, reconcileRuns := (reconcileRuns s)[i := AwaitTwilio]\<rparr>)"
proof -
  have "reconcileRuns s = [AwaitLock] \<and> i = 0 \<and> reconciling s"
    using waits_single [OF assms(2), of "reconciling s"] assms(1) by (simp add: flags_true_def)
  then show ?thesis
    using assms(1) by (simp add: flags_true_def)
qed

lemma flags_true_restored:
  "flags_true s \<Longrightarrow>
     flags_true (s\<lparr>liveCallsRestored := r, renewRuns := (renewRuns s)[i := x]\<rparr>)"
  by (simp add: flags_true_def)

lemma flags_true_step: "flags_true s \<Longrightarrow> flags_true (renewalStep e s)"
  by (cases e)
    (simp_all add: flags_true_begin flags_true_endRenew flags_true_endReconcile flags_true_locked
      flags_true_restored, simp_all add: flags_true_def)

lemma flags_true_start: "flags_true startClaimRenewal"
  unfolding startClaimRenewal_def by (rule flags_true_begin) (simp add: flags_true_def)

lemma flags_true_run: "flags_true s \<Longrightarrow> flags_true (renewal es s)"
  by (induction es arbitrary: s) (simp_all add: flags_true_step)

lemma renewal_append: "renewal (es @ fs) s = renewal fs (renewal es s)"
  by (induction es arbitrary: s) simp_all

text \<open>Only a lock that was taken ends that a reconciliation is due.\<close>

lemma due_step: "reconcileDue s \<Longrightarrow> reconcileDue (renewalStep e s) \<or> (\<exists>i. e = LockAnswered i True)"
  by (cases e) (auto simp: beginRenew_def endRenew_def endReconcile_def beginReconcile_def Let_def)

lemma due_run: "reconcileDue s \<Longrightarrow> reconcileDue (renewal es s) \<or> (\<exists>i. LockAnswered i True \<in> set es)"
proof (induction es arbitrary: s)
  case (Cons e es)
  from due_step [OF Cons.prems, of e] show ?case
    using Cons.IH by auto
qed simp

text \<open>Once stopping, no run begins.\<close>

lemma stop_step:
  "stoppingAborted s \<Longrightarrow> stoppingAborted (renewalStep e s) \<and>
     length (renewRuns (renewalStep e s)) \<le> length (renewRuns s) \<and>
     length (reconcileRuns (renewalStep e s)) \<le> length (reconcileRuns s) \<and>
     round (renewalStep e s) = round s"
  by (cases e) (auto simp: endRenew_def endReconcile_def without_def Let_def)

lemma stop_run:
  "stoppingAborted s \<Longrightarrow> length (reconcileRuns (renewal es s)) \<le> length (reconcileRuns s) \<and>
     round (renewal es s) = round s"
proof (induction es arbitrary: s)
  case (Cons e es)
  then show ?case
    using stop_step [OF Cons.prems, of e] Cons.IH [of "renewalStep e s"] by fastforce
qed simp

text \<open>While the deadline has not passed, the lock is given up only with no reconciliation running.\<close>

definition stop_kept :: "claim_renewal \<Rightarrow> bool" where
  "stop_kept s \<longleftrightarrow> (lockGivenUp s \<longrightarrow> stoppingAborted s \<and> \<not> reconciling s)"

lemma stop_kept_step: "stop_kept s \<Longrightarrow> e \<noteq> StopWaited True \<Longrightarrow> stop_kept (renewalStep e s)"
  by (cases e)
    (auto simp: stop_kept_def beginRenew_def endRenew_def beginReconcile_def endReconcile_def Let_def)

lemma stop_kept_run: "stop_kept s \<Longrightarrow> StopWaited True \<notin> set es \<Longrightarrow> stop_kept (renewal es s)"
proof (induction es arbitrary: s)
  case (Cons e es)
  then have "e \<noteq> StopWaited True" "StopWaited True \<notin> set es" by auto
  then show ?case
    using Cons.IH [OF stop_kept_step [OF Cons.prems(1)]] by simp
qed simp

text \<open>A stretch in which a round began whose number is a multiple of ten made a reconciliation due.\<close>

lemma step_round: "round (renewalStep e s) = round s \<or>
    round (renewalStep e s) = round s + 1 \<and> (round s mod 10 = 0 \<longrightarrow> reconcileDue (renewalStep e s))"
  by (cases e) (auto simp: beginRenew_def endRenew_def endReconcile_def beginReconcile_def Let_def
      RECONCILE_EVERY_ROUNDS_def)

lemma due_after_round:
  "round s \<le> k \<Longrightarrow> k < round (renewal es s) \<Longrightarrow> k mod 10 = 0 \<Longrightarrow>
     reconcileDue (renewal es s) \<or> (\<exists>i. LockAnswered i True \<in> set es)"
proof (induction es arbitrary: s)
  case (Cons e es)
  show ?case
  proof (cases "round (renewalStep e s) \<le> k")
    case True
    then show ?thesis using Cons.IH [of "renewalStep e s"] Cons.prems by auto
  next
    case False
    then have "round (renewalStep e s) = round s + 1" "round s = k"
      using step_round [of e s] Cons.prems(1) by linarith+
    then have "reconcileDue (renewalStep e s)"
      using step_round [of e s] Cons.prems(3) by (elim disjE conjE) simp_all
    from due_run [OF this, of es] show ?thesis by auto
  qed
qed simp

section \<open>Properties\<close>

text \<open>C38. Whatever fires and answers, in whatever order: one round renews at a time, one reconciliation
  runs at a time, and the flags that see to it tell the truth.\<close>

theorem one_round_and_one_reconciliation_at_a_time:
  "let s = renewal es startClaimRenewal in
     length (renewRuns s) = (if renewing s then 1 else 0)
     \<and> length (reconcileRuns s) = (if reconciling s then 1 else 0)"
  using flags_true_run [OF flags_true_start, of es] by (simp add: flags_true_def Let_def)

text \<open>A reconciliation is due every ten rounds and stays due until some attempt takes the lock: over
  any stretch in which ten rounds began, either a lock was taken or one is due at the end.\<close>

theorem reconciliation_comes_due_every_ten_rounds:
  assumes "round s + 10 \<le> round (renewal es s)"
  shows "reconcileDue (renewal es s) \<or> (\<exists>i. LockAnswered i True \<in> set es)"
proof -
  define k where "k = ((round s + 9) div 10) * 10"
  have "round s \<le> k" "k < round s + 10" "k mod 10 = 0"
    by (simp_all add: k_def)
  then show ?thesis using due_after_round [of s k es] assms by simp
qed

definition tenRounds :: "renewal_event list" where
  "tenRounds = [Restored 0 False, Renewed 0, LockAnswered 0 False]
     @ concat (replicate 10 [TimerFires, Restored 0 True, Renewed 0])"

theorem reconciliation_comes_due_every_ten_rounds_witness:
  "reconcileDue (renewal tenRounds startClaimRenewal)"
proof -
  have "round startClaimRenewal + 10 \<le> round (renewal tenRounds startClaimRenewal)"
    by code_simp
  from reconciliation_comes_due_every_ten_rounds [OF this] show ?thesis
    by (simp add: tenRounds_def)
qed

text \<open>A stop lets the reconciliation finish: once the lock was given up without the deadline, no
  reconciliation is under way, and none begins however long timers fire and answers arrive.\<close>

theorem stop_waits_for_the_reconciliation:
  assumes "lockGivenUp (renewal es startClaimRenewal)" and "StopWaited True \<notin> set (es @ fs)"
  shows "reconcileRuns (renewal (es @ fs) startClaimRenewal) = []
    \<and> round (renewal (es @ fs) startClaimRenewal) = round (renewal es startClaimRenewal)"
proof -
  let ?s = "renewal es startClaimRenewal"
  have "stop_kept ?s"
    using stop_kept_run [of startClaimRenewal es] assms(2)
    by (simp add: stop_kept_def startClaimRenewal_def beginRenew_def)
  then have quiet: "stoppingAborted ?s" "\<not> reconciling ?s"
    using assms(1) by (simp_all add: stop_kept_def)
  have "reconcileRuns ?s = []"
    using flags_true_run [OF flags_true_start, of es] quiet(2) by (simp add: flags_true_def)
  then show ?thesis
    using stop_run [OF quiet(1), of fs] by (simp add: renewal_append)
qed

theorem stop_waits_for_the_reconciliation_witness:
  "reconcileRuns (renewal ([StopAsked, StopWaited False] @ [TimerFires, Restored 0 True, Renewed 0])
     startClaimRenewal) = []"
proof -
  have "lockGivenUp (renewal [StopAsked, StopWaited False] startClaimRenewal)"
    by code_simp
  from stop_waits_for_the_reconciliation [OF this, of "[TimerFires, Restored 0 True, Renewed 0]"]
  show ?thesis by simp
qed

end
