(* ===== verification/Socket_Handlers.thy ===== *)
theory Socket_Handlers
  imports Realtime
begin

text \<open>
  \<open>realtime/socket-handlers.ts\<close>: what one connected softphone makes the controller do. Registering and
  unregistering take trips to Redis that interleave with the disconnect, so every handler is cut at
  its awaits: what is under way is a list, and the answer to any entry of it is an event. Beside it
  \<open>socket-auth.ts\<close> (who a socket belongs to) and \<open>message-activity-relay.ts\<close>.
\<close>

section \<open>State of one socket\<close>

datatype reason = ForUser | ForHeartbeat

text \<open>What runs once an unregister returned: the rest of \<open>register\<close>, or of the disconnect handler.\<close>

datatype continuation = RegisteredFor reason bool | Disconnected

datatype waiting =
  AwaitClock reason
| AwaitStored reason millis
| AwaitRemoved continuation
| AwaitNotice
| AwaitRejected call_id

datatype socket_error = REGISTRATION_FAILED | CALL_REJECT_FAILED

text \<open>
  The variables of the connection's closure, the errors the client was told, how often the connection
  change was announced and an unregister failed, and what the handlers share with the rest of the
  program: the sorted set of the user's sockets and Redis's clock.
\<close>

record socket =
  socketId :: socket_id
  registered :: bool
  closed :: bool
  refreshFailing :: bool
  pending :: "waiting list"
  errorsSent :: "socket_error list"
  announced :: nat
  unregisterFailures :: nat
  userSockets :: socket_set
  clock :: millis

section \<open>The handlers between their awaits\<close>

definition announce :: "socket \<Rightarrow> socket \<times> waiting list" where
  "announce s = (s\<lparr>announced := announced s + 1\<rparr>, [AwaitNotice])"

text \<open>What \<open>register_user\<close> and \<open>refresh\<close> do when \<open>register\<close> returned or threw.\<close>

fun afterRegister :: "reason \<Rightarrow> bool \<Rightarrow> socket \<Rightarrow> socket \<times> waiting list" where
  "afterRegister ForUser True s = announce s"
| "afterRegister ForUser False s =
     (s\<lparr>errorsSent := errorsSent s @ [REGISTRATION_FAILED]\<rparr>, [])"
| "afterRegister ForHeartbeat ok s = (s\<lparr>refreshFailing := \<not> ok\<rparr>, [])"

text \<open>The \<open>finally\<close> of \<open>register\<close>.\<close>

definition finallyUnregister :: "reason \<Rightarrow> bool \<Rightarrow> socket \<Rightarrow> socket \<times> waiting list" where
  "finallyUnregister r ok s =
     (if closed s then (s, [AwaitRemoved (RegisteredFor r ok)]) else afterRegister r ok s)"

fun continue :: "continuation \<Rightarrow> socket \<Rightarrow> socket \<times> waiting list" where
  "continue (RegisteredFor r ok) s = afterRegister r ok s"
| "continue Disconnected s = (if registered s then announce s else (s, []))"

definition storeSocket :: "millis \<Rightarrow> socket \<Rightarrow> socket" where
  "storeSocket now s = s\<lparr>userSockets := registerSocketTx (socketId s) now (userSockets s)\<rparr>"

definition removeSocket :: "socket \<Rightarrow> socket" where
  "removeSocket s = s\<lparr>userSockets := unregisterSocketTx (socketId s) (userSockets s)\<rparr>"

definition unregisterFailed :: "socket \<Rightarrow> socket" where
  "unregisterFailed s = s\<lparr>unregisterFailures := unregisterFailures s + 1\<rparr>"

fun requestEnds :: "waiting \<Rightarrow> delivery \<Rightarrow> socket \<Rightarrow> socket \<times> waiting list" where
  "requestEnds (AwaitClock r) a s =
     (if a = Delivered then (s, [AwaitStored r (clock s)]) else finallyUnregister r False s)"
| "requestEnds (AwaitStored r now) a s =
     finallyUnregister r (a = Delivered) (if a = Lost then s else storeSocket now s)"
| "requestEnds (AwaitRemoved k) a s =
     (let removed = (if a = Lost then s else removeSocket s)
      in continue k (if a = Delivered then removed else unregisterFailed removed))"
| "requestEnds AwaitNotice a s = (s, [])"
| "requestEnds (AwaitRejected cid) a s =
     (if a = Delivered then (s, [])
      else (s\<lparr>errorsSent := errorsSent s @ [CALL_REJECT_FAILED]\<rparr>, []))"

section \<open>What happens to a socket\<close>

text \<open>
  What the client sends (with whether the payload parses), its disconnect, the heartbeat (or Redis
  being back, which runs the same \<open>refresh\<close>), an answer to the \<open>i\<close>-th thing under way, time, and what
  others do to the user's set: other sockets registering or leaving, and the key expiring.
\<close>

datatype socket_event =
  RegisterUser bool
| CallReject "call_id option"
| Disconnect
| HeartbeatDue
| RequestEnds nat delivery
| TimePasses nat
| OtherRegisters socket_id
| OtherLeaves socket_id
| KeyExpires

definition push :: "waiting \<Rightarrow> socket \<Rightarrow> socket" where
  "push p s = s\<lparr>pending := pending s @ [p]\<rparr>"

fun socketStep :: "socket_event \<Rightarrow> socket \<Rightarrow> socket" where
  "socketStep (RegisterUser valid) s =
     (if closed s then s
      else if \<not> valid then s\<lparr>errorsSent := errorsSent s @ [REGISTRATION_FAILED]\<rparr>
      else push (AwaitClock ForUser) (s\<lparr>registered := True\<rparr>))"
| "socketStep (CallReject conversation) s =
     (if closed s then s
      else case conversation of
             None \<Rightarrow> s\<lparr>errorsSent := errorsSent s @ [CALL_REJECT_FAILED]\<rparr>
           | Some cid \<Rightarrow> push (AwaitRejected cid) s)"
| "socketStep Disconnect s =
     (if closed s then s else push (AwaitRemoved Disconnected) (s\<lparr>closed := True\<rparr>))"
| "socketStep HeartbeatDue s =
     (if closed s \<or> \<not> registered s then s else push (AwaitClock ForHeartbeat) s)"
| "socketStep (RequestEnds i a) s =
     (if i < length (pending s)
      then case requestEnds (pending s ! i) a s of (s', new) \<Rightarrow>
             s'\<lparr>pending := take i (pending s) @ new @ drop (Suc i) (pending s)\<rparr>
      else s)"
| "socketStep (TimePasses d) s = s\<lparr>clock := clock s + d\<rparr>"
| "socketStep (OtherRegisters other) s =
     (if other = socketId s then s
      else s\<lparr>userSockets := registerSocketTx other (clock s) (userSockets s)\<rparr>)"
| "socketStep (OtherLeaves other) s =
     (if other = socketId s then s
      else s\<lparr>userSockets := unregisterSocketTx other (userSockets s)\<rparr>)"
| "socketStep KeyExpires s = s\<lparr>userSockets := []\<rparr>"

text \<open>A connection: nothing is stored of it before the softphone registers.\<close>

definition connected :: "socket_id \<Rightarrow> millis \<Rightarrow> socket" where
  "connected sid now = \<lparr>socketId = sid, registered = False, closed = False, refreshFailing = False,
     pending = [], errorsSent = [], announced = 0, unregisterFailures = 0, userSockets = [],
     clock = now\<rparr>"

fun socketRun :: "socket_event list \<Rightarrow> socket \<Rightarrow> socket" where
  "socketRun [] s = s"
| "socketRun (e # es) s = socketRun es (socketStep e s)"

section \<open>What is stored of the socket\<close>

definition writing :: "waiting \<Rightarrow> bool" where
  "writing p \<longleftrightarrow> (case p of AwaitClock r \<Rightarrow> True | AwaitStored r t \<Rightarrow> True
     | AwaitRemoved k \<Rightarrow> True | _ \<Rightarrow> False)"

definition storedAt :: "socket \<Rightarrow> millis set" where
  "storedAt s = {t. (socketId s, t) \<in> set (userSockets s)}"

lemma writing_simps [simp]:
  "writing (AwaitClock r)" "writing (AwaitStored r t)" "writing (AwaitRemoved k)"
  "\<not> writing AwaitNotice" "\<not> writing (AwaitRejected cid)"
  by (simp_all add: writing_def)

lemma afterRegister_kept:
  assumes "afterRegister r ok s = (s', new)"
  shows "socketId s' = socketId s \<and> userSockets s' = userSockets s \<and> clock s' = clock s
    \<and> closed s' = closed s \<and> unregisterFailures s' = unregisterFailures s \<and> pending s' = pending s
    \<and> set new \<subseteq> {AwaitNotice}"
  using assms by (cases "(r, ok, s)" rule: afterRegister.cases) (auto simp: announce_def)

lemma continue_kept:
  assumes "continue k s = (s', new)"
  shows "socketId s' = socketId s \<and> userSockets s' = userSockets s \<and> clock s' = clock s
    \<and> closed s' = closed s \<and> unregisterFailures s' = unregisterFailures s \<and> pending s' = pending s
    \<and> set new \<subseteq> {AwaitNotice}"
proof (cases k)
  case (RegisteredFor r ok)
  then show ?thesis using assms afterRegister_kept [of r ok s] by simp
next
  case Disconnected
  then show ?thesis using assms by (auto simp: announce_def split: if_splits)
qed

lemma finallyUnregister_kept:
  assumes "finallyUnregister r ok s = (s', new)"
  shows "socketId s' = socketId s \<and> userSockets s' = userSockets s \<and> clock s' = clock s
    \<and> closed s' = closed s \<and> unregisterFailures s' = unregisterFailures s \<and> pending s' = pending s
    \<and> (if closed s then new = [AwaitRemoved (RegisteredFor r ok)] else set new \<subseteq> {AwaitNotice})"
  using assms afterRegister_kept [of r ok s] by (auto simp: finallyUnregister_def split: if_splits)

lemma storedAt_store: "storedAt (storeSocket t s) \<subseteq> insert t (storedAt s)"
  by (auto simp: storedAt_def storeSocket_def registerSocketTx_def freshOf_def
      dest!: set_AList_updateD)

lemma storedAt_remove: "storedAt (removeSocket s) = {}"
  by (auto simp: storedAt_def removeSocket_def unregisterSocketTx_def set_AList_delete)

lemma store_kept:
  "closed (storeSocket t s) = closed s" "clock (storeSocket t s) = clock s"
  "socketId (storeSocket t s) = socketId s" "pending (storeSocket t s) = pending s"
  "unregisterFailures (storeSocket t s) = unregisterFailures s"
  "closed (removeSocket s) = closed s" "clock (removeSocket s) = clock s"
  "socketId (removeSocket s) = socketId s" "pending (removeSocket s) = pending s"
  "unregisterFailures (removeSocket s) = unregisterFailures s"
  by (simp_all add: storeSocket_def removeSocket_def)

lemma storedAt_same:
  "socketId s' = socketId s \<Longrightarrow> userSockets s' = userSockets s \<Longrightarrow> storedAt s' = storedAt s"
  by (simp add: storedAt_def)

definition same_connection :: "socket \<Rightarrow> socket \<Rightarrow> bool" where
  "same_connection s s' \<longleftrightarrow> socketId s' = socketId s \<and> clock s' = clock s \<and> closed s' = closed s
     \<and> pending s' = pending s"

text \<open>What one answer does: it stores at most what it was asked to store, and while the socket is closed
  it leaves something to undo that, has undone it, or has failed to.\<close>

definition answer_kept :: "waiting \<Rightarrow> socket \<Rightarrow> socket \<Rightarrow> waiting list \<Rightarrow> bool" where
  "answer_kept p s s' new \<longleftrightarrow>
     same_connection s s'
     \<and> unregisterFailures s \<le> unregisterFailures s'
     \<and> storedAt s' \<subseteq> storedAt s \<union> {t. \<exists>r. p = AwaitStored r t}
     \<and> (\<forall>r t. AwaitStored r t \<in> set new \<longrightarrow> t = clock s)
     \<and> (\<not> writing p \<longrightarrow> \<not> (\<exists>q \<in> set new. writing q))
     \<and> (closed s \<and> writing p \<longrightarrow> (\<exists>q \<in> set new. writing q) \<or> storedAt s' = {}
          \<or> 0 < unregisterFailures s')"

lemma answer_kept_clock: "requestEnds (AwaitClock r) a s = (s', new) \<Longrightarrow> answer_kept (AwaitClock r) s s' new"
  using finallyUnregister_kept [of r False s s' new] storedAt_same [of s' s]
  by (auto simp: answer_kept_def same_connection_def split: if_splits)

lemma answer_kept_stored:
  assumes "requestEnds (AwaitStored r t) a s = (s', new)"
  shows "answer_kept (AwaitStored r t) s s' new"
proof -
  define m where "m = (if a = Lost then s else storeSocket t s)"
  have m: "same_connection s m" "unregisterFailures m = unregisterFailures s"
      "storedAt m \<subseteq> insert t (storedAt s)"
    using storedAt_store [of t s] by (auto simp: m_def same_connection_def store_kept)
  have "finallyUnregister r (a = Delivered) m = (s', new)"
    using assms by (simp add: m_def)
  from finallyUnregister_kept [OF this] m storedAt_same [of s' m] show ?thesis
    by (auto simp: answer_kept_def same_connection_def split: if_splits)
qed

lemma answer_kept_removed:
  assumes "requestEnds (AwaitRemoved k) a s = (s', new)"
  shows "answer_kept (AwaitRemoved k) s s' new"
proof -
  define m where "m = (if a = Lost then s else removeSocket s)"
  define m' where "m' = (if a = Delivered then m else unregisterFailed m)"
  have m': "same_connection s m'" "storedAt m' \<subseteq> storedAt s"
      "storedAt m' = {} \<or> 0 < unregisterFailures m'" "unregisterFailures s \<le> unregisterFailures m'"
    using storedAt_remove [of s]
    by (auto simp: m_def m'_def same_connection_def store_kept unregisterFailed_def storedAt_def)
  have "continue k m' = (s', new)"
    using assms by (cases a) (simp_all add: m_def m'_def Let_def)
  from continue_kept [OF this] m' storedAt_same [of s' m'] show ?thesis
    by (auto simp: answer_kept_def same_connection_def)
qed

lemma answer_kept: "requestEnds p a s = (s', new) \<Longrightarrow> answer_kept p s s' new"
proof (cases p)
  case (AwaitClock r)
  then show "requestEnds p a s = (s', new) \<Longrightarrow> ?thesis" by (simp only: answer_kept_clock)
next
  case (AwaitStored r t)
  then show "requestEnds p a s = (s', new) \<Longrightarrow> ?thesis" by (simp only: answer_kept_stored)
next
  case (AwaitRemoved k)
  then show "requestEnds p a s = (s', new) \<Longrightarrow> ?thesis" by (simp only: answer_kept_removed)
next
  case AwaitNotice
  then show "requestEnds p a s = (s', new) \<Longrightarrow> ?thesis"
    by (simp add: answer_kept_def same_connection_def)
next
  case (AwaitRejected cid)
  then show "requestEnds p a s = (s', new) \<Longrightarrow> ?thesis"
    by (auto simp: answer_kept_def same_connection_def storedAt_def split: if_splits)
qed

section \<open>The invariant\<close>

definition socket_ok :: "socket \<Rightarrow> bool" where
  "socket_ok s \<longleftrightarrow> (\<forall>t \<in> storedAt s. t \<le> clock s)
     \<and> (\<forall>r t. AwaitStored r t \<in> set (pending s) \<longrightarrow> t \<le> clock s)
     \<and> (closed s \<and> unregisterFailures s = 0 \<and> storedAt s \<noteq> {} \<longrightarrow> (\<exists>p \<in> set (pending s). writing p))"

lemma in_replaced:
  "i < length xs \<Longrightarrow> x \<in> set xs \<Longrightarrow> x = xs ! i \<or> x \<in> set (take i xs @ new @ drop (Suc i) xs)"
  by (metis Un_iff id_take_nth_drop set_ConsD set_append list.set_intros(2))

lemma replaced_in:
  "x \<in> set (take i xs @ new @ drop (Suc i) xs) \<Longrightarrow> x \<in> set xs \<or> x \<in> set new"
  by (auto dest: in_set_takeD in_set_dropD)

lemma socket_ok_answered:
  assumes "socket_ok s"
  shows "socket_ok (socketStep (RequestEnds i a) s)"
proof (cases "i < length (pending s)")
  case True
  let ?p = "pending s ! i"
  obtain s' new where ans: "requestEnds ?p a s = (s', new)" by (cases "requestEnds ?p a s")
  let ?ps = "take i (pending s) @ new @ drop (Suc i) (pending s)"
  define s'' where "s'' = s'\<lparr>pending := ?ps\<rparr>"
  have step: "socketStep (RequestEnds i a) s = s''"
    using True by (simp add: ans s''_def)
  have kept: "answer_kept ?p s s' new" using answer_kept [OF ans] .
  have same: "storedAt s'' = storedAt s'" "clock s'' = clock s" "closed s'' = closed s"
      "unregisterFailures s'' = unregisterFailures s'" "pending s'' = ?ps"
    using kept by (simp_all add: s''_def storedAt_def answer_kept_def same_connection_def)
  have p: "?p \<in> set (pending s)" using True by simp
  have times: "\<forall>t \<in> storedAt s''. t \<le> clock s''"
  proof
    fix t assume "t \<in> storedAt s''"
    then have "t \<in> storedAt s \<or> (\<exists>r. AwaitStored r t \<in> set (pending s))"
      using kept p unfolding same by (auto simp: answer_kept_def)
    then show "t \<le> clock s''" using assms unfolding same by (auto simp: socket_ok_def)
  qed
  have waits: "\<forall>r t. AwaitStored r t \<in> set (pending s'') \<longrightarrow> t \<le> clock s''"
  proof (intro allI impI)
    fix r t assume "AwaitStored r t \<in> set (pending s'')"
    then have "AwaitStored r t \<in> set (pending s) \<or> AwaitStored r t \<in> set new"
      unfolding same by (rule replaced_in)
    then show "t \<le> clock s''" using assms kept unfolding same
      by (auto simp: socket_ok_def answer_kept_def)
  qed
  have left: "\<exists>q \<in> set ?ps. writing q"
    if left_by: "closed s" "unregisterFailures s' = 0" "storedAt s' \<noteq> {}"
  proof (cases "writing ?p")
    case w: True
    then show ?thesis using kept left_by by (auto simp: answer_kept_def)
  next
    case False
    then have "storedAt s \<noteq> {}" "unregisterFailures s = 0"
      using kept left_by by (auto simp: answer_kept_def)
    then obtain q where q: "q \<in> set (pending s)" "writing q"
      using assms left_by(1) by (auto simp: socket_ok_def)
    then have "q \<in> set ?ps" using in_replaced [OF True q(1), of new] False by blast
    then show ?thesis using q(2) by blast
  qed
  show ?thesis
    unfolding step socket_ok_def using times waits left unfolding same by blast
qed (simp add: assms)

lemma storedAt_push [simp]: "storedAt (push p s) = storedAt s"
  by (simp add: storedAt_def push_def)

lemma storedAt_others:
  "other \<noteq> socketId s \<Longrightarrow>
     storedAt (s\<lparr>userSockets := registerSocketTx other t (userSockets s)\<rparr>) \<subseteq> storedAt s"
  "storedAt (s\<lparr>userSockets := unregisterSocketTx other (userSockets s)\<rparr>) \<subseteq> storedAt s"
  by (auto simp: storedAt_def registerSocketTx_def unregisterSocketTx_def freshOf_def
      set_AList_delete dest!: set_AList_updateD)

lemma socket_ok_push:
  "socket_ok s \<Longrightarrow> (\<forall>r t. p \<noteq> AwaitStored r t) \<Longrightarrow> socket_ok (push p s)"
  by (auto simp: socket_ok_def push_def storedAt_def)

lemma socket_ok_fields:
  assumes "socket_ok s" and "storedAt s' \<subseteq> storedAt s" and "pending s' = pending s"
    and "clock s \<le> clock s'" and "closed s' = closed s"
    and "unregisterFailures s' = unregisterFailures s"
  shows "socket_ok s'"
  using assms unfolding socket_ok_def by (metis bot.extremum_uniqueI dual_order.trans subsetD)

lemma socket_ok_step:
  assumes "socket_ok s"
  shows "socket_ok (socketStep e s)"
proof (cases e)
  case (RequestEnds i a)
  then show ?thesis using socket_ok_answered [OF assms] by simp
next
  case Disconnect
  have "closed s \<or> socketStep e s = push (AwaitRemoved Disconnected) (s\<lparr>closed := True\<rparr>)"
    by (simp add: Disconnect)
  then show ?thesis
    using assms by (auto simp: Disconnect socket_ok_def push_def storedAt_def)
next
  case (OtherRegisters other)
  then show ?thesis
    using socket_ok_fields [OF assms storedAt_others(1)] assms by auto
next
  case (OtherLeaves other)
  then show ?thesis
    using socket_ok_fields [OF assms storedAt_others(2)] assms by auto
next
  case (CallReject conversation)
  then show ?thesis
    using assms socket_ok_fields [OF assms, of "s\<lparr>errorsSent := errorsSent s @ [CALL_REJECT_FAILED]\<rparr>"]
    by (auto simp: storedAt_def intro: socket_ok_push split: option.splits)
next
  case (RegisterUser valid)
  have "socket_ok (s\<lparr>registered := True\<rparr>)"
      "socket_ok (s\<lparr>errorsSent := errorsSent s @ [REGISTRATION_FAILED]\<rparr>)"
    by (rule socket_ok_fields [OF assms]; simp add: storedAt_def)+
  then show ?thesis using assms by (auto simp: RegisterUser intro: socket_ok_push)
next
  case HeartbeatDue
  then show ?thesis using assms by (auto intro: socket_ok_push)
next
  case (TimePasses d)
  have "socket_ok (s\<lparr>clock := clock s + d\<rparr>)"
    by (rule socket_ok_fields [OF assms]) (simp_all add: storedAt_def)
  then show ?thesis by (simp add: TimePasses)
next
  case KeyExpires
  have "socket_ok (s\<lparr>userSockets := []\<rparr>)"
    by (rule socket_ok_fields [OF assms]) (simp_all add: storedAt_def)
  then show ?thesis by (simp add: KeyExpires)
qed

lemma socket_ok_run: "socket_ok s \<Longrightarrow> socket_ok (socketRun es s)"
  by (induction es arbitrary: s) (simp_all add: socket_ok_step)

lemma socket_ok_connected: "socket_ok (connected sid now)"
  by (simp add: socket_ok_def connected_def storedAt_def)

section \<open>A socket that is done\<close>

text \<open>Closed, with nothing under way that writes to Redis. From there on nothing is stored of it.\<close>

definition finished :: "socket \<Rightarrow> bool" where
  "finished s \<longleftrightarrow> closed s \<and> \<not> (\<exists>p \<in> set (pending s). writing p)"

lemma finished_step:
  assumes "finished s"
  shows "finished (socketStep e s) \<and> storedAt (socketStep e s) \<subseteq> storedAt s
    \<and> clock s \<le> clock (socketStep e s) \<and> socketId (socketStep e s) = socketId s"
proof (cases e)
  case (RequestEnds i a)
  show ?thesis
  proof (cases "i < length (pending s)")
    case True
    let ?p = "pending s ! i"
    obtain s' new where ans: "requestEnds ?p a s = (s', new)" by (cases "requestEnds ?p a s")
    have "\<not> writing ?p" using assms True by (auto simp: finished_def)
    then have kept: "same_connection s s'" "storedAt s' \<subseteq> storedAt s"
        "\<not> (\<exists>q \<in> set new. writing q)"
      using answer_kept [OF ans] by (auto simp: answer_kept_def)
    have "\<not> (\<exists>q \<in> set (take i (pending s) @ new @ drop (Suc i) (pending s)). writing q)"
      using assms kept(3) by (auto simp: finished_def dest: in_set_takeD in_set_dropD)
    then show ?thesis
      using True kept(1,2) assms
      by (simp add: RequestEnds ans finished_def same_connection_def storedAt_def)
  qed (use assms RequestEnds in simp)
next
  case (OtherRegisters other)
  then show ?thesis
    using assms storedAt_others(1) [of other s "clock s"] by (auto simp: finished_def)
next
  case (OtherLeaves other)
  then show ?thesis
    using assms storedAt_others(2) [of other s] by (auto simp: finished_def)
qed (use assms in \<open>auto simp: finished_def storedAt_def\<close>)

lemma finished_run:
  "finished s \<Longrightarrow> storedAt (socketRun es s) \<subseteq> storedAt s \<and> clock s \<le> clock (socketRun es s)
     \<and> socketId (socketRun es s) = socketId s"
proof (induction es arbitrary: s)
  case (Cons e es)
  from finished_step [OF Cons.prems, of e] Cons.IH [of "socketStep e s"] show ?case
    by auto
qed simp

lemma alive_storedAt:
  "socketId s \<in> aliveSockets now (userSockets s) \<longleftrightarrow> (\<exists>t \<in> storedAt s. now < t + 90000)"
  by (auto simp: aliveSockets_aliveOf aliveOf_iff storedAt_def)

lemma socketRun_append: "socketRun (es @ fs) s = socketRun fs (socketRun es s)"
  by (induction es arbitrary: s) simp_all

lemma socketId_answered: "requestEnds p a s = (s', new) \<Longrightarrow> socketId s' = socketId s"
  using answer_kept [of p a s s' new] by (simp add: answer_kept_def same_connection_def)

lemma socketId_run: "socketId (socketRun es s) = socketId s"
proof (induction es arbitrary: s)
  case (Cons e es)
  have "socketId (socketStep e s) = socketId s"
    by (cases e) (auto simp: push_def dest: socketId_answered split: option.splits prod.splits)
  then show ?case using Cons.IH [of "socketStep e s"] by simp
qed simp

section \<open>How often the connection is announced\<close>

text \<open>What may still be announced by what is under way.\<close>

fun owed :: "waiting \<Rightarrow> nat" where
  "owed (AwaitClock ForUser) = 1"
| "owed (AwaitStored ForUser t) = 1"
| "owed (AwaitRemoved (RegisteredFor ForUser ok)) = 1"
| "owed (AwaitRemoved Disconnected) = 1"
| "owed p = 0"

definition owing :: "socket \<Rightarrow> nat" where
  "owing s = announced s + sum_list (map owed (pending s)) + (if closed s then 0 else 1)"

lemma owed_after: "afterRegister r ok s = (s', new) \<Longrightarrow>
    announced s' + sum_list (map owed new) \<le> announced s + owed (AwaitRemoved (RegisteredFor r ok))"
  by (cases "(r, ok, s)" rule: afterRegister.cases) (auto simp: announce_def)

lemma owed_continue: "continue k s = (s', new) \<Longrightarrow>
    announced s' + sum_list (map owed new) \<le> announced s + owed (AwaitRemoved k)"
  by (cases k) (auto simp: announce_def dest: owed_after split: if_splits)

lemma owed_reason:
  "owed (AwaitClock r) = owed (AwaitRemoved (RegisteredFor r ok))"
  "owed (AwaitStored r t) = owed (AwaitRemoved (RegisteredFor r ok))"
  by (cases r; simp; fail)+

lemma owed_finally: "finallyUnregister r ok s = (s', new) \<Longrightarrow>
    announced s' + sum_list (map owed new) \<le> announced s + owed (AwaitRemoved (RegisteredFor r ok))"
  by (auto simp: finallyUnregister_def dest: owed_after split: if_splits)

lemma announced_kept [simp]:
  "announced (storeSocket t s) = announced s" "announced (removeSocket s) = announced s"
  "announced (unregisterFailed s) = announced s"
  by (simp_all add: storeSocket_def removeSocket_def unregisterFailed_def)

lemma owed_answered:
  assumes "requestEnds p a s = (s', new)"
  shows "announced s' + sum_list (map owed new) \<le> announced s + owed p"
proof (cases p)
  case (AwaitClock r)
  then show ?thesis
    using assms owed_finally [of r False s s' new] owed_reason(1) [of r False] owed_reason(2) [of r "clock s" False]
    by (auto split: if_splits)
next
  case (AwaitStored r t)
  then have "finallyUnregister r (a = Delivered) (if a = Lost then s else storeSocket t s) = (s', new)"
    using assms by simp
  from owed_finally [OF this] show ?thesis
    by (simp add: AwaitStored owed_reason(2) [of r t "a = Delivered"] split: if_splits)
next
  case (AwaitRemoved k)
  define m where "m = (if a = Lost then s else removeSocket s)"
  have "continue k (if a = Delivered then m else unregisterFailed m) = (s', new)"
    using assms by (cases a) (simp_all add: m_def AwaitRemoved Let_def)
  from owed_continue [OF this] show ?thesis
    by (simp add: AwaitRemoved m_def split: if_splits)
qed (use assms in \<open>auto split: if_splits\<close>)

lemma sum_replaced:
  assumes "i < length xs"
  shows "sum_list (map f (take i xs @ new @ drop (Suc i) xs)) + f (xs ! i)
    = sum_list (map f xs) + sum_list (map (f :: 'a \<Rightarrow> nat) new)"
proof -
  have "sum_list (map f xs) = sum_list (map f (take i xs @ xs ! i # drop (Suc i) xs))"
    using id_take_nth_drop [OF assms] by simp
  then show ?thesis by simp
qed

lemma owing_answered: "owing (socketStep (RequestEnds i a) s) \<le> owing s"
proof (cases "i < length (pending s)")
  case True
  obtain s' new where ans: "requestEnds (pending s ! i) a s = (s', new)"
    by (cases "requestEnds (pending s ! i) a s")
  have "closed s' = closed s"
    using answer_kept [OF ans] by (simp add: answer_kept_def same_connection_def)
  then show ?thesis
    using True owed_answered [OF ans] sum_replaced [OF True, of owed new] by (simp add: owing_def ans)
qed simp

lemma owing_step:
  "owing (socketStep e s) \<le> owing s + (if e = RegisterUser True then 1 else 0)"
proof (cases e)
  case (RequestEnds i a)
  then show ?thesis using owing_answered [of i a s] by simp
qed (auto simp: owing_def push_def split: option.splits)

lemma owing_run:
  "owing (socketRun es s) \<le> owing s + length (filter (\<lambda>e. e = RegisterUser True) es)"
proof (induction es arbitrary: s)
  case (Cons e es)
  from Cons.IH [of "socketStep e s"] owing_step [of e s] show ?case by auto
qed simp

section \<open>Who a socket belongs to\<close>

record token_claims =
  sub :: user_id
  email :: string
  claimedRole :: role

text \<open>\<open>verify\<close> stands for the check of a token. The middleware lets a connection in, or refuses it.\<close>

definition authenticate ::
  "(string \<Rightarrow> token_claims option) \<Rightarrow> string option \<Rightarrow> token_claims option" where
  "authenticate verify token =
     (case token of None \<Rightarrow> None | Some t \<Rightarrow> (if t = [] then None else verify t))"

text \<open>\<open>auth:refresh\<close>: the socket's data afterwards and the \<open>success\<close> it answers.\<close>

definition refreshToken ::
  "(string \<Rightarrow> token_claims option) \<Rightarrow> string option \<Rightarrow> token_claims \<Rightarrow> token_claims \<times> bool" where
  "refreshToken verify parsed current =
     (case parsed of
        None \<Rightarrow> (current, False)
      | Some t \<Rightarrow> (case verify t of None \<Rightarrow> (current, False) | Some c \<Rightarrow> (c, True)))"

section \<open>Relaying message activity\<close>

text \<open>Which sockets the notification is emitted to, if it is emitted at all.\<close>

definition relayMessageActivity :: "user_id list \<Rightarrow> socket_id list option io" where
  "relayMessageActivity us =
     andThen (socketIdsOf us) (\<lambda>sockets.
       let ids = concat (map snd sockets) in ret (if ids = [] then None else Some ids))"

lemma relay_never_broadcasts: "relayMessageActivity us o' w \<noteq> (Inr (Some []), w')"
  by (auto simp: relayMessageActivity_def andThen_def ret_def Let_def split: prod.splits sum.splits)

section \<open>Properties\<close>

text \<open>C36. Once a socket is closed and nothing that writes to Redis is under way, it is not online: at once
  if no unregister failed, and after three heartbeats in any case; and it never comes back, whatever
  happens later. This holds for every interleaving of registrations, heartbeats, lost requests, lost
  replies and the disconnect.\<close>

theorem closed_socket_goes_offline:
  assumes "finished (socketRun es (connected sid now))"
    and "unregisterFailures (socketRun es (connected sid now)) = 0
      \<or> clock (socketRun es (connected sid now)) + 3 * SOCKET_HEARTBEAT_MS \<le> at"
  shows "sid \<notin> aliveSockets at (userSockets (socketRun (es @ fs) (connected sid now)))"
proof -
  let ?s = "socketRun es (connected sid now)"
  have ok: "socket_ok ?s" using socket_ok_run [OF socket_ok_connected] .
  have sid: "socketId (socketRun fs ?s) = sid"
    using finished_run [OF assms(1), of fs] socketId_run [of es] by (simp add: connected_def)
  have "storedAt ?s = {} \<or> (\<forall>t \<in> storedAt ?s. t + 90000 \<le> at)"
    using ok assms by (fastforce simp: socket_ok_def finished_def SOCKET_HEARTBEAT_MS_def)
  then have "\<forall>t \<in> storedAt (socketRun fs ?s). t + 90000 \<le> at"
    using finished_run [OF assms(1), of fs] by auto
  then show ?thesis
    using alive_storedAt [of "socketRun fs ?s" at] by (auto simp: socketRun_append sid)
qed

text \<open>A registration that lands after the disconnect removed the socket, and is undone.\<close>

definition lateRegistration :: "socket_event list" where
  "lateRegistration = [RegisterUser True, RequestEnds 0 Delivered, Disconnect, RequestEnds 1 Delivered,
     RequestEnds 0 Delivered, RequestEnds 0 Delivered]"

theorem closed_socket_goes_offline_witness:
  "''s1'' \<notin> aliveSockets 1000 (userSockets (socketRun (lateRegistration @ [OtherRegisters ''s2''])
     (connected ''s1'' 1000)))"
proof -
  have over: "finished (socketRun lateRegistration (connected ''s1'' 1000))"
      "unregisterFailures (socketRun lateRegistration (connected ''s1'' 1000)) = 0"
    by (simp_all add: lateRegistration_def connected_def finished_def push_def finallyUnregister_def
        announce_def storeSocket_def removeSocket_def)
  show ?thesis by (rule closed_socket_goes_offline [OF over(1) disjI1 [OF over(2)]])
qed

text \<open>The change of a connection is announced at most once for every registration the softphone asked
  for and once for its disconnect: no heartbeat, retry or late reply announces it again.\<close>

theorem heartbeats_announce_nothing:
  "announced (socketRun es (connected sid now))
     \<le> length (filter (\<lambda>e. e = RegisterUser True) es) + 1"
  using owing_run [of es "connected sid now"] by (simp add: owing_def connected_def)

end
