(* ===== verification/Recording_Safety.thy ===== *)
theory Recording_Safety
  imports Recordings
begin

text \<open>
  Under every interleaving of copies and plays, the audio of a recording is not lost while nobody
  deletes it (\<open>recording_safe\<close>, with one assertion per waiting point).
\<close>

section \<open>Nothing is lost\<close>

definition hasCopy :: "recording_world \<Rightarrow> bool" where
  "hasCopy w \<longleftrightarrow> (\<exists>r k. row w = Some r \<and> objectKey r = Some k)"

definition core_safe :: "recording_world \<Rightarrow> bool" where
  "core_safe w \<longleftrightarrow> (\<exists>r. row w = Some r \<and> deletedAt r = None
     \<and> (\<forall>k. objectKey r = Some k \<longrightarrow> k \<in> audioKeys w)) \<and> (atTwilio w \<or> hasCopy w)"

text \<open>What a call under way may hold while nothing deletes: no row marked deleted, a key only if the row
  has one, a deletion at Twilio only when there is a copy.\<close>

definition snapshot_safe :: "recording_world \<Rightarrow> recording_row \<Rightarrow> bool" where
  "snapshot_safe w r \<longleftrightarrow> deletedAt r = None \<and> (objectKey r \<noteq> None \<longrightarrow> hasCopy w)"

fun run_safe :: "recording_world \<Rightarrow> call_run \<Rightarrow> bool" where
  "run_safe w (Held r c) = snapshot_safe w r"
| "run_safe w (AwaitRecordCopy p r c claim) =
     (recordingObjectKey c (recordingSid r) \<in> audioKeys w)"
| "run_safe w (AwaitDiscard p r c claim) = False"
| "run_safe w (AwaitStoreDelete r c reason n key) = False"
| "run_safe w (AwaitMark r c reason n at) = False"
| "run_safe w (AwaitReread r c reason n) = False"
| "run_safe w (AwaitProviderDelete a r) = hasCopy w"
| "run_safe w x = True"

definition keeps :: "recording_world \<Rightarrow> recording_world \<Rightarrow> bool" where
  "keeps w w' \<longleftrightarrow> (hasCopy w \<longrightarrow> hasCopy w') \<and> audioKeys w \<subseteq> audioKeys w'
     \<and> callsUnderWay w' = callsUnderWay w"

lemma run_safe_keeps: "run_safe w x \<Longrightarrow> keeps w w' \<Longrightarrow> run_safe w' x"
  by (cases x) (auto simp: keeps_def snapshot_safe_def)

lemma startCopy_safe:
  "snapshot_safe w r \<Longrightarrow> startCopy r c w = Wait x \<Longrightarrow> run_safe w x"
  by (auto simp: startCopy_def copyPlan_def snapshot_safe_def split: if_splits)

lemma startPlay_safe: "startPlay r c w = Wait x \<Longrightarrow> run_safe w x"
  by (auto simp: startPlay_def split: playback_source.splits provider_access.splits)

lemma answerRun_safe:
  assumes "core_safe w" and "run_safe w x" and "answerRun x d w = (w', step)"
  shows "core_safe w' \<and> keeps w w' \<and> (\<forall>y. step = Wait y \<longrightarrow> run_safe w' y)"
proof (cases x)
  case (AwaitClaim p r c now)
  then show ?thesis using assms
    by (cases d) (auto simp: core_safe_def keeps_def hasCopy_def claimAnswered_def tryUpdate_def updateRow_def
        split: if_splits)
next
  case (AwaitFetch r c claim)
  then show ?thesis using assms by (auto simp: keeps_def fetchAnswered_def split: if_splits)
next
  case (AwaitPlayFetch r c)
  then show ?thesis using assms by (auto simp: keeps_def playFetchAnswered_def split: if_splits)
next
  case (AwaitPut p r c claim)
  then show ?thesis using assms
    by (cases d) (auto simp: core_safe_def keeps_def hasCopy_def putAnswered_def putKey_def leave_def Let_def split: if_splits)
next
  case (AwaitRecordCopy p r c claim)
  then show ?thesis using assms
    by (cases d) (auto simp: core_safe_def keeps_def hasCopy_def recordAnswered_def tryUpdate_def updateRow_def
        leave_def split: if_splits)
next
  case (AwaitRelease p r claim)
  then show ?thesis using assms
    by (cases d) (auto simp: core_safe_def keeps_def hasCopy_def releaseAnswered_def tryUpdate_def updateRow_def
        split: if_splits)
next
  case (AwaitGet r c key)
  then show ?thesis using assms by (auto simp: keeps_def getAnswered_def dest: startPlay_safe split: if_splits)
next
  case (AwaitProviderDelete a r)
  then show ?thesis using assms
    by (cases d) (auto simp: core_safe_def keeps_def hasCopy_def providerDeleteAnswered_def split: if_splits)
next
  case (AwaitProviderRecord a r at)
  then show ?thesis using assms
    by (cases d) (auto simp: core_safe_def keeps_def hasCopy_def providerRecordAnswered_def tryUpdate_def
        updateRow_def split: if_splits)
qed (use assms in \<open>auto simp: keeps_def\<close>)

definition recording_safe :: "recording_world \<Rightarrow> bool" where
  "recording_safe w \<longleftrightarrow> core_safe w \<and> (\<forall>x \<in> set (callsUnderWay w). run_safe w x)"

lemma settle_safe:
  assumes "core_safe w" and "\<forall>x \<in> set (callsUnderWay w). run_safe w x"
    and "\<forall>y. step = Wait y \<longrightarrow> run_safe w y"
  shows "recording_safe (settle i (w, step))"
proof (cases step)
  case (Wait y)
  let ?w = "w\<lparr>callsUnderWay := (callsUnderWay w)[i := y]\<rparr>"
  have "core_safe ?w" using assms(1) by (simp add: core_safe_def hasCopy_def)
  moreover have "run_safe w x \<Longrightarrow> run_safe ?w x" for x
    by (cases x) (auto simp: snapshot_safe_def hasCopy_def)
  ultimately show ?thesis
    using assms(2,3) Wait set_update_subset_insert [of "callsUnderWay w" i y]
    by (auto simp: recording_safe_def settle_def)
next
  case (Finish out)
  let ?w = "w\<lparr>callsUnderWay := take i (callsUnderWay w) @ drop (Suc i) (callsUnderWay w),
    outcomes := outcomes w @ [out]\<rparr>"
  have "core_safe ?w" using assms(1) by (simp add: core_safe_def hasCopy_def)
  moreover have "run_safe w x \<Longrightarrow> run_safe ?w x" for x
    by (cases x) (auto simp: snapshot_safe_def hasCopy_def)
  ultimately show ?thesis
    using assms(2) Finish
    by (auto simp: recording_safe_def settle_def dest: in_set_takeD in_set_dropD)
qed

lemma recording_safe_answers:
  assumes "recording_safe w" and "i < length (callsUnderWay w)"
  shows "recording_safe (settle i (answerRun (callsUnderWay w ! i) d w))"
proof -
  obtain w' step where ans: "answerRun (callsUnderWay w ! i) d w = (w', step)"
    by (cases "answerRun (callsUnderWay w ! i) d w")
  have x: "run_safe w (callsUnderWay w ! i)" "core_safe w"
    using assms by (simp_all add: recording_safe_def)
  have safe: "core_safe w'" "keeps w w'" "\<forall>y. step = Wait y \<longrightarrow> run_safe w' y"
    using answerRun_safe [OF x(2,1) ans] by simp_all
  have "\<forall>x \<in> set (callsUnderWay w'). run_safe w' x"
    using assms(1) safe(2) run_safe_keeps [OF _ safe(2)] by (auto simp: recording_safe_def keeps_def)
  then show ?thesis unfolding ans by (rule settle_safe [OF safe(1) _ safe(3)])
qed

text \<open>No call for a deletion.\<close>

definition deletes :: "recording_event \<Rightarrow> bool" where
  "deletes e \<longleftrightarrow> (\<exists>i reason. e = Calls i (DoDelete reason))"

lemma recording_safe_step:
  assumes "recording_safe w" and "\<not> deletes e"
  shows "recording_safe (recordingStep e w)"
proof (cases e)
  case (ReadsRow c)
  obtain r where r: "row w = Some r" "deletedAt r = None"
    using assms(1) by (auto simp: recording_safe_def core_safe_def)
  let ?w = "w\<lparr>callsUnderWay := callsUnderWay w @ [Held r c]\<rparr>"
  have "core_safe ?w" using assms(1) by (simp add: core_safe_def hasCopy_def recording_safe_def)
  moreover have "run_safe w x \<Longrightarrow> run_safe ?w x" for x
    by (cases x) (auto simp: snapshot_safe_def hasCopy_def)
  moreover have "run_safe ?w (Held r c)"
    using r by (simp add: snapshot_safe_def hasCopy_def)
  ultimately show ?thesis
    using assms(1) r by (auto simp: ReadsRow recording_safe_def)
next
  case (Calls i request)
  show ?thesis
  proof (cases "i < length (callsUnderWay w) \<and> (\<exists>r c. callsUnderWay w ! i = Held r c)")
    case True
    then obtain r c where held: "callsUnderWay w ! i = Held r c" "i < length (callsUnderWay w)"
      by blast
    have "run_safe w (Held r c)"
      using assms(1) held unfolding recording_safe_def by (metis nth_mem)
    then have "\<forall>y. startRun request r c w = Wait y \<longrightarrow> run_safe w y"
      using assms(2) startCopy_safe startPlay_safe
      by (cases request) (auto simp: Calls deletes_def)
    then have "recording_safe (settle i (w, startRun request r c w))"
      using assms(1) settle_safe [of w] by (simp add: recording_safe_def)
    then show ?thesis using held by (simp add: Calls)
  next
    case False
    then show ?thesis using assms(1) by (auto simp: Calls split: call_run.splits)
  qed
next
  case (Answers i d)
  then show ?thesis using recording_safe_answers [OF assms(1)] assms(1) by simp
next
  case (Passes n)
  have "run_safe w x \<Longrightarrow> run_safe (w\<lparr>timeNow := timeNow w + n\<rparr>) x" for x
    by (cases x) (auto simp: snapshot_safe_def hasCopy_def)
  then show ?thesis
    using assms(1) by (auto simp: Passes recording_safe_def core_safe_def hasCopy_def)
qed

lemma recording_safe_run:
  "recording_safe w \<Longrightarrow> \<forall>e \<in> set es. \<not> deletes e \<Longrightarrow> recording_safe (recordingRun es w)"
  by (induction es arbitrary: w) (simp_all add: recording_safe_step)

lemma recording_safe_announced: "recording_safe (announcedWorld r account urlParse now)"
  by (simp add: recording_safe_def core_safe_def announcedWorld_def)

section \<open>Properties\<close>

text \<open>C6. However copies, plays, redelivered announcements and lost answers interleave, the audio of a
  recording nobody asked to delete exists: Twilio still has it, or the media store has it under the key
  the row names. In particular Twilio's original is only ever deleted once the copy is recorded.\<close>

theorem audio_is_never_lost:
  assumes "\<forall>e \<in> set es. \<not> deletes e"
  shows "\<exists>r. row (recordingRun es (announcedWorld r0 account urlParse now)) = Some r
    \<and> (atTwilio (recordingRun es (announcedWorld r0 account urlParse now))
       \<or> (\<exists>key. objectKey r = Some key
            \<and> key \<in> audioKeys (recordingRun es (announcedWorld r0 account urlParse now))))"
  using recording_safe_run [OF recording_safe_announced [of r0 account urlParse now] assms]
  by (auto simp: recording_safe_def core_safe_def hasCopy_def)

text \<open>An announced voicemail, copied by two instances at once while a third plays it.\<close>

definition sampleRecording :: recording_row where
  "sampleRecording = \<lparr>recordingContext = VoicemailRecording, recordingSid = ''RE1'', providerUrl = ''u'',
     recordingDuration = None, objectKey = None, providerDeletedAt = None, copyStartedAt = None,
     deletedAt = None, deletionReason = None, announcedAt = 0\<rparr>"

definition sampleAccount :: "string option" where
  "sampleAccount = Some (''AC'' @ replicate 32 CHR ''0'')"

definition copiedTwice :: "recording_event list" where
  "copiedTwice = [ReadsRow ''c'', ReadsRow ''c'', Calls 0 DoCopy, Calls 1 DoCopy,
     Answers 0 Delivered, Answers 1 Delivered, Answers 0 Delivered, Answers 0 Delivered,
     Answers 0 Delivered, Answers 0 Delivered, Answers 0 Delivered]"

theorem audio_is_never_lost_witness:
  "\<exists>r. row (recordingRun copiedTwice (announcedWorld sampleRecording
       sampleAccount (\<lambda>s. Some sampleUrl) 0)) = Some r"
proof -
  have "\<forall>e \<in> set copiedTwice. \<not> deletes e"
    by (simp add: copiedTwice_def deletes_def)
  from audio_is_never_lost [OF this, of sampleRecording sampleAccount
      "\<lambda>s. Some sampleUrl" 0]
  show ?thesis by blast
qed

end
