(* ===== verification/Recording_Settlement.thy ===== *)
theory Recording_Settlement
  imports Recording_Safety
begin

text \<open>
  Deletions among the copies and plays: what a deletion or a failure leaves of a recording is accounted
  for by the row, by a call that is still under way, or by a line of the log (\<open>settled_inv\<close>). The calls
  under way are read as a multiset, with one assertion per waiting point.
\<close>

section \<open>What is left behind\<close>

text \<open>Calls that hold the claim on a copy, and those that have put audio the row may not know of.\<close>

fun copying :: "call_run \<Rightarrow> bool" where
  "copying (AwaitFetch r c claim) = True"
| "copying (AwaitPut p r c claim) = True"
| "copying (AwaitRecordCopy p r c claim) = True"
| "copying (AwaitDiscard p r c claim) = True"
| "copying (AwaitRelease p r claim) = True"
| "copying x = False"

fun unsettled :: "call_run \<Rightarrow> bool" where
  "unsettled (AwaitRecordCopy p r c claim) = True"
| "unsettled (AwaitDiscard p r c claim) = True"
| "unsettled x = False"

fun marking :: "string \<Rightarrow> call_run \<Rightarrow> bool" where
  "marking key (AwaitMark s c reason n at) = (objectKey s = Some key)"
| "marking key x = False"

definition snapshot_ok :: "string \<Rightarrow> string \<Rightarrow> recording_row \<Rightarrow> recording_row \<Rightarrow> bool" where
  "snapshot_ok key sid r s \<longleftrightarrow> recordingSid s = sid \<and> (objectKey s = None \<or> objectKey s = Some key)
     \<and> (objectKey s = Some key \<longrightarrow> objectKey r = Some key \<or> deletedAt r \<noteq> None)
     \<and> (deletedAt s \<noteq> None \<longrightarrow> deletedAt r \<noteq> None)"

definition claims_row :: "recording_row \<Rightarrow> millis \<Rightarrow> bool" where
  "claims_row r claim \<longleftrightarrow> copyStartedAt r = Some claim \<and> objectKey r = None"

text \<open>What a call under way knows, for one conversation \<open>c0\<close>, recording \<open>sid\<close> and key.\<close>

fun run_ok :: "call_id \<Rightarrow> string \<Rightarrow> string set \<Rightarrow> bool \<Rightarrow> recording_row \<Rightarrow> call_run \<Rightarrow> bool" where
  "run_ok c0 sid ks tw r (Held s c) = (c = c0 \<and> snapshot_ok (recordingObjectKey c0 sid) sid r s)"
| "run_ok c0 sid ks tw r (AwaitClaim p s c now) = (c = c0 \<and> recordingSid s = sid)"
| "run_ok c0 sid ks tw r (AwaitFetch s c claim) =
     (c = c0 \<and> recordingSid s = sid \<and> claims_row r claim)"
| "run_ok c0 sid ks tw r (AwaitPlayFetch s c) = (c = c0 \<and> recordingSid s = sid)"
| "run_ok c0 sid ks tw r (AwaitPut p s c claim) =
     (c = c0 \<and> recordingSid s = sid \<and> claims_row r claim)"
| "run_ok c0 sid ks tw r (AwaitRecordCopy p s c claim) =
     (c = c0 \<and> recordingSid s = sid \<and> claims_row r claim
        \<and> (deletedAt r = None \<longrightarrow> recordingObjectKey c0 sid \<in> ks))"
| "run_ok c0 sid ks tw r (AwaitDiscard p s c claim) =
     (c = c0 \<and> recordingSid s = sid \<and> copyStartedAt r = Some claim \<and> deletedAt r \<noteq> None)"
| "run_ok c0 sid ks tw r (AwaitRelease p s claim) = (copyStartedAt r = Some claim)"
| "run_ok c0 sid ks tw r (AwaitGet s c key) = (c = c0 \<and> recordingSid s = sid)"
| "run_ok c0 sid ks tw r (AwaitStoreDelete s c reason n key) =
     (c = c0 \<and> snapshot_ok (recordingObjectKey c0 sid) sid r s \<and> key = recordingObjectKey c0 sid
        \<and> objectKey s = Some key)"
| "run_ok c0 sid ks tw r (AwaitMark s c reason n at) =
     (c = c0 \<and> snapshot_ok (recordingObjectKey c0 sid) sid r s
        \<and> (objectKey s \<noteq> None \<and> deletedAt r = None \<longrightarrow> recordingObjectKey c0 sid \<notin> ks))"
| "run_ok c0 sid ks tw r (AwaitReread s c reason n) = (c = c0)"
| "run_ok c0 sid ks tw r (AwaitProviderDelete a s) =
     (objectKey r = Some (recordingObjectKey c0 sid) \<or> deletedAt r \<noteq> None)"
| "run_ok c0 sid ks tw r (AwaitProviderRecord a s at) = (\<not> tw)"

definition row_ok :: "string \<Rightarrow> string \<Rightarrow> bool \<Rightarrow> string set \<Rightarrow> recording_row \<Rightarrow> bool" where
  "row_ok key sid tw ks r \<longleftrightarrow> recordingSid r = sid \<and> (objectKey r = None \<or> objectKey r = Some key)
     \<and> ks \<subseteq> {key} \<and> (deletedAt r \<noteq> None \<longrightarrow> objectKey r = None)
     \<and> (tw \<longrightarrow> providerDeletedAt r = None)
     \<and> (\<not> tw \<and> deletedAt r = None \<longrightarrow> objectKey r = Some key)"

definition deletion_failed :: "outcome list \<Rightarrow> bool" where
  "deletion_failed outs \<longleftrightarrow> DeleteDone DeletionFailed \<in> set outs \<or> Threw \<in> set outs"

text \<open>An object without a row to point at it, or a row without its object, is somebody's to settle or
  was left by a failure.\<close>

definition accounted ::
  "string \<Rightarrow> recording_row \<Rightarrow> string set \<Rightarrow> nat \<Rightarrow> outcome list \<Rightarrow> call_run multiset \<Rightarrow> bool" where
  "accounted key r ks left outs M \<longleftrightarrow>
     (key \<in> ks \<longrightarrow> objectKey r = Some key \<or> (\<exists>x \<in># M. unsettled x) \<or> 0 < left)
     \<and> (objectKey r = Some key \<and> key \<notin> ks \<longrightarrow> (\<exists>x \<in># M. marking key x) \<or> deletion_failed outs)"

definition holds_for ::
  "call_id \<Rightarrow> string \<Rightarrow> recording_world \<Rightarrow> outcome list \<Rightarrow> recording_row \<Rightarrow> call_run multiset \<Rightarrow> bool" where
  "holds_for c0 sid w outs r M \<longleftrightarrow>
     row w = Some r
     \<and> row_ok (recordingObjectKey c0 sid) sid (atTwilio w) (audioKeys w) r
     \<and> accounted (recordingObjectKey c0 sid) r (audioKeys w) (leftovers w) outs M
     \<and> (\<forall>x \<in># M. run_ok c0 sid (audioKeys w) (atTwilio w) r x)
     \<and> size (filter_mset copying M) \<le> 1"

definition settled_inv :: "call_id \<Rightarrow> string \<Rightarrow> recording_world \<Rightarrow> call_run multiset \<Rightarrow> bool" where
  "settled_inv c0 sid w M \<longleftrightarrow> (\<exists>r. holds_for c0 sid w (outcomes w) r M)"

text \<open>What the step of a call leaves for the multiset of calls and the outcomes.\<close>

fun runs_after :: "next_step \<Rightarrow> call_run multiset" where
  "runs_after (Wait y) = {#y#}"
| "runs_after (Finish out) = {#}"

fun outs_after :: "next_step \<Rightarrow> outcome list" where
  "outs_after (Wait y) = []"
| "outs_after (Finish out) = [out]"

definition kept_inv :: "call_id \<Rightarrow> string \<Rightarrow> recording_world \<Rightarrow> call_run multiset \<Rightarrow> next_step \<Rightarrow> bool" where
  "kept_inv c0 sid w N step \<longleftrightarrow>
     (\<exists>r. holds_for c0 sid w (outcomes w @ outs_after step) r (runs_after step + N))"

lemma copying_add:
  "size (filter_mset copying (add_mset x N)) \<le> 1 \<longleftrightarrow>
     (if copying x then (\<forall>y \<in># N. \<not> copying y) else size (filter_mset copying N) \<le> 1)"
  by (auto simp: filter_mset_eq_mempty_iff)

lemma no_copying: "\<forall>y \<in># N. \<not> copying y \<Longrightarrow> size (filter_mset copying N) \<le> 1"
  by (simp add: filter_mset_eq_mempty_iff [THEN iffD2])

text \<open>What is known when a call gets its answer, and what has to be shown after it.\<close>

lemma settled_inv_elim:
  assumes "settled_inv c0 sid w (add_mset x N)"
  obtains r where "row w = Some r"
    and "row_ok (recordingObjectKey c0 sid) sid (atTwilio w) (audioKeys w) r"
    and "accounted (recordingObjectKey c0 sid) r (audioKeys w) (leftovers w) (outcomes w) (add_mset x N)"
    and "run_ok c0 sid (audioKeys w) (atTwilio w) r x"
    and "\<And>y. y \<in># N \<Longrightarrow> run_ok c0 sid (audioKeys w) (atTwilio w) r y"
    and "copying x \<Longrightarrow> \<forall>y \<in># N. \<not> copying y"
    and "size (filter_mset copying N) \<le> 1"
proof -
  obtain r where "holds_for c0 sid w (outcomes w) r (add_mset x N)"
    using assms by (auto simp: settled_inv_def)
  then show ?thesis
    using that [of r] no_copying [of N] unfolding holds_for_def copying_add by (cases "copying x") simp_all
qed

lemma kept_wait:
  assumes "row w = Some r"
    and "row_ok (recordingObjectKey c0 sid) sid (atTwilio w) (audioKeys w) r"
    and "accounted (recordingObjectKey c0 sid) r (audioKeys w) (leftovers w) (outcomes w) (add_mset y N)"
    and "run_ok c0 sid (audioKeys w) (atTwilio w) r y"
    and "\<And>x. x \<in># N \<Longrightarrow> run_ok c0 sid (audioKeys w) (atTwilio w) r x"
    and "if copying y then (\<forall>x \<in># N. \<not> copying x) else size (filter_mset copying N) \<le> 1"
  shows "kept_inv c0 sid w N (Wait y)"
  using assms unfolding kept_inv_def holds_for_def
  by (intro exI [of _ r]) (simp only: runs_after.simps outs_after.simps add_mset_add_single [symmetric]
      union_commute [of "{#y#}"] copying_add append_Nil2, simp)

lemma kept_finish:
  assumes "row w = Some r"
    and "row_ok (recordingObjectKey c0 sid) sid (atTwilio w) (audioKeys w) r"
    and "accounted (recordingObjectKey c0 sid) r (audioKeys w) (leftovers w) (outcomes w @ [out]) N"
    and "\<And>x. x \<in># N \<Longrightarrow> run_ok c0 sid (audioKeys w) (atTwilio w) r x"
    and "size (filter_mset copying N) \<le> 1"
  shows "kept_inv c0 sid w N (Finish out)"
  using assms unfolding kept_inv_def holds_for_def by (intro exI [of _ r]) simp

lemma accounted_swap:
  assumes "accounted key r ks left outs (add_mset x N)" and "\<not> unsettled x" and "\<not> marking key x"
  shows "accounted key r ks left (outs @ outs2) N" "accounted key r ks left outs (add_mset y N)"
  using assms by (auto simp: accounted_def deletion_failed_def)

text \<open>A call that changed nothing but itself.\<close>

lemma kept_unchanged:
  assumes "settled_inv c0 sid w (add_mset x N)" and "\<not> unsettled x"
    and "\<not> marking (recordingObjectKey c0 sid) x"
    and step: "\<And>y r. step = Wait y \<Longrightarrow> row w = Some r \<Longrightarrow>
      row_ok (recordingObjectKey c0 sid) sid (atTwilio w) (audioKeys w) r \<Longrightarrow>
      run_ok c0 sid (audioKeys w) (atTwilio w) r x \<Longrightarrow>
      (copying y \<longrightarrow> copying x) \<and> run_ok c0 sid (audioKeys w) (atTwilio w) r y"
  shows "kept_inv c0 sid w N step"
proof (rule settled_inv_elim [OF assms(1)])
  fix r
  assume r: "row w = Some r"
      "row_ok (recordingObjectKey c0 sid) sid (atTwilio w) (audioKeys w) r"
      "accounted (recordingObjectKey c0 sid) r (audioKeys w) (leftovers w) (outcomes w) (add_mset x N)"
      "run_ok c0 sid (audioKeys w) (atTwilio w) r x"
      "\<And>y. y \<in># N \<Longrightarrow> run_ok c0 sid (audioKeys w) (atTwilio w) r y"
      "copying x \<Longrightarrow> \<forall>y \<in># N. \<not> copying y" "size (filter_mset copying N) \<le> 1"
  show ?thesis
  proof (cases step)
    case (Wait y)
    from step [OF Wait r(1,2,4)] have y: "copying y \<longrightarrow> copying x"
        "run_ok c0 sid (audioKeys w) (atTwilio w) r y" by simp_all
    have "if copying y then (\<forall>x \<in># N. \<not> copying x) else size (filter_mset copying N) \<le> 1"
      using y(1) r(6,7) by (cases "copying y") simp_all
    from kept_wait [OF r(1,2) accounted_swap(2) [OF r(3) assms(2,3)] y(2) r(5) this]
    show ?thesis unfolding Wait .
  next
    case (Finish out)
    show ?thesis
      unfolding Finish
      by (rule kept_finish [OF r(1,2) accounted_swap(1) [OF r(3) assms(2,3)] r(5,7)])
  qed
qed

lemma kept_fetch:
  assumes "settled_inv c0 sid w (add_mset (AwaitFetch s c claim) N)"
  shows "kept_inv c0 sid w N (fetchAnswered s c claim d w)"
  by (rule kept_unchanged [OF assms]) (auto simp: fetchAnswered_def claims_row_def split: if_splits)

lemma startPlay_ok:
  "startPlay s c0 w = Wait y \<Longrightarrow> \<not> copying y \<and> run_ok c0 (recordingSid s) ks tw r y"
  by (auto simp: startPlay_def split: playback_source.splits provider_access.splits)

lemma kept_play_fetch:
  assumes "settled_inv c0 sid w (add_mset (AwaitPlayFetch s c) N)"
  shows "kept_inv c0 sid w N (playFetchAnswered s c d w)"
  by (rule kept_unchanged [OF assms]) (auto simp: playFetchAnswered_def split: if_splits)

lemma kept_get:
  assumes "settled_inv c0 sid w (add_mset (AwaitGet s c key) N)"
  shows "kept_inv c0 sid w N (getAnswered s c key d w)"
proof (rule kept_unchanged [OF assms])
  fix y r
  assume y: "getAnswered s c key d w = Wait y"
    and "run_ok c0 sid (audioKeys w) (atTwilio w) r (AwaitGet s c key)"
  then have s: "c = c0" "recordingSid (s\<lparr>objectKey := None\<rparr>) = sid" by simp_all
  have "startPlay (s\<lparr>objectKey := None\<rparr>) c0 w = Wait y"
    using y s by (simp add: getAnswered_def split: if_splits)
  from startPlay_ok [OF this] show "(copying y \<longrightarrow> copying (AwaitGet s c key))
      \<and> run_ok c0 sid (audioKeys w) (atTwilio w) r y"
    unfolding s(2) by blast
qed simp_all

lemma run_ok_same_key:
  "\<not> copying y \<Longrightarrow> objectKey r' = objectKey r \<Longrightarrow> deletedAt r' = deletedAt r \<Longrightarrow>
     run_ok c0 sid ks tw r y \<Longrightarrow> run_ok c0 sid ks tw r' y"
  by (cases y) (simp_all add: snapshot_ok_def)

lemma copying_claims: "copying y \<Longrightarrow> run_ok c0 sid ks tw r y \<Longrightarrow> copyStartedAt r \<noteq> None"
  by (cases y) (simp_all add: claims_row_def)

lemma run_ok_put:
  assumes "objectKey r = None" and "run_ok c0 sid ks tw r y"
  shows "run_ok c0 sid (insert (recordingObjectKey c0 sid) ks) tw r y"
  using assms by (cases y) (auto simp: snapshot_ok_def)

lemma run_ok_drop:
  assumes "deletedAt r \<noteq> None \<or> objectKey r \<noteq> None" and "run_ok c0 sid ks tw r y"
  shows "run_ok c0 sid (ks - {recordingObjectKey c0 sid}) tw r y"
  using assms by (cases y) (auto simp: claims_row_def)

lemma run_ok_record:
  assumes "\<not> copying y" and "run_ok c0 sid ks tw r y"
  shows "run_ok c0 sid ks tw (r\<lparr>objectKey := Some (recordingObjectKey c0 sid)\<rparr>) y"
  using assms by (cases y) (auto simp: snapshot_ok_def)

lemma run_ok_marked:
  assumes "run_ok c0 sid ks tw r y"
  shows "run_ok c0 sid ks tw (r\<lparr>deletedAt := Some at, deletionReason := reason, objectKey := None\<rparr>) y"
  using assms by (cases y) (auto simp: snapshot_ok_def claims_row_def)

lemma run_ok_gone: "run_ok c0 sid ks tw r y \<Longrightarrow> run_ok c0 sid ks False r y"
  by (cases y) auto

text \<open>The facts of one answer in one place.\<close>

definition before ::
  "call_id \<Rightarrow> string \<Rightarrow> recording_world \<Rightarrow> call_run \<Rightarrow> call_run multiset \<Rightarrow> recording_row \<Rightarrow> bool" where
  "before c0 sid w x N r \<longleftrightarrow> holds_for c0 sid w (outcomes w) r (add_mset x N)"

lemma before_exists: "settled_inv c0 sid w (add_mset x N) \<Longrightarrow> \<exists>r. before c0 sid w x N r"
  by (simp add: settled_inv_def before_def)

lemma beforeD:
  assumes "before c0 sid w x N r"
  shows "row w = Some r"
    and "row_ok (recordingObjectKey c0 sid) sid (atTwilio w) (audioKeys w) r"
    and "accounted (recordingObjectKey c0 sid) r (audioKeys w) (leftovers w) (outcomes w) (add_mset x N)"
    and "run_ok c0 sid (audioKeys w) (atTwilio w) r x"
    and "\<And>y. y \<in># N \<Longrightarrow> run_ok c0 sid (audioKeys w) (atTwilio w) r y"
    and "copying x \<Longrightarrow> \<forall>y \<in># N. \<not> copying y"
    and "size (filter_mset copying N) \<le> 1"
proof -
  have h: "row w = Some r
     \<and> row_ok (recordingObjectKey c0 sid) sid (atTwilio w) (audioKeys w) r
     \<and> accounted (recordingObjectKey c0 sid) r (audioKeys w) (leftovers w) (outcomes w) (add_mset x N)
     \<and> (\<forall>y \<in># add_mset x N. run_ok c0 sid (audioKeys w) (atTwilio w) r y)
     \<and> (if copying x then (\<forall>y \<in># N. \<not> copying y) else size (filter_mset copying N) \<le> 1)"
    using assms unfolding before_def holds_for_def copying_add .
  from h show "row w = Some r" "row_ok (recordingObjectKey c0 sid) sid (atTwilio w) (audioKeys w) r"
    "accounted (recordingObjectKey c0 sid) r (audioKeys w) (leftovers w) (outcomes w) (add_mset x N)"
    "run_ok c0 sid (audioKeys w) (atTwilio w) r x"
    "\<And>y. y \<in># N \<Longrightarrow> run_ok c0 sid (audioKeys w) (atTwilio w) r y"
    "copying x \<Longrightarrow> \<forall>y \<in># N. \<not> copying y" by simp_all
  from h show "size (filter_mset copying N) \<le> 1"
    using no_copying [of N] by (cases "copying x") simp_all
qed

lemma kept_release:
  assumes "before c0 sid w (AwaitRelease p s claim) N r"
    and "releaseAnswered p s claim d w = (w', step)"
  shows "kept_inv c0 sid w' N step"
proof -
  note b = beforeD [OF assms(1)]
  define r' where "r' = (if d = Lost then r else r\<lparr>copyStartedAt := None\<rparr>)"
  have w': "row w' = Some r'" "audioKeys w' = audioKeys w" "atTwilio w' = atTwilio w"
      "leftovers w' = leftovers w" "outcomes w' = outcomes w"
      and step: "step = Finish (if d = Delivered then attemptOver p else Threw)"
    using assms(2) b(1,4)
    by (cases d; auto simp: releaseAnswered_def tryUpdate_def updateRow_def r'_def; fail)+
  have same: "objectKey r' = objectKey r" "deletedAt r' = deletedAt r"
    by (simp_all add: r'_def)
  show ?thesis
    unfolding step
  proof (rule kept_finish [of _ r'])
    show "row_ok (recordingObjectKey c0 sid) sid (atTwilio w') (audioKeys w') r'"
      using b(2) by (simp add: w' row_ok_def r'_def)
    show "accounted (recordingObjectKey c0 sid) r' (audioKeys w') (leftovers w')
        (outcomes w' @ [if d = Delivered then attemptOver p else Threw]) N"
      using accounted_swap(1) [OF b(3)] by (simp add: w' accounted_def same)
    show "run_ok c0 sid (audioKeys w') (atTwilio w') r' y" if "y \<in># N" for y
      using b(5) [OF that] b(6) that run_ok_same_key [OF _ same] by (simp add: w')
  qed (use w' b(7) in simp_all)
qed

text \<open>\<open>takenOver\<close>: the claim that is answered is one somebody still works under.\<close>

definition takenOver :: "recording_row \<Rightarrow> call_run multiset \<Rightarrow> bool" where
  "takenOver r N \<longleftrightarrow> copyStartedAt r \<noteq> None \<and> (\<exists>y \<in># N. copying y)"

lemma kept_claim:
  assumes "before c0 sid w (AwaitClaim p s c now) N r"
    and "claimAnswered p s c now d w = (w', step)"
    and "d \<noteq> Lost \<and> claimableCopy now r \<Longrightarrow> \<not> takenOver r N"
  shows "kept_inv c0 sid w' N step"
proof -
  note b = beforeD [OF assms(1)]
  show ?thesis
  proof (cases "d \<noteq> Lost \<and> claimableCopy now r")
    case True
    define r' where "r' = r\<lparr>copyStartedAt := Some now\<rparr>"
    have same: "objectKey r' = objectKey r" "deletedAt r' = deletedAt r"
      by (simp_all add: r'_def)
    have alone: "\<forall>y \<in># N. \<not> copying y"
      using assms(3) [OF True] copying_claims [OF _ b(5)] by (auto simp: takenOver_def)
    have w': "w' = w\<lparr>row := Some r'\<rparr>"
      and step: "step = (if d \<noteq> Delivered then Finish Threw
          else if p = Copying then Wait (AwaitFetch s c now) else Wait (AwaitPut p s c now))"
      using assms(2) b(1) True
      by (auto simp: claimAnswered_def tryUpdate_def updateRow_def r'_def split: if_splits)
    have others: "run_ok c0 sid (audioKeys w') (atTwilio w') r' y" if "y \<in># N" for y
      using b(5) [OF that] alone that run_ok_same_key [OF _ same] by (simp add: w')
    have row: "row_ok (recordingObjectKey c0 sid) sid (atTwilio w') (audioKeys w') r'"
      using b(2) by (simp add: w' row_ok_def r'_def)
    have known: "c = c0" "recordingSid s = sid" "claims_row r' now"
      using b(4) True by (simp_all add: claims_row_def r'_def claimableCopy_def)
    have acc: "accounted (recordingObjectKey c0 sid) r' (audioKeys w') (leftovers w')
        (outcomes w' @ outs) N"
        "accounted (recordingObjectKey c0 sid) r' (audioKeys w') (leftovers w') (outcomes w') (add_mset y N)"
      for outs y
      using accounted_swap [OF b(3)] by (simp_all add: w' accounted_def same)
    show ?thesis
    proof (cases step)
      case (Wait y)
      then have y: "copying y" "run_ok c0 sid (audioKeys w') (atTwilio w') r' y"
        using step known by (auto split: if_splits)
      show ?thesis
        unfolding Wait by (rule kept_wait [OF _ row acc(2) y(2) others]) (use y(1) alone in \<open>simp_all add: w'\<close>)
    next
      case (Finish out)
      show ?thesis
        unfolding Finish by (rule kept_finish [OF _ row acc(1) others]) (use b(7) in \<open>simp_all add: w'\<close>)
    qed
  next
    case False
    have same: "w' = w"
      using assms(2) False b(1) by (auto simp: claimAnswered_def tryUpdate_def updateRow_def split: if_splits)
    have no_wait: "step \<noteq> Wait y" for y
      using assms(2) False b(1) by (auto simp: claimAnswered_def tryUpdate_def updateRow_def split: if_splits)
    show ?thesis
      unfolding same
    proof (rule kept_unchanged)
      show "settled_inv c0 sid w (add_mset (AwaitClaim p s c now) N)"
        using assms(1) by (auto simp: settled_inv_def before_def)
    qed (simp_all add: no_wait)
  qed
qed

lemma kept_put:
  assumes "before c0 sid w (AwaitPut p s c claim) N r"
    and "putAnswered p s c claim d w = (w', step)"
  shows "kept_inv c0 sid w' N step"
proof -
  note b = beforeD [OF assms(1)]
  let ?key = "recordingObjectKey c0 sid"
  have known: "c = c0" "recordingSid s = sid" "claims_row r claim" "objectKey r = None"
    using b(4) by (simp_all add: claims_row_def)
  have alone: "\<forall>y \<in># N. \<not> copying y" using b(6) by simp
  define ks where "ks = (if d = Lost then audioKeys w else insert ?key (audioKeys w))"
  have w': "row w' = Some r" "audioKeys w' = ks" "atTwilio w' = atTwilio w" "outcomes w' = outcomes w"
      "leftovers w' = leftovers w + (if d = ReplyLost then 1 else 0)"
    and step: "step = Wait (if d = Delivered then AwaitRecordCopy p s c claim else AwaitRelease p s claim)"
    using assms(2) b(1) known(1,2)
    by (cases d; auto simp: putAnswered_def putKey_def leave_def ks_def Let_def; fail)+
  show ?thesis
    unfolding step
  proof (rule kept_wait [of _ r])
    show "row_ok ?key sid (atTwilio w') (audioKeys w') r"
      using b(2) by (auto simp: w' ks_def row_ok_def)
    show "run_ok c0 sid (audioKeys w') (atTwilio w') r y" if "y \<in># N" for y
      using b(5) [OF that] run_ok_put [OF known(4)] by (simp add: w' ks_def)
    show "accounted ?key r (audioKeys w') (leftovers w') (outcomes w') (add_mset
        (if d = Delivered then AwaitRecordCopy p s c claim else AwaitRelease p s claim) N)"
      using accounted_swap(2) [OF b(3), of "AwaitRelease p s claim"] known(4)
      by (cases d) (simp_all add: w' ks_def accounted_def)
    show "run_ok c0 sid (audioKeys w') (atTwilio w') r
        (if d = Delivered then AwaitRecordCopy p s c claim else AwaitRelease p s claim)"
      using known by (auto simp: w' ks_def claims_row_def)
  qed (use w' alone in simp_all)
qed

lemma kept_record:
  assumes "before c0 sid w (AwaitRecordCopy p s c claim) N r"
    and "recordAnswered p s c claim d w = (w', step)"
  shows "kept_inv c0 sid w' N step"
proof -
  note b = beforeD [OF assms(1)]
  let ?key = "recordingObjectKey c0 sid"
  have known: "c = c0" "recordingSid s = sid" "claims_row r claim" "objectKey r = None"
    "deletedAt r = None \<Longrightarrow> ?key \<in> audioKeys w"
    using b(4) by (simp_all add: claims_row_def)
  have alone: "\<forall>y \<in># N. \<not> copying y" using b(6) by simp
  define did where "did = (d \<noteq> Lost \<and> deletedAt r = None)"
  define r' where "r' = (if did then r\<lparr>objectKey := Some ?key\<rparr> else r)"
  define y where "y = (if d \<noteq> Delivered then AwaitRelease p s claim
    else if did then AwaitProviderDelete (copyStored p) s else AwaitDiscard p s c claim)"
  have w': "row w' = Some r'" "audioKeys w' = audioKeys w" "atTwilio w' = atTwilio w"
      "outcomes w' = outcomes w"
      "leftovers w' = leftovers w + (if d \<noteq> Delivered \<and> \<not> did then 1 else 0)"
    and step: "step = Wait y"
    using assms(2) b(1) known(1,2)
    by (cases d; auto simp: recordAnswered_def tryUpdate_def updateRow_def leave_def r'_def did_def
        y_def split: if_splits; fail)+
  show ?thesis
    unfolding step
  proof (rule kept_wait [of _ r'])
    show "row_ok ?key sid (atTwilio w') (audioKeys w') r'"
      using b(2) by (auto simp: w' r'_def did_def row_ok_def)
    show "run_ok c0 sid (audioKeys w') (atTwilio w') r' x" if "x \<in># N" for x
      using b(5) [OF that] run_ok_record alone that by (simp add: w' r'_def)
    show "accounted ?key r' (audioKeys w') (leftovers w') (outcomes w') (add_mset y N)"
      using b(3) known(5) by (cases d) (auto simp: w' r'_def did_def y_def accounted_def)
    show "run_ok c0 sid (audioKeys w') (atTwilio w') r' y"
      using known by (auto simp: w' r'_def y_def claims_row_def did_def)
  qed (use w' alone b(7) in simp_all)
qed

lemma kept_discard:
  assumes "before c0 sid w (AwaitDiscard p s c claim) N r"
    and "discardAnswered p s c claim d w = (w', step)"
  shows "kept_inv c0 sid w' N step"
proof -
  note b = beforeD [OF assms(1)]
  let ?key = "recordingObjectKey c0 sid"
  have known: "c = c0" "recordingSid s = sid" "copyStartedAt r = Some claim" "deletedAt r \<noteq> None"
    using b(4) by simp_all
  have alone: "\<forall>y \<in># N. \<not> copying y" using b(6) by simp
  define ks where "ks = (if d = Lost then audioKeys w else audioKeys w - {?key})"
  have w': "row w' = Some r" "audioKeys w' = ks" "atTwilio w' = atTwilio w" "outcomes w' = outcomes w"
      "leftovers w' = leftovers w + (if d = Lost then 1 else 0)"
    and step: "step = Wait (AwaitRelease p s claim)"
    using assms(2) b(1) known(1,2)
    by (cases d; auto simp: discardAnswered_def dropKey_def leave_def ks_def; fail)+
  show ?thesis
    unfolding step
  proof (rule kept_wait [of _ r])
    show "row_ok ?key sid (atTwilio w') (audioKeys w') r"
      using b(2) by (auto simp: w' ks_def row_ok_def)
    show "run_ok c0 sid (audioKeys w') (atTwilio w') r x" if "x \<in># N" for x
      using b(5) [OF that] run_ok_drop known(4) by (simp add: w' ks_def)
    show "accounted ?key r (audioKeys w') (leftovers w') (outcomes w')
        (add_mset (AwaitRelease p s claim) N)"
      using b(2,3) known(4) by (cases d) (auto simp: w' ks_def accounted_def row_ok_def)
  qed (use w' alone known in simp_all)
qed

lemma kept_store_delete:
  assumes "before c0 sid w (AwaitStoreDelete s c reason n key) N r"
    and "storeDeleteAnswered s c reason n key d w = (w', step)"
  shows "kept_inv c0 sid w' N step"
proof -
  note b = beforeD [OF assms(1)]
  let ?key = "recordingObjectKey c0 sid"
  have known: "c = c0" "key = ?key" "objectKey s = Some ?key" "snapshot_ok ?key sid r s"
    using b(4) by simp_all
  have there: "deletedAt r \<noteq> None \<or> objectKey r \<noteq> None"
    using known(3,4) by (auto simp: snapshot_ok_def)
  define ks where "ks = (if d = Lost then audioKeys w else audioKeys w - {?key})"
  have w': "row w' = Some r" "audioKeys w' = ks" "atTwilio w' = atTwilio w" "outcomes w' = outcomes w"
      "leftovers w' = leftovers w"
    and step: "step = (if d = Delivered then Wait (AwaitMark s c reason n (timeNow w))
        else Finish (DeleteDone DeletionFailed))"
    using assms(2) b(1) known(2)
    by (cases d; auto simp: storeDeleteAnswered_def dropKey_def ks_def; fail)+
  have row: "row_ok ?key sid (atTwilio w') (audioKeys w') r"
    using b(2) by (auto simp: w' ks_def row_ok_def)
  have others: "run_ok c0 sid (audioKeys w') (atTwilio w') r x" if "x \<in># N" for x
    using b(5) [OF that] run_ok_drop [OF there] by (simp add: w' ks_def)
  show ?thesis
  proof (cases "d = Delivered")
    case True
    have "accounted ?key r (audioKeys w') (leftovers w') (outcomes w')
        (add_mset (AwaitMark s c reason n (timeNow w)) N)"
      using known(3) True by (simp add: w' ks_def accounted_def)
    moreover have "run_ok c0 sid (audioKeys w') (atTwilio w') r (AwaitMark s c reason n (timeNow w))"
      using known True by (simp add: w' ks_def)
    ultimately have "kept_inv c0 sid w' N (Wait (AwaitMark s c reason n (timeNow w)))"
      by (rule kept_wait [OF w'(1) row _ _ others]) (use b(7) in simp_all)
    then show ?thesis by (simp add: step True)
  next
    case False
    have "accounted ?key r (audioKeys w') (leftovers w')
        (outcomes w' @ [DeleteDone DeletionFailed]) N"
      using accounted_swap(1) [OF b(3)] by (auto simp: w' ks_def accounted_def deletion_failed_def)
    then have "kept_inv c0 sid w' N (Finish (DeleteDone DeletionFailed))"
      by (rule kept_finish [OF w'(1) row _ others b(7)])
    then show ?thesis by (simp add: step False)
  qed
qed

lemma kept_mark:
  assumes "before c0 sid w (AwaitMark s c reason n at) N r"
    and "markAnswered s c reason n at d w = (w', step)"
  shows "kept_inv c0 sid w' N step"
proof -
  note b = beforeD [OF assms(1)]
  let ?key = "recordingObjectKey c0 sid"
  have known: "c = c0" "snapshot_ok ?key sid r s"
    "objectKey s \<noteq> None \<Longrightarrow> deletedAt r = None \<Longrightarrow> ?key \<notin> audioKeys w"
    using b(4) by simp_all
  define did where "did = (d \<noteq> Lost \<and> deletedAt r = None \<and> objectKey r = objectKey s)"
  define r' where
    "r' = (if did then r\<lparr>deletedAt := Some at, deletionReason := Some reason, objectKey := None\<rparr> else r)"
  have w': "row w' = Some r'" "audioKeys w' = audioKeys w" "atTwilio w' = atTwilio w"
      "outcomes w' = outcomes w" "leftovers w' = leftovers w"
    and step: "step = (if d \<noteq> Delivered then Finish Threw
        else if \<not> did then Wait (AwaitReread s c reason n)
        else if providerDeletedAt s = None \<and> providerAccess w s = AccessOk
        then Wait (AwaitProviderDelete (AfterDelete reason at) s)
        else Finish (providerDone (AfterDelete reason at) False))"
    using assms(2) b(1)
    by (cases d; auto simp: markAnswered_def tryUpdate_def updateRow_def r'_def did_def split: if_splits; fail)+
  have row: "row_ok ?key sid (atTwilio w') (audioKeys w') r'"
    using b(2) by (auto simp: w' r'_def row_ok_def)
  have others: "run_ok c0 sid (audioKeys w') (atTwilio w') r' x" if "x \<in># N" for x
    using b(5) [OF that] run_ok_marked by (simp add: w' r'_def)
  have acc: "accounted ?key r' (audioKeys w') (leftovers w') (outcomes w' @ outs) N"
    if "did \<or> Threw \<in> set outs \<or> d = Delivered" for outs
    unfolding accounted_def
  proof (intro conjI impI; (elim conjE)?)
    assume "?key \<in> audioKeys w'"
    then have k: "?key \<in> audioKeys w" by (simp add: w')
    have b3: "objectKey r = Some ?key \<or> (\<exists>x \<in># N. unsettled x) \<or> 0 < leftovers w"
      using b(3) k by (auto simp: accounted_def)
    show "objectKey r' = Some ?key \<or> (\<exists>x \<in># N. unsettled x) \<or> 0 < leftovers w'"
    proof (cases did)
      case True
      then have "objectKey s = None" "objectKey r = objectKey s"
        using known(3) k by (cases "objectKey s"; auto simp: did_def; fail)+
      then show ?thesis using b3 by (simp add: w')
    qed (use b3 in \<open>simp add: w' r'_def\<close>)
  next
    assume r': "objectKey r' = Some ?key" and k: "?key \<notin> audioKeys w'"
    then have nd: "\<not> did" and r: "objectKey r = Some ?key" by (auto simp: r'_def split: if_splits)
    then have "deletedAt r = None" using b(2) by (auto simp: row_ok_def)
    then have "Threw \<in> set outs \<or> objectKey s \<noteq> Some ?key"
      using that nd r by (auto simp: did_def)
    moreover have "objectKey s = Some ?key \<or> (\<exists>x \<in># N. marking ?key x) \<or> deletion_failed (outcomes w)"
      using b(3) r k by (auto simp: accounted_def w')
    ultimately show "(\<exists>x \<in># N. marking ?key x) \<or> deletion_failed (outcomes w' @ outs)"
      by (auto simp: deletion_failed_def w')
  qed
  show ?thesis
  proof (cases step)
    case (Wait y)
    then have "\<not> copying y" "run_ok c0 sid (audioKeys w') (atTwilio w') r' y" "d = Delivered"
      using step known by (auto simp: r'_def split: if_splits)
    moreover have "accounted ?key r' (audioKeys w') (leftovers w') (outcomes w') (add_mset y N)"
      using acc [of "[]"] \<open>d = Delivered\<close> by (auto simp: accounted_def)
    ultimately show ?thesis
      unfolding Wait using kept_wait [OF w'(1) row _ _ others, of y N] b(7) by simp
  next
    case (Finish out)
    then have "did \<or> Threw \<in> set [out] \<or> d = Delivered"
      using step by (auto split: if_splits)
    from kept_finish [OF w'(1) row acc [OF this] others b(7)] show ?thesis
      unfolding Finish by simp
  qed
qed

lemma startDelete_ok:
  assumes "startDelete s c0 reason n w = Wait y" and "snapshot_ok (recordingObjectKey c0 sid) sid r s"
  shows "\<not> copying y \<and> (objectKey s = None \<or> \<not> marking (recordingObjectKey c0 sid) y)
    \<and> run_ok c0 sid ks tw r y"
proof -
  have "objectKey s = None \<or> objectKey s = Some (recordingObjectKey c0 sid)"
    using assms(2) by (auto simp: snapshot_ok_def)
  then show ?thesis
    using assms by (auto simp: startDelete_def split: if_splits)
qed

lemma snapshot_ok_row: "row_ok key sid tw ks r \<Longrightarrow> snapshot_ok key sid r r"
  by (auto simp: row_ok_def snapshot_ok_def)

lemma kept_reread:
  assumes "before c0 sid w (AwaitReread s c reason n) N r"
  shows "kept_inv c0 sid w N (rereadAnswered s c reason n d w)"
proof (rule kept_unchanged)
  note b = beforeD [OF assms]
  show "settled_inv c0 sid w (add_mset (AwaitReread s c reason n) N)"
    using assms by (auto simp: settled_inv_def before_def)
  fix y r'
  assume y: "rereadAnswered s c reason n d w = Wait y" and r': "row w = Some r'"
  then have "startDelete r c0 reason (n + 1) w = Wait y"
    using b(1,4) by (simp add: rereadAnswered_def split: if_splits)
  from startDelete_ok [OF this snapshot_ok_row [OF b(2)]]
  show "(copying y \<longrightarrow> copying (AwaitReread s c reason n))
      \<and> run_ok c0 sid (audioKeys w) (atTwilio w) r' y"
    using b(1) r' by simp
qed simp_all

lemma kept_provider_delete:
  assumes "before c0 sid w (AwaitProviderDelete a s) N r"
    and "providerDeleteAnswered a s d w = (w', step)"
  shows "kept_inv c0 sid w' N step"
proof -
  note b = beforeD [OF assms(1)]
  let ?key = "recordingObjectKey c0 sid"
  define tw where "tw = (d = Lost \<and> atTwilio w)"
  have w': "row w' = Some r" "audioKeys w' = audioKeys w" "atTwilio w' = tw"
      "outcomes w' = outcomes w" "leftovers w' = leftovers w"
    and step: "step = (if d = Delivered then Wait (AwaitProviderRecord a s (timeNow w))
        else Finish (providerDone a False))"
    using assms(2) b(1) by (cases d; auto simp: providerDeleteAnswered_def tw_def; fail)+
  have row: "row_ok ?key sid (atTwilio w') (audioKeys w') r"
    using b(2,4) by (auto simp: w' tw_def row_ok_def)
  have others: "run_ok c0 sid (audioKeys w') (atTwilio w') r x" if "x \<in># N" for x
    using b(5) [OF that] run_ok_gone [OF b(5) [OF that]]
    by (cases "d = Lost"; cases "atTwilio w"; simp add: w' tw_def)
  have acc: "accounted ?key r (audioKeys w') (leftovers w') (outcomes w' @ outs) N"
      "accounted ?key r (audioKeys w') (leftovers w') (outcomes w') (add_mset y N)" for outs y
    using accounted_swap [OF b(3)] by (simp_all add: w')
  show ?thesis
  proof (cases "d = Delivered")
    case True
    then show ?thesis
      using kept_wait [OF w'(1) row acc(2) _ others] b(7) by (simp add: step w' tw_def)
  next
    case False
    then show ?thesis
      using kept_finish [OF w'(1) row acc(1) others b(7)] by (simp add: step)
  qed
qed

lemma kept_provider_record:
  assumes "before c0 sid w (AwaitProviderRecord a s at) N r"
    and "providerRecordAnswered a s at d w = (w', step)"
  shows "kept_inv c0 sid w' N step"
proof -
  note b = beforeD [OF assms(1)]
  let ?key = "recordingObjectKey c0 sid"
  define r' where "r' = (if d = Lost then r else r\<lparr>providerDeletedAt := Some at\<rparr>)"
  have w': "row w' = Some r'" "audioKeys w' = audioKeys w" "atTwilio w' = atTwilio w"
      "outcomes w' = outcomes w" "leftovers w' = leftovers w"
    and step: "step = Finish (providerDone a (d = Delivered))"
    using assms(2) b(1)
    by (cases d; auto simp: providerRecordAnswered_def tryUpdate_def updateRow_def r'_def; fail)+
  have row: "row_ok ?key sid (atTwilio w') (audioKeys w') r'"
    using b(2,4) by (auto simp: w' r'_def row_ok_def)
  have run: "run_ok c0 sid ks tw r x \<Longrightarrow> run_ok c0 sid ks tw r' x" for ks tw x
    by (cases x) (auto simp: r'_def snapshot_ok_def claims_row_def)
  have others: "run_ok c0 sid (audioKeys w') (atTwilio w') r' x" if "x \<in># N" for x
    using b(5) [OF that] run by (simp add: w')
  have acc: "accounted ?key r' (audioKeys w') (leftovers w') (outcomes w' @ outs) N" for outs
    using accounted_swap(1) [OF b(3)] by (simp add: w' accounted_def r'_def)
  show ?thesis
    unfolding step by (rule kept_finish [OF w'(1) row acc others b(7)])
qed

text \<open>One answer, whatever was waited for.\<close>

lemma kept_answer:
  assumes "before c0 sid w x N r" and "answerRun x d w = (w', step)"
    and "\<And>p s c now. x = AwaitClaim p s c now \<Longrightarrow> d \<noteq> Lost \<Longrightarrow> claimableCopy now r \<Longrightarrow> \<not> takenOver r N"
  shows "kept_inv c0 sid w' N step"
proof -
  have inv: "settled_inv c0 sid w (add_mset x N)"
    using assms(1) by (auto simp: settled_inv_def before_def)
  show ?thesis
  proof (cases x)
    case (Held s c)
    have "kept_inv c0 sid w N (Wait (Held s c))"
      by (rule kept_unchanged [OF inv]) (simp_all add: Held)
    then show ?thesis using assms(2) by (simp add: Held)
  next
    case (AwaitClaim p s c now)
    then show ?thesis using kept_claim [of c0 sid w p s c now N r d w' step] assms by simp
  next
    case (AwaitFetch s c claim)
    then show ?thesis using kept_fetch [of c0 sid w s c claim N d] inv assms(2) by auto
  next
    case (AwaitPlayFetch s c)
    then show ?thesis using kept_play_fetch [of c0 sid w s c N d] inv assms(2) by auto
  next
    case (AwaitGet s c key)
    then show ?thesis using kept_get [of c0 sid w s c key N d] inv assms(2) by auto
  next
    case (AwaitReread s c reason n)
    then show ?thesis using kept_reread [of c0 sid w s c reason n N r d] assms(1,2) by auto
  next
    case (AwaitPut p s c claim)
    then show ?thesis using kept_put [of c0 sid w p s c claim N r d w' step] assms(1,2) by simp
  next
    case (AwaitRecordCopy p s c claim)
    then show ?thesis using kept_record [of c0 sid w p s c claim N r d w' step] assms(1,2) by simp
  next
    case (AwaitDiscard p s c claim)
    then show ?thesis using kept_discard [of c0 sid w p s c claim N r d w' step] assms(1,2) by simp
  next
    case (AwaitRelease p s claim)
    then show ?thesis using kept_release [of c0 sid w p s claim N r d w' step] assms(1,2) by simp
  next
    case (AwaitStoreDelete s c reason n key)
    then show ?thesis
      using kept_store_delete [of c0 sid w s c reason n key N r d w' step] assms(1,2) by simp
  next
    case (AwaitMark s c reason n at)
    then show ?thesis using kept_mark [of c0 sid w s c reason n at N r d w' step] assms(1,2) by simp
  next
    case (AwaitProviderDelete a s)
    then show ?thesis using kept_provider_delete [of c0 sid w a s N r d w' step] assms(1,2) by simp
  next
    case (AwaitProviderRecord a s at)
    then show ?thesis using kept_provider_record [of c0 sid w a s at N r d w' step] assms(1,2) by simp
  qed
qed

section \<open>Whole runs\<close>

definition settled_recording :: "call_id \<Rightarrow> string \<Rightarrow> recording_world \<Rightarrow> bool" where
  "settled_recording c0 sid w \<longleftrightarrow> settled_inv c0 sid w (mset (callsUnderWay w))"

lemma answerRun_calls:
  "answerRun x d w = (w', step) \<Longrightarrow> callsUnderWay w' = callsUnderWay w"
  by (cases x; cases d)
    (auto simp: claimAnswered_def putAnswered_def recordAnswered_def discardAnswered_def
      releaseAnswered_def storeDeleteAnswered_def markAnswered_def providerDeleteAnswered_def
      providerRecordAnswered_def tryUpdate_def updateRow_def dropKey_def putKey_def leave_def Let_def
      split: option.splits if_splits)

lemma holds_for_fields:
  "holds_for c0 sid w outs r M \<Longrightarrow> row w' = row w \<Longrightarrow> atTwilio w' = atTwilio w \<Longrightarrow>
     audioKeys w' = audioKeys w \<Longrightarrow> leftovers w' = leftovers w \<Longrightarrow> holds_for c0 sid w' outs r M"
  by (simp add: holds_for_def)

lemma mset_without:
  assumes "i < length xs"
  shows "mset (take i xs @ drop (Suc i) xs) = mset xs - {#xs ! i#}"
proof -
  have "mset xs = mset (take i xs @ xs ! i # drop (Suc i) xs)"
    using id_take_nth_drop [OF assms] by simp
  then show ?thesis by simp
qed

lemma kept_settles:
  assumes "kept_inv c0 sid w' (mset (callsUnderWay w') - {#callsUnderWay w' ! i#}) step"
    and "i < length (callsUnderWay w')"
  shows "settled_recording c0 sid (settle i (w', step))"
proof -
  let ?N = "mset (callsUnderWay w') - {#callsUnderWay w' ! i#}"
  obtain r where h: "holds_for c0 sid w' (outcomes w' @ outs_after step) r (runs_after step + ?N)"
    using assms(1) by (auto simp: kept_inv_def)
  have "mset (callsUnderWay (settle i (w', step))) = runs_after step + ?N"
    using assms(2) by (cases step) (simp_all add: settle_def mset_update mset_without del: mset_append)
  moreover have "outcomes (settle i (w', step)) = outcomes w' @ outs_after step"
    by (cases step) (simp_all add: settle_def)
  moreover have "holds_for c0 sid (settle i (w', step)) (outcomes w' @ outs_after step) r
      (runs_after step + ?N)"
    by (rule holds_for_fields [OF h]) (cases step; simp add: settle_def; fail)+
  ultimately show ?thesis
    unfolding settled_recording_def settled_inv_def by metis
qed

lemma settled_recording_before:
  assumes "settled_recording c0 sid w" and "i < length (callsUnderWay w)"
  obtains r where
    "before c0 sid w (callsUnderWay w ! i) (mset (callsUnderWay w) - {#callsUnderWay w ! i#}) r"
proof -
  have "mset (callsUnderWay w)
      = add_mset (callsUnderWay w ! i) (mset (callsUnderWay w) - {#callsUnderWay w ! i#})"
    using assms(2) by simp
  then show ?thesis
    using that assms(1) before_exists unfolding settled_recording_def by metis
qed

text \<open>Every caller addresses the recording by the conversation it belongs to, and no claim goes stale
  under a copy that is still under way.\<close>

definition same_conversation :: "call_id \<Rightarrow> recording_event \<Rightarrow> bool" where
  "same_conversation c0 e \<longleftrightarrow> (\<forall>c. e = ReadsRow c \<longrightarrow> c = c0)"

definition overtakes :: "recording_event \<Rightarrow> recording_world \<Rightarrow> bool" where
  "overtakes e w \<longleftrightarrow> (\<exists>i d p s c now r. e = Answers i d \<and> d \<noteq> Lost \<and> i < length (callsUnderWay w)
     \<and> callsUnderWay w ! i = AwaitClaim p s c now \<and> row w = Some r \<and> claimableCopy now r
     \<and> copyStartedAt r \<noteq> None \<and> (\<exists>y \<in> set (callsUnderWay w). copying y))"

fun noTakeover :: "recording_event list \<Rightarrow> recording_world \<Rightarrow> bool" where
  "noTakeover [] w = True"
| "noTakeover (e # es) w = (\<not> overtakes e w \<and> noTakeover es (recordingStep e w))"

lemma settled_answers:
  assumes "settled_recording c0 sid w" and "\<not> overtakes (Answers i d) w"
  shows "settled_recording c0 sid (recordingStep (Answers i d) w)"
proof (cases "i < length (callsUnderWay w)")
  case True
  let ?x = "callsUnderWay w ! i" and ?N = "mset (callsUnderWay w) - {#callsUnderWay w ! i#}"
  obtain r where b: "before c0 sid w ?x ?N r"
    by (rule settled_recording_before [OF assms(1) True])
  obtain w' step where ans: "answerRun ?x d w = (w', step)" by (cases "answerRun ?x d w")
  have calls: "callsUnderWay w' = callsUnderWay w" by (rule answerRun_calls [OF ans])
  have "\<not> takenOver r ?N" if "?x = AwaitClaim p s c now" "d \<noteq> Lost" "claimableCopy now r" for p s c now
  proof
    assume t: "takenOver r ?N"
    then obtain y where y: "y \<in># ?N" "copying y" by (auto simp: takenOver_def)
    then have "y \<in> set (callsUnderWay w)" using in_diffD [OF y(1)] by simp
    then have "overtakes (Answers i d) w"
      using True that t y(2) beforeD(1) [OF b] by (auto simp: overtakes_def takenOver_def)
    then show False using assms(2) by simp
  qed
  from kept_answer [OF b ans this] have "kept_inv c0 sid w' ?N step" .
  then have "settled_recording c0 sid (settle i (w', step))"
    using kept_settles [of c0 sid w' i step] True calls by simp
  then show ?thesis using True by (simp add: ans)
qed (simp add: assms(1))

lemma startRun_ok:
  assumes "startRun request s c0 w = Wait y"
    and "snapshot_ok (recordingObjectKey c0 sid) sid r s"
  shows "\<not> copying y \<and> run_ok c0 sid ks tw r y"
proof (cases request)
  case DoCopy
  then show ?thesis
    using assms
    by (auto simp: startCopy_def copyPlan_def snapshot_ok_def split: if_splits bool.splits)
next
  case DoPlay
  then show ?thesis
    using assms startPlay_ok [of s c0 w y] by (auto simp: snapshot_ok_def)
next
  case (DoDelete reason)
  then show ?thesis
    using assms startDelete_ok [of s c0 reason 1 w y sid r] by simp
qed

lemma settled_calls:
  assumes "settled_recording c0 sid w"
  shows "settled_recording c0 sid (recordingStep (Calls i request) w)"
proof (cases "i < length (callsUnderWay w) \<and> (\<exists>s c. callsUnderWay w ! i = Held s c)")
  case True
  then obtain s c where held: "callsUnderWay w ! i = Held s c" "i < length (callsUnderWay w)"
    by blast
  let ?N = "mset (callsUnderWay w) - {#callsUnderWay w ! i#}"
  obtain r where b: "before c0 sid w (Held s c) ?N r"
    using settled_recording_before [OF assms held(2)] unfolding held(1) by metis
  have known: "c = c0" "snapshot_ok (recordingObjectKey c0 sid) sid r s"
    using beforeD(4) [OF b] by simp_all
  have "kept_inv c0 sid w ?N (startRun request s c w)"
  proof (rule kept_unchanged)
    show "settled_inv c0 sid w (add_mset (Held s c) ?N)"
      using b by (auto simp: settled_inv_def before_def)
    fix y r' assume y: "startRun request s c w = Wait y" and "row w = Some r'"
    then show "(copying y \<longrightarrow> copying (Held s c)) \<and> run_ok c0 sid (audioKeys w) (atTwilio w) r' y"
      using startRun_ok [of request s c0 w y sid r "audioKeys w" "atTwilio w"] known beforeD(1) [OF b] by simp
  qed simp_all
  then have "settled_recording c0 sid (settle i (w, startRun request s c w))"
    using kept_settles held(2) by simp
  then show ?thesis using held by simp
next
  case False
  then show ?thesis using assms by (auto split: call_run.splits)
qed

lemma settled_step:
  assumes "settled_recording c0 sid w" and "same_conversation c0 e" and "\<not> overtakes e w"
  shows "settled_recording c0 sid (recordingStep e w)"
proof (cases e)
  case (ReadsRow c)
  obtain r where h: "holds_for c0 sid w (outcomes w) r (mset (callsUnderWay w))"
    using assms(1) by (auto simp: settled_recording_def settled_inv_def)
  let ?w = "w\<lparr>callsUnderWay := callsUnderWay w @ [Held r c]\<rparr>"
  have "run_ok c0 sid (audioKeys w) (atTwilio w) r (Held r c)"
    using assms(2) h snapshot_ok_row by (auto simp: ReadsRow same_conversation_def holds_for_def)
  then have "holds_for c0 sid ?w (outcomes w) r (add_mset (Held r c) (mset (callsUnderWay w)))"
    using h by (auto simp: holds_for_def accounted_def)
  then show ?thesis
    using h by (auto simp: ReadsRow settled_recording_def settled_inv_def holds_for_def)
next
  case (Passes n)
  then show ?thesis
    using assms(1) by (auto simp: settled_recording_def settled_inv_def holds_for_def)
qed (use assms settled_calls settled_answers in auto)

lemma settled_run:
  "settled_recording c0 sid w \<Longrightarrow> \<forall>e \<in> set es. same_conversation c0 e \<Longrightarrow> noTakeover es w \<Longrightarrow>
     settled_recording c0 sid (recordingRun es w)"
  by (induction es arbitrary: w) (simp_all add: settled_step)

lemma settled_announced: "settled_recording c0 (recordingSid r) (announcedWorld r account urlParse now)"
  by (simp add: settled_recording_def settled_inv_def holds_for_def row_ok_def accounted_def announcedWorld_def)

section \<open>Properties\<close>

lemma sample_access:
  "twilioAccount w = sampleAccount \<Longrightarrow> urlParser w = (\<lambda>s. Some sampleUrl) \<Longrightarrow> providerAccess w r = AccessOk"
  using sample_ref [of "providerUrl r"] by (auto simp: providerAccess_def sampleAccount_def)

lemmas run_simps = announcedWorld_def sampleRecording_def startCopy_def startPlay_def startDelete_def
  copyPlan_def playbackSource_def claimAnswered_def fetchAnswered_def putAnswered_def recordAnswered_def
  discardAnswered_def releaseAnswered_def storeDeleteAnswered_def markAnswered_def
  providerDeleteAnswered_def providerRecordAnswered_def tryUpdate_def updateRow_def dropKey_def
  putKey_def leave_def settle_def claimableCopy_def staleClaimCutoff_def COPY_CLAIM_STALE_MS_def
  DELETE_ATTEMPTS_def sample_access

text \<open>Copies never run twice at once: unless a claim went stale under a copy that is still under way,
  at most one call works on copying the recording, and the row holds its claim.\<close>

theorem copies_run_one_at_a_time:
  assumes "\<forall>e \<in> set es. same_conversation c0 e"
    and "noTakeover es (announcedWorld r0 account urlParse now)"
  shows "length (filter copying (callsUnderWay (recordingRun es (announcedWorld r0 account urlParse now))))
    \<le> 1"
proof -
  let ?w = "recordingRun es (announcedWorld r0 account urlParse now)"
  obtain r where "holds_for c0 (recordingSid r0) ?w (outcomes ?w) r (mset (callsUnderWay ?w))"
    using settled_run [OF settled_announced assms] by (auto simp: settled_recording_def settled_inv_def)
  then have "size (filter_mset copying (mset (callsUnderWay ?w))) \<le> 1"
    by (simp add: holds_for_def)
  then show ?thesis by (simp flip: mset_filter)
qed

text \<open>C7. Once every call has returned, a recording is settled. Deleted: no object of it is left in the
  media store, unless the log says that one was, and if Twilio still has it the row says that the
  deletion there is owed. Not deleted: its audio exists where the row says, unless a deletion failed
  halfway. This needs one conversation to name the object's key (\<open>same_conversation\<close>), and no stale claim
  to be taken over while its copy is still under way (\<open>noTakeover\<close>): \<open>overtaken_copy_outlives_deletion\<close>
  below is a run that has such a takeover and leaves a deleted recording's audio in the store.\<close>

theorem settled_recordings_are_accounted_for:
  assumes "\<forall>e \<in> set es. same_conversation c0 e"
    and "noTakeover es (announcedWorld r0 account urlParse now)"
    and "callsUnderWay (recordingRun es (announcedWorld r0 account urlParse now)) = []"
  shows "\<exists>r. row (recordingRun es (announcedWorld r0 account urlParse now)) = Some r \<and>
    (if deletedAt r \<noteq> None
     then (leftovers (recordingRun es (announcedWorld r0 account urlParse now)) = 0
            \<longrightarrow> audioKeys (recordingRun es (announcedWorld r0 account urlParse now)) = {})
       \<and> (atTwilio (recordingRun es (announcedWorld r0 account urlParse now))
            \<longrightarrow> copyPlan r = CopySkip True)
     else deletion_failed (outcomes (recordingRun es (announcedWorld r0 account urlParse now)))
       \<or> atTwilio (recordingRun es (announcedWorld r0 account urlParse now))
       \<or> (\<exists>key. objectKey r = Some key
            \<and> key \<in> audioKeys (recordingRun es (announcedWorld r0 account urlParse now))))"
proof -
  let ?w = "recordingRun es (announcedWorld r0 account urlParse now)"
    and ?key = "recordingObjectKey c0 (recordingSid r0)"
  obtain r where "holds_for c0 (recordingSid r0) ?w (outcomes ?w) r {#}"
    using settled_run [OF settled_announced assms(1,2)] assms(3)
    by (auto simp: settled_recording_def settled_inv_def)
  then have r: "row ?w = Some r" "row_ok ?key (recordingSid r0) (atTwilio ?w) (audioKeys ?w) r"
      "accounted ?key r (audioKeys ?w) (leftovers ?w) (outcomes ?w) {#}"
    by (simp_all add: holds_for_def)
  show ?thesis
  proof (intro exI conjI)
    show "row ?w = Some r" by (rule r(1))
    show "if deletedAt r \<noteq> None
      then (leftovers ?w = 0 \<longrightarrow> audioKeys ?w = {}) \<and> (atTwilio ?w \<longrightarrow> copyPlan r = CopySkip True)
      else deletion_failed (outcomes ?w) \<or> atTwilio ?w \<or> (\<exists>key. objectKey r = Some key \<and> key \<in> audioKeys ?w)"
      using r(2,3) by (auto simp: row_ok_def accounted_def copyPlan_def)
  qed
qed

text \<open>A voicemail deleted by hand while its copy is on the way into the store.\<close>

definition deletedWhileCopied :: "recording_event list" where
  "deletedWhileCopied = [ReadsRow ''c'', Calls 0 DoCopy, Answers 0 Delivered, Answers 0 Delivered,
     Answers 0 Delivered, ReadsRow ''c'', Calls 1 (DoDelete Manual), Answers 1 Delivered,
     Answers 0 Delivered, Answers 0 Delivered, Answers 0 Delivered, Answers 0 Delivered,
     Answers 0 Delivered]"

abbreviation sampleWorld :: recording_world where
  "sampleWorld \<equiv> announcedWorld sampleRecording sampleAccount (\<lambda>s. Some sampleUrl) 0"

lemma deleted_while_copied:
  "\<forall>e \<in> set deletedWhileCopied. same_conversation ''c'' e"
  "noTakeover deletedWhileCopied sampleWorld"
  "callsUnderWay (recordingRun deletedWhileCopied sampleWorld) = []"
  by (simp_all add: deletedWhileCopied_def run_simps overtakes_def same_conversation_def)

theorem copies_run_one_at_a_time_witness:
  "length (filter copying (callsUnderWay (recordingRun deletedWhileCopied sampleWorld))) \<le> 1"
  by (rule copies_run_one_at_a_time [OF deleted_while_copied(1,2)])

theorem settled_recordings_are_accounted_for_witness:
  "leftovers (recordingRun deletedWhileCopied sampleWorld) = 0
   \<and> audioKeys (recordingRun deletedWhileCopied sampleWorld) = {}"
proof -
  have facts: "\<exists>r. row (recordingRun deletedWhileCopied sampleWorld) = Some r \<and> deletedAt r \<noteq> None"
      "leftovers (recordingRun deletedWhileCopied sampleWorld) = 0"
    by (simp_all add: deletedWhileCopied_def run_simps)
  from settled_recordings_are_accounted_for [OF deleted_while_copied] facts show ?thesis
    by (elim exE conjE) simp
qed

section \<open>Audio that outlives its deletion\<close>

text \<open>
  The hypotheses of the property above are needed. A copy whose claim went stale puts its object between
  the deletion from the store and the marking of the row: the deletion then marks the row over the key
  the copy just recorded, and the object stays with nothing pointing at it and nothing logged.
\<close>

definition overtakenCopy :: "recording_event list" where
  "overtakenCopy = [ReadsRow ''c'', Calls 0 DoCopy, Answers 0 Delivered, Answers 0 Delivered,
     Passes 700000, ReadsRow ''c'', Calls 1 DoCopy, Answers 1 Delivered, Answers 1 Delivered,
     Answers 1 Delivered, Answers 1 Delivered, Answers 1 Delivered, Answers 1 Delivered,
     ReadsRow ''c'', Calls 1 (DoDelete RetentionPolicy), Answers 1 Delivered, Answers 0 Delivered,
     Answers 0 Delivered, Answers 1 Delivered, Answers 0 Delivered, Answers 0 Delivered]"

lemma overtaken_copy_outlives_deletion:
  "callsUnderWay (recordingRun overtakenCopy sampleWorld) = []
   \<and> map_option deletedAt (row (recordingRun overtakenCopy sampleWorld)) = Some (Some 700000)
   \<and> leftovers (recordingRun overtakenCopy sampleWorld) = 0
   \<and> audioKeys (recordingRun overtakenCopy sampleWorld) = {''recordings/c/RE1.mp3''}"
  by (simp add: overtakenCopy_def run_simps recordingObjectKey_def)

text \<open>A copy that was stored but not recorded is not known to a later deletion either.\<close>

definition unrecordedCopy :: "recording_event list" where
  "unrecordedCopy = [ReadsRow ''c'', Calls 0 DoCopy, Answers 0 Delivered, Answers 0 Delivered,
     Answers 0 Delivered, Answers 0 Lost, Answers 0 Delivered, ReadsRow ''c'',
     Calls 0 (DoDelete RetentionPolicy), Answers 0 Delivered, Answers 0 Delivered, Answers 0 Delivered]"

lemma unrecorded_copy_outlives_deletion:
  "callsUnderWay (recordingRun unrecordedCopy sampleWorld) = []
   \<and> map_option deletedAt (row (recordingRun unrecordedCopy sampleWorld)) = Some (Some 0)
   \<and> atTwilio (recordingRun unrecordedCopy sampleWorld) = False
   \<and> audioKeys (recordingRun unrecordedCopy sampleWorld) = {''recordings/c/RE1.mp3''}"
  by (simp add: unrecordedCopy_def run_simps recordingObjectKey_def)

text \<open>A database that fails while a claim is asked for ends a copy, or a play whose audio had arrived,
  with that error.\<close>

lemma lost_claim_throws:
  "d \<noteq> Delivered \<Longrightarrow> snd (claimAnswered p r c now d w) = Finish Threw"
  by (simp add: claimAnswered_def split: prod.splits)

end
