(* ===== verification/Retention_Sweep.thy ===== *)
theory Retention_Sweep
  imports Recordings
begin

text \<open>
  \<open>apps/api/src/calls/retention-sweep.service.ts\<close>: one sweep, under its lock. What the sweep asks for
  (the clock, the database, the recording service of \<open>Recordings\<close>) is answered by \<open>sweep_env\<close>, step by
  step, so the database may change between any two questions; every call it makes of the recording
  service is kept in order with the instant its deadline was checked at.
\<close>

section \<open>What the sweep asks for and does\<close>

datatype sweep_call = SweepDelete recording_row | SweepCopy recording_row

record sweep_env =
  rowsAt :: "nat \<Rightarrow> recording_row list option"
  clockAt :: "nat \<Rightarrow> millis"
  deletionAt :: "nat \<Rightarrow> deletion_outcome option"
  copyAt :: "nat \<Rightarrow> (bool \<times> bool) option"

record sweep_state =
  asked :: nat
  sweepCalls :: "(sweep_call \<times> millis) list"

text \<open>A part of the sweep ends with a value or with the error of something it awaited.\<close>

type_synonym 'a sweep = "sweep_env \<Rightarrow> sweep_state \<Rightarrow> 'a option \<times> sweep_state"

definition sweepThen :: "'a sweep \<Rightarrow> ('a \<Rightarrow> 'b sweep) \<Rightarrow> 'b sweep" where
  "sweepThen m f env s = (case m env s of (None, s') \<Rightarrow> (None, s') | (Some x, s') \<Rightarrow> f x env s')"

definition sweepRet :: "'a \<Rightarrow> 'a sweep" where
  "sweepRet x env s = (Some x, s)"

definition nextStep :: "sweep_state \<Rightarrow> sweep_state" where
  "nextStep s = s\<lparr>asked := asked s + 1\<rparr>"

definition findRows :: "(recording_row \<Rightarrow> bool) \<Rightarrow> nat \<Rightarrow> recording_row list sweep" where
  "findRows selects limit env s =
     (map_option (\<lambda>rows. take limit (sort_key announcedAt (filter selects rows))) (rowsAt env (asked s)),
      nextStep s)"

definition clockNow :: "millis sweep" where
  "clockNow env s = (Some (clockAt env (asked s)), nextStep s)"

definition callDelete :: "recording_row \<Rightarrow> millis \<Rightarrow> deletion_outcome sweep" where
  "callDelete r at env s =
     (deletionAt env (asked s),
      nextStep (s\<lparr>sweepCalls := sweepCalls s @ [(SweepDelete r, at)]\<rparr>))"

definition callCopy :: "recording_row \<Rightarrow> millis \<Rightarrow> (bool \<times> bool) sweep" where
  "callCopy r at env s =
     (copyAt env (asked s),
      nextStep (s\<lparr>sweepCalls := sweepCalls s @ [(SweepCopy r, at)]\<rparr>))"

section \<open>Deleting what has expired\<close>

definition PER_RUN_EXPIRED :: nat where "PER_RUN_EXPIRED = 200"

definition PER_RUN_OWED_COPIES :: nat where "PER_RUN_OWED_COPIES = 25"

definition PER_RUN_OWED_DELETIONS :: nat where "PER_RUN_OWED_DELETIONS = 50"

record sweep_tally =
  tallyDeleted :: nat
  tallyCopied :: nat
  tallyProvider :: nat
  tallyFailed :: nat
  tallyOutOfTime :: bool

definition noTally :: sweep_tally where
  "noTally = \<lparr>tallyDeleted = 0, tallyCopied = 0, tallyProvider = 0, tallyFailed = 0,
     tallyOutOfTime = False\<rparr>"

fun countDeletion :: "deletion_outcome \<Rightarrow> sweep_tally \<Rightarrow> sweep_tally" where
  "countDeletion (AudioDeleted gone d) t =
     t\<lparr>tallyDeleted := tallyDeleted t + 1, tallyProvider := tallyProvider t + (if gone then 1 else 0)\<rparr>"
| "countDeletion (AlreadyDeleted d) t = t"
| "countDeletion DeletionFailed t = t\<lparr>tallyFailed := tallyFailed t + 1\<rparr>"

fun deleteEach ::
  "recording_retention \<Rightarrow> millis \<Rightarrow> millis \<Rightarrow> recording_row list \<Rightarrow> sweep_tally \<Rightarrow> sweep_tally sweep" where
  "deleteEach retention now deadline [] t = sweepRet t"
| "deleteEach retention now deadline (r # rows) t =
     sweepThen clockNow (\<lambda>at.
       if \<not> hasTimeLeft deadline at then sweepRet (t\<lparr>tallyOutOfTime := True\<rparr>)
       else if \<not> isExpired (policyFor retention (recordingContext r)) (announcedAt r) now
       then deleteEach retention now deadline rows t
       else sweepThen (callDelete r at) (\<lambda>d. deleteEach retention now deadline rows (countDeletion d t)))"

fun deleteScans ::
  "recording_retention \<Rightarrow> millis \<Rightarrow> millis \<Rightarrow> (recording_context \<times> int) list \<Rightarrow> sweep_tally
     \<Rightarrow> sweep_tally sweep" where
  "deleteScans retention now deadline [] t = sweepRet t"
| "deleteScans retention now deadline ((ctx, cutoff) # scans) t =
     sweepThen (findRows (\<lambda>r. recordingContext r = ctx \<and> deletedAt r = None
                            \<and> int (announcedAt r) < cutoff) PER_RUN_EXPIRED) (\<lambda>rows.
     sweepThen (deleteEach retention now deadline rows t) (\<lambda>t'.
       if tallyOutOfTime t' then sweepRet t' else deleteScans retention now deadline scans t'))"

definition deleteExpired :: "recording_retention \<Rightarrow> millis \<Rightarrow> millis \<Rightarrow> sweep_tally sweep" where
  "deleteExpired retention now deadline =
     deleteScans retention now deadline (expiryScans retention now) noTally"

section \<open>What earlier attempts left owed\<close>

fun copyEach :: "millis \<Rightarrow> recording_row list \<Rightarrow> sweep_tally \<Rightarrow> sweep_tally sweep" where
  "copyEach deadline [] t = sweepRet t"
| "copyEach deadline (r # rows) t =
     sweepThen clockNow (\<lambda>at.
       if \<not> hasTimeLeft deadline at then sweepRet (t\<lparr>tallyOutOfTime := True\<rparr>)
       else sweepThen (callCopy r at) (\<lambda>(copied, gone).
         copyEach deadline rows (t\<lparr>tallyCopied := tallyCopied t + (if copied then 1 else 0),
           tallyProvider := tallyProvider t + (if gone then 1 else 0)\<rparr>)))"

definition retryOwedCopies :: "millis \<Rightarrow> millis \<Rightarrow> sweep_tally sweep" where
  "retryOwedCopies now deadline =
     sweepThen (findRows (\<lambda>r. claimableCopy now r \<and> providerDeletedAt r = None) PER_RUN_OWED_COPIES)
       (\<lambda>rows. copyEach deadline rows noTally)"

definition retryOwedProviderDeletions :: "millis \<Rightarrow> sweep_tally sweep" where
  "retryOwedProviderDeletions deadline =
     sweepThen (findRows (\<lambda>r. providerDeletedAt r = None \<and> (objectKey r \<noteq> None \<or> deletedAt r \<noteq> None))
                 PER_RUN_OWED_DELETIONS)
       (\<lambda>rows. copyEach deadline rows noTally)"

section \<open>One run\<close>

definition outOfTime :: sweep_tally where
  "outOfTime = noTally\<lparr>tallyOutOfTime := True\<rparr>"

text \<open>The work of a run that holds the lock, in the order of the source. Settings may be unreadable.\<close>

definition sweepWork :: "recording_retention option \<Rightarrow> sweep_tally sweep" where
  "sweepWork settings =
     sweepThen clockNow (\<lambda>now.
       case settings of
         None \<Rightarrow> (\<lambda>env s. (None, s))
       | Some retention \<Rightarrow>
           sweepThen (deleteExpired retention now (sweepDeadline now)) (\<lambda>expired.
           sweepThen (if tallyOutOfTime expired then sweepRet outOfTime
                      else retryOwedCopies now (sweepDeadline now)) (\<lambda>copies.
           sweepThen (if tallyOutOfTime copies then sweepRet outOfTime
                      else retryOwedProviderDeletions (sweepDeadline now)) (\<lambda>deletions.
           sweepRet \<lparr>tallyDeleted = tallyDeleted expired, tallyCopied = tallyCopied copies,
             tallyProvider = tallyProvider expired + tallyProvider copies + tallyProvider deletions,
             tallyFailed = tallyFailed expired,
             tallyOutOfTime = tallyOutOfTime expired \<or> tallyOutOfTime copies
               \<or> tallyOutOfTime deletions\<rparr>))))"

text \<open>A run asks for the lock first; \<open>None\<close> is the run of an instance that did not get it.\<close>

definition sweepRun ::
  "bool \<Rightarrow> recording_retention option \<Rightarrow> sweep_tally option sweep" where
  "sweepRun lockTaken settings =
     (if lockTaken then sweepThen (sweepWork settings) (\<lambda>t. sweepRet (Some t)) else sweepRet None)"

text \<open>Whether the run writes an audit entry.\<close>

definition sweepReports :: "sweep_tally \<Rightarrow> bool" where
  "sweepReports t \<longleftrightarrow> \<not> (tallyDeleted t = 0 \<and> tallyCopied t = 0 \<and> tallyProvider t = 0 \<and> tallyFailed t = 0)"

section \<open>What a part of the sweep may do\<close>

definition within :: "(sweep_call \<times> millis \<Rightarrow> bool) \<Rightarrow> nat \<Rightarrow> 'a sweep \<Rightarrow> sweep_env \<Rightarrow> bool" where
  "within P n m env \<longleftrightarrow> (\<forall>s. \<exists>new. sweepCalls (snd (m env s)) = sweepCalls s @ new
     \<and> list_all P new \<and> length new \<le> n)"

definition yields :: "('a \<Rightarrow> bool) \<Rightarrow> 'a sweep \<Rightarrow> sweep_env \<Rightarrow> bool" where
  "yields Q m env \<longleftrightarrow> (\<forall>s x. fst (m env s) = Some x \<longrightarrow> Q x)"

lemma within_then:
  assumes "within P n m env" and "yields Q m env" and "\<And>x. Q x \<Longrightarrow> within P k (f x) env"
  shows "within P (n + k) (sweepThen m f) env"
  unfolding within_def
proof
  fix s
  obtain new where new: "sweepCalls (snd (m env s)) = sweepCalls s @ new" "list_all P new" "length new \<le> n"
    using assms(1) unfolding within_def by blast
  show "\<exists>new. sweepCalls (snd (sweepThen m f env s)) = sweepCalls s @ new \<and> list_all P new
      \<and> length new \<le> n + k"
  proof (cases "fst (m env s)")
    case None
    then show ?thesis
      using new by (intro exI [of _ new]) (auto simp: sweepThen_def split: prod.splits)
  next
    case (Some x)
    then have "Q x" using assms(2) by (auto simp: yields_def)
    then obtain more' where more': "sweepCalls (snd (f x env (snd (m env s))))
        = sweepCalls (snd (m env s)) @ more'" "list_all P more'" "length more' \<le> k"
      using assms(3) unfolding within_def by blast
    then show ?thesis
      using new Some
      by (intro exI [of _ "new @ more'"]) (auto simp: sweepThen_def split: prod.splits)
  qed
qed

lemma within_ret: "within P n (sweepRet x) env"
  by (simp add: within_def sweepRet_def)

lemma within_clock: "within P 0 clockNow env"
  by (simp add: within_def clockNow_def nextStep_def)

lemma within_find: "within P 0 (findRows selects limit) env"
  by (simp add: within_def findRows_def nextStep_def)

lemma within_delete: "P (SweepDelete r, at) \<Longrightarrow> within P 1 (callDelete r at) env"
  by (simp add: within_def callDelete_def nextStep_def)

lemma within_copy: "P (SweepCopy r, at) \<Longrightarrow> within P 1 (callCopy r at) env"
  by (simp add: within_def callCopy_def nextStep_def)

lemma within_mono: "within P n m env \<Longrightarrow> n \<le> k \<Longrightarrow> within P k m env"
  unfolding within_def by (meson le_trans)

lemma yields_any: "yields (\<lambda>x. True) m env"
  by (simp add: yields_def)

lemma yields_find:
  "yields (\<lambda>rows. length rows \<le> limit \<and> (\<forall>r \<in> set rows. selects r)) (findRows selects limit) env"
  by (auto simp: yields_def findRows_def dest: in_set_takeD)

lemmas within_any = within_then [OF _ yields_any]

lemma within_step:
  assumes "within P 0 m env" and "\<And>x. within P k (f x) env"
  shows "within P k (sweepThen m f) env"
  using within_any [of P 0 m env k f] assms by simp

lemma within_deleteEach:
  assumes "\<And>r at. r \<in> set rows \<Longrightarrow> hasTimeLeft deadline at \<Longrightarrow>
      isExpired (policyFor retention (recordingContext r)) (announcedAt r) now \<Longrightarrow> P (SweepDelete r, at)"
  shows "within P (length rows) (deleteEach retention now deadline rows t) env"
  using assms
proof (induction rows arbitrary: t)
  case (Cons r rows)
  have rest: "within P (length rows) (deleteEach retention now deadline rows t') env" for t'
    using Cons by simp
  have call: "within P (1 + length rows)
      (sweepThen (callDelete r at) (\<lambda>d. deleteEach retention now deadline rows (countDeletion d t))) env"
    if "hasTimeLeft deadline at" "isExpired (policyFor retention (recordingContext r)) (announcedAt r) now"
    for at
    by (rule within_any [OF within_delete rest]) (use Cons.prems that in simp)
  show ?case
    unfolding deleteEach.simps
    by (rule within_step [OF within_clock])
      (use call within_mono [OF rest] in \<open>auto simp: within_ret\<close>)
qed (simp add: within_ret)

lemma within_copyEach:
  assumes "\<And>r at. r \<in> set rows \<Longrightarrow> hasTimeLeft deadline at \<Longrightarrow> P (SweepCopy r, at)"
  shows "within P (length rows) (copyEach deadline rows t) env"
  using assms
proof (induction rows arbitrary: t)
  case (Cons r rows)
  have rest: "within P (length rows) (copyEach deadline rows t') env" for t'
    using Cons by simp
  have call: "within P (1 + length rows) (sweepThen (callCopy r at) (\<lambda>(copied, gone).
        copyEach deadline rows (t\<lparr>tallyCopied := tallyCopied t + (if copied then 1 else 0),
           tallyProvider := tallyProvider t + (if gone then 1 else 0)\<rparr>))) env"
    if "hasTimeLeft deadline at" for at
    by (rule within_any [OF within_copy]) (use Cons.prems that rest in \<open>auto split: prod.splits\<close>)
  show ?case
    unfolding copyEach.simps
    by (rule within_step [OF within_clock]) (use call in \<open>auto simp: within_ret\<close>)
qed (simp add: within_ret)

lemma within_deleteScans:
  assumes "\<And>r at. hasTimeLeft deadline at \<Longrightarrow> deletedAt r = None \<Longrightarrow>
      isExpired (policyFor retention (recordingContext r)) (announcedAt r) now \<Longrightarrow> P (SweepDelete r, at)"
  shows "within P (length scans * PER_RUN_EXPIRED) (deleteScans retention now deadline scans t) env"
proof (induction scans arbitrary: t)
  case (Cons scan scans)
  obtain ctx cutoff where scan: "scan = (ctx, cutoff)" by (cases scan)
  have "within P (0 + (PER_RUN_EXPIRED + length scans * PER_RUN_EXPIRED))
      (deleteScans retention now deadline ((ctx, cutoff) # scans) t) env"
    unfolding deleteScans.simps
  proof (rule within_then [OF within_find yields_find])
    fix rows :: "recording_row list"
    assume rows: "length rows \<le> PER_RUN_EXPIRED \<and> (\<forall>r \<in> set rows. recordingContext r = ctx
        \<and> deletedAt r = None \<and> int (announcedAt r) < cutoff)"
    have "within P (length rows) (deleteEach retention now deadline rows t) env"
      by (rule within_deleteEach) (use assms rows in simp)
    then have "within P PER_RUN_EXPIRED (deleteEach retention now deadline rows t) env"
      using rows within_mono by blast
    then show "within P (PER_RUN_EXPIRED + length scans * PER_RUN_EXPIRED)
        (sweepThen (deleteEach retention now deadline rows t) (\<lambda>t'.
           if tallyOutOfTime t' then sweepRet t' else deleteScans retention now deadline scans t')) env"
      by (rule within_any) (use Cons.IH in \<open>auto simp: within_ret\<close>)
  qed
  then show ?case by (simp add: scan)
qed (simp add: within_ret)

lemma within_owed:
  assumes "\<And>r at. hasTimeLeft deadline at \<Longrightarrow> providerDeletedAt r = None \<Longrightarrow> P (SweepCopy r, at)"
    and "\<And>r. selects r \<Longrightarrow> providerDeletedAt r = None"
  shows "within P limit (sweepThen (findRows selects limit) (\<lambda>rows. copyEach deadline rows noTally)) env"
proof -
  have "within P (0 + limit)
      (sweepThen (findRows selects limit) (\<lambda>rows. copyEach deadline rows noTally)) env"
  proof (rule within_then [OF within_find yields_find])
    fix rows :: "recording_row list"
    assume rows: "length rows \<le> limit \<and> (\<forall>r \<in> set rows. selects r)"
    have "within P (length rows) (copyEach deadline rows noTally) env"
      by (rule within_copyEach) (use assms rows in simp)
    then show "within P limit (copyEach deadline rows noTally) env"
      using rows within_mono by blast
  qed
  then show ?thesis by simp
qed

lemma length_expiryScans: "length (expiryScans retention now) \<le> 2"
  by (simp add: expiryScans_def split: option.splits)

text \<open>What a run may call for, begun at an instant.\<close>

definition sweep_call_ok :: "recording_retention option \<Rightarrow> millis \<Rightarrow> sweep_call \<times> millis \<Rightarrow> bool" where
  "sweep_call_ok settings now call \<longleftrightarrow>
     (case call of (c, at) \<Rightarrow> at < now + SWEEP_BUDGET_MS \<and>
        (case c of
           SweepDelete r \<Rightarrow> deletedAt r = None \<and> (\<exists>retention days. settings = Some retention
             \<and> retentionDays (policyFor retention (recordingContext r)) = Some days
             \<and> announcedAt r + days * DAY_MS < now)
         | SweepCopy r \<Rightarrow> providerDeletedAt r = None))"

lemma sweep_call_ok_intro:
  "hasTimeLeft (sweepDeadline now) at \<Longrightarrow> deletedAt r = None \<Longrightarrow>
     isExpired (policyFor retention (recordingContext r)) (announcedAt r) now \<Longrightarrow>
     sweep_call_ok (Some retention) now (SweepDelete r, at)"
  "hasTimeLeft (sweepDeadline now) at \<Longrightarrow> providerDeletedAt r = None \<Longrightarrow>
     sweep_call_ok settings now (SweepCopy r, at)"
  by (auto simp: sweep_call_ok_def hasTimeLeft_def sweepDeadline_def isExpired_iff)

lemma within_expired:
  "within (sweep_call_ok (Some retention) now) 400 (deleteExpired retention now (sweepDeadline now)) env"
proof (rule within_mono)
  show "within (sweep_call_ok (Some retention) now) (length (expiryScans retention now) * PER_RUN_EXPIRED)
      (deleteExpired retention now (sweepDeadline now)) env"
    unfolding deleteExpired_def by (rule within_deleteScans) (rule sweep_call_ok_intro)
  show "length (expiryScans retention now) * PER_RUN_EXPIRED \<le> 400"
    using length_expiryScans [of retention now] by (simp add: PER_RUN_EXPIRED_def)
qed

lemma within_copies:
  "within (sweep_call_ok settings now) 25 (retryOwedCopies now (sweepDeadline now)) env"
  using within_owed [of "sweepDeadline now" "sweep_call_ok settings now"
      "\<lambda>r. claimableCopy now r \<and> providerDeletedAt r = None" PER_RUN_OWED_COPIES env]
    sweep_call_ok_intro(2) by (simp add: retryOwedCopies_def PER_RUN_OWED_COPIES_def)

lemma within_deletions:
  "within (sweep_call_ok settings now) 50 (retryOwedProviderDeletions (sweepDeadline now)) env"
  using within_owed [of "sweepDeadline now" "sweep_call_ok settings now"
      "\<lambda>r. providerDeletedAt r = None \<and> (objectKey r \<noteq> None \<or> deletedAt r \<noteq> None)" PER_RUN_OWED_DELETIONS env]
    sweep_call_ok_intro(2) by (simp add: retryOwedProviderDeletions_def PER_RUN_OWED_DELETIONS_def)

lemma within_work:
  "\<exists>new. sweepCalls (snd (sweepWork settings env s)) = sweepCalls s @ new
     \<and> list_all (sweep_call_ok settings (clockAt env (asked s))) new \<and> length new \<le> 475"
proof (cases settings)
  case None
  then show ?thesis
    by (simp add: sweepWork_def sweepThen_def clockNow_def nextStep_def)
next
  case (Some retention)
  let ?now = "clockAt env (asked s)"
  let ?P = "sweep_call_ok (Some retention) ?now"
  define rest where "rest = sweepThen (deleteExpired retention ?now (sweepDeadline ?now)) (\<lambda>expired.
           sweepThen (if tallyOutOfTime expired then sweepRet outOfTime
                      else retryOwedCopies ?now (sweepDeadline ?now)) (\<lambda>copies.
           sweepThen (if tallyOutOfTime copies then sweepRet outOfTime
                      else retryOwedProviderDeletions (sweepDeadline ?now)) (\<lambda>deletions.
           sweepRet \<lparr>tallyDeleted = tallyDeleted expired, tallyCopied = tallyCopied copies,
             tallyProvider = tallyProvider expired + tallyProvider copies + tallyProvider deletions,
             tallyFailed = tallyFailed expired,
             tallyOutOfTime = tallyOutOfTime expired \<or> tallyOutOfTime copies
               \<or> tallyOutOfTime deletions\<rparr>)))"
  have "within ?P (400 + (25 + (50 + 0))) rest env"
    unfolding rest_def
    by (intro within_any within_expired)
      (auto intro: within_ret within_copies within_deletions)
  then have "within ?P 475 rest env" by simp
  then obtain new where "sweepCalls (snd (rest env (nextStep s))) = sweepCalls (nextStep s) @ new"
      "list_all ?P new" "length new \<le> 475"
    unfolding within_def by blast
  moreover have "sweepWork settings env s = rest env (nextStep s)"
    by (simp add: Some sweepWork_def sweepThen_def [of clockNow] clockNow_def rest_def)
  ultimately show ?thesis by (simp add: Some nextStep_def)
qed

section \<open>Properties\<close>

text \<open>C26. A sweep deletes the audio of a recording only if it was read as not deleted and is older than
  the days its policy names; under the policy that keeps recordings nothing is ever deleted. It asks
  Twilio only for recordings Twilio still has, makes at most 475 calls, begins none of them later than
  ten minutes after it began, which is within the fifteen minutes its lock lasts, and calls for nothing
  without the lock, whatever the clock, the database and the recording service answer.\<close>

theorem sweep_deletes_only_what_expired:
  "\<exists>new. sweepCalls (snd (sweepRun lockTaken settings env s)) = sweepCalls s @ new
     \<and> (\<not> lockTaken \<longrightarrow> new = [])
     \<and> length new \<le> 475
     \<and> (\<forall>(c, at) \<in> set new. at < clockAt env (asked s) + 600000
          \<and> 600000 < RETENTION_LOCK_TTL_SECONDS * 1000
          \<and> (\<forall>r. c = SweepDelete r \<longrightarrow> deletedAt r = None \<and> (\<exists>retention days. settings = Some retention
                \<and> retentionDays (policyFor retention (recordingContext r)) = Some days
                \<and> announcedAt r + days * DAY_MS < clockAt env (asked s)))
          \<and> (\<forall>r. c = SweepCopy r \<longrightarrow> providerDeletedAt r = None))"
proof (cases lockTaken)
  case True
  obtain new where new: "sweepCalls (snd (sweepWork settings env s)) = sweepCalls s @ new"
      "list_all (sweep_call_ok settings (clockAt env (asked s))) new" "length new \<le> 475"
    using within_work by blast
  moreover have "sweepCalls (snd (sweepRun lockTaken settings env s))
      = sweepCalls (snd (sweepWork settings env s))"
    using True by (auto simp: sweepRun_def sweepThen_def sweepRet_def split: prod.splits option.splits)
  ultimately show ?thesis
    using True
    by (intro exI [of _ new])
      (auto simp: list_all_iff sweep_call_ok_def SWEEP_BUDGET_MS_def RETENTION_LOCK_TTL_SECONDS_def)
qed (simp add: sweepRun_def sweepRet_def)

text \<open>A voicemail of 31 days under a policy of 30.\<close>

definition sampleEnv :: sweep_env where
  "sampleEnv = \<lparr>rowsAt = (\<lambda>n. Some [\<lparr>recordingContext = VoicemailRecording, recordingSid = ''RE1'',
     providerUrl = ''u'', recordingDuration = None, objectKey = Some ''k'', providerDeletedAt = Some 0,
     copyStartedAt = None, deletedAt = None, deletionReason = None, announcedAt = 0\<rparr>]),
     clockAt = (\<lambda>n. 31 * DAY_MS), deletionAt = (\<lambda>n. Some DeletionFailed), copyAt = (\<lambda>n. None)\<rparr>"

theorem sweep_deletes_only_what_expired_witness:
  "length (sweepCalls (snd (sweepRun True
       (Some \<lparr>voicemailPolicy = DAYS_30, callRecordingsPolicy = KEEP_UNTIL_DELETED\<rparr>)
       sampleEnv \<lparr>asked = 0, sweepCalls = []\<rparr>))) = 1
   \<and> (\<exists>new. sweepCalls (snd (sweepRun False None sampleEnv \<lparr>asked = 0, sweepCalls = []\<rparr>)) = new \<and> new = [])"
proof -
  have "length (sweepCalls (snd (sweepRun True
       (Some \<lparr>voicemailPolicy = DAYS_30, callRecordingsPolicy = KEEP_UNTIL_DELETED\<rparr>)
       sampleEnv \<lparr>asked = 0, sweepCalls = []\<rparr>))) = 1"
    by (simp add: sweepRun_def sweepWork_def sweepThen_def clockNow_def nextStep_def deleteExpired_def
        expiryScans_def retentionCutoff_def policyFor_def findRows_def sampleEnv_def DAY_MS_def
        PER_RUN_EXPIRED_def sweepRet_def hasTimeLeft_def sweepDeadline_def SWEEP_BUDGET_MS_def
        RETENTION_LOCK_TTL_SECONDS_def isExpired_def callDelete_def noTally_def retryOwedCopies_def
        PER_RUN_OWED_COPIES_def claimableCopy_def retryOwedProviderDeletions_def PER_RUN_OWED_DELETIONS_def)
  moreover obtain new where "sweepCalls (snd (sweepRun False None sampleEnv \<lparr>asked = 0, sweepCalls = []\<rparr>)) = new"
      "new = []"
    using sweep_deletes_only_what_expired [of False None sampleEnv "\<lparr>asked = 0, sweepCalls = []\<rparr>"] by auto
  ultimately show ?thesis by blast
qed

end
