(* ===== verification/Spec2Isabelle.thy ===== *)
theory Spec2Isabelle
  imports Samples Softphone_Transfers Softphone_Display Call_Reading Administration_Cache Messaging_Witnesses Claim_Renewal Socket_Handlers Recording_Settlement Retention_Sweep
begin

text \<open>
  The telephony of the iziphone repository. Three programs share it: the call controller, which takes
  Twilio's webhooks and the softphones' requests, keeps every live call in Redis, claims users for calls
  and dials them (\<open>apps/call-controller\<close>); the API, which keeps what happened and what is configured in
  a database and tells the controller how to route (\<open>apps/api\<close>); and the softphone in the browser
  (\<open>apps/web/src/lib/telephony\<close>).

  \<^bold>\<open>The programs.\<close> A live call is one JSON document in Redis (\<open>CallState\<close>, written by compare-and-set on
  its version). Twilio reports what happens to legs (\<open>voice-webhook.routes.ts\<close>), softphones ask for
  hold, transfer and hangup (\<open>voice.routes.ts\<close>) or decline over their socket (\<open>socket-handlers.ts\<close>), the
  API orders a hangup over Redis (\<open>call-commands.ts\<close>). All of them end in \<open>CallFlow\<close> (\<open>call-flow.ts\<close>),
  which decides a change on the stored state, writes it, and acts on what it decided: asks Twilio
  (through \<open>telephony.service.ts\<close>), publishes events for the API, offers the call to users and lets
  users go (through the realtime side: \<open>availability.service.ts\<close>, \<open>availability-store.ts\<close>,
  \<open>presence.service.ts\<close>). Where a call goes is planned by \<open>routing/\<close> from a cached entry that the API
  writes (\<open>routing-cache.ts\<close>). The API persists the published events (\<open>call-event-subscriber.ts\<close>), copies
  recordings from Twilio into its store (\<open>recording.service.ts\<close>), deletes them when they expire
  (\<open>retention-sweep.service.ts\<close>), answers who may read what (\<open>call-scope.ts\<close>), and sends and receives text
  messages (\<open>messaging/\<close>). The softphone
  (\<open>telephony-session.ts\<close>) drives Twilio's voice SDK and the controller's routes.

  \<^bold>\<open>The theories of the controller.\<close> Each models one part, in the order they depend on each other.
  \<^item> \<open>Prelude\<close>: identifiers, JavaScript idioms, list and dictionary lemmas, runs that wait for an answer.
  \<^item> \<open>Call_Types\<close>: the enums of the contracts, phone numbers, roles, status texts.
  \<^item> \<open>Call_State\<close>: \<open>call-state.ts\<close>; the invariant \<open>wf_call\<close> and the order \<open>advances\<close>.
  \<^item> \<open>Call_Control\<close>: \<open>call-control.ts\<close>, who may hold, transfer, cancel and what a hangup means.
  \<^item> \<open>Routing\<close>: \<open>routing/\<close> and the routing entry, opening hours, plans, circuit breaker.
  \<^item> \<open>Outbound_Grant\<close>: \<open>outbound-grant.ts\<close>.
  \<^item> \<open>Availability\<close>: the rule, the Lua scripts on one user, the sockets of one user; the locale
    \<open>fading_set\<close> of members that count until their lifetime passed, interpreted on both.
  \<^item> \<open>Call_Decisions\<close>: every function handed to \<open>updateCallState\<close>, and \<open>call_write\<close>, one rule each.
  \<^item> \<open>World\<close>: Redis, the trace of effects, interference, and how handlers run and compose.
  \<^item> \<open>Labels\<close>: participant labels and the URI encoding in them.
  \<^item> \<open>Telephony\<close>, \<open>Realtime\<close>, \<open>Call_Flow\<close>, \<open>Call_Handlers\<close>: the handlers, method by method.
  \<^item> \<open>Claim_Renewal\<close>: the timer that keeps claims alive and starts reconciliations (\<open>claim-renewal.ts\<close>).
  \<^item> \<open>Socket_Handlers\<close>: what one socket does from connect to disconnect (\<open>socket-handlers.ts\<close>).
  \<^item> \<open>Call_Contract\<close>, \<open>Flow_Contract\<close>, \<open>Handler_Contract\<close>: what a handler may do to the world, as
    locales, and the proof that every handler keeps to it; \<open>entry\<close> is everything that comes in and
    \<open>serve\<close> what the controller does about it.
  \<^item> \<open>Guarantees\<close> and \<open>Call_Machine\<close>: the interpretations of those locales.
  \<^item> \<open>One_Call\<close>: the guarantees of one call whatever becomes of the others.
  \<^item> \<open>Concurrency\<close>: where a change lands and whom an offer claims, under interference; \<open>Sole_Claims\<close>:
    overlapping offers leave a user with at most one claim.
  \<^item> \<open>Quiet\<close>, \<open>Quiet_Handlers\<close>, \<open>Calm\<close>: single handlers run alone.
  \<^item> \<open>Decision_Facts\<close>, \<open>Samples\<close>: facts on single decisions; concrete worlds for the witnesses.

  \<^bold>\<open>The theories of the API.\<close>
  \<^item> \<open>Recording_Rules\<close>: \<open>recording-copy.ts\<close>, \<open>twilio-recording.ts\<close>, \<open>retention.ts\<close> and who may listen.
  \<^item> \<open>Recordings\<close>, \<open>Recording_Safety\<close>, \<open>Recording_Settlement\<close>: copying, playing and deleting one
    recording over its row, the media store and Twilio, cut at every await; no audio is lost in any
    interleaving, and what is left over at the end.
  \<^item> \<open>Retention_Sweep\<close>: one sweep under its lock.
  \<^item> \<open>Call_Records\<close>, \<open>Call_Records_Facts\<close>: the handlers of call events cut at their database calls, run
    one after the other or interleaved.
  \<^item> \<open>Call_Reading\<close>: the scope of a reader, the filters of a list and what is published of a call.
  \<^item> \<open>Line_Directory\<close>: numbers, departments and users as far as calls are routed by them, the routing
    entries made of them, and the lines a user may call from.
  \<^item> \<open>Administration\<close>, \<open>Administration_Facts\<close>, \<open>Administration_Cache\<close>: what administrators change about
    them (\<open>phone-number.service.ts\<close>, \<open>department.service.ts\<close>, \<open>user.service.ts\<close>), requests overlapping or
    one after the other; who holds a number, and what the routing cache is left with.
  \<^item> \<open>Messaging\<close>, \<open>Message_Sends\<close>: text messages (\<open>messaging/\<close>), what inbound messages, callbacks and sends
    write, and all of them at work at once. \<open>Messaging_Facts\<close>: their tables, step by step;
    \<open>Messaging_Safety\<close>: the locale \<open>messaging_invariant\<close> of what every step keeps, interpreted as \<open>kept\<close>,
    \<open>sends\<close>, \<open>wishes\<close> and \<open>progress\<close>; \<open>Messaging_Claims\<close>: readers, senders, retries, callbacks in any order;
    \<open>Messaging_Witnesses\<close>: concrete runs.

  \<^bold>\<open>The theories of the softphone.\<close>
  \<^item> \<open>Softphone\<close>: the class \<open>TelephonySession\<close>, every method cut at its awaits; a life of a session is a
    list of inputs (presses, events of the SDK, answers, timers) in any order.
  \<^item> \<open>Softphone_Safety\<close>: the locales \<open>session_moves\<close>, \<open>session_law\<close> and \<open>session_plain\<close> of a law every
    method keeps, interpreted as \<open>controls\<close>, \<open>silence\<close> and \<open>grants\<close>.
  \<^item> \<open>Softphone_Transfers\<close>: transfers and hangups (\<open>hanging_up\<close>), in every order of what comes back.
  \<^item> \<open>Softphone_Display\<close>: offers, availability, the status line and the line a call leaves from.

  \<^bold>\<open>How state and operations correspond.\<close> \<open>world\<close> holds what Redis holds: \<open>callStates\<close>, \<open>liveCalls\<close>,
  \<open>legMetas\<close>, \<open>grants\<close>, \<open>users\<close> (revision, do not disturb, claims with their times), \<open>socketsOf\<close>,
  \<open>callParticipantsOf\<close>; the breaker of one controller instance; the background work left by handlers;
  and \<open>trace\<close>, every effect in order. A handler of type \<open>'a io\<close> takes the \<open>outside\<close> and a world to an
  error or a value and a world. Every await of the source is a step at which the outside's
  \<open>interfere\<close> may first change the world arbitrarily (other webhooks, other instances, expiring keys),
  Redis may lose the request or only the reply, and Twilio may answer anything. A theorem over all
  outsides that satisfy \<open>rely R\<close> therefore covers every interleaving whose other parties keep \<open>R\<close>; since
  every handler is proved to keep the same \<open>R\<close>, that includes any number of copies of this program, for
  the relations every handler keeps (\<open>stays_ok\<close>, \<open>balanced\<close>, \<open>counted\<close>). \<open>forward\<close> and \<open>follows\<close> exclude the
  start of a call, which stores version 1 over whatever is there; of one call (\<open>forwardOf\<close>, \<open>followsOf\<close>) they
  exclude only that it is started again. \<open>exclusive\<close> excludes the claims that do not ask whether a user is
  free: renewals, and those of agents who answer or take a transfer.

  Where a component's own methods overlap in one process (the renewal timer, one socket, one recording,
  the event subscriber, the softphone session, an administrator's request, messaging), its state carries the runs that wait for an answer, and
  an input lets any of them go on: a call that was delivered, lost, or whose answer was lost. These
  theorems quantify over all lists of inputs, hence over all interleavings.

  \<^bold>\<open>What the lemmas show.\<close> The contracts give invariants and refinements of the whole controller: stored
  states stay well formed, move only forward and along the machine of \<open>call_step\<close>, ends are reported
  once, users are claimed by one call. The \<open>Quiet\<close> theories bound the effects of single handlers and
  \<open>Calm\<close> shows that they succeed. The component theories end with the properties of their own rules.
  Components meet in \<open>lines_offered_are_lines_granted\<close> (the API's list, its routing entries and the
  controller's decision agree), \<open>onTheWire\<close> (what the controller publishes is what the API persists) and
  \<open>picked_line_is_granted\<close> (what the softphone picks, the controller grants).

  \<^bold>\<open>Bounds.\<close> The retries are recursive on the attempts left, as many as the source has (ten writes, three
  hangups, five claims), so no fuel is needed and every handler is a total function. \<open>ringFrom\<close> recurses
  on the rest of the queue, \<open>complete\<close> on the rank of what a handler still has to do.

  \<^bold>\<open>Modelling decisions.\<close> Strings are UTF-8 byte lists; instants are milliseconds, where the source
  stores ISO texts; times of events and constant fields of payloads are left out. \<open>Promise.all\<close> runs
  its parts in order and each to the end. Retry pauses are waits; logging is left out, except that
  building a log line can throw. Reconciliation runs one worker instead of four. A Redis pipeline
  fails as a whole. Expiry is interference, so a property that holds under interference holds when
  keys run out. A database transaction is atomic
  even where others could commit between its statements, but for the one of a status callback, which is cut
  between its read and its update; a table is a list of rows in the order
  they were written; rows that tie in an \<open>orderBy\<close> keep that order.

  \<^bold>\<open>Parameters.\<close> Code outside the repository is a field of \<open>outside\<close>: Twilio's answers, the length of a
  rendered TwiML document, the URL parser, \<open>Intl.DateTimeFormat\<close>, the JSON and schema parse of a
  routing entry, HTTP answers, random tokens. The softphone's SDK is the record \<open>voice_sdk\<close>, and
  \<open>localeCompare\<close> the argument \<open>collate\<close>. No law is assumed of any of them, but that a database which
  reports the dedupe key of an event violated has that event (\<open>acknowledged_messages_are_stored\<close>).

  \<^bold>\<open>Not modelled.\<close> The API's accounts, sessions and access links; uploads of message media; the pages and hooks
  of the web client; schema validation of request bodies, tokens and sessions, Twilio's request
  signatures; rendering of TwiML; reading audio piece by piece; start-up, shutdown and health checks.
  Their states and reasons are in the manifest.
\<close>

section \<open>The whole program, whoever interferes\<close>

text \<open>C1. Every stored call state is well formed, and stays so: whatever comes in, in whatever order,
  with other handlers and instances acting at every await, Redis losing requests or replies and
  Twilio answering anything. Well formed is \<open>wf_call\<close>: rings are among the agent legs, nothing is
  listed twice, whoever talks is known, and the transfer markers stand or fall together.\<close>

theorem stored_calls_stay_well_formed:
  assumes "rely stays_ok c" and "calls_ok w"
  shows "calls_ok (snd (serveAll es c w))"
  using wf_states.obeysD [OF wf_states.serveAll_resp assms(1)] assms(2) by (simp add: stays_ok_def)

definition sampleInbound :: entry where
  "sampleInbound = InboundWebhook \<lparr>bodyCallSid = Some ''CA1'', bodyFrom = Some ''+15551230001'',
     bodyTo = Some ''+15551230002'', bodyType = None, bodyGrant = None\<rparr>"

lemma calls_ok_empty: "calls_ok emptyWorld"
  by (simp add: calls_ok_def emptyWorld_def)

theorem stored_calls_stay_well_formed_witness:
  "calls_ok (snd (serveAll [sampleInbound, HangupCommand ''CA1'' None] quietOutside emptyWorld))"
  by (rule stored_calls_stay_well_formed [OF rely_quietOutside calls_ok_empty])
    (simp add: stays_ok_def)

text \<open>C9. A call only moves forward. Across any handler but the start of a call, while other calls start
  and end as they like and nobody starts this one again (which would overwrite it with version 1): its
  version never decreases, the same version is the same state, what the call is about never changes,
  answered, voicemail and ending are never taken back, and once gone it stays gone.\<close>

theorem calls_move_forward:
  assumes "rely (forwardOf cid) c" and "\<not> starts_call e"
  shows "forwardOf cid w (snd (serve e c w))"
  using one_forward.obeysD [OF one_forward.serve_resp [OF assms(2)] assms(1)] .

text \<open>Another call starts under the handler's hands.\<close>

theorem calls_move_forward_witness:
  "forwardOf ''CA1'' (worldWith answeredCall)
     (snd (serve (HangupCommand ''CA1'' None) startingOutside (worldWith answeredCall)))"
proof (rule calls_move_forward)
  show "rely (forwardOf ''CA1'') startingOutside"
    by (simp add: rely_def startingOutside_def forwardOf_same)
qed simp

text \<open>C2. The handlers refine the machine of one call: whatever comes in but the start of a call, each
  stored state is carried along a run of \<open>call_step\<close>, or removed, and none appears; as long as
  whoever interferes does the same.\<close>

theorem handlers_follow_the_machine:
  assumes "rely follows c" and "\<not> starts_call e"
  shows "follows w (snd (serve e c w))"
  using machine.obeysD [OF machine.serve_resp [OF assms(2)] assms(1)] .

theorem handlers_follow_the_machine_witness:
  "follows (worldWith transferringCall)
     (snd (serve (CallRejected ''CA1'' ''u2'') quietOutside (worldWith transferringCall)))"
  by (rule handlers_follow_the_machine [OF rely_quietOutside]) (simp_all add: follows_same)

text \<open>C5. Nobody takes over an answered call but the teammate it is being transferred to, across any handler
  but the start of a call and while nobody starts this call again: if another agent holds it after the
  handler, then on the way there was a step from a state the first agent held with a transfer pending to
  one the transfer's target held. (Starting a stored call again overwrites it, agent and all.)\<close>

theorem takeover_needs_a_transfer:
  assumes "rely (followsOf cid) c" and "\<not> starts_call e"
    and "callStates w cid = Some s" and "callStates (snd (serve e c w)) cid = Some t"
    and "answered s" and "activeAgentUserId s = Some a" and "activeAgentUserId t \<noteq> Some a"
  shows "\<exists>m n u. evolves s m \<and> call_step m n \<and> evolves n t \<and> activeAgentUserId m = Some a \<and>
    pendingTransferToUserId m = Some u \<and> activeAgentUserId n = Some u"
proof -
  have "followsOf cid w (snd (serve e c w))"
    using one_machine.obeysD [OF one_machine.serve_resp [OF assms(2)] assms(1)] .
  then have "evolves s t" using assms(3,4) by (simp add: followsOf_def)
  then show ?thesis using evolves_takeover assms(5-7) by blast
qed

theorem takeover_needs_a_transfer_witness:
  "\<exists>m n u. evolves transferringCall m \<and> call_step m n \<and> evolves n handedOver
    \<and> pendingTransferToUserId m = Some u \<and> activeAgentUserId n = Some u"
proof -
  have "answered transferringCall" "activeAgentUserId transferringCall = Some ''u1''"
    by (simp_all add: sample_calls)
  moreover have "\<not> starts_call (UnlockRound ''h'')" by simp
  moreover have "activeAgentUserId handedOver \<noteq> Some ''u1''" by (simp add: sample_handover)
  ultimately show ?thesis
    using takeover_needs_a_transfer [OF rely_joiningOutsideOf _ sample_handover(1,2)] by blast
qed



text \<open>C4. Two calls cannot both take one free user. While everybody else keeps every user with at most one
  live claim (offers, releases, do not disturb and announcements do; an agent who answers or takes a
  transfer, and a renewal, claim without asking), an offer does so too, whether it comes back or fails, and
  whoever acts between its reads and its claims. Only users asked for are offered the call, each by a claim
  of this offer that left them claimed by this call alone and found them not on do not disturb.\<close>

theorem offered_users_are_claimed_alone:
  assumes "rely (exclusive user) c" and "sole user w" and "offerCall us call c w = (r, w')"
  shows "sole user w' \<and> (\<forall>offer. r = Inr offer \<and> user \<in> set (offered offer) \<longrightarrow> user \<in> set us \<and>
    (\<exists>stored sockets v ids added v'. counted w v \<and>
       claimIfAvailable stored sockets (icConversationUuid call) c v = (Inr (Claimed ids added), v') \<and>
       claimedBy (icConversationUuid call) user v' \<and> counted v' w'))"
proof (intro conjI allI impI)
  show "sole user w'" using offerCall_sole [OF assms(1,2), of us call] assms(3) by simp
  fix offer
  assume offer: "r = Inr offer \<and> user \<in> set (offered offer)"
  have "ok_user (users w user)" using assms(2) by (simp add: sole_def)
  then show "user \<in> set us" "\<exists>stored sockets v ids added v'. counted w v \<and>
       claimIfAvailable stored sockets (icConversationUuid call) c v = (Inr (Claimed ids added), v') \<and>
       claimedBy (icConversationUuid call) user v' \<and> counted v' w'"
    using offerCall_claims [OF rely_counted [OF assms(1)]] assms(3) offer by blast+
qed

text \<open>Free when looked at, and taken by CA7 before the claim: the offer leaves them to CA7. Nobody else about:
  the offer takes them.\<close>

theorem offered_users_are_claimed_alone_witness:
  "(\<exists>w'. offerCall [''u1''] (incomingCallOf ringingCall) rivalOutside onlineWorld
      = (Inr \<lparr>offered = [], refused = [(''u1'', IsBusy)]\<rparr>, w') \<and> sole ''u1'' w') \<and>
   (\<exists>w' v'. offerCall [''u1''] (incomingCallOf ringingCall) quietOutside onlineWorld
      = (Inr \<lparr>offered = [''u1''], refused = []\<rparr>, w') \<and> sole ''u1'' w' \<and> claimedBy ''CA1'' ''u1'' v' \<and> counted v' w')"
proof
  let ?call = "incomingCallOf ringingCall"
  obtain r w' where run: "offerCall [''u1''] ?call rivalOutside onlineWorld = (r, w')" by fastforce
  moreover from run have "r = Inr \<lparr>offered = [], refused = [(''u1'', IsBusy)]\<rparr>" using rival_offer by simp
  ultimately show "\<exists>w'. offerCall [''u1''] ?call rivalOutside onlineWorld
      = (Inr \<lparr>offered = [], refused = [(''u1'', IsBusy)]\<rparr>, w') \<and> sole ''u1'' w'"
    using offered_users_are_claimed_alone [OF rely_rivalOutside sole_onlineWorld run] by simp
next
  let ?call = "incomingCallOf ringingCall"
  obtain r w' where run: "offerCall [''u1''] ?call quietOutside onlineWorld = (r, w')" by fastforce
  moreover from run have "r = Inr \<lparr>offered = [''u1''], refused = []\<rparr>" using sample_offer by simp
  moreover have "icConversationUuid ?call = ''CA1''" by (simp add: incomingCallOf_def sample_calls)
  moreover have "rely (exclusive ''u1'') quietOutside" by (rule rely_quietOutside) (simp add: exclusive_same)
  ultimately show "\<exists>w' v'. offerCall [''u1''] ?call quietOutside onlineWorld
      = (Inr \<lparr>offered = [''u1''], refused = []\<rparr>, w') \<and> sole ''u1'' w' \<and> claimedBy ''CA1'' ''u1'' v' \<and> counted v' w'"
    using offered_users_are_claimed_alone [OF _ sole_onlineWorld run] by auto
qed






section \<open>Single handlers\<close>

text \<open>C11. Ending a call succeeds when nobody interferes and Redis answers, whatever Twilio says: the call
  is marked ending with no transfer pending before anything else happens to it, and then every leg it
  has is asked to hang up, and no other leg.\<close>

theorem ending_hangs_up_every_leg:
  assumes "calm c" and "callStates w cid = Some s" and "\<not> ending s"
  shows "\<exists>x w' t v. endCall cid who c w = (Inr x, w') \<and> ending t \<and> pendingTransferToUserId t = None
    \<and> trace v = trace w @ [StateWritten cid s t] \<and> callStates v = (callStates w)(cid \<mapsto> t)
    \<and> touches (set (legUuidsOf s)) v w' \<and> (\<forall>leg \<in> set (legUuidsOf s). HangUp leg \<in> set (trace w'))"
proof -
  obtain x w' where run: "endCall cid who c w = (Inr x, w')"
    using settlesD [OF settles_endCall assms(1)] by blast
  have "alone c" using assms(1) by (simp add: calm_def)
  from endCall_alone [OF this assms(2,3) run] show ?thesis using run by auto
qed

theorem ending_hangs_up_every_leg_witness:
  "\<exists>x w'. endCall ''CA1'' (Some ''u1'') quietOutside (worldWith answeredCall) = (Inr x, w')
    \<and> HangUp ''CA2'' \<in> set (trace w')"
proof -
  have "\<not> ending answeredCall" by (simp add: sample_calls)
  from ending_hangs_up_every_leg [OF calm_quietOutside sample_legs(2) this, of "Some ''u1''"]
  obtain x w' where "endCall ''CA1'' (Some ''u1'') quietOutside (worldWith answeredCall) = (Inr x, w')"
    "\<forall>leg \<in> set (legUuidsOf answeredCall). HangUp leg \<in> set (trace w')" by blast
  then show ?thesis by (simp add: sample_legs)
qed

text \<open>An agent who joins an answered call somebody else holds, with no transfer to them pending, is
  put back out: whatever Redis and Twilio answer, no call state changes and nothing is asked of
  Twilio but to hang up that leg.\<close>

theorem intruder_is_released:
  assumes "alone c" and "callStates w cid = Some s" and "answered s"
    and "pendingTransferToUserId s \<noteq> Some user"
    and "activeAgentUserId s = Some other" and "other \<noteq> user"
  shows "touches {leg} w (snd (onAgentJoined cid user leg c w))"
  using assms by (rule intruder_alone)

theorem intruder_is_released_witness:
  "touches {''CA9''} (worldWith answeredCall)
     (snd (onAgentJoined ''CA1'' ''u9'' ''CA9'' quietOutside (worldWith answeredCall)))"
  by (rule intruder_is_released [OF alone_quietOutside sample_legs(2), where other = "''u1''"])
    (simp_all add: sample_calls)

text \<open>C34. Declining an offer ends nothing but the decliner's own ring: with no transfer to them pending,
  no call state changes and nothing is asked of Twilio but to hang up the legs that ring them, and
  not even those once the call was answered.\<close>

theorem declining_ends_only_the_own_ring:
  assumes "alone c" and "callStates w cid = Some s" and "pendingTransferToUserId s \<noteq> Some user"
  shows "touches (if answered s then {} else ringingLegs s user) w
    (snd (declineOfferedCall cid user c w))"
  using assms by (rule decline_alone)

theorem declining_ends_only_the_own_ring_witness:
  "touches {''CA2''} (worldWith ringingCall)
     (snd (declineOfferedCall ''CA1'' ''u1'' quietOutside (worldWith ringingCall)))"
proof -
  have free: "pendingTransferToUserId ringingCall \<noteq> Some ''u1''" by (simp add: sample_calls)
  have legs: "(if answered ringingCall then {} else ringingLegs ringingCall ''u1'') = {''CA2''}"
    by (auto simp: ringingLegs_def sample_calls)
  show ?thesis
    using declining_ends_only_the_own_ring [OF alone_quietOutside sample_legs(3) free]
    unfolding legs .
qed

text \<open>C35. A user can hang up through the HTTP route only a leg of their own, or a call they are the
  active agent of: anybody else is refused, and nothing is told, asked or changed.\<close>

theorem outsider_cannot_hang_up:
  assumes "alone c" and "legMetas w leg = Some m"
    and "\<not> (participantType (legParticipant m) = Agent \<and> participantId (legParticipant m) = user)"
    and "\<forall>s. callStates w (legConversationUuid m) = Some s \<longrightarrow> activeAgentUserId s \<noteq> Some user"
    and "hangupRoute user leg c w = (r, w')"
  shows "unseen w w' \<and> (r = Inl RedisError \<or> r = Inr (HangupRefused 403))"
  using assms by (rule outsider_hangup)

theorem outsider_cannot_hang_up_witness:
  "unseen ((worldWith answeredCall)\<lparr>legMetas := [''CA2'' \<mapsto> \<lparr>legParticipant =
       \<lparr>participantType = Agent, participantId = ''u1''\<rparr>, legConversationUuid = ''CA1''\<rparr>]\<rparr>)
     (snd (hangupRoute ''u9'' ''CA2'' quietOutside ((worldWith answeredCall)\<lparr>legMetas :=
       [''CA2'' \<mapsto> \<lparr>legParticipant = \<lparr>participantType = Agent, participantId = ''u1''\<rparr>,
         legConversationUuid = ''CA1''\<rparr>]\<rparr>)))"
  by (rule outsider_cannot_hang_up [THEN conjunct1, OF alone_quietOutside _ _ _ prod.collapse [symmetric]])
    (auto simp: sample_calls split: if_splits)

text \<open>A leg whose end was handled is finished with: a repeated status callback for it tells nobody
  anything, asks nothing of Twilio, and changes no call, no claim and no pending work.\<close>

theorem repeated_end_goes_unseen:
  assumes "alone c" and "callStates w (csnConversationUuid notice) = Some s"
    and "csnLegUuid notice \<notin> set (legUuidsOf s)"
    and "normalizeCallStatus (csnStatus notice) = Some (Ended how)"
  shows "unseen w (snd (handleCallStatus notice c w))"
  using assms by (rule repeated_end_unseen)

theorem repeated_end_goes_unseen_witness:
  "unseen (worldWith answeredCall) (snd (handleCallStatus \<lparr>csnConversationUuid = ''CA1'',
     csnLegUuid = ''CA8'', csnParticipantLabel = None, csnStatus = ''busy'', csnDuration = None\<rparr>
     quietOutside (worldWith answeredCall)))"
  by (rule repeated_end_goes_unseen [OF alone_quietOutside, where s = answeredCall and how = Busy])
    (simp_all add: sample_legs normalizeCallStatus_def)

text \<open>C12. No grant, no outbound call: unless the request carries a token that names a stored grant, not
  yet sixty seconds old, of the very user whose softphone calls, nothing is dialed, published,
  claimed or stored.\<close>

theorem outbound_call_needs_a_grant:
  assumes "alone c" and "\<And>n g. \<not> usableGrant req w (clockMs c n) g"
  shows "unseen w (snd (startOutboundCall req c w))"
  using outbound_needs_grant [OF assms(1)] assms(2) by blast

theorem outbound_call_needs_a_grant_witness:
  "unseen emptyWorld (snd (startOutboundCall \<lparr>ocrCallSid = ''CA7'', ocrFrom = Some ''client:u1'',
     ocrGrant = Some ''forged''\<rparr> quietOutside emptyWorld))"
  by (rule outbound_call_needs_a_grant) (simp_all add: usableGrant_def emptyWorld_def)

text \<open>C13. A grant serves one call, whatever else goes on. Taking a token is one step: the answer is the grant
  stored at the very step that removes it, and nothing when somebody took it first; so of any number of
  takes of a token only the first to land is given the grant. Others may take the token at any time, but
  nobody stores one under it again (tokens are random UUIDs).\<close>

theorem grant_serves_one_call:
  assumes "rely (onlyTaken token) c" and "rely (onlyTaken token) c'"
    and "issueOutboundGrant g c0 w0 = (Inr token, w)" and "onlyTaken token w v"
    and "takeOutboundGrant token c v = (Inr x, v1)" and "onlyTaken token v1 v2"
    and "takeOutboundGrant token c' v2 = (Inr y, v3)"
    and "grantUserId g \<noteq> []" and "toE164PhoneNumber t = Some (grantTo g)"
    and "toE164PhoneNumber l = Some (grantFromNumber g)"
  shows "v1 = (advance c v)\<lparr>grants := (grants (advance c v))(token := None)\<rparr> \<and>
    x = (if grants (advance c v) token = None then None else Some g) \<and> y = None"
proof -
  have parsed: "parseStoredGrant (storeGrant g) = Some g"
    using parseStoredGrant_storeGrant assms(8-10) by (simp add: toE164PhoneNumber_def)
  have "grants w token = Some (storeGrant g)" using issued_grant [OF assms(3)] .
  then have "grants (advance c v) token \<in> {None, Some (storeGrant g)}"
    using onlyTaken_advance [OF assms(1), of v] assms(4) by (auto simp: onlyTaken_def)
  moreover have "grants (advance c' v2) token = None"
    using onlyTaken_advance [OF assms(2), of v2] assms(6) taken_grant(1) [OF assms(5)] by (auto simp: onlyTaken_def)
  ultimately show ?thesis
    using taken_grant [OF assms(5)] taken_grant(2) [OF assms(7)] parsed by auto
qed

definition sampleGrant :: outbound_call_grant where
  "sampleGrant = \<lparr>grantUserId = ''u1'', grantTo = ''+15551230009'', grantFromNumber = ''+15551230002'',
     grantDepartmentId = None, grantDepartmentName = None, grantCreatedAt = 1000\<rparr>"

text \<open>Two takes of one token: the first, with a rival who takes it just before, gets nothing.\<close>

theorem grant_serves_one_call_witness:
  "\<exists>w v1 v2. issueOutboundGrant sampleGrant quietOutside emptyWorld = (Inr ''t1'', w)
    \<and> takeOutboundGrant ''t1'' quietOutside w = (Inr (Some sampleGrant), v1)
    \<and> takeOutboundGrant ''t1'' quietOutside v1 = (Inr None, v2)
    \<and> (\<exists>u1. takeOutboundGrant ''t1'' takingOutside w = (Inr None, u1))"
proof -
  obtain w where issue: "issueOutboundGrant sampleGrant quietOutside emptyWorld = (Inr ''t1'', w)"
    by (simp add: issueOutboundGrant_def quiet_redis Let_def) (simp add: quietOutside_def)
  have "settles (takeOutboundGrant token)" for token
    unfolding takeOutboundGrant_def by (intro calm_intro)
  then obtain x v1 y v2 where
    one: "takeOutboundGrant ''t1'' quietOutside w = (Inr x, v1)" and
    two: "takeOutboundGrant ''t1'' quietOutside v1 = (Inr y, v2)"
    using settlesD [OF _ calm_quietOutside] by metis
  obtain z u1 where late: "takeOutboundGrant ''t1'' takingOutside w = (Inr z, u1)"
    by (simp add: takeOutboundGrant_def andThen_def redisOp_def ret_def Let_def)
      (simp add: takingOutside_def quietOutside_def)
  obtain z' u2 where after: "takeOutboundGrant ''t1'' quietOutside u1 = (Inr z', u2)"
    using \<open>\<And>token. settles (takeOutboundGrant token)\<close> settlesD [OF _ calm_quietOutside] by metis
  have numbers: "toE164PhoneNumber ''+15551230009'' = Some (grantTo sampleGrant)"
    "toE164PhoneNumber ''+15551230002'' = Some (grantFromNumber sampleGrant)"
    by (code_simp, code_simp)
  have user: "grantUserId sampleGrant \<noteq> []" by (simp add: sampleGrant_def)
  have relies: "rely (onlyTaken ''t1'') quietOutside" "rely (onlyTaken ''t1'') takingOutside"
    "onlyTaken ''t1'' v v" for v
    by (auto simp: rely_def quietOutside_def takingOutside_def onlyTaken_def)
  have "grants (advance quietOutside w) ''t1'' = Some (storeGrant sampleGrant)"
    using issued_grant [OF issue] by (simp add: advance_def) (simp add: quietOutside_def)
  moreover have "grants (advance takingOutside w) ''t1'' = None"
    by (simp add: advance_def takingOutside_def)
  ultimately show ?thesis
    using grant_serves_one_call [OF relies(1,1) issue relies(3) one relies(3) two user numbers]
      grant_serves_one_call [OF relies(2,1) issue relies(3) late relies(3) after user numbers]
      issue one two late by simp
qed

text \<open>C39. Hanging up a leg is safe to call on any leg: it never fails, and asks Twilio once, twice or
  three times and for nothing else, whatever Twilio answers.\<close>

theorem hanging_up_asks_at_most_three_times:
  assumes "alone c" and "voiceConfigured c"
  shows "\<exists>k t. 0 < k \<and> k \<le> 3 \<and> safeHangup leg c w
    = (Inr (), w\<lparr>trace := trace w @ replicate k (HangUp leg), tick := t\<rparr>)"
  using assms by (rule safeHangup_alone)

theorem hanging_up_asks_at_most_three_times_witness:
  "\<exists>k t. 0 < k \<and> k \<le> 3 \<and> safeHangup ''CA2'' quietOutside emptyWorld
    = (Inr (), emptyWorld\<lparr>trace := replicate k (HangUp ''CA2''), tick := t\<rparr>)"
proof -
  have voice: "voiceConfigured quietOutside" and empty: "trace emptyWorld = []"
    by (simp_all add: quietOutside_def emptyWorld_def)
  show ?thesis
    using hanging_up_asks_at_most_three_times [OF alone_quietOutside voice, of "''CA2''" emptyWorld]
    by (simp add: empty)
qed

text \<open>A caller hears the department's recording only where it can be played: the document names the
  recording only if a probe found audio at its address and the document fits Twilio's limit for every
  reason a caller may be sent to voicemail, and otherwise speaks the reason's own sentence.\<close>

theorem recording_is_played_only_where_it_can_be:
  assumes "buildVoicemailTwiml cid url reason c w = (Inr doc, w')"
  shows "doc = VoicemailTwiml cid reason (Spoken (voicemailGreeting reason)) \<or>
    (\<exists>u n. url = Some u \<and> doc = VoicemailTwiml cid reason (Recording u) \<and>
       probeGreetingUrl (headAnswer c n) = Reachable \<and>
       (\<forall>why. renderedLength c (VoicemailTwiml cid why (Recording u)) \<le> 4000))"
  using assms by (rule voicemail_document)

theorem recording_is_played_only_where_it_can_be_witness:
  "\<exists>w'. buildVoicemailTwiml ''CA1'' (Some ''https://x/g.mp3'') NoAgents quietOutside emptyWorld
      = (Inr (VoicemailTwiml ''CA1'' NoAgents (Recording ''https://x/g.mp3'')), w')
    \<and> (\<exists>n. probeGreetingUrl (headAnswer quietOutside n) = Reachable)"
proof -
  have "\<exists>w'. buildVoicemailTwiml ''CA1'' (Some ''https://x/g.mp3'') NoAgents quietOutside emptyWorld
      = (Inr (VoicemailTwiml ''CA1'' NoAgents (Recording ''https://x/g.mp3'')), w')"
    by (simp add: buildVoicemailTwiml_def andThen_def requireVoice_def asks_def consult_def ret_def
        quietOutside_def fitsInlineForEveryReason_def VOICEMAIL_REASONS_def INLINE_TWIML_MAX_LENGTH_def
        renderVoicemailTwiml_def chooseVoicemailGreeting_def)
      code_simp
  then obtain w' where run: "buildVoicemailTwiml ''CA1'' (Some ''https://x/g.mp3'') NoAgents quietOutside
      emptyWorld = (Inr (VoicemailTwiml ''CA1'' NoAgents (Recording ''https://x/g.mp3'')), w')"
    by blast
  from recording_is_played_only_where_it_can_be [OF run] run show ?thesis by auto
qed

section \<open>Single decisions\<close>

text \<open>C37. At any moment one user, through one leg, can hold, transfer or take back a transfer: two
  requests that any of the three rules lets through are by the same user on the same leg, and that
  user is an occupant of the call.\<close>

theorem one_agent_controls_a_call:
  assumes "refuseHold s leg r = None \<or> refuseTransfer s leg r target = None
      \<or> refuseTransferCancel s leg r = None"
    and "refuseHold s leg' r' = None \<or> refuseTransfer s leg' r' target' = None
      \<or> refuseTransferCancel s leg' r' = None"
    and "requestUserId r \<noteq> []" and "requestLegUuid r \<noteq> []"
  shows "requestUserId r' = requestUserId r \<and> requestLegUuid r' = requestLegUuid r
    \<and> requestUserId r \<in> set (occupantsOf s)"
proof -
  have c: "controls s leg r" "controls s leg' r'"
    using assms(1,2) by (auto simp: refuseHold_None refuseTransfer_None refuseTransferCancel_None)
  show ?thesis
    using controls_unique [OF c] controls_occupant [OF c(1) assms(3,4)] by simp
qed

theorem one_agent_controls_a_call_witness:
  "''u1'' \<in> set (occupantsOf answeredCall)"
proof -
  let ?r = "\<lparr>requestUserId = ''u1'', requestLegUuid = ''CA2''\<rparr>"
  let ?leg = "\<lparr>legParticipant = \<lparr>participantType = Agent, participantId = ''u1''\<rparr>,
    legConversationUuid = ''CA1''\<rparr>"
  have "refuseHold answeredCall ?leg ?r = None"
    by (simp add: refuseHold_None controls_def remoteLegOf_def sample_calls)
  then show ?thesis
    using one_agent_controls_a_call [of answeredCall ?leg ?r _ ?leg ?r] by simp
qed

text \<open>A hangup ends the call exactly when the call is ending already, or no transfer is pending and
  it is unanswered or the hangup comes from the agent on it; while a transfer rings, the teammate it
  rings declines and anybody else only leaves.\<close>

theorem hangup_ends_the_call_only_outside_transfers:
  "(planHangup s r = PlanEndCall \<longleftrightarrow> ending s \<or>
      (\<not> truthy (pendingTransferToUserId s) \<and>
        (\<not> answered s \<or> agentLegUuid s = Some (requestLegUuid r)
          \<or> activeAgentUserId s = Some (requestUserId r))))
   \<and> (planHangup s r = PlanDeclineTransfer \<longleftrightarrow> \<not> ending s \<and> truthy (pendingTransferToUserId s)
      \<and> pendingTransferToUserId s = Some (requestUserId r)
      \<and> agentLegUuid s \<noteq> Some (requestLegUuid r))"
  by (auto simp: planHangup_def Let_def)

theorem hangup_ends_the_call_only_outside_transfers_witness:
  "planHangup transferringCall \<lparr>requestUserId = ''u1'', requestLegUuid = ''CA2''\<rparr> \<noteq> PlanEndCall
   \<and> planHangup answeredCall \<lparr>requestUserId = ''u1'', requestLegUuid = ''CA2''\<rparr> = PlanEndCall"
  by (simp add: hangup_ends_the_call_only_outside_transfers) (simp add: sample_calls)

text \<open>The end of a leg counts once: after a decision that dealt with it and kept the call, whoever
  reports the same leg's end again, with whatever status, finds nothing to do.\<close>

theorem end_of_a_leg_counts_once:
  assumes "chResult (decideLegEnded p l st s) \<noteq> Ignored" and "\<not> chRemove (decideLegEnded p l st s)"
  defines "t \<equiv> chDraft (decideLegEnded p l st s)"
  shows "decideLegEnded p' l st' t = keep Ignored t
    \<and> set (legUuidsOf t) = set (legUuidsOf s) - {l}"
  using leg_gone_after_end [OF assms(1,2)] untracked_leg_ignored [of l t]
  by (simp add: t_def)

theorem end_of_a_leg_counts_once_witness:
  "chResult (decideLegEnded \<lparr>participantType = Agent, participantId = ''u1''\<rparr> ''CA2'' Completed
     (removeLeg ''CA2'' ringingCall)) = Ignored"
proof -
  let ?p = "\<lparr>participantType = Agent, participantId = ''u1''\<rparr>"
  have first: "decideLegEnded ?p ''CA2'' Busy ringingCall = keep Forgotten (removeLeg ''CA2'' ringingCall)"
    by (simp add: decideLegEnded_def legUuidsOf_def removeLeg_def sample_calls Let_def)
  show ?thesis
    using end_of_a_leg_counts_once [of ?p "''CA2''" Busy ringingCall ?p Completed] by (simp add: first)
qed

text \<open>A transfer is settled once: whoever settles it first, the teammate who answers or anybody who
  fails it, leaves a call on which every later attempt to fail a transfer decides nothing.\<close>

theorem transfer_is_settled_once:
  assumes "chResult (decideFailPendingTransfer target s) \<noteq> None
      \<and> t = chDraft (decideFailPendingTransfer target s)
    \<or> joinTransfer (chResult (decideAgentJoined u l s)) \<noteq> None
      \<and> chResult (decideAgentJoined u l s) \<noteq> Intruder \<and> t = chDraft (decideAgentJoined u l s)"
  shows "decideFailPendingTransfer anybody t = keep None t"
proof -
  have "pendingTransferToUserId t = None"
    using assms
  proof (elim disjE conjE)
    assume "joinTransfer (chResult (decideAgentJoined u l s)) \<noteq> None"
      and "chResult (decideAgentJoined u l s) \<noteq> Intruder" and t: "t = chDraft (decideAgentJoined u l s)"
    then obtain first losing h where "chResult (decideAgentJoined u l s) = Joined first losing (Some h)"
      by (cases "chResult (decideAgentJoined u l s)") auto
    then show ?thesis using pending_after_handover [of u l s] by (simp add: t)
  qed (simp add: pending_after_settlement)
  then show ?thesis by (rule no_transfer_pending)
qed

theorem transfer_is_settled_once_witness:
  "decideFailPendingTransfer ''u2'' (chDraft (decideFailPendingTransfer ''u2'' transferringCall))
     = keep None (chDraft (decideFailPendingTransfer ''u2'' transferringCall))"
  by (rule transfer_is_settled_once [where target = "''u2''" and s = transferringCall])
    (simp add: decideFailPendingTransfer_def sample_calls)

text \<open>Announcements may be stored out of order: of two decided at different revisions, the user's
  record ends up saying what the later one decided, whichever is stored first.\<close>

theorem announcements_commute:
  assumes "r1 \<noteq> r2"
  shows "sameEligibility
     (recordEligibilityScript r2 e2 t2 (recordEligibilityScript r1 e1 t1 u))
     (recordEligibilityScript r1 e1 t3 (recordEligibilityScript r2 e2 t4 u))"
  using assms by (rule eligibility_any_order)

theorem announcements_commute_witness:
  "sameEligibility (recordEligibilityScript 2 True 20 (recordEligibilityScript 1 False 10 emptyUser))
     (recordEligibilityScript 1 False 30 (recordEligibilityScript 2 True 20 emptyUser))"
  by (rule announcements_commute) simp

end
